(* ===== verification/JsBase.thy ===== *)
theory JsBase
  imports Complex_Main "HOL-Library.Multiset" "HOL-Library.Sublist"
begin

section \<open>Prelude: the parts of the language and its library that the code uses\<close>

text \<open>
  Strings, ordered maps and sets, stable sorting and the shape of fallible results, shared by all
  component theories.

  A string is a \<^typ>\<open>string\<close>. One \<^typ>\<open>char\<close> stands for one UTF-16 code unit whose character lies
  in the Windows-1252 repertoire (ASCII, Latin-1 and the typographic characters, among them the
  ellipsis \<open>CHR 0x85\<close> and the em dash \<open>CHR 0x97\<close>, which the code itself inserts); within that
  repertoire lengths, white space and lower-casing are exactly those of the language.

  A number that the code rounds nowhere is an exact \<^typ>\<open>int\<close> or \<^typ>\<open>rat\<close>; the rounding of
  double precision arithmetic is not modelled.

  A thrown error is the left summand of \<open>'e + 'a\<close>.
\<close>

named_theorems js_map \<open>look-ups and key sets of ordered maps after an operation\<close>
named_theorems js_len \<open>length bounds of the string and list operations\<close>

subsection \<open>Strings\<close>

text \<open>White space of \<open>trim\<close> and of the class \<open>\\s\<close>.\<close>

definition is_ws :: "char \<Rightarrow> bool" where
  "is_ws c \<longleftrightarrow> c \<in> set [CHR 0x20, CHR 0x09, CHR 0x0A, CHR 0x0B, CHR 0x0C, CHR 0x0D, CHR 0xA0]"

text \<open>\<open>toLowerCase\<close> on one character of the repertoire.\<close>

definition lower_char :: "char \<Rightarrow> char" where
  "lower_char c = (let n = (of_char c :: nat) in
     if 65 \<le> n \<and> n \<le> 90 \<or> 192 \<le> n \<and> n \<le> 222 \<and> n \<noteq> 215 then char_of (n + 32)
     else if n = 138 \<or> n = 140 \<or> n = 142 then char_of (n + 16)
     else if n = 159 then char_of (255 :: nat)
     else c)"

definition to_lower :: "string \<Rightarrow> string" where
  "to_lower s = map lower_char s"

definition trim_start :: "string \<Rightarrow> string" where
  "trim_start s = dropWhile is_ws s"

definition trim_end :: "string \<Rightarrow> string" where
  "trim_end s = rev (dropWhile is_ws (rev s))"

definition trim :: "string \<Rightarrow> string" where
  "trim s = trim_end (trim_start s)"

definition starts_with :: "string \<Rightarrow> string \<Rightarrow> bool" where
  "starts_with s p \<longleftrightarrow> take (length p) s = p"

definition ends_with :: "string \<Rightarrow> string \<Rightarrow> bool" where
  "ends_with s p \<longleftrightarrow> starts_with (rev s) (rev p)"

fun str_includes :: "string \<Rightarrow> string \<Rightarrow> bool" where
  "str_includes [] p \<longleftrightarrow> p = []"
| "str_includes (c # s) p \<longleftrightarrow> starts_with (c # s) p \<or> str_includes s p"

text \<open>\<open>split\<close> at every character that satisfies the predicate; never the empty list.\<close>

fun split_at :: "(char \<Rightarrow> bool) \<Rightarrow> string \<Rightarrow> string list" where
  "split_at p [] = [[]]"
| "split_at p (c # s) =
     (if p c then [] # split_at p s
      else (case split_at p s of [] \<Rightarrow> [[c]] | w # ws \<Rightarrow> (c # w) # ws))"

text \<open>\<open>indexOf\<close> of one character, \<open>None\<close> for the result \<open>-1\<close>.\<close>

fun index_of :: "char \<Rightarrow> string \<Rightarrow> nat option" where
  "index_of d [] = None"
| "index_of d (c # s) = (if c = d then Some 0 else map_option Suc (index_of d s))"

text \<open>\<open>join\<close>.\<close>

fun join :: "string \<Rightarrow> string list \<Rightarrow> string" where
  "join sep [] = []"
| "join sep [s] = s"
| "join sep (s # t # ts) = s @ sep @ join sep (t # ts)"

text \<open>\<open>replace(/\\s+/g, " ")\<close>: every maximal run of white space becomes one blank.\<close>

fun collapse_ws :: "string \<Rightarrow> string" where
  "collapse_ws [] = []"
| "collapse_ws (c # s) =
     (if is_ws c then
        (case s of
           [] \<Rightarrow> '' ''
         | d # _ \<Rightarrow> if is_ws d then collapse_ws s else CHR '' '' # collapse_ws s)
      else c # collapse_ws s)"

text \<open>Decimal notation of an integer, as a template literal prints it.\<close>

fun nat_str :: "nat \<Rightarrow> string" where
  "nat_str n = (if n < 10 then [char_of (48 + n)] else nat_str (n div 10) @ [char_of (48 + n mod 10)])"

declare nat_str.simps [simp del]

definition int_str :: "int \<Rightarrow> string" where
  "int_str i = (if i < 0 then CHR ''-'' # nat_str (nat (- i)) else nat_str (nat i))"

text \<open>A missing string is falsy, and so is the empty one.\<close>

definition truthy :: "string option \<Rightarrow> bool" where
  "truthy s \<longleftrightarrow> s \<noteq> None \<and> s \<noteq> Some []"

lemma length_trim_start [js_len]: "length (trim_start s) \<le> length s"
  by (simp add: trim_start_def length_dropWhile_le)

lemma length_trim_end [js_len]: "length (trim_end s) \<le> length s"
  using length_dropWhile_le [of is_ws "rev s"] by (simp add: trim_end_def)

lemma length_trim [js_len]: "length (trim s) \<le> length s"
  using length_trim_end [of "trim_start s"] length_trim_start [of s] by (simp add: trim_def)

lemma length_to_lower [simp]: "length (to_lower s) = length s"
  by (simp add: to_lower_def)

lemma trim_start_trim_start [simp]: "trim_start (trim_start s) = trim_start s"
  by (simp add: trim_start_def dropWhile_idem)

lemma trim_end_trim_end [simp]: "trim_end (trim_end s) = trim_end s"
  by (simp add: trim_end_def dropWhile_idem)

lemma trim_trim [simp]: "trim (trim s) = trim s"
proof -
  let ?t = "trim_start s"
  obtain u where u: "?t = trim_end ?t @ u"
    unfolding trim_end_def by (metis rev_append rev_rev_ident takeWhile_dropWhile_id)
  have "trim_start (trim_end ?t) = trim_end ?t"
  proof (cases "trim_end ?t")
    case (Cons c r)
    with u have "?t = c # r @ u" by simp
    then have "\<not> is_ws c" unfolding trim_start_def by (metis dropWhile_eq_Cons_conv)
    with Cons show ?thesis by (simp add: trim_start_def)
  qed (simp add: trim_start_def)
  then show ?thesis by (simp add: trim_def)
qed

lemma lower_char_idem: "lower_char (lower_char c) = lower_char c"
proof -
  have "(of_char c :: nat) < 256" by simp
  then show ?thesis
    by (auto simp: lower_char_def Let_def of_char_of)
qed

lemma to_lower_idem [simp]: "to_lower (to_lower s) = to_lower s"
  by (simp add: to_lower_def lower_char_idem)

subsection \<open>Sets and first-occurrence deduplication\<close>

text \<open>
  \<open>Set\<close> keeps insertion order: adding an element that is present changes nothing.
  \<open>[...new Set(xs)]\<close> is \<open>js_set xs\<close>; the loop with a \<open>seen\<close> set of keys is \<open>dedup_by\<close>.
\<close>

definition set_add :: "'a list \<Rightarrow> 'a \<Rightarrow> 'a list" where
  "set_add s x = (if x \<in> set s then s else s @ [x])"

definition js_set :: "'a list \<Rightarrow> 'a list" where
  "js_set xs = foldl set_add [] xs"

fun dedup_by :: "('a \<Rightarrow> 'k) \<Rightarrow> 'k set \<Rightarrow> 'a list \<Rightarrow> 'a list" where
  "dedup_by key seen [] = []"
| "dedup_by key seen (x # xs) =
     (if key x \<in> seen then dedup_by key seen xs
      else x # dedup_by key (insert (key x) seen) xs)"

lemma foldl_set_add: "foldl set_add s xs = s @ dedup_by id (set s) xs"
  by (induction xs arbitrary: s) (auto simp: set_add_def)

lemma js_set_dedup: "js_set xs = dedup_by id {} xs"
  by (simp add: js_set_def foldl_set_add)

lemma set_foldl_set_add [simp]: "set (foldl set_add s xs) = set s \<union> set xs"
  by (induction xs arbitrary: s) (auto simp: set_add_def)

lemma distinct_foldl_set_add: "distinct s \<Longrightarrow> distinct (foldl set_add s xs)"
  by (induction xs arbitrary: s) (auto simp: set_add_def)

lemma set_js_set [simp]: "set (js_set xs) = set xs"
  by (simp add: js_set_def)

lemma distinct_js_set [simp]: "distinct (js_set xs)"
  by (simp add: js_set_def distinct_foldl_set_add)

lemma subseq_dedup_by: "subseq (dedup_by key seen xs) xs"
  by (induction xs arbitrary: seen) auto

lemma set_dedup_by_subset: "set (dedup_by key seen xs) \<subseteq> set xs"
  by (induction xs arbitrary: seen) auto

lemma dedup_by_keys: "key ` set (dedup_by key seen xs) = key ` set xs - seen"
  by (induction xs arbitrary: seen) auto

lemma distinct_dedup_by: "distinct (map key (dedup_by key seen xs))"
proof (induction xs arbitrary: seen)
  case (Cons x xs)
  have "key x \<notin> key ` set (dedup_by key (insert (key x) seen) xs)"
    by (simp add: dedup_by_keys)
  with Cons.IH show ?case by simp
qed simp

lemma dedup_by_id: "distinct (map key xs) \<Longrightarrow> key ` set xs \<inter> seen = {} \<Longrightarrow> dedup_by key seen xs = xs"
  by (induction xs arbitrary: seen) auto

lemma js_set_id [simp]: "distinct xs \<Longrightarrow> js_set xs = xs"
  by (simp add: js_set_dedup dedup_by_id)

subsection \<open>Insertion-ordered maps\<close>

text \<open>
  \<open>Map\<close>: \<open>set\<close> on a present key keeps its place, a new key goes to the end. Look-up is
  \<^const>\<open>map_of\<close>, the iteration order is the order of the list.
\<close>

type_synonym ('k, 'v) omap = "('k \<times> 'v) list"

fun om_set :: "('k, 'v) omap \<Rightarrow> 'k \<Rightarrow> 'v \<Rightarrow> ('k, 'v) omap" where
  "om_set [] k v = [(k, v)]"
| "om_set ((k', v') # m) k v = (if k' = k then (k, v) # m else (k', v') # om_set m k v)"

definition om_del :: "('k, 'v) omap \<Rightarrow> 'k \<Rightarrow> ('k, 'v) omap" where
  "om_del m k = filter (\<lambda>e. fst e \<noteq> k) m"

definition om_get :: "'v \<Rightarrow> ('k, 'v) omap \<Rightarrow> 'k \<Rightarrow> 'v" where
  "om_get d m k = (case map_of m k of Some v \<Rightarrow> v | None \<Rightarrow> d)"

abbreviation om_has :: "('k, 'v) omap \<Rightarrow> 'k \<Rightarrow> bool" where
  "om_has m k \<equiv> map_of m k \<noteq> None"

abbreviation om_keys :: "('k, 'v) omap \<Rightarrow> 'k list" where
  "om_keys m \<equiv> map fst m"

text \<open>The map a map object denotes is well formed when no key occurs twice.\<close>

abbreviation om_ok :: "('k, 'v) omap \<Rightarrow> bool" where
  "om_ok m \<equiv> distinct (om_keys m)"

lemma map_of_om_set [js_map]: "map_of (om_set m k v) = (map_of m)(k \<mapsto> v)"
  by (induction m) auto

lemma om_get_om_set [js_map]: "om_get d (om_set m k v) k' = (if k' = k then v else om_get d m k')"
  by (simp add: om_get_def map_of_om_set)

lemma keys_om_set [js_map]: "om_keys (om_set m k v) = (if om_has m k then om_keys m else om_keys m @ [k])"
  by (induction m) auto

lemma om_ok_om_set [simp, intro]: "om_ok m \<Longrightarrow> om_ok (om_set m k v)"
  by (auto simp: keys_om_set map_of_eq_None_iff)

lemma map_of_om_del [js_map]: "map_of (om_del m k) = (map_of m)(k := None)"
  by (induction m) (auto simp: om_del_def)

lemma om_ok_om_del [simp, intro]: "om_ok m \<Longrightarrow> om_ok (om_del m k)"
  by (simp add: om_del_def distinct_map_filter)

lemma length_om_set: "length (om_set m k v) = (if om_has m k then length m else Suc (length m))"
  by (induction m) auto

lemma om_set_fresh: "map_of m k = None \<Longrightarrow> om_set m k v = m @ [(k, v)]"
  by (induction m) (auto split: if_splits)

lemma om_del_fresh: "map_of m k = None \<Longrightarrow> om_del m k = m"
  by (induction m) (auto simp: om_del_def split: if_splits)

lemma length_om_del_present:
  "om_ok m \<Longrightarrow> om_has m k \<Longrightarrow> Suc (length (om_del m k)) = length m"
proof (induction m)
  case (Cons e m)
  obtain k' v' where e: "e = (k', v')" by fastforce
  show ?case
  proof (cases "k' = k")
    case True
    with Cons.prems e have "map_of m k = None" by (simp add: map_of_eq_None_iff)
    then show ?thesis using True e om_del_fresh [of m k] by (simp add: om_del_def)
  next
    case False
    then show ?thesis using Cons e by (simp add: om_del_def)
  qed
qed simp

lemma foldl_om_set_fresh:
  "distinct (map f xs) \<Longrightarrow> \<forall>x \<in> set xs. map_of m (f x) = None \<Longrightarrow>
   foldl (\<lambda>m x. om_set m (f x) (g x)) m xs = m @ map (\<lambda>x. (f x, g x)) xs"
proof (induction xs arbitrary: m)
  case (Cons x xs)
  have "map_of (m @ [(f x, g x)]) (f y) = None" if "y \<in> set xs" for y
    using Cons.prems that by (auto simp: map_add_def) (metis imageI)
  with Cons show ?case by (simp add: om_set_fresh)
qed simp

subsection \<open>Properties inherited from the prototype of objects\<close>

text \<open>
  A look-up \<open>table[name]\<close> and a test \<open>name in table\<close> on an object literal also find the members of
  \<open>Object.prototype\<close>.
\<close>

datatype js_fault = TypeError

definition object_prototype_keys :: "string list" where
  "object_prototype_keys =
     [''constructor'', ''__defineGetter__'', ''__defineSetter__'', ''hasOwnProperty'',
      ''__lookupGetter__'', ''__lookupSetter__'', ''isPrototypeOf'', ''propertyIsEnumerable'',
      ''toString'', ''valueOf'', ''__proto__'', ''toLocaleString'']"

text \<open>A look-up in an object literal: an own value, an inherited member, or nothing.\<close>

datatype 'a looked_up = Own 'a | InheritedMember string

definition obj_get :: "(string \<times> 'a) list \<Rightarrow> string \<Rightarrow> 'a looked_up option" where
  "obj_get m k = (case map_of m k of
       Some v \<Rightarrow> Some (Own v)
     | None \<Rightarrow> if k \<in> set object_prototype_keys then Some (InheritedMember k) else None)"

subsection \<open>JSON values\<close>

text \<open>An object is the list of its members, in order, with distinct keys; numbers are exact.\<close>

datatype json =
    JNull
  | JBool bool
  | JNum rat
  | JStr string
  | JArr "json list"
  | JObj "(string \<times> json) list"

type_synonym json_object = "(string, json) omap"

text \<open>An early return with an error.\<close>

definition ebind :: "'e + 'a \<Rightarrow> ('a \<Rightarrow> 'e + 'b) \<Rightarrow> 'e + 'b" where
  "ebind x k = (case x of Inl e \<Rightarrow> Inl e | Inr a \<Rightarrow> k a)"

lemma ebind_Inr [simp]: "ebind x k = Inr b \<longleftrightarrow> (\<exists>a. x = Inr a \<and> k a = Inr b)"
  by (cases x) (simp_all add: ebind_def)

lemma case_option_False_iff: "(case x of None \<Rightarrow> False | Some s \<Rightarrow> P s) \<longleftrightarrow> (\<exists>s. x = Some s \<and> P s)"
  by (cases x) auto

subsection \<open>Effects\<close>

text \<open>
  An asynchronous function that reads and writes a state and may throw is a state transformer; the
  state is kept when an error is thrown.
\<close>

type_synonym ('s, 'e, 'a) eff = "'s \<Rightarrow> ('e + 'a) \<times> 's"

named_theorems eff_simps \<open>evaluation of composed effects\<close>

definition eff_ret :: "'a \<Rightarrow> ('s, 'e, 'a) eff" where
  "eff_ret a s = (Inr a, s)"

definition eff_throw :: "'e \<Rightarrow> ('s, 'e, 'a) eff" where
  "eff_throw e s = (Inl e, s)"

definition eff_upd :: "('s \<Rightarrow> 's) \<Rightarrow> ('s, 'e, unit) eff" where
  "eff_upd f s = (Inr (), f s)"

definition eff_bind :: "('s, 'e, 'a) eff \<Rightarrow> ('a \<Rightarrow> ('s, 'e, 'b) eff) \<Rightarrow> ('s, 'e, 'b) eff" where
  "eff_bind m k s = (case m s of (Inl e, s') \<Rightarrow> (Inl e, s') | (Inr a, s') \<Rightarrow> k a s')"

definition eff_catch :: "('s, 'e, 'a) eff \<Rightarrow> ('e \<Rightarrow> ('s, 'e, 'a) eff) \<Rightarrow> ('s, 'e, 'a) eff" where
  "eff_catch m h s = (case m s of (Inl e, s') \<Rightarrow> h e s' | (Inr a, s') \<Rightarrow> (Inr a, s'))"

lemmas eff_defs = eff_ret_def eff_throw_def eff_upd_def eff_bind_def eff_catch_def

lemma eff_bind_simps [eff_simps]:
  "m s = (Inl e, s') \<Longrightarrow> eff_bind m k s = (Inl e, s')"
  "m s = (Inr a, s') \<Longrightarrow> eff_bind m k s = k a s'"
  by (simp_all add: eff_bind_def)

lemma eff_catch_simps [eff_simps]:
  "m s = (Inl e, s') \<Longrightarrow> eff_catch m h s = h e s'"
  "m s = (Inr a, s') \<Longrightarrow> eff_catch m h s = (Inr a, s')"
  by (simp_all add: eff_catch_def)

declare eff_ret_def [eff_simps] eff_throw_def [eff_simps] eff_upd_def [eff_simps]

definition eff_of :: "'e + 'a \<Rightarrow> ('s, 'e, 'a) eff" where
  "eff_of x s = (x, s)"

fun eff_map :: "('a \<Rightarrow> ('s, 'e, 'b) eff) \<Rightarrow> 'a list \<Rightarrow> ('s, 'e, 'b list) eff" where
  "eff_map f [] = eff_ret []"
| "eff_map f (x # xs) = eff_bind (f x) (\<lambda>y. eff_bind (eff_map f xs) (\<lambda>ys. eff_ret (y # ys)))"

lemma eff_bind_Inr_iff: "eff_bind m k s = (Inr b, s') \<longleftrightarrow> (\<exists>a s1. m s = (Inr a, s1) \<and> k a s1 = (Inr b, s'))"
  by (auto simp: eff_bind_def split: prod.splits sum.splits)

lemma eff_map_Inr:
  assumes "\<And>x s y s'. f x s = (Inr y, s') \<Longrightarrow> R x y \<and> s' = s @ g x"
  shows "eff_map f xs s = (Inr ys, s') \<Longrightarrow> list_all2 R xs ys \<and> s' = s @ concat (map g xs)"
proof (induction xs arbitrary: s ys)
  case (Cons x xs)
  then obtain y s1 zs where "f x s = (Inr y, s1)" "eff_map f xs s1 = (Inr zs, s')" "ys = y # zs"
    by (auto simp: eff_bind_Inr_iff eff_ret_def)
  with assms [of x s y s1] Cons.IH [of s1 zs] show ?case by simp
qed (simp add: eff_ret_def)

lemma eff_bind_Inl_iff:
  "eff_bind m k s = (Inl e, s') \<longleftrightarrow> m s = (Inl e, s') \<or> (\<exists>a s1. m s = (Inr a, s1) \<and> k a s1 = (Inl e, s'))"
  by (auto simp: eff_bind_def split: prod.splits sum.splits)

lemma isl_eff_bind: "isl (fst (eff_bind m k s)) \<longleftrightarrow> isl (fst (m s)) \<or> isl (fst (k (projr (fst (m s))) (snd (m s))))"
  by (auto simp: eff_bind_def split: prod.split sum.split)

lemma isl_eff_map:
  assumes "\<And>x s. isl (fst (f x s)) \<longleftrightarrow> \<not> P x"
  shows "isl (fst (eff_map f xs s)) \<longleftrightarrow> \<not> list_all P xs"
  by (induction xs arbitrary: s) (auto simp: isl_eff_bind eff_ret_def assms)

lemma isl_ebind: "isl (ebind x k) \<longleftrightarrow> isl x \<or> isl (k (projr x))"
  by (cases x) (simp_all add: ebind_def)

text \<open>A mapping over a list whose first error ends it.\<close>

fun map_error :: "('a \<Rightarrow> 'e + 'b) \<Rightarrow> 'a list \<Rightarrow> 'e + 'b list" where
  "map_error f [] = Inr []"
| "map_error f (x # xs) =
     (case f x of Inl e \<Rightarrow> Inl e
      | Inr y \<Rightarrow> (case map_error f xs of Inl e \<Rightarrow> Inl e | Inr ys \<Rightarrow> Inr (y # ys)))"

lemma map_error_Inr: "map_error f xs = Inr ys \<longleftrightarrow> list_all2 (\<lambda>x y. f x = Inr y) xs ys"
proof (induction xs arbitrary: ys)
  case (Cons x xs)
  show ?case
  proof (cases "f x")
    case (Inr y)
    then show ?thesis using Cons.IH
      by (cases "map_error f xs") (auto simp: list_all2_Cons1)
  qed (auto simp: list_all2_Cons1)
qed auto

lemma isl_map_error: "isl (map_error f xs) \<longleftrightarrow> list_ex (\<lambda>x. isl (f x)) xs"
  by (induction xs) (auto split: sum.splits)

lemma trim_Nil [simp]: "trim [] = []"
  by (simp add: trim_def trim_start_def trim_end_def)

end
