(* ===== verification/JsRegex.thy ===== *)
theory JsRegex
  imports JsBase
begin

section \<open>Regular expressions\<close>

text \<open>
  A backtracking matcher for the regular expressions of the code. A position in the subject is the
  character before it (\<open>None\<close> at the start) and the rest of the subject. \<open>ends r p\<close> lists the
  positions where a match of \<open>r\<close> that starts at \<open>p\<close> can end, in the order in which backtracking
  tries them, so its head is the match the language returns.
\<close>

type_synonym pos = "char option \<times> string"

datatype re =
    Eps
  | Cls "char \<Rightarrow> bool"
  | Cat re re
  | Alt re re
  | Star re
  | Wb
  | Bol
  | Eol
  | LineEnd

definition word_char :: "char \<Rightarrow> bool" where
  "word_char c \<longleftrightarrow> (let n = (of_char c :: nat) in
     48 \<le> n \<and> n \<le> 57 \<or> 65 \<le> n \<and> n \<le> 90 \<or> 97 \<le> n \<and> n \<le> 122 \<or> n = 95)"

fun at_boundary :: "pos \<Rightarrow> bool" where
  "at_boundary (b, s) \<longleftrightarrow>
     (case b of None \<Rightarrow> False | Some c \<Rightarrow> word_char c) \<noteq> (case s of [] \<Rightarrow> False | c # _ \<Rightarrow> word_char c)"

text \<open>The flag \<open>m\<close> lets \<open>$\<close> match before the end of a line, too.\<close>

fun at_line_end :: "pos \<Rightarrow> bool" where
  "at_line_end (b, s) \<longleftrightarrow> (case s of [] \<Rightarrow> True | c # _ \<Rightarrow> c = CHR 0x0A \<or> c = CHR 0x0D)"

text \<open>An iteration that consumes nothing is rejected, so at most one iteration per character runs.\<close>

fun star_ends :: "(pos \<Rightarrow> pos list) \<Rightarrow> nat \<Rightarrow> pos \<Rightarrow> pos list" where
  "star_ends f 0 p = [p]"
| "star_ends f (Suc n) p =
     concat (map (\<lambda>q. if length (snd q) < length (snd p) then star_ends f n q else []) (f p)) @ [p]"

fun ends :: "re \<Rightarrow> pos \<Rightarrow> pos list" where
  "ends Eps p = [p]"
| "ends (Cls f) p = (case snd p of [] \<Rightarrow> [] | c # s \<Rightarrow> if f c then [(Some c, s)] else [])"
| "ends (Cat r1 r2) p = concat (map (ends r2) (ends r1 p))"
| "ends (Alt r1 r2) p = ends r1 p @ ends r2 p"
| "ends (Star r) p = star_ends (ends r) (length (snd p)) p"
| "ends Wb p = (if at_boundary p then [p] else [])"
| "ends Bol p = (if fst p = None then [p] else [])"
| "ends Eol p = (if snd p = [] then [p] else [])"
| "ends LineEnd p = (if at_line_end p then [p] else [])"

text \<open>\<open>exec\<close>: the leftmost start, and there the first end; then \<open>test\<close> and the global \<open>match\<close>.\<close>

fun re_exec_at :: "re \<Rightarrow> char option \<Rightarrow> string \<Rightarrow> (pos \<times> pos) option" where
  "re_exec_at r b s = (case ends r (b, s) of
       q # _ \<Rightarrow> Some ((b, s), q)
     | [] \<Rightarrow> (case s of [] \<Rightarrow> None | c # s' \<Rightarrow> re_exec_at r (Some c) s'))"

declare re_exec_at.simps [simp del]

definition re_test :: "re \<Rightarrow> string \<Rightarrow> bool" where
  "re_test r s \<longleftrightarrow> re_exec_at r None s \<noteq> None"

text \<open>
  The flag \<open>i\<close>: every class, written in lower case, sees the lower-cased character.
\<close>

primrec ci :: "re \<Rightarrow> re" where
  "ci Eps = Eps"
| "ci (Cls f) = Cls (\<lambda>c. f (lower_char c))"
| "ci (Cat r1 r2) = Cat (ci r1) (ci r2)"
| "ci (Alt r1 r2) = Alt (ci r1) (ci r2)"
| "ci (Star r) = Star (ci r)"
| "ci Wb = Wb"
| "ci Bol = Bol"
| "ci Eol = Eol"
| "ci LineEnd = LineEnd"

text \<open>Common expressions.\<close>

fun lit :: "string \<Rightarrow> re" where
  "lit [] = Eps"
| "lit [c] = Cls (\<lambda>d. d = c)"
| "lit (c # d # s) = Cat (Cls (\<lambda>e. e = c)) (lit (d # s))"

fun cats :: "re list \<Rightarrow> re" where
  "cats [] = Eps"
| "cats [r] = r"
| "cats (r # q # rs) = Cat r (cats (q # rs))"

fun alts :: "re list \<Rightarrow> re" where
  "alts [] = Cls (\<lambda>_. False)"
| "alts [r] = r"
| "alts (r # q # rs) = Alt r (alts (q # rs))"

definition opt :: "re \<Rightarrow> re" where "opt r = Alt r Eps"
definition plus_re :: "re \<Rightarrow> re" where "plus_re r = Cat r (Star r)"
definition ws_plus :: re where "ws_plus = plus_re (Cls is_ws)"
definition any_char :: re where "any_char = Cls (\<lambda>c. c \<noteq> CHR 0x0A \<and> c \<noteq> CHR 0x0D)"
definition digit :: "char \<Rightarrow> bool" where
  "digit c \<longleftrightarrow> (let n = (of_char c :: nat) in 48 \<le> n \<and> n \<le> 57)"

text \<open>\<open>r{m,n}\<close>.\<close>

fun rep_between :: "nat \<Rightarrow> nat \<Rightarrow> re \<Rightarrow> re" where
  "rep_between (Suc m) n r = Cat r (rep_between m (n - 1) r)"
| "rep_between 0 0 r = Eps"
| "rep_between 0 (Suc n) r = Alt (Cat r (rep_between 0 n r)) Eps"

subsection \<open>The matcher against a declarative semantics\<close>

inductive matches :: "re \<Rightarrow> pos \<Rightarrow> pos \<Rightarrow> bool" where
  m_eps: "matches Eps p p"
| m_cls: "f c \<Longrightarrow> matches (Cls f) (b, c # s) (Some c, s)"
| m_cat: "matches r1 p q \<Longrightarrow> matches r2 q t \<Longrightarrow> matches (Cat r1 r2) p t"
| m_alt1: "matches r1 p q \<Longrightarrow> matches (Alt r1 r2) p q"
| m_alt2: "matches r2 p q \<Longrightarrow> matches (Alt r1 r2) p q"
| m_star0: "matches (Star r) p p"
| m_star1: "matches r p q \<Longrightarrow> matches (Star r) q t \<Longrightarrow> matches (Star r) p t"
| m_wb: "at_boundary p \<Longrightarrow> matches Wb p p"
| m_bol: "fst p = None \<Longrightarrow> matches Bol p p"
| m_eol: "snd p = [] \<Longrightarrow> matches Eol p p"
| m_line_end: "at_line_end p \<Longrightarrow> matches LineEnd p p"

inductive_cases matches_epsE [elim!]: "matches Eps p q"
inductive_cases matches_clsE [elim!]: "matches (Cls f) p q"
inductive_cases matches_catE [elim!]: "matches (Cat r1 r2) p q"
inductive_cases matches_altE [elim!]: "matches (Alt r1 r2) p q"
inductive_simps matches_alt_iff: "matches (Alt r1 r2) p q"
inductive_cases matches_wbE [elim!]: "matches Wb p q"
inductive_cases matches_bolE [elim!]: "matches Bol p q"
inductive_cases matches_eolE [elim!]: "matches Eol p q"
inductive_cases matches_line_endE [elim!]: "matches LineEnd p q"

lemma matches_cat_iff: "matches (Cat r1 r2) p t \<longleftrightarrow> (\<exists>q. matches r1 p q \<and> matches r2 q t)"
  by (blast elim: matches_catE intro: m_cat)

text \<open>A match consumes a prefix of the rest, and remembers its last character.\<close>

definition reach :: "pos \<Rightarrow> pos \<Rightarrow> bool" where
  "reach p q \<longleftrightarrow> (\<exists>u. snd p = u @ snd q \<and> fst q = (if u = [] then fst p else Some (last u)))"

lemma reach_refl [simp, intro]: "reach p p"
  by (simp add: reach_def)

lemma reach_step [simp, intro]: "reach (b, c # s) (Some c, s)"
  unfolding reach_def by (intro exI [of _ "[c]"]) simp

lemma reach_trans: "reach p q \<Longrightarrow> reach q t \<Longrightarrow> reach p t"
  unfolding reach_def by (metis append_assoc append_is_Nil_conv last_append)

lemma reach_length: "reach p q \<Longrightarrow> length (snd q) \<le> length (snd p)"
  by (auto simp: reach_def)

lemma reach_same_length: "reach p q \<Longrightarrow> length (snd q) = length (snd p) \<Longrightarrow> q = p"
  by (cases p; cases q) (auto simp: reach_def)

lemma matches_reach: "matches r p q \<Longrightarrow> reach p q"
proof (induction rule: matches.induct)
qed (auto intro: reach_trans)

lemma star_ends_sound:
  assumes "\<And>p q. q \<in> set (f p) \<Longrightarrow> matches r p q"
  shows "q \<in> set (star_ends f n p) \<Longrightarrow> matches (Star r) p q"
proof (induction n arbitrary: p)
  case (Suc n)
  then consider "q = p" | t where "t \<in> set (f p)" "q \<in> set (star_ends f n t)"
    by (fastforce split: if_splits)
  then show ?case
  proof cases
    case 2
    then show ?thesis using Suc.IH assms m_star1 by blast
  qed (simp add: m_star0)
qed (simp add: m_star0)

lemma ends_sound: "q \<in> set (ends r p) \<Longrightarrow> matches r p q"
proof (induction r arbitrary: p q)
  case (Cls f)
  then show ?case by (cases p) (auto intro: matches.intros split: list.splits if_splits)
next
  case (Cat r1 r2)
  then obtain t where "t \<in> set (ends r1 p)" "q \<in> set (ends r2 t)" by (simp) blast
  with Cat.IH show ?case by (blast intro: m_cat)
next
  case (Star r)
  from star_ends_sound [OF Star.IH] Star.prems show ?case by simp
qed (auto intro: matches.intros split: if_splits)

lemma star_ends_complete:
  assumes f: "\<And>p q. matches r p q \<Longrightarrow> q \<in> set (f p)"
  shows "matches s p q \<Longrightarrow> s = Star r \<Longrightarrow> length (snd p) \<le> n \<Longrightarrow> q \<in> set (star_ends f n p)"
proof (induction arbitrary: n rule: matches.induct)
  case (m_star0 r' p)
  then show ?case by (cases n) auto
next
  case (m_star1 r' p q t)
  have r: "reach p q" using m_star1.hyps(1) by (rule matches_reach)
  show ?case
  proof (cases "length (snd q) < length (snd p)")
    case True
    then obtain m where n: "n = Suc m" using m_star1.prems by (cases n) auto
    then have "t \<in> set (star_ends f m q)" using m_star1.IH(2) m_star1.prems True by simp
    moreover have "q \<in> set (f p)" using f m_star1.hyps(1) m_star1.prems(1) by simp
    ultimately show ?thesis using n True by auto
  next
    case False
    then have "q = p" using r reach_length [OF r] reach_same_length [OF r] by simp
    then show ?thesis using m_star1.IH(2) m_star1.prems by simp
  qed
qed auto

lemma ends_complete: "matches r p q \<Longrightarrow> q \<in> set (ends r p)"
proof (induction r arbitrary: p q)
  case (Cat r1 r2)
  then obtain t where "matches r1 p t" "matches r2 t q" by blast
  with Cat.IH have "t \<in> set (ends r1 p)" "q \<in> set (ends r2 t)" by blast+
  then show ?case by (simp only: ends.simps set_concat set_map) blast
next
  case (Star r)
  from star_ends_complete [of r "ends r", OF Star.IH Star.prems refl order_refl] show ?case by simp
qed auto

lemma ends_iff: "q \<in> set (ends r p) \<longleftrightarrow> matches r p q"
  using ends_sound ends_complete by blast

subsection \<open>Searching\<close>

lemma re_exec_at_NoneD:
  "re_exec_at r b s = None \<Longrightarrow> s = u @ v \<Longrightarrow> ends r (if u = [] then b else Some (last u), v) = []"
proof (induction s arbitrary: b u)
  case Nil
  then show ?case by (subst (asm) re_exec_at.simps) (auto split: list.splits)
next
  case (Cons c s)
  from Cons.prems(1) have e: "ends r (b, c # s) = []" and n: "re_exec_at r (Some c) s = None"
    by (subst (asm) re_exec_at.simps, simp split: list.splits)+
  show ?case
  proof (cases u)
    case Nil
    with e Cons.prems(2) show ?thesis by simp
  next
    case (Cons d u')
    with Cons.prems(2) have "s = u' @ v" "d = c" by simp_all
    from Cons.IH [OF n this(1)] Cons \<open>d = c\<close> show ?thesis by (cases u') auto
  qed
qed

lemma re_exec_at_SomeD: "re_exec_at r b s = Some (a, q) \<Longrightarrow> reach (b, s) a \<and> matches r a q"
proof (induction s arbitrary: b)
  case Nil
  then have "a = (b, [])" "q \<in> set (ends r a)"
    by (subst (asm) re_exec_at.simps, auto split: list.splits)+
  then show ?case by (simp add: ends_iff)
next
  case (Cons c s)
  show ?case
  proof (cases "ends r (b, c # s)")
    case Nil
    with Cons.prems have "re_exec_at r (Some c) s = Some (a, q)"
      by (subst (asm) re_exec_at.simps) simp
    then show ?thesis using Cons.IH reach_trans [OF reach_step] by blast
  next
    case (Cons t ts)
    with Cons.prems have "a = (b, c # s)" "q = t"
      using re_exec_at.simps [of r b "c # s"] by simp_all
    with Cons show ?thesis by (simp add: ends_iff [symmetric])
  qed
qed

text \<open>\<open>test\<close> succeeds exactly when the expression matches somewhere in the subject.\<close>

lemma re_test_iff:
  "re_test r s \<longleftrightarrow> (\<exists>u v q. s = u @ v \<and> matches r (if u = [] then None else Some (last u), v) q)"
proof
  assume "re_test r s"
  then obtain a q where "re_exec_at r None s = Some (a, q)" by (auto simp: re_test_def)
  then have "reach (None, s) a" "matches r a q" by (simp_all add: re_exec_at_SomeD)
  then obtain u where "s = u @ snd a" "matches r (if u = [] then None else Some (last u), snd a) q"
    by (cases a) (auto simp: reach_def split: if_splits)
  then show "\<exists>u v q. s = u @ v \<and> matches r (if u = [] then None else Some (last u), v) q"
    by blast
next
  assume "\<exists>u v q. s = u @ v \<and> matches r (if u = [] then None else Some (last u), v) q"
  then obtain u v q where "s = u @ v" "q \<in> set (ends r (if u = [] then None else Some (last u), v))"
    by (auto simp: ends_iff)
  then show "re_test r s" using re_exec_at_NoneD [of r None s u v] by (metis empty_iff list.set(1) re_test_def)
qed

lemma re_test_reach: "re_test r s \<longleftrightarrow> (\<exists>p q. reach (None, s) p \<and> matches r p q)"
proof
  assume "re_test r s"
  then obtain u v q where s: "s = u @ v" and m: "matches r (if u = [] then None else Some (last u), v) q"
    unfolding re_test_iff by blast
  have "reach (None, s) (if u = [] then None else Some (last u), v)" using s by (auto simp: reach_def)
  with m show "\<exists>p q. reach (None, s) p \<and> matches r p q" by blast
next
  assume "\<exists>p q. reach (None, s) p \<and> matches r p q"
  then obtain p q where p: "reach (None, s) p" and m: "matches r p q" by blast
  from p obtain u where "s = u @ snd p" "p = (if u = [] then None else Some (last u), snd p)"
    by (cases p) (auto simp: reach_def)
  with m show "re_test r s" unfolding re_test_iff by metis
qed

text \<open>
  The global \<open>match\<close>: the matched substrings from left to right; after an empty match the search
  goes on one character later.
\<close>

function match_all :: "re \<Rightarrow> char option \<Rightarrow> string \<Rightarrow> string list" where
  "match_all r b s = (case re_exec_at r b s of
       None \<Rightarrow> []
     | Some (a, q) \<Rightarrow>
         if length (snd q) < length (snd a)
         then take (length (snd a) - length (snd q)) (snd a) # match_all r (fst q) (snd q)
         else [] # (case snd a of [] \<Rightarrow> [] | c # s' \<Rightarrow> match_all r (Some c) s'))"
  by pat_completeness auto
termination
proof (relation "measure (\<lambda>(r, b, s). length s)", goal_cases)
  case (2 r b s x a q)
  then have "reach (b, s) a" using re_exec_at_SomeD by metis
  from reach_length [OF this] 2 show ?case by (auto split: prod.splits)
next
  case (3 r b s x a q c s')
  then have "reach (b, s) a" using re_exec_at_SomeD by metis
  from reach_length [OF this] 3 show ?case by (auto split: prod.splits)
qed simp

declare match_all.simps [simp del]

definition re_match_g :: "re \<Rightarrow> string \<Rightarrow> string list" where
  "re_match_g r s = match_all r None s"

text \<open>\<open>replace\<close> with a global expression; the replacement is a function of the matched text.\<close>

function replace_all :: "re \<Rightarrow> (string \<Rightarrow> string) \<Rightarrow> char option \<Rightarrow> string \<Rightarrow> string" where
  "replace_all r f b s = (case re_exec_at r b s of
       None \<Rightarrow> s
     | Some (a, q) \<Rightarrow>
         take (length s - length (snd a)) s @
         (if length (snd q) < length (snd a)
          then f (take (length (snd a) - length (snd q)) (snd a)) @ replace_all r f (fst q) (snd q)
          else f [] @ (case snd a of [] \<Rightarrow> [] | c # s' \<Rightarrow> c # replace_all r f (Some c) s')))"
  by pat_completeness auto
termination
proof (relation "measure (\<lambda>(r, f, b, s). length s)", goal_cases)
  case (2 r f b s x a q)
  then have "reach (b, s) a" using re_exec_at_SomeD by metis
  from reach_length [OF this] 2 show ?case by (auto split: prod.splits)
next
  case (3 r f b s x a q c s')
  then have "reach (b, s) a" using re_exec_at_SomeD by metis
  from reach_length [OF this] 3 show ?case by (auto split: prod.splits)
qed simp

declare replace_all.simps [simp del]

definition re_replace_g :: "re \<Rightarrow> (string \<Rightarrow> string) \<Rightarrow> string \<Rightarrow> string" where
  "re_replace_g r f s = replace_all r f None s"

lemma re_replace_g_no_match: "\<not> re_test r s \<Longrightarrow> re_replace_g r f s = s"
  by (simp add: re_replace_g_def replace_all.simps [of r f None s] re_test_def del: not_None_eq)

lemma replace_all_match:
  assumes "re_exec_at r b s = Some (a, q)" and "s = u @ snd a" and "snd a = v @ snd q"
  shows "replace_all r f b s = u @ f v @
    (if v \<noteq> [] then replace_all r f (fst q) (snd q)
     else (case snd a of [] \<Rightarrow> [] | c # s' \<Rightarrow> c # replace_all r f (Some c) s'))"
proof -
  have "take (length s - length (snd a)) s = u" "take (length (snd a) - length (snd q)) (snd a) = v"
    using assms(2,3) by simp_all
  moreover have "length (snd q) < length (snd a) \<longleftrightarrow> v \<noteq> []" using assms(3) by auto
  ultimately show ?thesis using replace_all.simps [of r f b s] assms(1) by auto
qed

lemma replace_all_parts:
  assumes "re_exec_at r b s = Some (a, q)"
  obtains u v where "s = u @ snd a" and "snd a = v @ snd q"
  using re_exec_at_SomeD [OF assms] matches_reach [of r a q] by (auto simp: reach_def)

text \<open>What is left when matches are removed is a part of the subject.\<close>

lemma subseq_replace_all: "f = (\<lambda>_. []) \<Longrightarrow> subseq (replace_all r f b s) s"
proof (induction r f b s rule: replace_all.induct)
  case (1 r f b s)
  show ?case
  proof (cases "re_exec_at r b s")
    case None
    then show ?thesis by (subst replace_all.simps) simp
  next
    case (Some m)
    obtain a q where m: "m = (a, q)" by (rule prod.exhaust)
    have aq: "re_exec_at r b s = Some (a, q)" using Some m by simp
    then obtain u v where s: "s = u @ snd a" "snd a = v @ snd q" by (rule replace_all_parts)
    note eq = replace_all_match [OF aq s, of f]
    show ?thesis
    proof (cases "v = []")
      case False
      then have "subseq (replace_all r f (fst q) (snd q)) (snd q)"
        using "1.IH"(1) [OF aq refl _ "1.prems"] s(2) by simp
      then have "subseq (u @ replace_all r f (fst q) (snd q)) (u @ v @ snd q)"
        by (intro list_emb_append_mono list_emb_append2) simp_all
      then show ?thesis unfolding eq using False s "1.prems" by simp
    next
      case True
      then have nl: "\<not> length (snd q) < length (snd a)" using s(2) by simp
      show ?thesis
      proof (cases "snd a")
        case Nil
        show ?thesis unfolding eq using Nil True s "1.prems" by simp
      next
        case (Cons c s')
        show ?thesis unfolding eq using Cons True s "1.prems" "1.IH"(2) [OF aq refl nl Cons "1.prems"] by (simp add: subseq_append')
      qed
    qed
  qed
qed

lemma set_replace_all:
  assumes "\<And>m. set (f m) \<subseteq> A"
  shows "set s \<subseteq> A \<Longrightarrow> set (replace_all r f b s) \<subseteq> A"
  using assms
proof (induction r f b s rule: replace_all.induct)
  case (1 r f b s)
  show ?case
  proof (cases "re_exec_at r b s")
    case None
    with "1.prems" show ?thesis by (subst replace_all.simps) simp
  next
    case (Some m)
    obtain a q where m: "m = (a, q)" by (rule prod.exhaust)
    have aq: "re_exec_at r b s = Some (a, q)" using Some m by simp
    then obtain u v where s: "s = u @ snd a" "snd a = v @ snd q" by (rule replace_all_parts)
    have sub: "set u \<subseteq> A" "set (snd a) \<subseteq> A" "set (snd q) \<subseteq> A" using "1.prems" s by auto
    note eq = replace_all_match [OF aq s, of f]
    show ?thesis
    proof (cases "v = []")
      case False
      then have "set (replace_all r f (fst q) (snd q)) \<subseteq> A"
        using "1.IH"(1) [OF aq refl] s(2) sub "1.prems"(2) by simp
      with False sub "1.prems"(2) [of v] show ?thesis by (simp add: eq)
    next
      case True
      then have nl: "\<not> length (snd q) < length (snd a)" using s(2) by simp
      show ?thesis
        unfolding eq using True sub "1.prems"(2) [of v] "1.IH"(2) [OF aq refl nl] "1.prems"(2) by (cases "snd a") simp_all
    qed
  qed
qed

lemma match_all_Nil_iff: "match_all r b s = [] \<longleftrightarrow> re_exec_at r b s = None"
  by (subst match_all.simps) (auto split: option.splits list.splits)

lemma re_match_g_Nil_iff: "re_match_g r s = [] \<longleftrightarrow> \<not> re_test r s"
  by (simp only: re_match_g_def re_test_def match_all_Nil_iff not_not)

text \<open>Each result of the global match is a substring of the subject that the expression matches.\<close>

lemma match_all_sound:
  "w \<in> set (match_all r b s) \<Longrightarrow> \<exists>p q. reach (b, s) p \<and> matches r p q \<and> snd p = w @ snd q"
proof (induction r b s rule: match_all.induct)
  case (1 r b s)
  have "re_exec_at r b s \<noteq> None"
    using "1.prems" match_all_Nil_iff [of r b s] by force
  then obtain a q where aq: "re_exec_at r b s = Some (a, q)" by fastforce
  then have ra: "reach (b, s) a" and mq: "matches r a q" by (simp_all add: re_exec_at_SomeD)
  from matches_reach [OF mq] obtain u where u: "snd a = u @ snd q" by (auto simp: reach_def)
  show ?case
  proof (cases "length (snd q) < length (snd a)")
    case True
    with "1.prems" aq u consider "w = u" | "w \<in> set (match_all r (fst q) (snd q))"
      by (subst (asm) match_all.simps) auto
    then show ?thesis
    proof cases
      case 1
      with ra mq u show ?thesis by blast
    next
      case 2
      with "1.IH"(1) [OF aq refl True] obtain p t where "reach q p" "matches r p t" "snd p = w @ snd t"
        by auto
      then show ?thesis using ra matches_reach [OF mq] reach_trans by blast
    qed
  next
    case False
    with u have "u = []" by simp
    from "1.prems" aq False consider "w = []" | c s' where "snd a = c # s'" "w \<in> set (match_all r (Some c) s')"
      using match_all.simps [of r b s] by (auto split: list.splits)
    then show ?thesis
    proof cases
      case 1
      then have "snd a = w @ snd q" using u \<open>u = []\<close> by simp
      with ra mq show ?thesis by blast
    next
      case 2
      from "1.IH"(2) [OF aq refl False this] obtain p t
        where "reach (Some c, s') p" "matches r p t" "snd p = w @ snd t" by auto
      moreover have "reach a (Some c, s')"
        using 2(1) reach_step [of "fst a" c s'] by (cases a) simp
      ultimately show ?thesis using ra reach_trans by blast
    qed
  qed
qed

text \<open>A literal matches exactly its own text.\<close>

lemma matches_lit: "matches (lit t) p q \<longleftrightarrow> snd p = t @ snd q \<and> reach p q"
proof (induction t arbitrary: p rule: lit.induct)
  case 1
  show ?case using reach_same_length [of p q] by (auto intro: matches.intros)
next
  case (2 c)
  show ?case (is "?l \<longleftrightarrow> ?r")
  proof
    assume ?r
    then obtain b where "p = (b, c # snd q)" "q = (Some c, snd q)"
      by (cases p; cases q) (auto simp: reach_def)
    then show ?l using m_cls [of "\<lambda>d. d = c" c b "snd q"] by simp
  qed (auto dest: matches_reach)
next
  case (3 c d s)
  show ?case (is "?l \<longleftrightarrow> ?r")
  proof
    assume ?l
    then obtain t where t: "matches (Cls (\<lambda>e. e = c)) p t" "matches (lit (d # s)) t q"
      unfolding lit.simps by (rule matches_catE)
    then have "snd p = c # snd t" by auto
    moreover have "reach p q" using t matches_reach reach_trans by blast
    ultimately show ?r using t 3 by simp
  next
    assume r: ?r
    let ?t = "(Some c, (d # s) @ snd q)"
    from r have "fst q = Some (last (c # d # s))" by (auto simp: reach_def)
    then have "reach ?t q" unfolding reach_def by (intro exI [of _ "d # s"]) simp
    then have "matches (lit (d # s)) ?t q" using 3 by simp
    moreover have "matches (Cls (\<lambda>e. e = c)) p ?t" using r by (cases p) (auto intro: matches.intros)
    ultimately show ?l unfolding lit.simps by (rule m_cat [rotated])
  qed
qed

lemma re_test_lit: "re_test (lit t) s \<longleftrightarrow> (\<exists>u v. s = u @ t @ v)"
proof
  assume "re_test (lit t) s"
  then show "\<exists>u v. s = u @ t @ v" unfolding re_test_iff matches_lit by fastforce
next
  assume "\<exists>u v. s = u @ t @ v"
  then obtain u v where s: "s = u @ t @ v" by blast
  let ?p = "(if u = [] then None else Some (last u), t @ v)"
  have "matches (lit t) ?p (if t = [] then fst ?p else Some (last t), v)"
    unfolding matches_lit reach_def by auto
  then show "re_test (lit t) s" unfolding re_test_iff using s by blast
qed

text \<open>A bounded repetition of a class matches a run of its characters of a length within the bounds.\<close>

lemma matches_rep_between:
  "matches (rep_between m n (Cls f)) p q \<Longrightarrow> m \<le> n \<Longrightarrow>
   \<exists>w. snd p = w @ snd q \<and> m \<le> length w \<and> length w \<le> n \<and> list_all f w"
proof (induction m n "Cls f" arbitrary: p rule: rep_between.induct)
  case (1 m n)
  from "1.prems"(1) obtain t where t: "matches (Cls f) p t" "matches (rep_between m (n - 1) (Cls f)) t q"
    unfolding rep_between.simps by (rule matches_catE)
  from t(1) obtain c where c: "snd p = c # snd t" "f c" by auto
  have "m \<le> n - 1" using "1.prems"(2) by simp
  with "1.hyps" [OF t(2)] obtain w
    where "snd t = w @ snd q" "m \<le> length w" "length w \<le> n - 1" "list_all f w" by blast
  with c "1.prems"(2) show ?case by (intro exI [of _ "c # w"]) auto
next
  case 2
  then show ?case by auto
next
  case (3 n)
  from "3.prems"(1) consider t where "matches (Cls f) p t" "matches (rep_between 0 n (Cls f)) t q" | "p = q"
    unfolding rep_between.simps matches_alt_iff matches_cat_iff by (metis matches_epsE)
  then show ?case
  proof cases
    case 1
    then obtain c where c: "snd p = c # snd t" "f c" by auto
    from "3.hyps" [OF 1(2)] obtain w where "snd t = w @ snd q" "length w \<le> n" "list_all f w" by auto
    with c show ?thesis by (intro exI [of _ "c # w"]) auto
  qed auto
qed

end
