(* ===== verification/JsSort.thy ===== *)
theory JsSort
  imports JsBase
begin

section \<open>Stable sorting with a comparator\<close>

text \<open>
  \<open>Array.prototype.sort\<close> calls a comparison function and reads the sign of its result. The
  language requires a stable sort; which algorithm is left open, but for a consistent comparator
  the result does not depend on it (\<open>stable_sort_unique\<close>), so an insertion sort models it.

  The interface between a caller and the sort is the locale \<open>comparator\<close>: the comparison
  function, and the laws of a consistent comparator. Each component interprets it on the
  comparators it passes to \<open>sort\<close>.
\<close>

fun js_insert :: "('a \<Rightarrow> 'a \<Rightarrow> 'n::linordered_idom) \<Rightarrow> 'a \<Rightarrow> 'a list \<Rightarrow> 'a list" where
  "js_insert cmp x [] = [x]"
| "js_insert cmp x (y # ys) = (if cmp x y \<le> 0 then x # y # ys else y # js_insert cmp x ys)"

definition js_sort :: "('a \<Rightarrow> 'a \<Rightarrow> 'n::linordered_idom) \<Rightarrow> 'a list \<Rightarrow> 'a list" where
  "js_sort cmp xs = foldr (js_insert cmp) xs []"

text \<open>Comparators are written as \<open>if (a.p !== b.p) return ...; return ...\<close>.\<close>

definition lex_cmp :: "('a \<Rightarrow> 'a \<Rightarrow> 'n::linordered_idom) \<Rightarrow> ('a \<Rightarrow> 'a \<Rightarrow> 'n) \<Rightarrow> 'a \<Rightarrow> 'a \<Rightarrow> 'n" where
  "lex_cmp c1 c2 a b = (if c1 a b \<noteq> 0 then c1 a b else c2 a b)"

definition desc_cmp :: "('a \<Rightarrow> 'n::linordered_idom) \<Rightarrow> 'a \<Rightarrow> 'a \<Rightarrow> 'n" where
  "desc_cmp f a b = f b - f a"

lemma js_sort_simps [simp]:
  "js_sort cmp [] = []"
  "js_sort cmp (x # xs) = js_insert cmp x (js_sort cmp xs)"
  by (simp_all add: js_sort_def)

lemma mset_js_insert [simp]: "mset (js_insert cmp x xs) = add_mset x (mset xs)"
  by (induction xs) auto

lemma mset_js_sort [simp]: "mset (js_sort cmp xs) = mset xs"
  by (induction xs) auto

lemma set_js_sort [simp]: "set (js_sort cmp xs) = set xs"
  by (metis mset_js_sort set_mset_mset)

lemma length_js_sort [simp]: "length (js_sort cmp xs) = length xs"
  by (metis mset_js_sort size_mset)

lemma distinct_js_sort [simp]: "distinct (js_sort cmp xs) = distinct xs"
  by (metis mset_js_sort mset_eq_imp_distinct_iff)

lemma js_insert_map: "js_insert cmp (f x) (map f xs) = map f (js_insert (\<lambda>a b. cmp (f a) (f b)) x xs)"
  by (induction xs) auto

lemma js_sort_map: "js_sort cmp (map f xs) = map f (js_sort (\<lambda>a b. cmp (f a) (f b)) xs)"
  by (induction xs) (auto simp: js_insert_map)

lemma js_insert_sorted:
  "\<forall>b \<in> set xs. cmp x b \<le> 0 \<Longrightarrow> js_insert cmp x xs = x # xs"
  by (cases xs) auto

lemma js_sort_sorted: "sorted_wrt (\<lambda>a b. cmp a b \<le> 0) xs \<Longrightarrow> js_sort cmp xs = xs"
  by (induction xs) (auto simp: js_insert_sorted)

subsection \<open>The interface\<close>

locale comparator =
  fixes cmp :: "'a \<Rightarrow> 'a \<Rightarrow> 'n::linordered_idom"
  assumes cmp_swap: "cmp x y \<le> 0 \<longleftrightarrow> 0 \<le> cmp y x"
    and cmp_trans: "cmp x y \<le> 0 \<Longrightarrow> cmp y z \<le> 0 \<Longrightarrow> cmp x z \<le> 0"
begin

lemma cmp_refl [simp]: "cmp x x = 0"
  using cmp_swap [of x x] by auto

lemma cmp_total: "cmp x y \<le> 0 \<or> cmp y x \<le> 0"
  using cmp_swap [of x y] by auto

lemma cmp_zero_sym: "cmp x y = 0 \<longleftrightarrow> cmp y x = 0"
  using cmp_swap [of x y] cmp_swap [of y x] by auto

lemma cmp_zero_iff: "cmp x y = 0 \<longleftrightarrow> cmp x y \<le> 0 \<and> cmp y x \<le> 0"
  using cmp_swap [of x y] cmp_swap [of y x] by auto

lemma cmp_zero_trans: "cmp x y = 0 \<Longrightarrow> cmp y z = 0 \<Longrightarrow> cmp x z = 0"
  by (meson cmp_trans cmp_zero_iff)

lemma sorted_js_insert:
  "sorted_wrt (\<lambda>a b. cmp a b \<le> 0) xs \<Longrightarrow> sorted_wrt (\<lambda>a b. cmp a b \<le> 0) (js_insert cmp x xs)"
proof (induction xs)
  case (Cons y ys)
  have "set (js_insert cmp x ys) = insert x (set ys)"
    by (metis mset_js_insert set_mset_add_mset_insert set_mset_mset)
  with Cons show ?case using cmp_total [of x y] cmp_trans [of x y] by auto
qed simp

lemma sorted_js_sort: "sorted_wrt (\<lambda>a b. cmp a b \<le> 0) (js_sort cmp xs)"
  by (induction xs) (auto intro: sorted_js_insert)

lemma stable_js_insert:
  "filter (\<lambda>y. cmp a y = 0) (js_insert cmp x xs) = filter (\<lambda>y. cmp a y = 0) (x # xs)"
proof (induction xs)
  case (Cons y ys)
  have "cmp a x = 0 \<Longrightarrow> cmp a y = 0 \<Longrightarrow> cmp x y \<le> 0"
    using cmp_zero_sym cmp_zero_trans [of x a y] by auto
  with Cons show ?case by auto
qed simp

lemma stable_js_sort: "filter (\<lambda>y. cmp a y = 0) (js_sort cmp xs) = filter (\<lambda>y. cmp a y = 0) xs"
  by (induction xs) (auto simp: stable_js_insert)

text \<open>Sorted lists with the same classes of equal elements, each in the same order, are equal.\<close>

lemma sorted_classes_unique:
  assumes "sorted_wrt (\<lambda>a b. cmp a b \<le> 0) xs" and "sorted_wrt (\<lambda>a b. cmp a b \<le> 0) ys"
    and "\<And>a. filter (\<lambda>y. cmp a y = 0) xs = filter (\<lambda>y. cmp a y = 0) ys"
  shows "xs = ys"
  using assms
proof (induction xs arbitrary: ys)
  case Nil
  show ?case
  proof (cases ys)
    case (Cons y ys')
    with Nil.prems(3) [of y] show ?thesis by simp
  qed simp
next
  case (Cons x xs)
  have "x \<in> set (filter (\<lambda>y. cmp x y = 0) ys)"
    unfolding Cons.prems(3) [symmetric] by simp
  then have x: "x \<in> set ys" by simp
  then obtain y ys' where ys: "ys = y # ys'" by (cases ys) auto
  have "y \<in> set (filter (\<lambda>z. cmp y z = 0) (x # xs))"
    unfolding Cons.prems(3) ys by simp
  then have y: "y \<in> set (x # xs)" by (auto split: if_splits)
  have "cmp x y \<le> 0" using y Cons.prems(1) by (metis cmp_refl order_refl set_ConsD sorted_wrt.simps(2))
  moreover have "cmp y x \<le> 0" using x ys Cons.prems(2) by (metis cmp_refl order_refl set_ConsD sorted_wrt.simps(2))
  ultimately have "cmp x y = 0" by (simp add: cmp_zero_iff)
  then have xy: "x = y" using Cons.prems(3) [of x] ys by simp
  have "filter (\<lambda>z. cmp a z = 0) xs = filter (\<lambda>z. cmp a z = 0) ys'" for a
    using Cons.prems(3) [of a] ys xy by (simp split: if_splits)
  then have "xs = ys'" using Cons.IH Cons.prems(1,2) ys by simp
  with xy ys show ?case by simp
qed

lemma stable_sort_unique:
  assumes "sorted_wrt (\<lambda>a b. cmp a b \<le> 0) ys"
    and "\<And>a. filter (\<lambda>y. cmp a y = 0) ys = filter (\<lambda>y. cmp a y = 0) xs"
  shows "ys = js_sort cmp xs"
  by (rule sorted_classes_unique) (simp_all add: assms sorted_js_sort stable_js_sort)

text \<open>When only equal elements compare as equal, the order of the input is irrelevant.\<close>

lemma js_sort_order_irrelevant:
  assumes "mset xs = mset ys" and "\<And>a b. a \<in> set xs \<Longrightarrow> b \<in> set xs \<Longrightarrow> cmp a b = 0 \<Longrightarrow> a = b"
  shows "js_sort cmp xs = js_sort cmp ys"
proof (rule stable_sort_unique [OF sorted_js_sort])
  fix a
  let ?c = "\<lambda>zs. filter (\<lambda>y. cmp a y = 0) zs"
  have m: "mset (?c xs) = mset (?c ys)" using assms(1) by (simp add: mset_filter)
  have "\<exists>n v. ?c zs = replicate n v" if "mset zs = mset xs" for zs
  proof (cases "?c zs")
    case Nil then show ?thesis by (metis replicate_0)
  next
    case (Cons v vs)
    have "u = v" if "u \<in> set (?c zs)" for u
    proof -
      have "v \<in> set (?c zs)" using Cons by simp
      with that have "cmp u v = 0" "u \<in> set zs" "v \<in> set zs"
        using cmp_zero_sym cmp_zero_trans [of u a v] by auto
      with assms(2) \<open>mset zs = mset xs\<close> show ?thesis by (metis set_mset_mset)
    qed
    then show ?thesis by (metis replicate_eqI)
  qed
  then obtain n v n' v' where r: "?c xs = replicate n v" "?c ys = replicate n' v'"
    using assms(1) by metis
  have "n = n'" using m r by (metis length_replicate size_mset)
  moreover have "n = 0 \<or> v = v'" using m r \<open>n = n'\<close>
    by (metis in_set_replicate set_mset_mset)
  ultimately have "?c xs = ?c ys" using r by auto
  then show "?c (js_sort cmp xs) = ?c ys" by (simp add: stable_js_sort)
qed

text \<open>The first \<open>n\<close> of the sorted list are not after any of the others.\<close>

lemma take_js_sort_dominates:
  "a \<in> set (take n (js_sort cmp xs)) \<Longrightarrow> b \<in> set (drop n (js_sort cmp xs)) \<Longrightarrow> cmp a b \<le> 0"
  using sorted_js_sort [of xs]
  by (metis append_take_drop_id sorted_wrt_append)

end

subsection \<open>Building comparators\<close>

lemma comparator_desc: "comparator (desc_cmp f)"
  by unfold_locales (auto simp: desc_cmp_def)

lemma comparator_on: "comparator c \<Longrightarrow> comparator (\<lambda>a b. c (f a) (f b))"
  by (auto simp: comparator_def)

lemma comparator_of_int:
  "comparator (c :: 'a \<Rightarrow> 'a \<Rightarrow> int) \<Longrightarrow> comparator (\<lambda>a b. (of_int (c a b) :: 'n::linordered_idom))"
  unfolding comparator_def of_int_le_0_iff of_int_0_le_iff by blast

lemma comparator_lex:
  assumes "comparator c1" and "comparator c2"
  shows "comparator (lex_cmp c1 c2)"
proof
  fix x y
  show "lex_cmp c1 c2 x y \<le> 0 \<longleftrightarrow> 0 \<le> lex_cmp c1 c2 y x"
    using comparator.cmp_swap [OF assms(1), of x y] comparator.cmp_zero_sym [OF assms(1), of x y]
      comparator.cmp_swap [OF assms(2), of x y]
    by (auto simp: lex_cmp_def)
next
  fix x y z
  assume xy: "lex_cmp c1 c2 x y \<le> 0" and yz: "lex_cmp c1 c2 y z \<le> 0"
  have le: "c1 x y \<le> 0" "c1 y z \<le> 0" using xy yz by (auto simp: lex_cmp_def split: if_splits)
  then have xz: "c1 x z \<le> 0" by (rule comparator.cmp_trans [OF assms(1)])
  show "lex_cmp c1 c2 x z \<le> 0"
  proof (cases "c1 x z = 0")
    case True
    then have "c1 z x \<le> 0" using comparator.cmp_zero_iff [OF assms(1)] by blast
    then have "c1 y x \<le> 0" "c1 z y \<le> 0"
      using le comparator.cmp_trans [OF assms(1)] by blast+
    with le have "c1 x y = 0" "c1 y z = 0"
      using comparator.cmp_zero_iff [OF assms(1)] by blast+
    with xy yz True show ?thesis
      using comparator.cmp_trans [OF assms(2), of x y z] by (simp add: lex_cmp_def)
  next
    case False
    with xz show ?thesis by (simp add: lex_cmp_def)
  qed
qed

subsection \<open>The best of a list\<close>

text \<open>
  \<open>ys\<close> are the first \<open>n\<close> members of \<open>xs\<close> in the order of the comparator: there are as many as
  possible, they are in order, and none of the others comes strictly before one of them.
\<close>

definition ranked_prefix :: "nat \<Rightarrow> ('a \<Rightarrow> 'a \<Rightarrow> 'n::linordered_idom) \<Rightarrow> 'a list \<Rightarrow> 'a list \<Rightarrow> bool" where
  "ranked_prefix n cmp xs ys \<longleftrightarrow>
     length ys = min n (length xs) \<and> sorted_wrt (\<lambda>a b. cmp a b \<le> 0) ys \<and>
     (\<exists>rest. mset xs = mset ys + mset rest \<and> (\<forall>a \<in> set ys. \<forall>b \<in> set rest. cmp a b \<le> 0))"

lemma ranked_prefix_take_js_sort:
  assumes "comparator cmp"
  shows "ranked_prefix n cmp xs (take n (js_sort cmp xs))"
  unfolding ranked_prefix_def
proof (intro conjI exI)
  show "sorted_wrt (\<lambda>a b. cmp a b \<le> 0) (take n (js_sort cmp xs))"
    by (intro sorted_wrt_take comparator.sorted_js_sort assms)
  show "mset xs = mset (take n (js_sort cmp xs)) + mset (drop n (js_sort cmp xs))"
    by (metis append_take_drop_id mset_append mset_js_sort)
  show "\<forall>a \<in> set (take n (js_sort cmp xs)). \<forall>b \<in> set (drop n (js_sort cmp xs)). cmp a b \<le> 0"
    using comparator.take_js_sort_dominates [OF assms] by blast
qed simp

lemma ranked_prefix_subset: "ranked_prefix n cmp xs ys \<Longrightarrow> set ys \<subseteq> set xs"
  by (metis mset_subset_eqD mset_subset_eq_add_left ranked_prefix_def set_mset_mset subsetI)

lemma ranked_prefix_distinct: "ranked_prefix n cmp xs ys \<Longrightarrow> distinct (map f xs) \<Longrightarrow> distinct (map f ys)"
  unfolding ranked_prefix_def
  by (metis distinct_append map_append mset_append mset_eq_imp_distinct_iff mset_map)

subsection \<open>The default order of strings\<close>

text \<open>The default order of \<open>sort()\<close>: by code units.\<close>

fun code_unit_cmp :: "string \<Rightarrow> string \<Rightarrow> int" where
  "code_unit_cmp [] [] = 0"
| "code_unit_cmp [] (d # t) = -1"
| "code_unit_cmp (c # s) [] = 1"
| "code_unit_cmp (c # s) (d # t) =
     (let a = (of_char c :: int); b = of_char d in if a = b then code_unit_cmp s t else a - b)"

lemma code_unit_cmp_swap: "code_unit_cmp s t = - code_unit_cmp t s"
  by (induction s t rule: code_unit_cmp.induct) (auto simp: Let_def)

lemma code_unit_cmp_zero: "code_unit_cmp s t = 0 \<longleftrightarrow> s = t"
  by (induction s t rule: code_unit_cmp.induct) (auto simp: Let_def)

lemma code_unit_cmp_trans: "code_unit_cmp s t \<le> 0 \<Longrightarrow> code_unit_cmp t u \<le> 0 \<Longrightarrow> code_unit_cmp s u \<le> 0"
proof (induction s arbitrary: t u)
  case Nil
  then show ?case by (cases t; cases u) auto
next
  case (Cons c s)
  then obtain d t' where t: "t = d # t'" by (cases t) auto
  with Cons.prems obtain e u' where u: "u = e # u'" by (cases u) auto
  show ?case using Cons.prems Cons.IH [of t' u'] unfolding t u
    by (auto simp: Let_def split: if_splits)
qed

interpretation code_unit: comparator code_unit_cmp
proof
  show "code_unit_cmp x y \<le> 0 \<longleftrightarrow> 0 \<le> code_unit_cmp y x" for x y
    using code_unit_cmp_swap [of x y] by linarith
qed (rule code_unit_cmp_trans)

end
