(* ===== verification/Topics.thy ===== *)
theory Topics
  imports JsRegex JsSort
begin

section \<open>Topic extraction (packages/topics/src/topic-extraction.ts)\<close>

text \<open>
  The allowlist, its compilation, the relevance rules of the two guarded topics, \<open>extractTopics\<close>
  and the extraction of URLs, hashtags and security identifiers; and \<open>filterTrackedTags\<close> of
  \<open>apps/trends/src/allowlist.ts\<close>, which filters the extracted topics again.

  Parameters of the model: \<open>new RegExp(pattern, flags).test\<close> for a pattern of the allowlist file
  (\<open>None\<close> when the constructor throws), and \<open>localeCompare\<close>, whose order the language leaves to
  the host; what the code relies on is that it is a consistent comparator.
\<close>

subsection \<open>Data\<close>

datatype compiled_matcher = Keyword string | Regex "string \<Rightarrow> bool"

record compiled_topic =
  key :: string
  display_name :: string
  priority :: int
  matchers :: "compiled_matcher list"

record compiled_allowlist =
  topics :: "compiled_topic list"
  max_topics_per_event :: nat
  default_priority :: int
  muted_topics :: "string list"

record raw_matcher =
  rm_type :: string
  rm_value :: "string option"
  rm_pattern :: "string option"

record raw_topic =
  rt_key :: string
  rt_display_name :: string
  rt_priority :: "int option"
  rt_matchers :: "raw_matcher list"

record raw_allowlist =
  ra_max_topics_per_event :: "nat option"
  ra_regex_case_insensitive :: "bool option"
  ra_default_priority :: "int option"
  ra_topics :: "raw_topic list"
  ra_muted_topics :: "string list option"

text \<open>What the schema guarantees of a parsed file.\<close>

definition raw_allowlist_ok :: "raw_allowlist \<Rightarrow> bool" where
  "raw_allowlist_ok raw \<longleftrightarrow> ra_topics raw \<noteq> [] \<and> ra_max_topics_per_event raw \<noteq> Some 0 \<and>
     (\<forall>t \<in> set (ra_topics raw). rt_key t \<noteq> [] \<and> rt_display_name t \<noteq> [] \<and> rt_matchers t \<noteq> [] \<and>
        (\<forall>m \<in> set (rt_matchers t). rm_type m \<noteq> []))"

datatype allowlist_error =
    MissingValue string
  | MissingPattern string
  | InvalidRegex string string
  | UnsupportedMatcherType string string

type_synonym regex_compiler = "string \<Rightarrow> bool \<Rightarrow> (string \<Rightarrow> bool) option"

subsection \<open>Compiling the allowlist\<close>

definition compile_keyword_matcher :: "string \<Rightarrow> raw_matcher \<Rightarrow> allowlist_error + compiled_matcher" where
  "compile_keyword_matcher topic_key m =
     (case rm_value m of
        None \<Rightarrow> Inl (MissingValue topic_key)
      | Some v \<Rightarrow> if v = [] then Inl (MissingValue topic_key) else Inr (Keyword (to_lower v)))"

definition compile_regex_matcher ::
  "regex_compiler \<Rightarrow> string \<Rightarrow> raw_matcher \<Rightarrow> bool \<Rightarrow> allowlist_error + compiled_matcher" where
  "compile_regex_matcher rx topic_key m case_insensitive =
     (case rm_pattern m of
        None \<Rightarrow> Inl (MissingPattern topic_key)
      | Some pat \<Rightarrow>
          if pat = [] then Inl (MissingPattern topic_key)
          else (case rx pat case_insensitive of
              None \<Rightarrow> Inl (InvalidRegex topic_key pat)
            | Some f \<Rightarrow> Inr (Regex f)))"

definition compile_matcher ::
  "regex_compiler \<Rightarrow> string \<Rightarrow> raw_matcher \<Rightarrow> bool \<Rightarrow> allowlist_error + compiled_matcher" where
  "compile_matcher rx topic_key m case_insensitive =
     (let normalized_type = to_lower (trim (rm_type m)) in
      if normalized_type = ''keyword'' then compile_keyword_matcher topic_key m
      else if normalized_type = ''regex'' then compile_regex_matcher rx topic_key m case_insensitive
      else Inl (UnsupportedMatcherType topic_key (rm_type m)))"

definition compile_topic ::
  "regex_compiler \<Rightarrow> int \<Rightarrow> bool \<Rightarrow> raw_topic \<Rightarrow> allowlist_error + compiled_topic" where
  "compile_topic rx dflt case_insensitive t =
     (case map_error (\<lambda>m. compile_matcher rx (rt_key t) m case_insensitive) (rt_matchers t) of
        Inl e \<Rightarrow> Inl e
      | Inr ms \<Rightarrow> Inr \<lparr>key = rt_key t, display_name = rt_display_name t,
          priority = (case rt_priority t of Some p \<Rightarrow> p | None \<Rightarrow> dflt), matchers = ms\<rparr>)"

text \<open>\<open>loadAllowlist\<close>, from the parsed file on.\<close>

definition load_allowlist :: "regex_compiler \<Rightarrow> raw_allowlist \<Rightarrow> allowlist_error + compiled_allowlist" where
  "load_allowlist rx raw =
     (let default_prio = (case ra_default_priority raw of Some p \<Rightarrow> p | None \<Rightarrow> 50);
          case_insensitive = (case ra_regex_case_insensitive raw of Some b \<Rightarrow> b | None \<Rightarrow> True);
          max_topics = (case ra_max_topics_per_event raw of Some n \<Rightarrow> n | None \<Rightarrow> 5);
          muted = js_set (case ra_muted_topics raw of Some ms \<Rightarrow> ms | None \<Rightarrow> [])
      in case map_error (compile_topic rx default_prio case_insensitive) (ra_topics raw) of
           Inl e \<Rightarrow> Inl e
         | Inr ts \<Rightarrow> Inr \<lparr>topics = ts, max_topics_per_event = max_topics,
             default_priority = default_prio, muted_topics = muted\<rparr>)"

subsection \<open>Matching\<close>

record matcher_context =
  mc_content :: string
  lower_content :: string
  lower_title :: string
  lower_text :: string
  lower_url :: string

definition matches_compiled_matcher :: "compiled_matcher \<Rightarrow> matcher_context \<Rightarrow> bool" where
  "matches_compiled_matcher m ctx =
     (case m of Keyword v \<Rightarrow> str_includes (lower_content ctx) v | Regex f \<Rightarrow> f (mc_content ctx))"

definition not_word_sep :: "char \<Rightarrow> bool" where
  "not_word_sep c \<longleftrightarrow> (let n = (of_char c :: nat) in \<not> (97 \<le> n \<and> n \<le> 122 \<or> 48 \<le> n \<and> n \<le> 57))"

text \<open>\<open>(^|[^a-z0-9])term([^a-z0-9]|$)\<close>\<close>

definition whole_word_re :: "string \<Rightarrow> re" where
  "whole_word_re t = cats [Alt Bol (Cls not_word_sep), lit t, Alt (Cls not_word_sep) Eol]"

definition count_whole_word :: "string \<Rightarrow> string \<Rightarrow> nat" where
  "count_whole_word s t = length (re_match_g (whole_word_re t) s)"

definition has_whole_word :: "string \<Rightarrow> string \<Rightarrow> bool" where
  "has_whole_word s t \<longleftrightarrow> count_whole_word s t > 0"

definition has_any_pattern :: "string \<Rightarrow> re list \<Rightarrow> bool" where
  "has_any_pattern s ps \<longleftrightarrow> (\<exists>r \<in> set ps. re_test r s)"

definition words_re :: "re list \<Rightarrow> re" where
  "words_re rs = cats [Wb, alts rs, Wb]"

definition plural :: "string \<Rightarrow> re" where
  "plural w = Cat (lit w) (opt (lit ''s''))"

definition kafka_technical_patterns :: "re list" where
  "kafka_technical_patterns =
     [cats [Wb, lit ''apache'', ws_plus, lit ''kafka'', Wb],
      cats [Wb, lit ''redpanda'', Wb],
      cats [Wb, lit ''kafka'', ws_plus,
        alts [plural ''stream'', lit ''connect'', plural ''broker'', lit ''cluster'', lit ''consumer'',
          lit ''producer'', plural ''topic'', plural ''partition''], Wb],
      words_re [lit ''confluent'', cats [lit ''schema'', ws_plus, lit ''registry''], lit ''ksql''],
      words_re [Cat (lit ''stream'') (opt (lit ''ing'')), cats [lit ''event'', ws_plus, lit ''stream'']]]"

definition otel_technical_patterns :: "re list" where
  "otel_technical_patterns =
     [words_re [plural ''trace'', lit ''tracing'', plural ''span'', plural ''metric'', lit ''telemetry'',
        lit ''instrumentation''],
      words_re [lit ''collector'', lit ''exporter'', lit ''sdk'', lit ''semconv'', lit ''otlp''],
      words_re [lit ''prometheus'', lit ''grafana'', lit ''tempo'', lit ''jaeger'']]"

subsection \<open>Relevance rules\<close>

datatype decision = Allow | Deny | NextRule

fun evaluate_topic_relevance_rules :: "('c \<Rightarrow> decision) list \<Rightarrow> 'c \<Rightarrow> bool \<Rightarrow> bool" where
  "evaluate_topic_relevance_rules [] ctx fallback = fallback"
| "evaluate_topic_relevance_rules (r # rs) ctx fallback =
     (case r ctx of
        NextRule \<Rightarrow> evaluate_topic_relevance_rules rs ctx fallback
      | d \<Rightarrow> d = Allow)"

record kafka_context =
  kc_content :: string
  kc_lower_url :: string
  kafka_count :: nat
  kc_technical :: bool
  has_redpanda :: bool
  has_apache_kafka :: bool
  has_peter_kafka :: bool
  has_kafkaesque :: bool

definition create_kafka_context :: "matcher_context \<Rightarrow> kafka_context" where
  "create_kafka_context ctx =
     (let c = trim (lower_title ctx @ '' '' @ lower_text ctx) in
      \<lparr>kc_content = c, kc_lower_url = lower_url ctx,
       kafka_count = count_whole_word c ''kafka'',
       kc_technical = has_any_pattern c kafka_technical_patterns,
       has_redpanda = has_whole_word c ''redpanda'',
       has_apache_kafka = has_whole_word c ''apache kafka'',
       has_peter_kafka = has_whole_word c ''peter kafka'',
       has_kafkaesque = has_whole_word c ''kafkaesque''\<rparr>)"

definition kafka_rules :: "(kafka_context \<Rightarrow> decision) list" where
  "kafka_rules =
     [\<lambda>c. if length (kc_content c) = 0 then Deny else NextRule,
      \<lambda>c. if has_redpanda c \<or> has_apache_kafka c then Allow else NextRule,
      \<lambda>c. if kafka_count c = 0 then Deny else NextRule,
      \<lambda>c. if \<not> has_peter_kafka c \<or> kc_technical c then NextRule else Deny,
      \<lambda>c. if \<not> has_kafkaesque c \<or> kc_technical c then NextRule else Deny,
      \<lambda>c. if \<not> str_includes (kc_lower_url c) ''techmeme.com'' \<or> kc_technical c then NextRule else Deny,
      \<lambda>c. if kc_technical c then Allow else NextRule,
      \<lambda>c. if kafka_count c \<ge> 2 \<and> \<not> has_peter_kafka c then Allow else Deny]"

definition is_kafka_topic_relevant :: "matcher_context \<Rightarrow> bool" where
  "is_kafka_topic_relevant ctx =
     evaluate_topic_relevance_rules kafka_rules (create_kafka_context ctx) False"

record otel_context =
  oc_content :: string
  has_opentelemetry :: bool
  has_otel :: bool
  oc_technical :: bool

definition create_otel_context :: "matcher_context \<Rightarrow> otel_context" where
  "create_otel_context ctx =
     (let c = trim (lower_title ctx @ '' '' @ lower_text ctx) in
      \<lparr>oc_content = c, has_opentelemetry = has_whole_word c ''opentelemetry'',
       has_otel = has_whole_word c ''otel'',
       oc_technical = has_any_pattern c otel_technical_patterns\<rparr>)"

definition otel_rules :: "(otel_context \<Rightarrow> decision) list" where
  "otel_rules =
     [\<lambda>c. if length (oc_content c) = 0 then Deny else NextRule,
      \<lambda>c. if has_opentelemetry c then Allow else NextRule,
      \<lambda>c. if has_otel c then NextRule else Deny,
      \<lambda>c. if oc_technical c then Allow else Deny]"

definition is_otel_topic_relevant :: "matcher_context \<Rightarrow> bool" where
  "is_otel_topic_relevant ctx =
     evaluate_topic_relevance_rules otel_rules (create_otel_context ctx) False"

text \<open>
  \<open>TOPIC_RELEVANCE_STRATEGIES[topicKey] ?? ALWAYS_RELEVANT\<close>, called with the context: the table is an
  object literal, so a topic key that names a member of \<open>Object.prototype\<close> calls that member
  without a receiver. \<open>constructor\<close> and \<open>toString\<close> return a truthy value, the others throw.
\<close>

definition passes_topic_relevance_filter :: "string \<Rightarrow> matcher_context \<Rightarrow> js_fault + bool" where
  "passes_topic_relevance_filter topic_key ctx =
     (if topic_key = ''data.kafka'' then Inr (is_kafka_topic_relevant ctx)
      else if topic_key = ''observability.opentelemetry'' then Inr (is_otel_topic_relevant ctx)
      else if topic_key = ''constructor'' \<or> topic_key = ''toString'' then Inr True
      else if topic_key \<in> set object_prototype_keys then Inl TypeError
      else Inr True)"

subsection \<open>Extracting the topics of an event\<close>

record topic_event =
  ev_title :: "string option"
  ev_text :: string
  ev_url :: "string option"

definition create_matcher_context :: "topic_event \<Rightarrow> matcher_context" where
  "create_matcher_context ev =
     (let title = (case ev_title ev of Some t \<Rightarrow> t | None \<Rightarrow> []);
          url = (case ev_url ev of Some u \<Rightarrow> u | None \<Rightarrow> []);
          content = title @ '' '' @ ev_text ev
      in \<lparr>mc_content = content, lower_content = to_lower content, lower_title = to_lower title,
          lower_text = to_lower (ev_text ev), lower_url = to_lower url\<rparr>)"

type_synonym topic_match = "string \<times> int"

text \<open>Step 1: all matching topics.\<close>

fun collect_matches :: "matcher_context \<Rightarrow> string list \<Rightarrow> compiled_topic list \<Rightarrow> js_fault + topic_match list" where
  "collect_matches ctx muted [] = Inr []"
| "collect_matches ctx muted (t # ts) =
     (if key t \<in> set muted then collect_matches ctx muted ts
      else if \<not> list_ex (\<lambda>m. matches_compiled_matcher m ctx) (matchers t) then collect_matches ctx muted ts
      else (case passes_topic_relevance_filter (key t) ctx of
          Inl e \<Rightarrow> Inl e
        | Inr passes \<Rightarrow>
            if \<not> passes then collect_matches ctx muted ts
            else (case collect_matches ctx muted ts of
                Inl e \<Rightarrow> Inl e
              | Inr ms \<Rightarrow> Inr ((key t, priority t) # ms))))"

type_synonym locale_compare = "string \<Rightarrow> string \<Rightarrow> int"

text \<open>Step 2: by priority, highest first, then by key.\<close>

definition topic_match_cmp :: "locale_compare \<Rightarrow> topic_match \<Rightarrow> topic_match \<Rightarrow> int" where
  "topic_match_cmp lc a b = (if snd b \<noteq> snd a then snd b - snd a else lc (fst a) (fst b))"

text \<open>Step 3: the first \<open>maxTopicsPerEvent\<close>.\<close>

definition extract_topics :: "locale_compare \<Rightarrow> topic_event \<Rightarrow> compiled_allowlist \<Rightarrow> js_fault + string list" where
  "extract_topics lc ev al =
     (case collect_matches (create_matcher_context ev) (muted_topics al) (topics al) of
        Inl e \<Rightarrow> Inl e
      | Inr ms \<Rightarrow>
          Inr (map fst (take (max_topics_per_event al) (js_sort (topic_match_cmp lc) ms))))"

text \<open>\<open>filterTrackedTags\<close> of the trends service; a later topic of the same key replaces an earlier one.\<close>

definition topic_by_key :: "compiled_topic list \<Rightarrow> (string, compiled_topic) omap" where
  "topic_by_key ts = foldl (\<lambda>m t. om_set m (key t) t) [] ts"

definition topic_cmp :: "locale_compare \<Rightarrow> compiled_topic \<Rightarrow> compiled_topic \<Rightarrow> int" where
  "topic_cmp lc a b = (if priority b \<noteq> priority a then priority b - priority a else lc (key a) (key b))"

definition filter_tracked_tags :: "locale_compare \<Rightarrow> string list option \<Rightarrow> compiled_allowlist \<Rightarrow> string list" where
  "filter_tracked_tags lc tags al =
     (case tags of
        None \<Rightarrow> []
      | Some ts \<Rightarrow>
          if ts = [] then []
          else
            let deduped_keys = js_set (filter (\<lambda>t. length t > 0) (map trim ts));
                by_key = topic_by_key (topics al);
                matched = concat (map (\<lambda>k. if k \<in> set (muted_topics al) then []
                    else (case map_of by_key k of None \<Rightarrow> [] | Some t \<Rightarrow> [t])) deduped_keys)
            in map key (take (max_topics_per_event al) (js_sort (topic_cmp lc) matched)))"

subsection \<open>URLs, hashtags and identifiers in a text\<close>

text \<open>\<open>/https?:\/\/[^\s<>"{}|\\^`\[\]]+/gi\<close>\<close>

definition url_char :: "char \<Rightarrow> bool" where
  "url_char c \<longleftrightarrow> \<not> is_ws c \<and>
     c \<notin> set [CHR ''<'', CHR ''>'', CHR 0x22, CHR ''{'', CHR ''}'', CHR ''|'', CHR 0x5C, CHR ''^'', CHR 0x60,
       CHR ''['', CHR '']'']"

definition url_re :: re where
  "url_re = ci (cats [lit ''http'', opt (lit ''s''), lit ''://'', plus_re (Cls url_char)])"

definition extract_urls :: "string \<Rightarrow> string list" where
  "extract_urls text = js_set (re_match_g url_re text)"

text \<open>\<open>/#([A-Za-z][A-Za-z0-9_]{1,30})/g\<close>; the group is the match without the number sign.\<close>

definition ascii_letter :: "char \<Rightarrow> bool" where
  "ascii_letter c \<longleftrightarrow> (let n = (of_char c :: nat) in 65 \<le> n \<and> n \<le> 90 \<or> 97 \<le> n \<and> n \<le> 122)"

definition hashtag_re :: re where
  "hashtag_re = cats [lit ''#'', Cls ascii_letter, rep_between 1 30 (Cls word_char)]"

definition extract_hashtags :: "string \<Rightarrow> string list" where
  "extract_hashtags text = js_set (map (\<lambda>m. to_lower (tl m)) (re_match_g hashtag_re text))"

definition upper_ascii :: "char \<Rightarrow> char" where
  "upper_ascii c = (let n = (of_char c :: nat) in if 97 \<le> n \<and> n \<le> 122 then char_of (n - 32) else c)"

definition cve_re :: re where
  "cve_re = cats [Wb, lit ''CVE-'', rep_between 4 4 (Cls digit), lit ''-'', rep_between 4 7 (Cls digit), Wb]"

definition ghsa_char :: "char \<Rightarrow> bool" where
  "ghsa_char c \<longleftrightarrow> c \<in> set ''23456789cfghjmpqrvwx''"

definition ghsa_group :: re where
  "ghsa_group = Cat (lit ''-'') (rep_between 4 4 (Cls ghsa_char))"

definition ghsa_re :: re where
  "ghsa_re = Cat (lit ''GHSA'') (rep_between 3 3 ghsa_group)"

record extracted_entities =
  cves :: "string list"
  ghsas :: "string list"

definition extract_entities :: "string \<Rightarrow> extracted_entities" where
  "extract_entities text =
     \<lparr>cves = js_sort code_unit_cmp (js_set (map (map upper_ascii) (re_match_g cve_re text))),
      ghsas = js_sort code_unit_cmp (js_set (map (map upper_ascii) (re_match_g ghsa_re text)))\<rparr>"

subsection \<open>Comparators of the component\<close>

lemma comparator_topic_match: "comparator lc \<Longrightarrow> comparator (topic_match_cmp lc)"
proof -
  assume lc: "comparator lc"
  have "topic_match_cmp lc = lex_cmp (desc_cmp snd) (\<lambda>a b. lc (fst a) (fst b))"
    by (intro ext) (simp add: topic_match_cmp_def lex_cmp_def desc_cmp_def)
  then show ?thesis by (simp add: comparator_lex comparator_desc comparator_on lc)
qed

lemma comparator_topic: "comparator lc \<Longrightarrow> comparator (topic_cmp lc)"
proof -
  assume lc: "comparator lc"
  have "topic_cmp lc = lex_cmp (desc_cmp priority) (\<lambda>a b. lc (key a) (key b))"
    by (intro ext) (simp add: topic_cmp_def lex_cmp_def desc_cmp_def)
  then show ?thesis by (simp add: comparator_lex comparator_desc comparator_on lc)
qed

subsection \<open>What is collected\<close>

definition topic_matches :: "matcher_context \<Rightarrow> string list \<Rightarrow> compiled_topic \<Rightarrow> bool" where
  "topic_matches ctx muted t \<longleftrightarrow>
     key t \<notin> set muted \<and> (\<exists>m \<in> set (matchers t). matches_compiled_matcher m ctx)"

definition topic_selected :: "matcher_context \<Rightarrow> string list \<Rightarrow> compiled_topic \<Rightarrow> bool" where
  "topic_selected ctx muted t \<longleftrightarrow>
     topic_matches ctx muted t \<and> passes_topic_relevance_filter (key t) ctx = Inr True"

lemma collect_matches_Inr:
  "collect_matches ctx muted ts = Inr ms \<longleftrightarrow>
     (\<forall>t \<in> set ts. topic_matches ctx muted t \<longrightarrow> passes_topic_relevance_filter (key t) ctx \<noteq> Inl TypeError) \<and>
     ms = map (\<lambda>t. (key t, priority t)) (filter (topic_selected ctx muted) ts)"
proof (induction ts arbitrary: ms)
  case (Cons t ts)
  have m: "topic_matches ctx muted t \<longleftrightarrow>
      key t \<notin> set muted \<and> list_ex (\<lambda>m. matches_compiled_matcher m ctx) (matchers t)"
    by (auto simp: topic_matches_def list_ex_iff)
  show ?case
  proof (cases "topic_matches ctx muted t")
    case False
    then have "\<not> topic_selected ctx muted t" by (simp add: topic_selected_def)
    moreover have "collect_matches ctx muted (t # ts) = collect_matches ctx muted ts"
      using False m by auto
    ultimately show ?thesis using False Cons.IH by simp
  next
    case True
    note T = this
    show ?thesis
    proof (cases "passes_topic_relevance_filter (key t) ctx")
      case (Inl e)
      then show ?thesis using T m by (cases e) auto
    next
      case (Inr b)
      then show ?thesis using T m Cons.IH
        by (cases b; cases "collect_matches ctx muted ts") (auto simp: topic_selected_def)
    qed
  qed
qed auto

lemma collect_matches_Inl: "collect_matches ctx muted ts = Inl e \<longleftrightarrow>
    (\<exists>t \<in> set ts. topic_matches ctx muted t \<and> passes_topic_relevance_filter (key t) ctx = Inl TypeError)"
proof (cases "collect_matches ctx muted ts")
  case (Inl f)
  then have "\<not> (\<exists>ms. collect_matches ctx muted ts = Inr ms)" by simp
  then have "\<exists>t \<in> set ts. topic_matches ctx muted t \<and> passes_topic_relevance_filter (key t) ctx = Inl TypeError"
    unfolding collect_matches_Inr by blast
  then show ?thesis using Inl by (cases e; cases f) simp
next
  case (Inr ms)
  then show ?thesis using collect_matches_Inr [of ctx muted ts ms] by auto
qed

lemma topic_match_cmp_pairs:
  "topic_match_cmp lc (key t, priority t) (key u, priority u) = topic_cmp lc t u"
  by (simp add: topic_match_cmp_def topic_cmp_def)

lemma extract_topics_Inr:
  assumes "extract_topics lc ev al = Inr ks"
  shows "ks = map key (take (max_topics_per_event al) (js_sort (topic_cmp lc)
    (filter (topic_selected (create_matcher_context ev) (muted_topics al)) (topics al))))"
  using assms
  by (auto simp: extract_topics_def collect_matches_Inr js_sort_map topic_match_cmp_pairs take_map
      split: sum.splits)

subsection \<open>Properties\<close>

text \<open>
  C22. \<open>extractTopics\<close> is deterministic in the sense its comment claims: the order in which the
  allowlist file lists its topics has no influence on the result, errors included. This needs that
  \<open>localeCompare\<close> orders the keys of the allowlist totally and separates different ones.
\<close>

theorem extract_topics_order_irrelevant:
  assumes "comparator lc" and "mset ts = mset (topics al)"
    and "\<forall>a \<in> set (topics al). \<forall>b \<in> set (topics al). lc (key a) (key b) = 0 \<longrightarrow> key a = key b"
  shows "extract_topics lc ev (al\<lparr>topics := ts\<rparr>) = extract_topics lc ev al"
proof -
  let ?c = "create_matcher_context ev"
  let ?sel = "topic_selected ?c (muted_topics al)"
  let ?pair = "\<lambda>t. (key t, priority t)"
  have S: "set ts = set (topics al)" using assms(2) by (metis set_mset_mset)
  show ?thesis
  proof (cases "collect_matches ?c (muted_topics al) (topics al)")
    case (Inl e)
    then have "collect_matches ?c (muted_topics al) ts = Inl e"
      unfolding collect_matches_Inl S .
    with Inl show ?thesis unfolding extract_topics_def by (simp cong: sum.case_cong)
  next
    case (Inr ms)
    then have ms: "ms = map ?pair (filter ?sel (topics al))" by (simp add: collect_matches_Inr)
    have "js_sort (topic_match_cmp lc) (map ?pair (filter ?sel ts)) = js_sort (topic_match_cmp lc) ms"
    proof (rule comparator.js_sort_order_irrelevant [OF comparator_topic_match [OF assms(1)]])
      show "mset (map ?pair (filter ?sel ts)) = mset ms"
        unfolding ms by (simp add: mset_filter assms(2))
      fix a b
      assume "a \<in> set (map ?pair (filter ?sel ts))" "b \<in> set (map ?pair (filter ?sel ts))"
        "topic_match_cmp lc a b = 0"
      then obtain t u where tu: "a = (key t, priority t)" "b = (key u, priority u)"
        "t \<in> set (topics al)" "u \<in> set (topics al)" "topic_match_cmp lc a b = 0"
        unfolding S [symmetric] by auto
      then have "priority t = priority u" "lc (key t) (key u) = 0"
        by (simp_all add: topic_match_cmp_def split: if_splits)
      with tu assms(3) show "a = b" by metis
    qed
    moreover have "collect_matches ?c (muted_topics al) ts = Inr (map ?pair (filter ?sel ts))"
      using Inr unfolding collect_matches_Inr S by simp
    ultimately show ?thesis using Inr by (simp add: extract_topics_def)
  qed
qed

text \<open>
  C23. What \<open>extractTopics\<close> returns are the keys of the best topics among those that are not muted,
  that one of their matchers matches and that pass the relevance filter: as many as
  \<open>maxTopicsPerEvent\<close> allows, by priority and then by key, and no topic left out ranks before one
  that is returned.
\<close>

theorem extract_topics_ranked:
  assumes "comparator lc" and "extract_topics lc ev al = Inr ks"
  shows "\<exists>ts. ks = map key ts \<and>
    ranked_prefix (max_topics_per_event al) (topic_cmp lc)
      (filter (topic_selected (create_matcher_context ev) (muted_topics al)) (topics al)) ts"
  using extract_topics_Inr [OF assms(2)] ranked_prefix_take_js_sort [OF comparator_topic [OF assms(1)]]
  by blast

text \<open>
  The filter of the trends service accepts what the collector extracted: applied to the topics
  of an event under the same allowlist, it gives them back unchanged, when the keys of the allowlist are distinct
  and trimmed. Its schema demands neither: of a key that is listed twice the filter drops one.
\<close>

theorem filter_tracked_tags_extracted:
  assumes "comparator lc" and "distinct (map key (topics al))"
    and "\<forall>t \<in> set (topics al). trim (key t) = key t \<and> key t \<noteq> []"
    and "extract_topics lc ev al = Inr ks"
  shows "filter_tracked_tags lc (Some ks) al = ks"
proof -
  let ?all = "filter (topic_selected (create_matcher_context ev) (muted_topics al)) (topics al)"
  define sel where "sel = take (max_topics_per_event al) (js_sort (topic_cmp lc) ?all)"
  have ks: "ks = map key sel" using extract_topics_Inr [OF assms(4)] by (simp add: sel_def)
  note rp = ranked_prefix_take_js_sort [OF comparator_topic [OF assms(1)], of "max_topics_per_event al" ?all,
      folded sel_def]
  have sub: "set sel \<subseteq> set ?all" by (rule ranked_prefix_subset [OF rp])
  have d: "distinct ks" unfolding ks
    by (rule ranked_prefix_distinct [OF rp]) (simp add: distinct_map_filter assms(2))
  have trimmed: "map trim ks = ks" "filter (\<lambda>t. 0 < length t) ks = ks"
    using sub assms(3) by (auto simp: ks map_idI filter_id_conv)
  have lookup: "map_of (topic_by_key (topics al)) (key t) = Some t" if "t \<in> set (topics al)" for t
    using that assms(2) by (simp add: topic_by_key_def foldl_om_set_fresh map_of_eq_Some_iff o_def)
  have matched: "concat (map (\<lambda>k. if k \<in> set (muted_topics al) then []
      else (case map_of (topic_by_key (topics al)) k of None \<Rightarrow> [] | Some t \<Rightarrow> [t])) (map key ts)) = ts"
    if "set ts \<subseteq> set ?all" for ts
    using that by (induction ts) (auto simp: lookup topic_selected_def topic_matches_def)
  have "sorted_wrt (\<lambda>a b. topic_cmp lc a b \<le> 0) sel" "length sel \<le> max_topics_per_event al"
    using rp by (auto simp: ranked_prefix_def)
  then have "map key (take (max_topics_per_event al) (js_sort (topic_cmp lc) sel)) = ks"
    by (simp add: js_sort_sorted ks)
  moreover have "filter_tracked_tags lc (Some ks) al = map key (take (max_topics_per_event al)
      (js_sort (topic_cmp lc) sel))"
    using matched [OF sub] d
    by (simp add: filter_tracked_tags_def Let_def trimmed [unfolded length_greater_0_conv] flip: ks) (simp add: ks)
  ultimately show ?thesis by simp
qed

definition sample_allowlist :: compiled_allowlist where
  "sample_allowlist = \<lparr>topics =
     [\<lparr>key = ''ai.llm'', display_name = ''LLM'', priority = 70, matchers = [Keyword ''llm'', Keyword ''gpt'']\<rparr>,
      \<lparr>key = ''data.kafka'', display_name = ''Kafka'', priority = 60, matchers = [Keyword ''kafka'']\<rparr>,
      \<lparr>key = ''ai.agents'', display_name = ''Agents'', priority = 70, matchers = [Keyword ''agent'']\<rparr>],
     max_topics_per_event = 2, default_priority = 50, muted_topics = []\<rparr>"

definition sample_event :: topic_event where
  "sample_event = \<lparr>ev_title = Some ''GPT agents'', ev_text = ''read Apache Kafka topics'', ev_url = None\<rparr>"

lemma sample_extracted:
  "extract_topics code_unit_cmp sample_event sample_allowlist = Inr [''ai.agents'', ''ai.llm'']"
  by code_simp

lemma extract_topics_order_irrelevant_witness:
  "extract_topics code_unit_cmp sample_event
     (sample_allowlist\<lparr>topics := rev (topics sample_allowlist)\<rparr>) = Inr [''ai.agents'', ''ai.llm'']"
  using extract_topics_order_irrelevant [of code_unit_cmp "rev (topics sample_allowlist)" sample_allowlist sample_event]
  by (simp add: code_unit.comparator_axioms code_unit_cmp_zero sample_extracted)

lemma extract_topics_ranked_witness:
  "\<exists>ts. [''ai.agents'', ''ai.llm''] = map key ts \<and>
    ranked_prefix (max_topics_per_event sample_allowlist) (topic_cmp code_unit_cmp)
      (filter (topic_selected (create_matcher_context sample_event) (muted_topics sample_allowlist))
        (topics sample_allowlist)) ts"
  by (rule extract_topics_ranked [OF code_unit.comparator_axioms sample_extracted])

lemma filter_tracked_tags_extracted_witness:
  "filter_tracked_tags code_unit_cmp (Some [''ai.agents'', ''ai.llm'']) sample_allowlist = [''ai.agents'', ''ai.llm'']"
proof -
  have "distinct (map key (topics sample_allowlist))"
    "\<forall>t \<in> set (topics sample_allowlist). trim (key t) = key t \<and> key t \<noteq> []"
    by code_simp+
  from filter_tracked_tags_extracted [OF code_unit.comparator_axioms this sample_extracted] show ?thesis .
qed

text \<open>
  C40. The rule chain for the topic of Kafka in closed form: an empty text is never relevant; the two
  explicit names always are; apart from that the word must occur, and then either a technical term
  occurs too, or the word occurs twice and nothing suggests another meaning.
\<close>

theorem is_kafka_topic_relevant_iff:
  "is_kafka_topic_relevant ctx \<longleftrightarrow>
    (let c = create_kafka_context ctx in
     kc_content c \<noteq> [] \<and>
     (has_redpanda c \<or> has_apache_kafka c \<or>
      kafka_count c > 0 \<and>
      (kc_technical c \<or>
       kafka_count c \<ge> 2 \<and> \<not> has_peter_kafka c \<and> \<not> has_kafkaesque c \<and>
       \<not> str_includes (kc_lower_url c) ''techmeme.com'')))"
  unfolding is_kafka_topic_relevant_def kafka_rules_def Let_def by simp

lemma compile_matcher_Keyword:
  "compile_matcher rx k m icase = Inr (Keyword v) \<Longrightarrow> v \<noteq> [] \<and> to_lower v = v"
  by (auto simp: compile_matcher_def compile_keyword_matcher_def compile_regex_matcher_def Let_def
      to_lower_def lower_char_idem split: if_splits option.splits)

text \<open>
  C39. A loaded allowlist has the topics of the file, in order, each with a matcher for every matcher
  of the file; its limit is positive, and every keyword it matches with is in lower case, the form
  in which \<open>extractTopics\<close> compares.
\<close>

theorem load_allowlist_ok:
  assumes "raw_allowlist_ok raw" and "load_allowlist rx raw = Inr al"
  shows "map key (topics al) = map rt_key (ra_topics raw)
    \<and> map (length \<circ> matchers) (topics al) = map (length \<circ> rt_matchers) (ra_topics raw)
    \<and> 0 < max_topics_per_event al
    \<and> (\<forall>t \<in> set (topics al). matchers t \<noteq> [] \<and>
        (\<forall>v. Keyword v \<in> set (matchers t) \<longrightarrow> v \<noteq> [] \<and> to_lower v = v))"
proof -
  from assms(2) obtain dflt icase where l: "list_all2 (\<lambda>r t. compile_topic rx dflt icase r = Inr t) (ra_topics raw) (topics al)"
    and m: "max_topics_per_event al = (case ra_max_topics_per_event raw of Some n \<Rightarrow> n | None \<Rightarrow> 5)"
    unfolding load_allowlist_def Let_def by (fastforce simp: map_error_Inr split: sum.splits)
  have topic: "key t = rt_key r \<and> length (matchers t) = length (rt_matchers r) \<and>
      (\<forall>v. Keyword v \<in> set (matchers t) \<longrightarrow> v \<noteq> [] \<and> to_lower v = v)"
    if c: "compile_topic rx dflt icase r = Inr t" for r t
  proof -
    from c obtain ms where ms: "map_error (\<lambda>m. compile_matcher rx (rt_key r) m icase) (rt_matchers r) = Inr ms"
      and t: "key t = rt_key r" "matchers t = ms"
      by (auto simp: compile_topic_def split: sum.splits)
    from ms have l2: "list_all2 (\<lambda>m c. compile_matcher rx (rt_key r) m icase = Inr c) (rt_matchers r) ms"
      by (simp add: map_error_Inr)
    then have "\<exists>m. compile_matcher rx (rt_key r) m icase = Inr c" if "c \<in> set ms" for c
      using that list_all2_nthD2 [OF l2] by (auto simp: in_set_conv_nth)
    then show ?thesis using compile_matcher_Keyword t list_all2_lengthD [OF l2] by metis
  qed
  have len: "length (topics al) = length (ra_topics raw)" using list_all2_lengthD [OF l] by simp
  have at: "compile_topic rx dflt icase (ra_topics raw ! i) = Inr (topics al ! i)" if "i < length (topics al)" for i
    using that l by (simp add: list_all2_conv_all_nth len)
  have "map key (topics al) = map rt_key (ra_topics raw)"
    "map (length \<circ> matchers) (topics al) = map (length \<circ> rt_matchers) (ra_topics raw)"
    by (rule nth_equalityI; use topic [OF at] in \<open>simp add: len\<close>)+
  moreover have "matchers t \<noteq> [] \<and> (\<forall>v. Keyword v \<in> set (matchers t) \<longrightarrow> v \<noteq> [] \<and> to_lower v = v)"
    if "t \<in> set (topics al)" for t
  proof -
    from that obtain i where i: "i < length (topics al)" "t = topics al ! i" by (auto simp: in_set_conv_nth)
    then have "rt_matchers (ra_topics raw ! i) \<noteq> []" using assms(1) len by (simp add: raw_allowlist_ok_def)
    then show ?thesis using topic [OF at [OF i(1)]] i(2) by (metis length_0_conv)
  qed
  ultimately show ?thesis using assms(1) by (auto simp: m raw_allowlist_ok_def split: option.splits)
qed

definition sample_raw_allowlist :: raw_allowlist where
  "sample_raw_allowlist = \<lparr>ra_max_topics_per_event = None, ra_regex_case_insensitive = None,
     ra_default_priority = Some 10,
     ra_topics = [\<lparr>rt_key = ''k'', rt_display_name = ''K'', rt_priority = None,
       rt_matchers = [\<lparr>rm_type = '' Keyword'', rm_value = Some ''LLM'', rm_pattern = None\<rparr>]\<rparr>],
     ra_muted_topics = None\<rparr>"

lemma load_allowlist_ok_witness:
  "\<exists>al. load_allowlist (\<lambda>_ _. None) sample_raw_allowlist = Inr al \<and> map key (topics al) = [''k'']
    \<and> 0 < max_topics_per_event al"
proof (cases "load_allowlist (\<lambda>_ _. None) sample_raw_allowlist")
  case (Inl e)
  moreover have "\<not> isl (load_allowlist (\<lambda>_ _. None) sample_raw_allowlist)" by code_simp
  ultimately show ?thesis by simp
next
  case (Inr al)
  have ok: "raw_allowlist_ok sample_raw_allowlist" by code_simp
  have "map rt_key (ra_topics sample_raw_allowlist) = [''k'']" by code_simp
  with load_allowlist_ok [OF ok Inr] Inr show ?thesis by auto
qed

text \<open>
  A hashtag is reported once, in lower case, without the number sign; it stands after a number
  sign in the text, begins with a letter, has 2 to 31 characters, all of them word characters.
\<close>

theorem extract_hashtags_shape:
  assumes "h \<in> set (extract_hashtags text)"
  shows "\<exists>u w v. text = u @ ''#'' @ w @ v \<and> h = to_lower w \<and> 2 \<le> length w \<and> length w \<le> 31
    \<and> ascii_letter (hd w) \<and> list_all word_char w"
proof -
  from assms obtain x where x: "x \<in> set (re_match_g hashtag_re text)" "h = to_lower (tl x)"
    by (auto simp: extract_hashtags_def)
  from match_all_sound [OF x(1) [unfolded re_match_g_def]] obtain p q
    where p: "reach (None, text) p" "matches hashtag_re p q" "snd p = x @ snd q" by auto
  from p(2) obtain s1 s2 where s: "matches (lit ''#'') p s1" "matches (Cls ascii_letter) s1 s2"
      "matches (rep_between 1 30 (Cls word_char)) s2 q"
    unfolding hashtag_re_def cats.simps matches_cat_iff by metis
  from s(1) have 1: "snd p = ''#'' @ snd s1" by auto
  from s(2) obtain c where 2: "snd s1 = c # snd s2" "ascii_letter c" by auto
  from matches_rep_between [OF s(3)] obtain w
    where 3: "snd s2 = w @ snd q" "1 \<le> length w" "length w \<le> 30" "list_all word_char w" by auto
  from p(3) 1 2 3 have xs: "x = CHR ''#'' # c # w" by simp
  from p(1) obtain u where u: "text = u @ snd p" by (auto simp: reach_def)
  have "word_char c" using 2(2) by (auto simp: word_char_def ascii_letter_def Let_def)
  then show ?thesis using u p(3) 1 2 3 x(2) xs
    by (intro exI [of _ u] exI [of _ "c # w"] exI [of _ "snd q"]) auto
qed

lemma extract_hashtags_shape_witness:
  "\<exists>u w v. ''see #AIagents now'' = u @ ''#'' @ w @ v \<and> ''aiagents'' = to_lower w \<and> 2 \<le> length w \<and>
    length w \<le> 31 \<and> ascii_letter (hd w) \<and> list_all word_char w"
proof (rule extract_hashtags_shape)
  show "''aiagents'' \<in> set (extract_hashtags ''see #AIagents now'')" by code_simp
qed

end
