(* ===== verification/Budget.thy ===== *)
theory Budget
  imports JsBase
begin

section \<open>The daily budget (apps/brief/src/budget-ledger.ts, budget-mirror.ts)\<close>

text \<open>
  Several workers reserve, settle and release money of a daily budget. The truth is a Postgres table,
  a Redis key per date is a cache that is asked first. A ledger operation is a program over the calls
  it makes to the two services (\<open>bprog\<close>), so that one definition has a sequential run
  (\<open>run_prog\<close>) and a concurrent one, in which the calls of several programs interleave
  (\<open>run_schedule\<close>). A mirror command that the code starts without waiting for it is a program of
  its own that joins the pool.

  Postgres (through Prisma) and Redis are parameters: a record of operations on an unknown world.
  The locale \<open>budget_service\<close> states what is relied on: an operation that returns has done what is
  documented, an operation that throws has done it or nothing, and the cache may lose keys.
  Amounts are finite: the configuration admits no others, so the tests with \<open>isFinite\<close> are true.
  Numbers of the program and of Redis are taken to be exact; the columns of the table hold four
  decimals (\<open>Decimal(10, 4)\<close> in \<open>schema.prisma\<close>), so Postgres rounds what is stored in them
  (\<open>dec4\<close>). A value that is too large for a column makes the call fail.
\<close>

subsection \<open>Columns with four decimals\<close>

text \<open>Rounding to four decimals, a half away from zero.\<close>

definition dec4 :: "rat \<Rightarrow> rat" where
  "dec4 x = sgn x * of_int \<lfloor>10000 * \<bar>x\<bar> + 1 / 2\<rfloor> / 10000"

lemma dec4_examples: "dec4 (1 / 80000) = 0" "dec4 (5 / 100000) = 1 / 10000" "dec4 (- 5 / 100000) = - 1 / 10000"
    "dec4 (3 / 10) = 3 / 10" "dec4 (5 / 10) = 5 / 10" "dec4 (8 / 10) = 8 / 10"
  by code_simp+

lemma dec4_nonneg: "0 \<le> x \<Longrightarrow> dec4 x = of_int \<lfloor>10000 * x + 1 / 2\<rfloor> / 10000"
proof -
  have "\<lfloor>1 / 2 :: rat\<rfloor> = 0" by (simp add: floor_eq_iff)
  then show "0 \<le> x \<Longrightarrow> ?thesis" by (cases "x = 0") (simp_all add: dec4_def sgn_if)
qed

lemma dec4_zero [simp]: "dec4 0 = 0"
  by (simp add: dec4_def)

lemma dec4_ge_0: "0 \<le> x \<Longrightarrow> 0 \<le> dec4 x"
  by (simp add: dec4_nonneg)

lemma dec4_mono: "0 \<le> x \<Longrightarrow> x \<le> y \<Longrightarrow> dec4 x \<le> dec4 y"
  by (simp add: dec4_nonneg divide_right_mono floor_mono)

lemma dec4_of_int: "0 \<le> k \<Longrightarrow> dec4 (of_int k / 10000) = of_int k / 10000"
proof -
  have "\<lfloor>of_int k + (1 / 2 :: rat)\<rfloor> = k" by (simp add: floor_eq_iff)
  then show "0 \<le> k \<Longrightarrow> ?thesis" by (simp add: dec4_nonneg)
qed

lemma dec4_idem: "0 \<le> x \<Longrightarrow> dec4 (dec4 x) = dec4 x"
  by (metis dec4_nonneg dec4_of_int dec4_ge_0 divide_nonneg_pos of_int_0_le_iff zero_le_divide_iff zero_less_numeral less_le_not_le)

lemma dec4_close: "0 \<le> x \<Longrightarrow> \<bar>dec4 x - x\<bar> \<le> 1 / 20000"
proof -
  assume "0 \<le> x"
  then have "dec4 x * 10000 = of_int \<lfloor>10000 * x + 1 / 2\<rfloor>" by (simp add: dec4_nonneg)
  moreover have "of_int \<lfloor>10000 * x + 1 / 2\<rfloor> \<le> 10000 * x + 1 / 2" "10000 * x + 1 / 2 < of_int \<lfloor>10000 * x + 1 / 2\<rfloor> + 1"
    by linarith+
  ultimately show "\<bar>dec4 x - x\<bar> \<le> 1 / 20000" by linarith
qed

text \<open>The values such a column can hold, and what adding to one of them does.\<close>

definition stored_amount :: "rat \<Rightarrow> bool" where
  "stored_amount v \<longleftrightarrow> 0 \<le> v \<and> dec4 v = v"

lemma stored_dec4: "0 \<le> x \<Longrightarrow> stored_amount (dec4 x)"
  by (simp add: stored_amount_def dec4_ge_0 dec4_idem)

lemma dec4_add: "stored_amount v \<Longrightarrow> 0 \<le> a \<Longrightarrow> dec4 (v + a) = v + dec4 a"
proof -
  assume v: "stored_amount v" and a: "0 \<le> a"
  then obtain k where k: "v = of_int k / 10000" unfolding stored_amount_def by (metis dec4_nonneg)
  have "\<lfloor>10000 * (v + a) + 1 / 2\<rfloor> = k + \<lfloor>10000 * a + 1 / 2\<rfloor>"
    unfolding k by (simp add: algebra_simps flip: floor_add_int)
  with v a k show ?thesis by (simp add: dec4_nonneg stored_amount_def add_divide_distrib)
qed

subsection \<open>Data\<close>

record budget_row =
  spent_usd :: rat
  budget_usd :: rat
  request_count :: nat

text \<open>The conditions and updates of the \<open>updateMany\<close> and \<open>update\<close> calls of the code.\<close>

datatype guard = NoGuard | SpentAtMost rat | SpentAtLeast rat

datatype change =
    ReserveSpend rat
  | IncrementSpend rat
  | DecrementSpend rat
  | ClampSpend
  | MirrorSpend rat rat

datatype store_error = DuplicateDate | StoreError | UnexpectedResponse

text \<open>A value in a reply of Redis; a string is given by the number \<open>parseFloat\<close> reads in it.\<close>

datatype redis_value = VNumber rat | VString "rat option" | VOther

datatype redis_reply = VArray "redis_value list" | VScalar

record budget_reservation_result =
  reserved :: bool
  res_spent_usd :: rat

record reserve_budget_input =
  rb_date_key :: string
  rb_daily_budget_usd :: rat
  rb_amount_usd :: rat

record budget_mirror_input =
  bm_date_key :: string
  bm_daily_budget_usd :: rat
  bm_cached_spent_usd :: rat

record authorize_budget_input =
  ab_date_key :: string
  ab_daily_budget_usd :: rat
  ab_estimated_cost_usd :: rat

record brief_budget_decision =
  authorized :: bool
  d_date_key :: string
  d_daily_budget_usd :: rat
  d_reserved_cost_usd :: rat
  d_spent_usd :: rat

subsection \<open>Programs over the services\<close>

datatype 'a bprog =
    Done "store_error + 'a"
  | Upsert string budget_row "store_error + rat \<Rightarrow> 'a bprog"
  | UpdateMany string guard change "store_error + nat \<Rightarrow> 'a bprog"
  | FindSpent string "store_error + rat option \<Rightarrow> 'a bprog"
  | CreateRow string budget_row "store_error + unit \<Rightarrow> 'a bprog"
  | UpdateRow string change "store_error + unit \<Rightarrow> 'a bprog"
  | RunScript string rat rat "store_error + redis_reply \<Rightarrow> 'a bprog"
  | CacheSet string rat "store_error + unit \<Rightarrow> 'a bprog"
  | Spawn budget_mirror_input "'a bprog"

text \<open>\<open>await\<close> of a call: an error is thrown on.\<close>

definition awaiting :: "('r \<Rightarrow> 'a bprog) \<Rightarrow> store_error + 'r \<Rightarrow> 'a bprog" where
  "awaiting k x = (case x of Inl e \<Rightarrow> Done (Inl e) | Inr r \<Rightarrow> k r)"

lemma awaiting_simps [simp]: "awaiting k (Inl e) = Done (Inl e)" "awaiting k (Inr r) = k r"
  by (simp_all add: awaiting_def)

subsection \<open>The Postgres ledger\<close>

definition sync_budget_cache_best_effort :: "string \<Rightarrow> rat \<Rightarrow> 'a bprog \<Rightarrow> 'a bprog" where
  "sync_budget_cache_best_effort date_key spent k = CacheSet date_key spent (\<lambda>_. k)"

definition answer_reserve :: "string \<Rightarrow> bool \<Rightarrow> rat \<Rightarrow> budget_reservation_result bprog" where
  "answer_reserve date_key ok spent =
     sync_budget_cache_best_effort date_key spent (Done (Inr \<lparr>reserved = ok, res_spent_usd = spent\<rparr>))"

text \<open>After the guarded update; after the \<open>upsert\<close>; the whole operation.\<close>

definition pg_reserve_answer ::
  "reserve_budget_input \<Rightarrow> rat \<Rightarrow> nat \<Rightarrow> budget_reservation_result bprog" where
  "pg_reserve_answer inp record_spent updated =
     (if updated = 0 then
        FindSpent (rb_date_key inp) (awaiting (\<lambda>latest.
          answer_reserve (rb_date_key inp) False
            (case latest of Some v \<Rightarrow> v | None \<Rightarrow> record_spent)))
      else
        FindSpent (rb_date_key inp) (awaiting (\<lambda>latest.
          answer_reserve (rb_date_key inp) True
            (case latest of Some v \<Rightarrow> v | None \<Rightarrow> record_spent + rb_amount_usd inp))))"

definition pg_reserve_update :: "reserve_budget_input \<Rightarrow> rat \<Rightarrow> budget_reservation_result bprog" where
  "pg_reserve_update inp record_spent =
     (let max_spend_before_reservation = max 0 (rb_daily_budget_usd inp - rb_amount_usd inp) in
      UpdateMany (rb_date_key inp) (SpentAtMost max_spend_before_reservation)
        (ReserveSpend (rb_amount_usd inp)) (awaiting (pg_reserve_answer inp record_spent)))"

definition pg_reserve :: "reserve_budget_input \<Rightarrow> budget_reservation_result bprog" where
  "pg_reserve inp =
     Upsert (rb_date_key inp)
       \<lparr>spent_usd = 0, budget_usd = rb_daily_budget_usd inp, request_count = 0\<rparr>
       (awaiting (pg_reserve_update inp))"

definition read_back :: "string \<Rightarrow> rat bprog" where
  "read_back date_key =
     FindSpent date_key (awaiting (\<lambda>latest.
       let spent = (case latest of Some v \<Rightarrow> v | None \<Rightarrow> 0) in
       sync_budget_cache_best_effort date_key spent (Done (Inr spent))))"

definition pg_update_spent :: "string \<Rightarrow> rat \<Rightarrow> rat bprog" where
  "pg_update_spent date_key delta =
     (if delta = 0 then read_back date_key
      else if delta > 0 then
        UpdateMany date_key NoGuard (IncrementSpend delta) (awaiting (\<lambda>updated.
          if updated = 0 then Done (Inr 0) else read_back date_key))
      else
        UpdateMany date_key (SpentAtLeast \<bar>delta\<bar>) (DecrementSpend \<bar>delta\<bar>) (awaiting (\<lambda>updated.
          if updated = 0 then
            UpdateMany date_key NoGuard ClampSpend (awaiting (\<lambda>updated.
              if updated = 0 then Done (Inr 0) else read_back date_key))
          else read_back date_key)))"

definition pg_release :: "string \<Rightarrow> rat \<Rightarrow> rat bprog" where
  "pg_release date_key amount = pg_update_spent date_key (- amount)"

definition pg_settle :: "string \<Rightarrow> rat \<Rightarrow> rat bprog" where
  "pg_settle date_key delta = pg_update_spent date_key delta"

subsection \<open>The mirror command\<close>

definition is_duplicate_budget_date_error :: "store_error \<Rightarrow> bool" where
  "is_duplicate_budget_date_error e \<longleftrightarrow> e = DuplicateDate"

definition mirror_row :: "budget_mirror_input \<Rightarrow> budget_row" where
  "mirror_row m = \<lparr>spent_usd = bm_cached_spent_usd m, budget_usd = bm_daily_budget_usd m, request_count = 1\<rparr>"

text \<open>An error of the last part is logged, so the command always ends without one.\<close>

definition mirror_update :: "budget_mirror_input \<Rightarrow> unit bprog" where
  "mirror_update m =
     FindSpent (bm_date_key m) (\<lambda>x. case x of
         Inl e \<Rightarrow> Done (Inr ())
       | Inr None \<Rightarrow> CreateRow (bm_date_key m) (mirror_row m) (\<lambda>_. Done (Inr ()))
       | Inr (Some latest) \<Rightarrow>
           UpdateRow (bm_date_key m) (MirrorSpend (max latest (bm_cached_spent_usd m)) (bm_daily_budget_usd m))
             (\<lambda>_. Done (Inr ())))"

definition mirror_execute :: "budget_mirror_input \<Rightarrow> unit bprog" where
  "mirror_execute m =
     FindSpent (bm_date_key m) (\<lambda>x. case x of
         Inl e \<Rightarrow> Done (Inr ())
       | Inr None \<Rightarrow>
           CreateRow (bm_date_key m) (mirror_row m) (\<lambda>y. case y of
               Inr _ \<Rightarrow> Done (Inr ())
             | Inl e \<Rightarrow> if is_duplicate_budget_date_error e then mirror_update m else Done (Inr ()))
       | Inr (Some _) \<Rightarrow> mirror_update m)"

subsection \<open>Redis first\<close>

text \<open>\<open>BUDGET_RESERVATION_SCRIPT\<close>, on the value of the key.\<close>

definition budget_reservation_script :: "rat \<Rightarrow> rat \<Rightarrow> rat option \<Rightarrow> redis_reply \<times> rat option" where
  "budget_reservation_script max_budget amount key =
     (let current = (case key of Some v \<Rightarrow> v | None \<Rightarrow> 0) in
      if current + amount > max_budget then (VArray [VNumber 0, VString (Some current)], key)
      else (VArray [VNumber 1, VString (Some (current + amount))], Some (current + amount)))"

fun to_numeric :: "redis_value \<Rightarrow> rat" where
  "to_numeric (VNumber n) = n"
| "to_numeric (VString (Some n)) = n"
| "to_numeric _ = 0"

fun parse_budget_reservation_result :: "redis_reply \<Rightarrow> store_error + budget_reservation_result" where
  "parse_budget_reservation_result (VArray (a # b # vs)) =
     Inr \<lparr>reserved = (to_numeric a = 1), res_spent_usd = to_numeric b\<rparr>"
| "parse_budget_reservation_result _ = Inl UnexpectedResponse"

text \<open>
  The proxy: \<open>return this.next.reserve(...)\<close> inside the \<open>try\<close> block is not awaited there, so an
  error of the wrapped ledger leaves the block unseen.
\<close>

definition proxy_reserve :: "reserve_budget_input \<Rightarrow> budget_reservation_result bprog" where
  "proxy_reserve inp =
     RunScript (rb_date_key inp) (rb_daily_budget_usd inp) (rb_amount_usd inp) (\<lambda>x.
       case (case x of Inl e \<Rightarrow> Inl e | Inr reply \<Rightarrow> parse_budget_reservation_result reply) of
         Inl e \<Rightarrow> pg_reserve inp
       | Inr cached \<Rightarrow>
           if \<not> reserved cached then pg_reserve inp
           else Spawn \<lparr>bm_date_key = rb_date_key inp, bm_daily_budget_usd = rb_daily_budget_usd inp,
                  bm_cached_spent_usd = res_spent_usd cached\<rparr> (Done (Inr cached)))"

definition proxy_release :: "string \<Rightarrow> rat \<Rightarrow> rat bprog" where
  "proxy_release date_key amount = pg_release date_key amount"

definition proxy_settle :: "string \<Rightarrow> rat \<Rightarrow> rat bprog" where
  "proxy_settle date_key delta = pg_settle date_key delta"

subsection \<open>The governor\<close>

definition to_budget_decision ::
  "authorize_budget_input \<Rightarrow> budget_reservation_result \<Rightarrow> brief_budget_decision" where
  "to_budget_decision inp r =
     \<lparr>authorized = reserved r, d_date_key = ab_date_key inp,
      d_daily_budget_usd = ab_daily_budget_usd inp,
      d_reserved_cost_usd = ab_estimated_cost_usd inp, d_spent_usd = res_spent_usd r\<rparr>"

definition governor_authorize :: "authorize_budget_input \<Rightarrow> brief_budget_decision bprog" where
  "governor_authorize inp =
     map_bprog (to_budget_decision inp)
       (proxy_reserve \<lparr>rb_date_key = ab_date_key inp, rb_daily_budget_usd = ab_daily_budget_usd inp,
          rb_amount_usd = ab_estimated_cost_usd inp\<rparr>)"

definition governor_rollback :: "brief_budget_decision \<Rightarrow> rat bprog" where
  "governor_rollback d =
     (if d_reserved_cost_usd d \<le> 0 then Done (Inr (d_spent_usd d))
      else proxy_release (d_date_key d) (d_reserved_cost_usd d))"

definition governor_settle :: "brief_budget_decision \<Rightarrow> rat \<Rightarrow> rat bprog" where
  "governor_settle d actual_cost = proxy_settle (d_date_key d) (actual_cost - d_reserved_cost_usd d)"

subsection \<open>The services\<close>

record 'w budget_services =
  svc_upsert :: "string \<Rightarrow> budget_row \<Rightarrow> ('w, store_error, rat) eff"
  svc_update_many :: "string \<Rightarrow> guard \<Rightarrow> change \<Rightarrow> ('w, store_error, nat) eff"
  svc_find_spent :: "string \<Rightarrow> ('w, store_error, rat option) eff"
  svc_create :: "string \<Rightarrow> budget_row \<Rightarrow> ('w, store_error, unit) eff"
  svc_update :: "string \<Rightarrow> change \<Rightarrow> ('w, store_error, unit) eff"
  svc_script :: "string \<Rightarrow> rat \<Rightarrow> rat \<Rightarrow> ('w, store_error, redis_reply) eff"
  svc_cache_set :: "string \<Rightarrow> rat \<Rightarrow> ('w, store_error, unit) eff"

text \<open>One call of a program, and what it asks to be started.\<close>

fun step_prog ::
  "'w budget_services \<Rightarrow> 'a bprog \<Rightarrow> 'w \<Rightarrow> 'a bprog \<times> budget_mirror_input list \<times> 'w" where
  "step_prog svc (Done x) w = (Done x, [], w)"
| "step_prog svc (Upsert d r k) w = (case svc_upsert svc d r w of (x, w') \<Rightarrow> (k x, [], w'))"
| "step_prog svc (UpdateMany d g c k) w = (case svc_update_many svc d g c w of (x, w') \<Rightarrow> (k x, [], w'))"
| "step_prog svc (FindSpent d k) w = (case svc_find_spent svc d w of (x, w') \<Rightarrow> (k x, [], w'))"
| "step_prog svc (CreateRow d r k) w = (case svc_create svc d r w of (x, w') \<Rightarrow> (k x, [], w'))"
| "step_prog svc (UpdateRow d c k) w = (case svc_update svc d c w of (x, w') \<Rightarrow> (k x, [], w'))"
| "step_prog svc (RunScript d b a k) w = (case svc_script svc d b a w of (x, w') \<Rightarrow> (k x, [], w'))"
| "step_prog svc (CacheSet d v k) w = (case svc_cache_set svc d v w of (x, w') \<Rightarrow> (k x, [], w'))"
| "step_prog svc (Spawn m p) w = (p, [m], w)"

text \<open>A program alone: its result, the mirror commands it started, the world.\<close>

primrec run_prog ::
  "'w budget_services \<Rightarrow> 'a bprog \<Rightarrow> 'w \<Rightarrow> (store_error + 'a) \<times> budget_mirror_input list \<times> 'w" where
  "run_prog svc (Done x) = (\<lambda>w. (x, [], w))"
| "run_prog svc (Upsert d r k) = (\<lambda>w. case svc_upsert svc d r w of (x, w') \<Rightarrow> run_prog svc (k x) w')"
| "run_prog svc (UpdateMany d g c k) = (\<lambda>w. case svc_update_many svc d g c w of (x, w') \<Rightarrow> run_prog svc (k x) w')"
| "run_prog svc (FindSpent d k) = (\<lambda>w. case svc_find_spent svc d w of (x, w') \<Rightarrow> run_prog svc (k x) w')"
| "run_prog svc (CreateRow d r k) = (\<lambda>w. case svc_create svc d r w of (x, w') \<Rightarrow> run_prog svc (k x) w')"
| "run_prog svc (UpdateRow d c k) = (\<lambda>w. case svc_update svc d c w of (x, w') \<Rightarrow> run_prog svc (k x) w')"
| "run_prog svc (RunScript d b a k) = (\<lambda>w. case svc_script svc d b a w of (x, w') \<Rightarrow> run_prog svc (k x) w')"
| "run_prog svc (CacheSet d v k) = (\<lambda>w. case svc_cache_set svc d v w of (x, w') \<Rightarrow> run_prog svc (k x) w')"
| "run_prog svc (Spawn m p) = (\<lambda>w. case run_prog svc p w of (x, ms, w') \<Rightarrow> (x, m # ms, w'))"

text \<open>
  A pool of programs under a schedule, the list of the places whose turn it is. Mirror commands join
  the pool; \<open>started\<close> makes a program of the pool of them.
\<close>

fun run_schedule ::
  "'w budget_services \<Rightarrow> (budget_mirror_input \<Rightarrow> 'a bprog) \<Rightarrow> nat list \<Rightarrow> 'a bprog list \<Rightarrow> 'w \<Rightarrow> 'a bprog list \<times> 'w"
where
  "run_schedule svc started [] pool w = (pool, w)"
| "run_schedule svc started (i # is) pool w =
     (if i < length pool then
        (case step_prog svc (pool ! i) w of (p, ms, w') \<Rightarrow>
           run_schedule svc started is (pool[i := p] @ map started ms) w')
      else run_schedule svc started is pool w)"

subsection \<open>What the services promise\<close>

record budget_store =
  rows :: "string \<Rightarrow> budget_row option"
  cache :: "string \<Rightarrow> rat option"

fun guard_holds :: "guard \<Rightarrow> budget_row \<Rightarrow> bool" where
  "guard_holds NoGuard r \<longleftrightarrow> True"
| "guard_holds (SpentAtMost m) r \<longleftrightarrow> spent_usd r \<le> m"
| "guard_holds (SpentAtLeast m) r \<longleftrightarrow> m \<le> spent_usd r"

fun apply_change :: "change \<Rightarrow> budget_row \<Rightarrow> budget_row" where
  "apply_change (ReserveSpend a) r = r\<lparr>spent_usd := spent_usd r + a, request_count := request_count r + 1\<rparr>"
| "apply_change (IncrementSpend a) r = r\<lparr>spent_usd := spent_usd r + a\<rparr>"
| "apply_change (DecrementSpend a) r = r\<lparr>spent_usd := spent_usd r - a\<rparr>"
| "apply_change ClampSpend r = r\<lparr>spent_usd := 0\<rparr>"
| "apply_change (MirrorSpend v b) r =
     r\<lparr>spent_usd := v, budget_usd := b, request_count := request_count r + 1\<rparr>"

text \<open>What the columns make of a row that is written.\<close>

definition stored_row :: "budget_row \<Rightarrow> budget_row" where
  "stored_row r = r\<lparr>spent_usd := dec4 (spent_usd r), budget_usd := dec4 (budget_usd r)\<rparr>"

lemma stored_row_sel [simp]: "spent_usd (stored_row r) = dec4 (spent_usd r)"
  by (simp add: stored_row_def)

definition set_row :: "string \<Rightarrow> budget_row \<Rightarrow> budget_store \<Rightarrow> budget_store" where
  "set_row d r s = s\<lparr>rows := (rows s)(d \<mapsto> stored_row r)\<rparr>"

text \<open>Services that hold everything in memory and never fail.\<close>

definition mem_services :: "budget_store budget_services" where
  "mem_services =
     \<lparr>svc_upsert = \<lambda>d r s. (case rows s d of
          Some r' \<Rightarrow> (Inr (spent_usd r'), s) | None \<Rightarrow> (Inr (dec4 (spent_usd r)), set_row d r s)),
      svc_update_many = \<lambda>d g c s. (case rows s d of
          Some r \<Rightarrow> if guard_holds g r then (Inr 1, set_row d (apply_change c r) s) else (Inr 0, s)
        | None \<Rightarrow> (Inr 0, s)),
      svc_find_spent = \<lambda>d s. (Inr (map_option spent_usd (rows s d)), s),
      svc_create = \<lambda>d r s. (case rows s d of
          Some r' \<Rightarrow> (Inl DuplicateDate, s) | None \<Rightarrow> (Inr (), set_row d r s)),
      svc_update = \<lambda>d c s. (case rows s d of
          Some r \<Rightarrow> (Inr (), set_row d (apply_change c r) s) | None \<Rightarrow> (Inl StoreError, s)),
      svc_script = \<lambda>d b a s. (case budget_reservation_script b a (cache s d) of
          (reply, v) \<Rightarrow> (Inr reply, s\<lparr>cache := (cache s)(d := v)\<rparr>)),
      svc_cache_set = \<lambda>d v s. (Inr (), s\<lparr>cache := (cache s)(d \<mapsto> v)\<rparr>)\<rparr>"

text \<open>The cache may lose keys at any time (expiry, eviction, restart).\<close>

definition cache_loss :: "budget_store \<Rightarrow> budget_store \<Rightarrow> bool" where
  "cache_loss s s' \<longleftrightarrow> rows s' = rows s \<and> (\<forall>d. cache s' d = cache s d \<or> cache s' d = None)"

text \<open>
  An operation of the world against the operation it stands for: it returns the documented result
  and has the documented effect, or it throws and has that effect or none.
\<close>

definition honest ::
  "('w \<Rightarrow> budget_store) \<Rightarrow> ('w, store_error, 'r) eff \<Rightarrow> (budget_store, store_error, 'r) eff \<Rightarrow> bool" where
  "honest view m f \<longleftrightarrow> (\<forall>w.
     (fst (m w) = fst (f (view w)) \<and> cache_loss (snd (f (view w))) (view (snd (m w)))) \<or>
     (isl (fst (m w)) \<and>
       (cache_loss (view w) (view (snd (m w))) \<or> cache_loss (snd (f (view w))) (view (snd (m w))))))"

locale budget_service =
  fixes svc :: "'w budget_services" and view :: "'w \<Rightarrow> budget_store"
  assumes upsert: "honest view (svc_upsert svc d r) (svc_upsert mem_services d r)"
    and update_many: "honest view (svc_update_many svc d g c) (svc_update_many mem_services d g c)"
    and find_spent: "honest view (svc_find_spent svc d) (svc_find_spent mem_services d)"
    and create: "honest view (svc_create svc d r) (svc_create mem_services d r)"
    and update: "honest view (svc_update svc d c) (svc_update mem_services d c)"
    and script: "honest view (svc_script svc d b a) (svc_script mem_services d b a)"
    and cache_set: "honest view (svc_cache_set svc d v) (svc_cache_set mem_services d v)"

lemma cache_loss_refl [simp]: "cache_loss s s"
  by (simp add: cache_loss_def)

interpretation mem: budget_service mem_services id
  by unfold_locales (simp_all add: honest_def)

subsection \<open>Concurrent reservations in Postgres\<close>

definition spent_on :: "budget_store \<Rightarrow> string \<Rightarrow> rat" where
  "spent_on s d = (case rows s d of Some r \<Rightarrow> spent_usd r | None \<Rightarrow> 0)"

text \<open>
  The stages of a reservation, and whether its amount has been added so that it goes on to answer
  that it is reserved.
\<close>

inductive reserving :: "reserve_budget_input \<Rightarrow> bool \<Rightarrow> budget_reservation_result bprog \<Rightarrow> bool" for inp where
  "reserving inp False (pg_reserve inp)"
| "reserving inp False (pg_reserve_update inp v)"
| "reserving inp (n \<noteq> 0) (pg_reserve_answer inp v n)"
| "reserving inp ok (answer_reserve d ok v)"
| "reserving inp ok (Done (Inr \<lparr>reserved = ok, res_spent_usd = v\<rparr>))"
| "reserving inp False (Done (Inl e))"

lemmas reserve_defs = pg_reserve_def pg_reserve_update_def pg_reserve_answer_def answer_reserve_def
  sync_budget_cache_best_effort_def

lemma reserving_answered: "reserving inp ok (Done (Inr r)) \<Longrightarrow> ok = reserved r"
  by (erule reserving.cases) (auto simp: reserve_defs Let_def split: if_splits)

definition booked :: "bool \<Rightarrow> rat \<Rightarrow> rat" where
  "booked ok a = (if ok then a else 0)"

text \<open>What one call of a reservation does to the amount spent on its date.\<close>

definition reserve_effect :: "reserve_budget_input \<Rightarrow> bool \<Rightarrow> bool \<Rightarrow> rat \<Rightarrow> rat \<Rightarrow> bool" where
  "reserve_effect inp ok ok' v v' \<longleftrightarrow>
     (v' = v \<and> (ok' \<longrightarrow> ok)) \<or>
     (v' = dec4 (v + rb_amount_usd inp) \<and> v \<le> max 0 (rb_daily_budget_usd inp - rb_amount_usd inp) \<and> \<not> ok)"

lemma reserve_effect_amount:
  assumes "reserve_effect inp ok ok' v v'" and "stored_amount v"
    and "0 \<le> rb_amount_usd inp" and "rb_amount_usd inp \<le> limit" and "rb_daily_budget_usd inp \<le> limit"
  shows "v - booked ok (dec4 (rb_amount_usd inp)) \<le> v' - booked ok' (dec4 (rb_amount_usd inp))"
    and "v' \<le> max (dec4 limit) v" and "stored_amount v'"
proof -
  have nonneg: "0 \<le> v" "0 \<le> dec4 (rb_amount_usd inp)" using assms(2,3) by (simp_all add: stored_amount_def dec4_ge_0)
  consider (same) "v' = v" "ok' \<longrightarrow> ok"
    | (more) "v' = dec4 (v + rb_amount_usd inp)" "v \<le> max 0 (rb_daily_budget_usd inp - rb_amount_usd inp)" "\<not> ok"
    using assms(1) by (auto simp: reserve_effect_def)
  then have "v - booked ok (dec4 (rb_amount_usd inp)) \<le> v' - booked ok' (dec4 (rb_amount_usd inp)) \<and>
    v' \<le> max (dec4 limit) v \<and> stored_amount v'"
  proof cases
    case same
    then show ?thesis using nonneg assms(2) by (auto simp: booked_def)
  next
    case more
    have "v + rb_amount_usd inp \<le> limit" using more(2) assms(3-5) nonneg(1) by (auto simp: max_def split: if_splits)
    then have "v' \<le> dec4 limit" unfolding more(1) using assms(3) nonneg(1) by (intro dec4_mono) auto
    moreover have "v' = v + dec4 (rb_amount_usd inp)" unfolding more(1) using assms(2,3) by (rule dec4_add)
    moreover have "stored_amount v'" unfolding more(1) using assms(3) nonneg(1) by (intro stored_dec4) simp
    ultimately show ?thesis using more(3) nonneg(2) by (auto simp: booked_def)
  qed
  then show "v - booked ok (dec4 (rb_amount_usd inp)) \<le> v' - booked ok' (dec4 (rb_amount_usd inp))"
    and "v' \<le> max (dec4 limit) v" and "stored_amount v'" by simp_all
qed

lemma honest_rows:
  "honest view m f \<Longrightarrow>
    (fst (m w) = fst (f (view w)) \<and> rows (view (snd (m w))) = rows (snd (f (view w)))) \<or>
    (isl (fst (m w)) \<and>
      (rows (view (snd (m w))) = rows (view w) \<or> rows (view (snd (m w))) = rows (snd (f (view w)))))"
  unfolding honest_def cache_loss_def by metis

context budget_service
begin

lemma spent_on_upsert:
  "spent_usd r = 0 \<Longrightarrow> spent_on (view (snd (svc_upsert svc d r w))) d' = spent_on (view w) d'"
  using honest_rows [OF upsert [of d r], of w]
  by (elim disjE conjE) (auto simp: spent_on_def mem_services_def set_row_def split: option.splits)

lemma spent_on_find_spent: "spent_on (view (snd (svc_find_spent svc d w))) d' = spent_on (view w) d'"
  using honest_rows [OF find_spent [of d], of w]
  by (elim disjE conjE) (auto simp: spent_on_def mem_services_def)

lemma spent_on_cache_set: "spent_on (view (snd (svc_cache_set svc d v w))) d' = spent_on (view w) d'"
  using honest_rows [OF cache_set [of d v], of w]
  by (elim disjE conjE) (auto simp: spent_on_def mem_services_def)

lemma spent_on_update_many:
  "(spent_on (view (snd (svc_update_many svc d g c w))) d = spent_on (view w) d \<and>
      (isl (fst (svc_update_many svc d g c w)) \<or> fst (svc_update_many svc d g c w) = Inr 0)) \<or>
   (\<exists>r. rows (view w) d = Some r \<and> guard_holds g r \<and>
      spent_on (view (snd (svc_update_many svc d g c w))) d = dec4 (spent_usd (apply_change c r)) \<and>
      (isl (fst (svc_update_many svc d g c w)) \<or> fst (svc_update_many svc d g c w) = Inr 1))"
  using honest_rows [OF update_many [of d g c], of w]
  by (elim disjE conjE) (auto simp: spent_on_def mem_services_def set_row_def split: option.splits if_splits)

lemma reserving_step:
  assumes "reserving inp ok p" and "rb_date_key inp = d" and "step_prog svc p w = (p', ms, w')"
  shows "ms = [] \<and> (\<exists>ok'. reserving inp ok' p' \<and>
    reserve_effect inp ok ok' (spent_on (view w) d) (spent_on (view w') d))"
  using assms(1)
proof cases
  case 1
  let ?m = "svc_upsert svc d \<lparr>spent_usd = 0, budget_usd = rb_daily_budget_usd inp, request_count = 0\<rparr> w"
  have p': "p' = awaiting (pg_reserve_update inp) (fst ?m)" "ms = []" "w' = snd ?m"
    using assms(2,3) 1 by (auto simp: pg_reserve_def split: prod.splits)
  have "reserving inp False p'"
    unfolding p' by (cases "fst ?m") (auto intro: reserving.intros)
  then show ?thesis using p' 1 by (auto simp: reserve_effect_def spent_on_upsert)
next
  case (2 v)
  let ?m = "svc_update_many svc d (SpentAtMost (max 0 (rb_daily_budget_usd inp - rb_amount_usd inp)))
    (ReserveSpend (rb_amount_usd inp)) w"
  have p': "p' = awaiting (pg_reserve_answer inp v) (fst ?m)" "ms = []" "w' = snd ?m"
    using assms(2,3) 2 by (auto simp: pg_reserve_update_def Let_def split: prod.splits)
  have stage: "reserving inp (\<exists>n. fst ?m = Inr n \<and> n \<noteq> 0) p'"
    unfolding p' by (cases "fst ?m") (auto intro: reserving.intros reserving.intros(3) [simplified])
  consider (kept) "spent_on (view (snd ?m)) d = spent_on (view w) d" "isl (fst ?m) \<or> fst ?m = Inr 0"
    | (added) r where "rows (view w) d = Some r"
        "guard_holds (SpentAtMost (max 0 (rb_daily_budget_usd inp - rb_amount_usd inp))) r"
        "spent_on (view (snd ?m)) d = dec4 (spent_usd (apply_change (ReserveSpend (rb_amount_usd inp)) r))"
    using spent_on_update_many [of d "SpentAtMost (max 0 (rb_daily_budget_usd inp - rb_amount_usd inp))"
      "ReserveSpend (rb_amount_usd inp)" w] by blast
  then show ?thesis
  proof cases
    case kept
    then have "\<not> (\<exists>n. fst ?m = Inr n \<and> n \<noteq> 0)" by (auto simp: isl_def)
    with stage p' kept show ?thesis by (auto simp: reserve_effect_def)
  next
    case added
    then have "reserve_effect inp ok ok' (spent_on (view w) d) (spent_on (view w') d)" for ok'
      using p' 2 by (simp add: reserve_effect_def spent_on_def)
    with stage p' show ?thesis by blast
  qed
next
  case (3 n v)
  let ?m = "svc_find_spent svc d w"
  have p': "p' = awaiting (\<lambda>latest. answer_reserve d ok
      (case latest of Some u \<Rightarrow> u | None \<Rightarrow> if ok then v + rb_amount_usd inp else v)) (fst ?m)" "ms = []" "w' = snd ?m"
    using assms(2,3) 3 by (auto simp: pg_reserve_answer_def split: prod.splits if_splits)
  have "reserving inp (ok \<and> \<not> isl (fst ?m)) p'"
    unfolding p' by (cases "fst ?m") (auto intro: reserving.intros)
  moreover have "spent_on (view w') d = spent_on (view w) d"
    unfolding p'(3) by (rule spent_on_find_spent)
  ultimately show ?thesis using p'(2) unfolding reserve_effect_def by blast
next
  case (4 e v)
  let ?m = "svc_cache_set svc e v w"
  have p': "p' = Done (Inr \<lparr>reserved = ok, res_spent_usd = v\<rparr>)" "ms = []" "w' = snd ?m"
    using assms(3) 4 by (auto simp: answer_reserve_def sync_budget_cache_best_effort_def split: prod.splits)
  then show ?thesis by (auto simp: reserve_effect_def spent_on_cache_set intro!: exI [of _ ok] reserving.intros)
next
  case (5 v)
  then show ?thesis using assms(1,3) by (auto simp: reserve_effect_def)
next
  case (6 e)
  then show ?thesis using assms(1,3) by (auto simp: reserve_effect_def)
qed

lemma run_schedule_reserving:
  assumes "length inps = length pool" and "\<forall>i < length pool. reserving (inps ! i) (ok i) (pool ! i)"
    and "\<forall>inp \<in> set inps. rb_date_key inp = d \<and> rb_daily_budget_usd inp \<le> limit \<and>
      0 \<le> rb_amount_usd inp \<and> rb_amount_usd inp \<le> limit"
    and "stored_amount (spent_on (view w) d)"
    and "run_schedule svc started is pool w = (pool', w')"
  shows "length pool' = length pool \<and> (\<exists>ok'. (\<forall>i < length pool. reserving (inps ! i) (ok' i) (pool' ! i)) \<and>
    spent_on (view w) d - (\<Sum>i < length pool. booked (ok i) (dec4 (rb_amount_usd (inps ! i)))) \<le>
      spent_on (view w') d - (\<Sum>i < length pool. booked (ok' i) (dec4 (rb_amount_usd (inps ! i)))) \<and>
    spent_on (view w') d \<le> max (dec4 limit) (spent_on (view w) d))"
  using assms
proof (induction "is" arbitrary: pool w ok)
  case Nil
  then show ?case by auto
next
  case (Cons j "is")
  let ?a = "\<lambda>i. dec4 (rb_amount_usd (inps ! i))"
  show ?case
  proof (cases "j < length pool")
    case False
    then show ?thesis using Cons by simp
  next
    case True
    obtain p ms w1 where st: "step_prog svc (pool ! j) w = (p, ms, w1)" by (metis prod_cases3)
    have inp: "rb_date_key (inps ! j) = d" "rb_daily_budget_usd (inps ! j) \<le> limit"
      "0 \<le> rb_amount_usd (inps ! j)" "rb_amount_usd (inps ! j) \<le> limit"
      using True Cons.prems(1,3) nth_mem by fastforce+
    from reserving_step [OF _ inp(1) st] Cons.prems(2) True obtain okj where
      j: "ms = []" "reserving (inps ! j) okj p"
      "reserve_effect (inps ! j) (ok j) okj (spent_on (view w) d) (spent_on (view w1) d)" by blast
    note eff = reserve_effect_amount [OF j(3) Cons.prems(4) inp(3,4,2)]
    let ?ok = "ok(j := okj)"
    have "(\<Sum>i < length pool. booked (?ok i) (?a i)) =
        booked okj (?a j) + (\<Sum>i \<in> {..<length pool} - {j}. booked (ok i) (?a i))"
      using True by (subst sum.remove [of _ j]) (auto intro!: sum.cong)
    moreover have "(\<Sum>i < length pool. booked (ok i) (?a i)) =
        booked (ok j) (?a j) + (\<Sum>i \<in> {..<length pool} - {j}. booked (ok i) (?a i))"
      using True by (subst sum.remove [of _ j]) auto
    ultimately have step: "spent_on (view w) d - (\<Sum>i < length pool. booked (ok i) (?a i)) \<le>
        spent_on (view w1) d - (\<Sum>i < length pool. booked (?ok i) (?a i))"
      using eff(1) by linarith
    have "\<forall>i < length (pool[j := p]). reserving (inps ! i) (?ok i) (pool[j := p] ! i)"
      using Cons.prems(2) j(2) by (auto simp: nth_list_update)
    moreover have "run_schedule svc started is (pool[j := p]) w1 = (pool', w')"
      using Cons.prems(5) True st j(1) by simp
    ultimately obtain ok' where l: "length pool' = length pool"
      and r: "\<forall>i < length pool. reserving (inps ! i) (ok' i) (pool' ! i)"
      and "spent_on (view w1) d - (\<Sum>i < length pool. booked (?ok i) (?a i)) \<le>
        spent_on (view w') d - (\<Sum>i < length pool. booked (ok' i) (?a i))"
      and "spent_on (view w') d \<le> max (dec4 limit) (spent_on (view w1) d)"
      using Cons.IH [of "pool[j := p]" ?ok w1] Cons.prems(1,3) eff(3) by (simp only: length_list_update) blast
    with step eff(2) have "spent_on (view w) d - (\<Sum>i < length pool. booked (ok i) (?a i)) \<le>
        spent_on (view w') d - (\<Sum>i < length pool. booked (ok' i) (?a i))"
      "spent_on (view w') d \<le> max (dec4 limit) (spent_on (view w) d)"
      by (linarith, auto simp: max_def split: if_splits)
    with l r show ?thesis by blast
  qed
qed

end

text \<open>
  C14. Workers that reserve from the same day's budget directly in Postgres cannot oversubscribe it,
  whatever the interleaving of their calls and whichever calls fail: the amounts of all reservations
  that were granted, each as the column holds it, fit between what was spent before and the limit, to
  which what is spent never rises above. The limit is the budget, or the largest single amount if
  that is more: an amount above the budget is granted while nothing is spent yet
  (\<open>pg_reserve_above_budget\<close>). What is spent before is any value the column can hold.
\<close>

theorem pg_reserve_not_oversubscribed:
  assumes "budget_service svc view"
    and "\<forall>inp \<in> set inps. rb_date_key inp = d \<and> rb_daily_budget_usd inp \<le> limit \<and>
      0 \<le> rb_amount_usd inp \<and> rb_amount_usd inp \<le> limit"
    and "stored_amount (spent_on (view w) d)"
    and "run_schedule svc started is (map pg_reserve inps) w = (pool, w')"
  shows "spent_on (view w) d +
      (\<Sum>i < length inps. case pool ! i of Done (Inr r) \<Rightarrow> booked (reserved r) (dec4 (rb_amount_usd (inps ! i))) | _ \<Rightarrow> 0)
    \<le> spent_on (view w') d
    \<and> spent_on (view w') d \<le> max (dec4 limit) (spent_on (view w) d)"
proof -
  have "\<forall>i < length (map pg_reserve inps). reserving (inps ! i) False (map pg_reserve inps ! i)"
    by (simp add: reserving.intros)
  from budget_service.run_schedule_reserving [OF assms(1) _ this assms(2,3,4)] obtain ok where
    r: "\<forall>i < length inps. reserving (inps ! i) (ok i) (pool ! i)"
    and s: "spent_on (view w) d \<le> spent_on (view w') d - (\<Sum>i < length inps. booked (ok i) (dec4 (rb_amount_usd (inps ! i))))"
      "spent_on (view w') d \<le> max (dec4 limit) (spent_on (view w) d)"
    by (auto simp: booked_def)
  have "(case pool ! i of Done (Inr r) \<Rightarrow> booked (reserved r) (dec4 (rb_amount_usd (inps ! i))) | _ \<Rightarrow> 0)
      \<le> booked (ok i) (dec4 (rb_amount_usd (inps ! i)))" if "i < length inps" for i
  proof -
    have "0 \<le> dec4 (rb_amount_usd (inps ! i))" using that assms(2) by (simp add: dec4_ge_0)
    then show ?thesis using r [rule_format, OF that]
      by (auto simp: booked_def dest: reserving_answered split: bprog.split sum.split)
  qed
  then have "(\<Sum>i < length inps. case pool ! i of Done (Inr r) \<Rightarrow> booked (reserved r) (dec4 (rb_amount_usd (inps ! i))) | _ \<Rightarrow> 0)
      \<le> (\<Sum>i < length inps. booked (ok i) (dec4 (rb_amount_usd (inps ! i))))"
    by (intro sum_mono) simp
  with s show ?thesis by linarith
qed

subsection \<open>Sequential accounting\<close>

context budget_service
begin

lemma read_back_result:
  assumes "run_prog svc (read_back d) w = (Inr v, ms, w')"
  shows "ms = [] \<and> v = spent_on (view w) d \<and> spent_on (view w') d = spent_on (view w) d"
proof -
  let ?m = "svc_find_spent svc d w"
  obtain x where x: "fst ?m = Inr x" using assms
    by (cases "fst ?m") (auto simp: read_back_def split: prod.splits)
  then have "x = map_option spent_usd (rows (view w) d)"
    using honest_rows [OF find_spent [of d], of w] by (auto simp: mem_services_def)
  then have v: "(case x of Some v \<Rightarrow> v | None \<Rightarrow> 0) = spent_on (view w) d"
    by (auto simp: spent_on_def split: option.splits)
  show ?thesis using assms x v spent_on_find_spent [of d w d] spent_on_cache_set [of d "spent_on (view w) d" "snd ?m" d]
    by (auto simp: read_back_def sync_budget_cache_best_effort_def Let_def split: prod.splits)
qed

lemma update_many_Inr:
  assumes "fst (svc_update_many svc d g c w) = Inr n"
  shows "(case rows (view w) d of
      None \<Rightarrow> n = 0
    | Some r \<Rightarrow> (if guard_holds g r then n = 1 \<and> spent_on (view (snd (svc_update_many svc d g c w))) d = dec4 (spent_usd (apply_change c r))
        else n = 0 \<and> rows (view (snd (svc_update_many svc d g c w))) d = Some r))"
  using honest_rows [OF update_many [of d g c], of w] assms
  by (elim disjE conjE) (auto simp: spent_on_def mem_services_def set_row_def split: option.splits if_splits)

lemma pg_update_spent_result:
  assumes "rows (view w) d = Some r" and "stored_amount (spent_usd r)"
    and "run_prog svc (pg_update_spent d delta) w = (Inr v, ms, w')"
  shows "ms = [] \<and> v = dec4 (max 0 (spent_usd r + delta)) \<and> spent_on (view w') d = v"
proof -
  have nonneg: "0 \<le> spent_usd r" "dec4 (spent_usd r) = spent_usd r" using assms(2) by (simp_all add: stored_amount_def)
  consider "delta = 0" | "delta > 0" | "delta < 0" by linarith
  then show ?thesis
  proof cases
    case 1
    then show ?thesis using assms nonneg read_back_result [of d w v ms w'] by (auto simp: pg_update_spent_def spent_on_def)
  next
    case 2
    let ?m = "svc_update_many svc d NoGuard (IncrementSpend delta) w"
    obtain n where n: "fst ?m = Inr n" using assms(3) 2
      by (cases "fst ?m") (auto simp: pg_update_spent_def split: prod.splits)
    with update_many_Inr [OF n] assms(1) have u: "n = 1" "spent_on (view (snd ?m)) d = dec4 (spent_usd r + delta)" by auto
    from assms(3) 2 n u(1) have "run_prog svc (read_back d) (snd ?m) = (Inr v, ms, w')"
      by (auto simp: pg_update_spent_def split: prod.splits)
    from read_back_result [OF this] u(2) nonneg 2 show ?thesis by simp
  next
    case 3
    let ?m = "svc_update_many svc d (SpentAtLeast \<bar>delta\<bar>) (DecrementSpend \<bar>delta\<bar>) w"
    obtain n where n: "fst ?m = Inr n" using assms(3) 3
      by (cases "fst ?m") (auto simp: pg_update_spent_def split: prod.splits)
    show ?thesis
    proof (cases "\<bar>delta\<bar> \<le> spent_usd r")
      case True
      with update_many_Inr [OF n] assms(1) have u: "n = 1" "spent_on (view (snd ?m)) d = dec4 (spent_usd r + delta)"
        using 3 by auto
      from assms(3) 3 n u(1) have "run_prog svc (read_back d) (snd ?m) = (Inr v, ms, w')"
        by (auto simp: pg_update_spent_def split: prod.splits)
      from read_back_result [OF this] u(2) True 3 show ?thesis by simp
    next
      case False
      with update_many_Inr [OF n] assms(1) have u: "n = 0" "rows (view (snd ?m)) d = Some r" by auto
      let ?c = "svc_update_many svc d NoGuard ClampSpend (snd ?m)"
      obtain n' where n': "fst ?c = Inr n'" using assms(3) 3 n u(1)
        by (cases "fst ?c") (auto simp: pg_update_spent_def split: prod.splits)
      with update_many_Inr [OF n'] u(2) have u': "n' = 1" "spent_on (view (snd ?c)) d = 0" by auto
      from assms(3) 3 n u(1) n' u'(1) have "run_prog svc (read_back d) (snd ?c) = (Inr v, ms, w')"
        by (auto simp: pg_update_spent_def split: prod.splits)
      from read_back_result [OF this] u'(2) False 3 show ?thesis by simp
    qed
  qed
qed

end

text \<open>
  Releasing or settling changes the amount spent by the given difference, rounded to the four decimals
  of the column, except that it never goes below zero; what is returned is what is then stored.
\<close>

theorem pg_settle_rounded:
  assumes "budget_service svc view" and "rows (view w) d = Some r" and "stored_amount (spent_usd r)"
    and "run_prog svc (pg_settle d delta) w = (Inr v, ms, w')"
  shows "ms = [] \<and> v = dec4 (max 0 (spent_usd r + delta)) \<and> spent_on (view w') d = v"
  by (rule budget_service.pg_update_spent_result [OF assms(1-3) assms(4) [unfolded pg_settle_def]])

text \<open>One request after the other, with services that answer: the cache follows the table.\<close>

definition in_sync :: "budget_store \<Rightarrow> string \<Rightarrow> bool" where
  "in_sync s d \<longleftrightarrow> cache s d = map_option spent_usd (rows s d)"

fun run_mirrors :: "'w budget_services \<Rightarrow> budget_mirror_input list \<Rightarrow> 'w \<Rightarrow> 'w" where
  "run_mirrors svc [] w = w"
| "run_mirrors svc (m # ms) w = run_mirrors svc ms (snd (snd (run_prog svc (mirror_execute m) w)))"

lemma run_prog_map: "run_prog svc (map_bprog f p) w =
    (case run_prog svc p w of (x, ms, w') \<Rightarrow> (map_sum id f x, ms, w'))"
  by (induction p arbitrary: w) (auto split: prod.splits)

definition over_budget :: "authorize_budget_input \<Rightarrow> budget_store \<Rightarrow> bool" where
  "over_budget inp s \<longleftrightarrow>
     spent_on s (ab_date_key inp) + ab_estimated_cost_usd inp > ab_daily_budget_usd inp"

lemma governor_authorize_granted:
  assumes "in_sync s d" and "ab_date_key inp = d" and "\<not> over_budget inp s"
  shows "run_prog mem_services (governor_authorize inp) s =
    (let v = spent_on s d + ab_estimated_cost_usd inp in
     (Inr \<lparr>authorized = True, d_date_key = d, d_daily_budget_usd = ab_daily_budget_usd inp,
        d_reserved_cost_usd = ab_estimated_cost_usd inp, d_spent_usd = v\<rparr>,
      [\<lparr>bm_date_key = d, bm_daily_budget_usd = ab_daily_budget_usd inp, bm_cached_spent_usd = v\<rparr>],
      s\<lparr>cache := (cache s)(d \<mapsto> v)\<rparr>))"
proof -
  have "(case cache s d of Some v \<Rightarrow> v | None \<Rightarrow> 0) = spent_on s d"
    using assms(1) by (cases "rows s d") (auto simp: in_sync_def spent_on_def)
  then have "budget_reservation_script (ab_daily_budget_usd inp) (ab_estimated_cost_usd inp) (cache s d) =
      (VArray [VNumber 1, VString (Some (spent_on s d + ab_estimated_cost_usd inp))],
       Some (spent_on s d + ab_estimated_cost_usd inp))"
    using assms(2,3) by (simp add: budget_reservation_script_def over_budget_def Let_def)
  then show ?thesis using assms(2)
    by (simp add: governor_authorize_def run_prog_map proxy_reserve_def mem_services_def to_budget_decision_def Let_def)
qed

lemma run_mirror_granted:
  assumes "0 \<le> a" and "0 \<le> spent_on s d" and "dec4 (spent_on s d + a) = spent_on s d + a"
    and "m = \<lparr>bm_date_key = d, bm_daily_budget_usd = b, bm_cached_spent_usd = spent_on s d + a\<rparr>"
    and "s' = run_mirrors mem_services [m] (s\<lparr>cache := (cache s)(d \<mapsto> spent_on s d + a)\<rparr>)"
  shows "\<exists>r. rows s' d = Some r \<and> spent_usd r = spent_on s d + a" and "in_sync s' d"
  using assms(1-3) unfolding assms(4,5)
  by (auto simp: mirror_execute_def mirror_update_def mirror_row_def mem_services_def set_row_def
      spent_on_def in_sync_def max_def split: option.splits)

lemma mem_pg_update_spent:
  assumes "rows s d = Some r" and "0 \<le> spent_usd r" and "in_sync s d"
    and "dec4 (max 0 (spent_usd r + delta)) = max 0 (spent_usd r + delta)"
  shows "\<exists>s'. run_prog mem_services (pg_update_spent d delta) s = (Inr (max 0 (spent_usd r + delta)), [], s')
    \<and> spent_on s' d = max 0 (spent_usd r + delta) \<and> in_sync s' d"
  using assms
  by (auto simp: pg_update_spent_def read_back_def sync_budget_cache_best_effort_def mem_services_def
      set_row_def spent_on_def in_sync_def max_def Let_def)

text \<open>
  When requests follow each other, both services answer, the cache agrees with the table at the start
  and no amount needs more than four decimals, an authorized request that is settled adds its actual
  cost to the amount spent, one that is rolled back adds nothing, and the cache agrees with the table
  again. With more decimals each step is off by the rounding (\<open>dec4_close\<close>).
\<close>

theorem governor_keeps_books:
  assumes "in_sync s d" and "0 \<le> spent_on s d"
    and "ab_date_key inp = d" and "0 \<le> ab_estimated_cost_usd inp" and "\<not> over_budget inp s" and "0 \<le> actual"
    and "dec4 (spent_on s d) = spent_on s d" and "dec4 (spent_on s d + ab_estimated_cost_usd inp) = spent_on s d + ab_estimated_cost_usd inp"
    and "dec4 (spent_on s d + actual) = spent_on s d + actual"
  shows "\<exists>decision ms s1. run_prog mem_services (governor_authorize inp) s = (Inr decision, ms, s1) \<and> authorized decision
    \<and> (\<exists>s2. run_prog mem_services (governor_settle decision actual) (run_mirrors mem_services ms s1)
          = (Inr (spent_on s d + actual), [], s2) \<and> spent_on s2 d = spent_on s d + actual \<and> in_sync s2 d)
    \<and> (\<exists>s2. run_prog mem_services (governor_rollback decision) (run_mirrors mem_services ms s1)
          = (Inr (spent_on s d), [], s2) \<and> spent_on s2 d = spent_on s d \<and> in_sync s2 d)"
proof -
  let ?e = "ab_estimated_cost_usd inp"
  let ?m = "\<lparr>bm_date_key = d, bm_daily_budget_usd = ab_daily_budget_usd inp, bm_cached_spent_usd = spent_on s d + ?e\<rparr>"
  define s2 where "s2 = run_mirrors mem_services [?m] (s\<lparr>cache := (cache s)(d \<mapsto> spent_on s d + ?e)\<rparr>)"
  note auth = governor_authorize_granted [OF assms(1,3,5), unfolded Let_def]
  from run_mirror_granted [OF assms(4,2,8) refl s2_def]
  obtain r where r: "rows s2 d = Some r" "spent_usd r = spent_on s d + ?e" "in_sync s2 d" by auto
  have nonneg: "0 \<le> spent_usd r" using r(2) assms(2,4) by simp
  have settle: "\<exists>s3. run_prog mem_services (pg_update_spent d (actual - ?e)) s2 = (Inr (spent_on s d + actual), [], s3)
      \<and> spent_on s3 d = spent_on s d + actual \<and> in_sync s3 d"
    using mem_pg_update_spent [OF r(1) nonneg r(3), of "actual - ?e"] r(2) assms(2,6,9) by (simp add: max_def)
  let ?d = "\<lparr>authorized = True, d_date_key = d, d_daily_budget_usd = ab_daily_budget_usd inp,
    d_reserved_cost_usd = ?e, d_spent_usd = spent_on s d + ?e\<rparr>"
  have "\<exists>s3. run_prog mem_services (governor_rollback ?d) s2 = (Inr (spent_on s d), [], s3)
      \<and> spent_on s3 d = spent_on s d \<and> in_sync s3 d"
  proof (cases "?e = 0")
    case True
    have "spent_on s2 d = spent_usd r" using r(1) by (simp add: spent_on_def)
    then show ?thesis using True r by (simp add: governor_rollback_def)
  next
    case False
    then show ?thesis
      using mem_pg_update_spent [OF r(1) nonneg r(3), of "- ?e"] r(2) assms(2,4,7)
      by (simp add: max_def governor_rollback_def proxy_release_def pg_release_def)
  qed
  moreover have "\<exists>s3. run_prog mem_services (governor_settle ?d actual) s2 = (Inr (spent_on s d + actual), [], s3)
      \<and> spent_on s3 d = spent_on s d + actual \<and> in_sync s3 d"
    using settle by (simp add: governor_settle_def proxy_settle_def pg_settle_def)
  ultimately show ?thesis using auth unfolding s2_def
    by (metis brief_budget_decision.select_convs(1))
qed

definition empty_store :: budget_store where
  "empty_store = \<lparr>rows = (\<lambda>d. None), cache = (\<lambda>d. None)\<rparr>"

definition sample_reserve :: "rat \<Rightarrow> reserve_budget_input" where
  "sample_reserve a = \<lparr>rb_date_key = ''2024-06-01'', rb_daily_budget_usd = 1, rb_amount_usd = a\<rparr>"

definition answers :: "budget_reservation_result bprog list \<Rightarrow> bool option list" where
  "answers pool = map (\<lambda>p. case p of Done (Inr r) \<Rightarrow> Some (reserved r) | _ \<Rightarrow> None) pool"

definition no_mirror :: "budget_mirror_input \<Rightarrow> budget_reservation_result bprog" where
  "no_mirror m = Done (Inl StoreError)"

lemma pg_reserve_not_oversubscribed_witness:
  "let inps = [sample_reserve (6 / 10), sample_reserve (6 / 10)];
       (pool, s) = run_schedule mem_services no_mirror [0, 1, 0, 1, 0, 1, 0, 1, 0, 1] (map pg_reserve inps) empty_store
   in answers pool = [Some True, Some False] \<and> spent_on s ''2024-06-01'' \<le> 1"
proof -
  let ?inps = "[sample_reserve (6 / 10), sample_reserve (6 / 10)]"
  let ?run = "run_schedule mem_services no_mirror [0, 1, 0, 1, 0, 1, 0, 1, 0, 1] (map pg_reserve ?inps) empty_store"
  have a: "answers (fst ?run) = [Some True, Some False]" by code_simp
  have inps: "\<forall>inp \<in> set ?inps. rb_date_key inp = ''2024-06-01'' \<and> rb_daily_budget_usd inp \<le> 1 \<and>
      0 \<le> rb_amount_usd inp \<and> rb_amount_usd inp \<le> 1"
    by (simp add: sample_reserve_def)
  have "stored_amount (spent_on (id empty_store) ''2024-06-01'')" by (simp add: spent_on_def empty_store_def stored_amount_def)
  note pg_reserve_not_oversubscribed [OF mem.budget_service_axioms inps this surjective_pairing, THEN conjunct2]
  then have "spent_on (id (snd ?run)) ''2024-06-01'' \<le> max (dec4 1) (spent_on (id empty_store) ''2024-06-01'')" .
  then have "spent_on (snd ?run) ''2024-06-01'' \<le> 1" using dec4_of_int [of 10000] by (simp add: spent_on_def empty_store_def)
  with a show ?thesis by (auto simp: Let_def split: prod.splits)
qed

text \<open>
  With Redis in front the same two reservations are both granted: the second one is refused by
  Redis and falls back to Postgres before the mirror command of the first one has run.
\<close>

lemma proxy_reserve_oversubscribes:
  "let (pool, s) = run_schedule mem_services (\<lambda>m. map_bprog (\<lambda>_. \<lparr>reserved = False, res_spent_usd = 0\<rparr>) (mirror_execute m))
       [0, 0, 1, 1, 1, 1, 1, 2, 2, 2]
       [proxy_reserve (sample_reserve (6 / 10)), proxy_reserve (sample_reserve (6 / 10))] empty_store
   in take 2 (answers pool) = [Some True, Some True] \<and> spent_on s ''2024-06-01'' = 6 / 10"
  by code_simp

lemma proxy_reserve_cold_cache:
  "let (r, ms, s) = run_prog mem_services (proxy_reserve (sample_reserve (6 / 10)))
       (set_row ''2024-06-01'' \<lparr>spent_usd = 9 / 10, budget_usd = 1, request_count = 3\<rparr> empty_store)
   in r = Inr \<lparr>reserved = True, res_spent_usd = 6 / 10\<rparr>"
  by code_simp

lemma pg_reserve_above_budget:
  "let (r, ms, s) = run_prog mem_services (pg_reserve (sample_reserve 5)) empty_store
   in r = Inr \<lparr>reserved = True, res_spent_usd = 5\<rparr>"
  by code_simp

definition sample_store :: "rat \<Rightarrow> budget_store" where
  "sample_store v = set_row ''2024-06-01'' \<lparr>spent_usd = v, budget_usd = 1, request_count = 1\<rparr>
     \<lparr>rows = (\<lambda>d. None), cache = (\<lambda>d. if d = ''2024-06-01'' then Some v else None)\<rparr>"

lemma pg_settle_rounded_witness:
  "\<exists>s. run_prog mem_services (pg_settle ''2024-06-01'' (- 1 / 2)) (sample_store (3 / 10)) = (Inr 0, [], s)
    \<and> spent_on s ''2024-06-01'' = 0"
proof -
  let ?run = "run_prog mem_services (pg_settle ''2024-06-01'' (- 1 / 2)) (sample_store (3 / 10))"
  have "\<not> isl (fst ?run)" by code_simp
  then obtain v ms s where run: "?run = (Inr v, ms, s)" by (cases ?run; cases "fst ?run") auto
  obtain r where r: "rows (id (sample_store (3 / 10))) ''2024-06-01'' = Some r" "spent_usd r = 3 / 10"
    using dec4_examples(4) by (simp add: sample_store_def set_row_def)
  have "stored_amount (spent_usd r)" unfolding r(2) stored_amount_def using dec4_examples(4) by simp
  from pg_settle_rounded [OF mem.budget_service_axioms r(1) this run] run r(2) show ?thesis by auto
qed

lemma governor_keeps_books_witness:
  "\<exists>decision ms s1 s2. run_prog mem_services (governor_authorize
      \<lparr>ab_date_key = ''2024-06-01'', ab_daily_budget_usd = 1, ab_estimated_cost_usd = 5 / 10\<rparr>) (sample_store (3 / 10))
      = (Inr decision, ms, s1)
    \<and> run_prog mem_services (governor_settle decision (2 / 10)) (run_mirrors mem_services ms s1) = (Inr (5 / 10), [], s2)"
proof -
  let ?inp = "\<lparr>ab_date_key = ''2024-06-01'', ab_daily_budget_usd = 1, ab_estimated_cost_usd = 5 / 10\<rparr>"
  let ?s = "sample_store (3 / 10)" and ?d = "''2024-06-01''"
  have v: "spent_on ?s ?d = 3 / 10" "in_sync ?s ?d"
    using dec4_examples(4) by (simp_all add: sample_store_def set_row_def in_sync_def spent_on_def)
  have d: "dec4 (spent_on ?s ?d) = spent_on ?s ?d"
    "dec4 (spent_on ?s ?d + ab_estimated_cost_usd ?inp) = spent_on ?s ?d + ab_estimated_cost_usd ?inp"
    "dec4 (spent_on ?s ?d + 2 / 10) = spent_on ?s ?d + 2 / 10"
    unfolding v using dec4_examples(4-6) by simp_all
  have c: "0 \<le> spent_on ?s ?d" "ab_date_key ?inp = ?d" "0 \<le> ab_estimated_cost_usd ?inp" "\<not> over_budget ?inp ?s"
    "(0 :: rat) \<le> 2 / 10"
    unfolding over_budget_def by (simp_all add: v)
  have "spent_on ?s ?d + 2 / 10 = 5 / 10" by (simp add: v)
  with governor_keeps_books [OF v(2) c d] show ?thesis by metis
qed

end
