(* ===== verification/Events.thy ===== *)
theory Events
  imports JsBase
begin

section \<open>Sources and raw events (packages/pipeline/src/source.ts, raw-event.ts)\<close>

text \<open>
  The seven sources with their wire numbers and aliases, and the parser of a raw event message.
  Parameters: \<open>JSON.parse\<close> with the schema (their result is the record \<open>raw_event_wire\<close>), and
  \<open>new Date(text)\<close>, which gives the time in milliseconds or is invalid.
\<close>

subsection \<open>Sources\<close>

datatype source = Rss | News | Hackernews | Reddit | Github | Bluesky | Mastodon

definition all_sources :: "source list" where
  "all_sources = [Rss, News, Hackernews, Reddit, Github, Bluesky, Mastodon]"

fun source_key :: "source \<Rightarrow> string" where
  "source_key Rss = ''rss''"
| "source_key News = ''news''"
| "source_key Hackernews = ''hackernews''"
| "source_key Reddit = ''reddit''"
| "source_key Github = ''github''"
| "source_key Bluesky = ''bluesky''"
| "source_key Mastodon = ''mastodon''"

definition source_enum_to_key :: "(int, source) omap" where
  "source_enum_to_key =
     [(1, Rss), (2, News), (3, Hackernews), (4, Reddit), (5, Github), (7, Bluesky), (8, Mastodon)]"

definition source_key_to_enum :: "(source, int) omap" where
  "source_key_to_enum = map (\<lambda>(k, v). (v, k)) source_enum_to_key"

definition source_alias_to_key :: "(string, source) omap" where
  "source_alias_to_key =
     [(''source_rss'', Rss), (''rss'', Rss),
      (''source_news'', News), (''news'', News), (''lobsters'', News),
      (''source_hackernews'', Hackernews), (''hackernews'', Hackernews), (''hacker_news'', Hackernews),
      (''source_reddit'', Reddit), (''reddit'', Reddit),
      (''source_github'', Github), (''github'', Github),
      (''source_bluesky'', Bluesky), (''bluesky'', Bluesky),
      (''source_mastodon'', Mastodon), (''mastodon'', Mastodon)]"

text \<open>A source may also be a member that an earlier look-up inherited; its \<open>trim\<close> fails.\<close>

datatype source_value = SourceNumber int | SourceString string | SourceMember string

datatype source_error = UnsupportedEnum int | UnsupportedValue string | SourceNotText js_fault

text \<open>
  A look-up in the alias table, an object literal, also finds what the table inherits, so the result
  may be a member of \<open>Object.prototype\<close> in place of a source.
\<close>

datatype canonical = Canonical source | Inherited string

definition parse_source_number :: "int \<Rightarrow> source_error + canonical" where
  "parse_source_number n =
     (case map_of source_enum_to_key n of
        None \<Rightarrow> Inl (UnsupportedEnum n) | Some s \<Rightarrow> Inr (Canonical s))"

definition is_digit :: "char \<Rightarrow> bool" where
  "is_digit c \<longleftrightarrow> (let n = (of_char c :: nat) in 48 \<le> n \<and> n \<le> 57)"

definition digits_value :: "string \<Rightarrow> int" where
  "digits_value ds = foldl (\<lambda>v c. 10 * v + (of_char c - 48)) 0 ds"

text \<open>\<open>parseInt(text, 10)\<close>: an optional sign and the longest run of digits, \<open>None\<close> for \<open>NaN\<close>.\<close>

definition parse_int10 :: "string \<Rightarrow> int option" where
  "parse_int10 text =
     (let s = trim_start text;
          (neg, body) = (case s of
              c # r \<Rightarrow> if c = CHR ''-'' then (True, r) else if c = CHR ''+'' then (False, r) else (False, s)
            | [] \<Rightarrow> (False, []));
          ds = takeWhile is_digit body
      in if ds = [] then None else Some (if neg then - digits_value ds else digits_value ds))"

lemma digits_value_snoc: "digits_value (ds @ [c]) = 10 * digits_value ds + (of_char c - 48)"
  by (simp add: digits_value_def)

lemma nat_str_digits:
  "list_all is_digit (nat_str n) \<and> nat_str n \<noteq> [] \<and> digits_value (nat_str n) = int n"
proof (induction n rule: nat_str.induct)
  case (1 n)
  have d: "is_digit (char_of (48 + k))" "of_char (char_of (48 + k) :: char) = (48 + int k)" if "k < 10" for k
  proof -
    have "of_nat (of_char (char_of (48 + k) :: char) :: nat) = (of_char (char_of (48 + k) :: char) :: int)"
      by (rule of_nat_of_char)
    then show "is_digit (char_of (48 + k))" "of_char (char_of (48 + k) :: char) = (48 + int k)"
      using that by (simp_all add: is_digit_def of_char_of)
  qed
  show ?case
  proof (cases "n < 10")
    case True
    then show ?thesis using d [of n] by (subst (1 2 3) nat_str.simps) (simp add: digits_value_def)
  next
    case False
    have "10 * int (n div 10) + int (n mod 10) = int n"
      by (metis mult_div_mod_eq of_nat_add of_nat_mult of_nat_numeral)
    with False show ?thesis using 1 d [of "n mod 10"]
      by (subst (1 2 3) nat_str.simps) (simp add: digits_value_snoc)
  qed
qed

lemma takeWhile_digits [simp]: "takeWhile is_digit (nat_str n) = nat_str n"
  using nat_str_digits [of n] by (simp add: takeWhile_eq_all_conv list_all_iff)

lemma parse_int10_int_str: "parse_int10 (int_str n) = Some n"
proof -
  obtain c r where c: "nat_str (nat \<bar>n\<bar>) = c # r" "is_digit c"
    using nat_str_digits [of "nat \<bar>n\<bar>"] by (metis list.pred_inject(2) neq_Nil_conv)
  have tw: "takeWhile is_digit r = r"
    using takeWhile_digits [of "nat \<bar>n\<bar>"] c by simp
  have "\<not> is_ws c" "c \<noteq> CHR ''-''" "c \<noteq> CHR ''+''" using c(2) by (auto simp: is_digit_def is_ws_def)
  with c nat_str_digits [of "nat \<bar>n\<bar>"]
  show ?thesis by (auto simp: tw parse_int10_def int_str_def trim_start_def is_ws_def Let_def)
qed

definition parse_canonical_source :: "source_value \<Rightarrow> source_error + canonical" where
  "parse_canonical_source value =
     (case value of
        SourceNumber n \<Rightarrow> parse_source_number n
      | SourceMember _ \<Rightarrow> Inl (SourceNotText TypeError)
      | SourceString text \<Rightarrow>
          (let trimmed = trim text;
               by_alias = (let normalized = to_lower trimmed in
                 case map_of source_alias_to_key normalized of
                   Some s \<Rightarrow> Inr (Canonical s)
                 | None \<Rightarrow> if normalized \<in> set object_prototype_keys then Inr (Inherited normalized)
                     else Inl (UnsupportedValue text))
           in case parse_int10 trimmed of
                Some n \<Rightarrow> if int_str n = trimmed then parse_source_number n else by_alias
              | None \<Rightarrow> by_alias))"

text \<open>The number of an inherited member is \<open>undefined\<close>.\<close>

definition source_to_proto_enum :: "string \<Rightarrow> source_error + int option" where
  "source_to_proto_enum value =
     (case parse_canonical_source (SourceString value) of
        Inl e \<Rightarrow> Inl e
      | Inr (Canonical s) \<Rightarrow> Inr (map_of source_key_to_enum s)
      | Inr (Inherited _) \<Rightarrow> Inr None)"

lemma in_all_sources [simp]: "s \<in> set all_sources"
  by (cases s) (simp_all add: all_sources_def)

text \<open>A canonical source as the next parser of it sees it: a text, or the member that was inherited.\<close>

definition source_text :: "canonical \<Rightarrow> source_value" where
  "source_text c = (case c of Canonical s \<Rightarrow> SourceString (source_key s) | Inherited k \<Rightarrow> SourceMember k)"

lemma source_text_parsed: "parse_canonical_source (source_text (Canonical s)) = Inr (Canonical s)"
proof -
  have "list_all (\<lambda>s. parse_canonical_source (source_text (Canonical s)) = Inr (Canonical s)) all_sources" by code_simp
  then show ?thesis by (simp add: list_all_iff)
qed

lemma source_text_accepted:
  "parse_canonical_source (source_text c) = Inr d \<longleftrightarrow> d = c \<and> (\<exists>s. c = Canonical s)"
  using source_text_parsed by (cases c) (auto simp: source_text_def parse_canonical_source_def)

subsection \<open>Raw events\<close>

record wire_author =
  wa_id :: "string option"
  wa_handle :: "string option"
  wa_display_name :: "string option"

record wire_engagement =
  we_score :: "rat option"
  we_comments :: "rat option"
  we_likes :: "rat option"
  we_shares :: "rat option"

record raw_event_wire =
  w_event_id :: string
  w_source :: source_value
  w_fetched_at :: string
  w_published_at :: "string option"
  w_url :: "string option"
  w_title :: "string option"
  w_text :: string
  w_author :: "wire_author option"
  w_engagement :: "wire_engagement option"
  w_lang :: "string option"
  w_tags :: "string list option"
  w_hashtags :: "string list option"
  w_urls :: "string list option"
  w_source_meta_json :: "string option"

definition raw_event_wire_ok :: "raw_event_wire \<Rightarrow> bool" where
  "raw_event_wire_ok w \<longleftrightarrow> w_event_id w \<noteq> [] \<and> w_fetched_at w \<noteq> [] \<and> w_text w \<noteq> [] \<and>
     w_source w \<noteq> SourceString []"

record 'meta parsed_raw_event =
  event_id :: string
  event_source :: canonical
  fetched_at :: int
  published_at :: "int option"
  event_url :: "string option"
  title :: "string option"
  event_text :: string
  author_id :: "string option"
  author_handle :: "string option"
  author_display_name :: "string option"
  engagement_score :: "rat option"
  engagement_comments :: "rat option"
  engagement_likes :: "rat option"
  engagement_shares :: "rat option"
  lang :: "string option"
  tags :: "string list"
  extracted_hashtags :: "string list"
  extracted_urls :: "string list"
  source_meta :: "'meta option"

datatype event_error =
    InvalidPayload
  | BadSource source_error
  | InvalidDate string string
  | InvalidSourceMeta
  | SourceMetaNoObject

text \<open>The value of \<open>JSON.parse\<close> on the source meta data, as far as the code looks at it.\<close>

datatype 'meta json_meta = JsonObject 'meta | JsonOther

record 'meta parsers =
  date_value :: "string \<Rightarrow> int option"
  json_meta :: "string \<Rightarrow> 'meta json_meta option"

definition parse_date :: "'m parsers \<Rightarrow> string \<Rightarrow> string \<Rightarrow> event_error + int" where
  "parse_date ps value field =
     (case date_value ps value of None \<Rightarrow> Inl (InvalidDate field value) | Some t \<Rightarrow> Inr t)"

definition normalize_optional_string :: "string option \<Rightarrow> string option" where
  "normalize_optional_string value =
     (case value of
        None \<Rightarrow> None
      | Some v \<Rightarrow> let trimmed = trim v in if length trimmed = 0 then None else Some trimmed)"

definition parse_source_meta :: "'m parsers \<Rightarrow> string option \<Rightarrow> event_error + 'm option" where
  "parse_source_meta ps source_meta_json =
     (case normalize_optional_string source_meta_json of
        None \<Rightarrow> Inr None
      | Some s \<Rightarrow> (case json_meta ps s of
            None \<Rightarrow> Inl InvalidSourceMeta
          | Some JsonOther \<Rightarrow> Inl SourceMetaNoObject
          | Some (JsonObject m) \<Rightarrow> Inr (Some m)))"

definition default :: "'a \<Rightarrow> 'a option \<Rightarrow> 'a" where
  "default d x = (case x of None \<Rightarrow> d | Some v \<Rightarrow> v)"

text \<open>\<open>deserializeRawEvent\<close>: the value of the message after \<open>JSON.parse\<close> and the schema, or \<open>None\<close>.\<close>

definition deserialize_raw_event ::
  "'m parsers \<Rightarrow> raw_event_wire option \<Rightarrow> event_error + 'm parsed_raw_event" where
  "deserialize_raw_event ps decoded =
     (case decoded of
        None \<Rightarrow> Inl InvalidPayload
      | Some w \<Rightarrow>
          ebind (case parse_canonical_source (w_source w) of Inl e \<Rightarrow> Inl (BadSource e) | Inr s \<Rightarrow> Inr s) (\<lambda>src.
          ebind (parse_date ps (w_fetched_at w) ''fetched_at'') (\<lambda>fetched.
          ebind (if truthy (w_published_at w)
                 then map_sum id Some (parse_date ps (the (w_published_at w)) ''published_at'')
                 else Inr None) (\<lambda>published.
          ebind (parse_source_meta ps (w_source_meta_json w)) (\<lambda>meta.
          Inr \<lparr>event_id = w_event_id w, event_source = src, fetched_at = fetched, published_at = published,
            event_url = normalize_optional_string (w_url w),
            title = normalize_optional_string (w_title w),
            event_text = w_text w,
            author_id = normalize_optional_string (Option.bind (w_author w) wa_id),
            author_handle = normalize_optional_string (Option.bind (w_author w) wa_handle),
            author_display_name = normalize_optional_string (Option.bind (w_author w) wa_display_name),
            engagement_score = Option.bind (w_engagement w) we_score,
            engagement_comments = Option.bind (w_engagement w) we_comments,
            engagement_likes = Option.bind (w_engagement w) we_likes,
            engagement_shares = Option.bind (w_engagement w) we_shares,
            lang = normalize_optional_string (w_lang w),
            tags = default [] (w_tags w),
            extracted_hashtags = default [] (w_hashtags w),
            extracted_urls = default [] (w_urls w),
            source_meta = meta\<rparr>)))))"

lemma normalize_optional_string_Some:
  "normalize_optional_string v = Some s \<Longrightarrow> s \<noteq> [] \<and> (\<exists>t. v = Some t \<and> s = trim t)"
  by (auto simp: normalize_optional_string_def Let_def split: option.splits if_splits)

definition absent_or_trimmed :: "string option \<Rightarrow> bool" where
  "absent_or_trimmed v \<longleftrightarrow> (case v of None \<Rightarrow> True | Some t \<Rightarrow> t \<noteq> [] \<and> trim t = t)"

lemma absent_or_trimmed_normalize [simp]: "absent_or_trimmed (normalize_optional_string v)"
  using normalize_optional_string_Some [of v]
  by (cases "normalize_optional_string v") (auto simp: absent_or_trimmed_def)

subsection \<open>Properties\<close>

text \<open>
  C37. Every source can be named by its key, by its wire number and by that number as text, and the
  translations between key and number are inverse to each other.
\<close>

theorem source_names:
  "parse_canonical_source (SourceString (source_key s)) = Inr (Canonical s) \<and>
   (\<exists>n. source_to_proto_enum (source_key s) = Inr (Some n) \<and>
      parse_canonical_source (SourceNumber n) = Inr (Canonical s) \<and>
      parse_canonical_source (SourceString (int_str n)) = Inr (Canonical s)) \<and>
   (\<forall>n. parse_canonical_source (SourceNumber n) = Inr (Canonical s) \<longleftrightarrow>
      source_to_proto_enum (source_key s) = Inr (Some n))"
proof -
  have key: "list_all (\<lambda>s. parse_canonical_source (SourceString (source_key s)) = Inr (Canonical s)) all_sources"
    by code_simp
  have enum: "list_all (\<lambda>s. \<exists>n \<in> fst ` set source_enum_to_key. source_to_proto_enum (source_key s) = Inr (Some n) \<and>
      parse_canonical_source (SourceNumber n) = Inr (Canonical s) \<and>
      parse_canonical_source (SourceString (int_str n)) = Inr (Canonical s)) all_sources"
    by code_simp
  have "list_all (\<lambda>(n, s). source_to_proto_enum (source_key s) = Inr (Some n)) source_enum_to_key"
    by code_simp
  then have conv: "source_to_proto_enum (source_key s) = Inr (Some n)"
    if "parse_canonical_source (SourceNumber n) = Inr (Canonical s)" for n
    using that by (auto simp: parse_canonical_source_def parse_source_number_def list_all_iff
        dest!: map_of_SomeD split: option.splits)
  from enum obtain n where n: "source_to_proto_enum (source_key s) = Inr (Some n)"
    "parse_canonical_source (SourceNumber n) = Inr (Canonical s)"
    "parse_canonical_source (SourceString (int_str n)) = Inr (Canonical s)"
    unfolding list_all_iff using in_all_sources [of s] by blast
  then have "parse_canonical_source (SourceNumber m) = Inr (Canonical s) \<longleftrightarrow>
      source_to_proto_enum (source_key s) = Inr (Some m)" for m
    using conv [of m] by (metis option.inject sum.inject(2))
  moreover have "parse_canonical_source (SourceString (source_key s)) = Inr (Canonical s)"
    using key by (simp add: list_all_iff)
  ultimately show ?thesis using n by blast
qed

text \<open>The look-up of an alias finds members of the prototype: the text \<open>constructor\<close> is accepted.\<close>

lemma parse_canonical_source_constructor:
  "parse_canonical_source (SourceString '' Constructor '') = Inr (Inherited ''constructor'')"
  by code_simp

text \<open>
  A parsed raw event is normalised: its identity and text are those of the message and not
  empty, and every optional text is either absent or trimmed and not empty.
\<close>

theorem deserialize_raw_event_normalised:
  assumes "raw_event_wire_ok w" and "deserialize_raw_event ps (Some w) = Inr ev"
  shows "event_id ev = w_event_id w \<and> event_id ev \<noteq> [] \<and> event_text ev = w_text w \<and> event_text ev \<noteq> []
    \<and> date_value ps (w_fetched_at w) = Some (fetched_at ev)
    \<and> (published_at ev = None \<longleftrightarrow> \<not> truthy (w_published_at w))
    \<and> (\<forall>f \<in> {event_url, title, author_id, author_handle, author_display_name, lang}.
         absent_or_trimmed (f ev))"
  using assms
  by (auto simp: deserialize_raw_event_def raw_event_wire_ok_def parse_date_def split: option.splits if_splits sum.splits)

definition sample_wire :: raw_event_wire where
  "sample_wire = \<lparr>w_event_id = ''e1'', w_source = SourceString '' LOBSTERS'', w_fetched_at = ''7'',
     w_published_at = Some [], w_url = Some '' '', w_title = Some '' Title '', w_text = ''text'',
     w_author = None, w_engagement = None, w_lang = None, w_tags = None, w_hashtags = None, w_urls = None,
     w_source_meta_json = None\<rparr>"

lemma deserialize_raw_event_normalised_witness:
  "\<exists>ev. deserialize_raw_event (\<lparr>date_value = parse_int10, json_meta = (\<lambda>_. None)\<rparr> :: unit parsers) (Some sample_wire) = Inr ev
    \<and> event_text ev = ''text'' \<and> fetched_at ev = 7 \<and> published_at ev = None"
proof -
  let ?ps = "\<lparr>date_value = parse_int10, json_meta = (\<lambda>_. None)\<rparr> :: unit parsers"
  have "\<not> isl (deserialize_raw_event ?ps (Some sample_wire))" by code_simp
  then obtain ev where ev: "deserialize_raw_event ?ps (Some sample_wire) = Inr ev"
    by (cases "deserialize_raw_event ?ps (Some sample_wire)") auto
  have ok: "raw_event_wire_ok sample_wire" by code_simp
  have "parse_int10 ''7'' = Some 7" by code_simp
  with deserialize_raw_event_normalised [OF ok ev] ev show ?thesis
    by (simp add: sample_wire_def truthy_def)
qed

end
