(* ===== verification/Health.thy ===== *)
theory Health
  imports Events
begin

section \<open>Metrics and health (packages/shared/src/runtime/health.ts, apps/persister/src/health.ts)\<close>

text \<open>
  Histograms, metric labels, the text format of the metrics and the health status of the persister.
  Counters are maps from a label to a number. How a number that is not an integer is printed is a
  parameter.
\<close>

subsection \<open>Histograms\<close>

record histogram_state =
  buckets :: "rat list"
  bucket_counts :: "nat list"
  overflow_count :: nat
  hist_count :: nat
  hist_sum :: rat

definition create_histogram :: "rat list \<Rightarrow> histogram_state" where
  "create_histogram bs =
     \<lparr>buckets = bs, bucket_counts = replicate (length bs) 0, overflow_count = 0, hist_count = 0, hist_sum = 0\<rparr>"

text \<open>The loop over the buckets: the first bucket the value fits in, if any.\<close>

fun first_bucket :: "rat list \<Rightarrow> rat \<Rightarrow> nat option" where
  "first_bucket [] v = None"
| "first_bucket (b # bs) v = (if v \<le> b then Some 0 else map_option Suc (first_bucket bs v))"

definition observe_histogram :: "histogram_state \<Rightarrow> rat \<Rightarrow> histogram_state" where
  "observe_histogram h v =
     (if v < 0 then h
      else
        let h' = h\<lparr>hist_count := hist_count h + 1, hist_sum := hist_sum h + v\<rparr> in
        case first_bucket (buckets h) v of
          Some i \<Rightarrow> h'\<lparr>bucket_counts := (bucket_counts h)[i := bucket_counts h ! i + 1]\<rparr>
        | None \<Rightarrow> h'\<lparr>overflow_count := overflow_count h + 1\<rparr>)"

subsection \<open>Text format\<close>

definition replace_char :: "char \<Rightarrow> string \<Rightarrow> string \<Rightarrow> string" where
  "replace_char c r s = concat (map (\<lambda>d. if d = c then r else [d]) s)"

definition quote_metric_label_value :: "string \<Rightarrow> string" where
  "quote_metric_label_value value =
     replace_char CHR 0x0A [CHR 0x5C, CHR ''n'']
       (replace_char CHR 0x22 [CHR 0x5C, CHR 0x22]
         (replace_char CHR 0x5C [CHR 0x5C, CHR 0x5C] value))"

definition format_metric_labels :: "(string, string) omap \<Rightarrow> string" where
  "format_metric_labels labels =
     (if length labels = 0 then []
      else ''{'' @ join '','' (map (\<lambda>(name, value). name @ ''='' @ [CHR 0x22] @
        quote_metric_label_value value @ [CHR 0x22]) labels) @ ''}'')"

fun cumulative :: "nat \<Rightarrow> nat list \<Rightarrow> nat list" where
  "cumulative acc [] = []"
| "cumulative acc (c # cs) = (acc + c) # cumulative (acc + c) cs"

definition format_histogram ::
  "(rat \<Rightarrow> string) \<Rightarrow> string \<Rightarrow> string \<Rightarrow> histogram_state \<Rightarrow> (string, string) omap \<Rightarrow> bool \<Rightarrow> string list" where
  "format_histogram num_str name help h extra_labels include_metadata =
     (if include_metadata then [''# HELP '' @ name @ '' '' @ help, ''# TYPE '' @ name @ '' histogram''] else []) @
     map (\<lambda>(b, n). name @ ''_bucket'' @ format_metric_labels (om_set extra_labels ''le'' (num_str b)) @ '' '' @ nat_str n)
       (zip (buckets h) (cumulative 0 (bucket_counts h))) @
     [name @ ''_bucket'' @ format_metric_labels (om_set extra_labels ''le'' ''+Inf'') @ '' '' @ nat_str (hist_count h),
      name @ ''_sum'' @ format_metric_labels extra_labels @ '' '' @ num_str (hist_sum h),
      name @ ''_count'' @ format_metric_labels extra_labels @ '' '' @ nat_str (hist_count h)]"

definition get_max_consumer_lag :: "(int, int) omap \<Rightarrow> int" where
  "get_max_consumer_lag lags = foldl (\<lambda>m l. if l > m then l else m) 0 (map snd lags)"

subsection \<open>The persister\<close>

record metrics =
  events_processed :: "(string, nat) omap"
  events_skipped :: "(string, nat) omap"
  errors :: "(string, nat) omap"
  consumer_lag :: "(int, int) omap"
  postgres_write_duration :: histogram_state
  redis_write_duration :: histogram_state
  batch_size :: histogram_state

record health_context =
  start_time :: int
  kafka_healthy :: bool
  postgres_healthy :: bool
  redis_healthy :: bool
  circuit_open :: bool
  last_event_at :: "int option"
  metrics_of :: metrics

definition duration_buckets_seconds :: "rat list" where
  "duration_buckets_seconds =
     [1 / 100, 5 / 100, 1 / 10, 25 / 100, 5 / 10, 1, 25 / 10, 5, 10, 30, 60]"

definition count_buckets :: "rat list" where
  "count_buckets = [1, 5, 10, 25, 50, 100, 250, 500, 1000]"

definition create_metrics :: metrics where
  "create_metrics =
     \<lparr>events_processed = [], events_skipped = [], errors = [], consumer_lag = [],
      postgres_write_duration = create_histogram duration_buckets_seconds,
      redis_write_duration = create_histogram duration_buckets_seconds,
      batch_size = create_histogram count_buckets\<rparr>"

definition create_health_context :: "int \<Rightarrow> health_context" where
  "create_health_context now =
     \<lparr>start_time = now, kafka_healthy = False, postgres_healthy = False, redis_healthy = False,
      circuit_open = False, last_event_at = None, metrics_of = create_metrics\<rparr>"

definition bump :: "string \<Rightarrow> nat \<Rightarrow> (string, nat) omap \<Rightarrow> (string, nat) omap" where
  "bump k n m = om_set m k (om_get 0 m k + n)"

definition upd_metrics :: "(metrics \<Rightarrow> metrics) \<Rightarrow> health_context \<Rightarrow> health_context" where
  "upd_metrics f c = c\<lparr>metrics_of := f (metrics_of c)\<rparr>"

definition increment_events_processed :: "string \<Rightarrow> nat \<Rightarrow> health_context \<Rightarrow> health_context" where
  "increment_events_processed source n = upd_metrics (\<lambda>m. m\<lparr>events_processed := bump source n (events_processed m)\<rparr>)"

definition increment_events_skipped :: "string \<Rightarrow> nat \<Rightarrow> health_context \<Rightarrow> health_context" where
  "increment_events_skipped reason n = upd_metrics (\<lambda>m. m\<lparr>events_skipped := bump reason n (events_skipped m)\<rparr>)"

definition increment_error :: "string \<Rightarrow> health_context \<Rightarrow> health_context" where
  "increment_error error_type = upd_metrics (\<lambda>m. m\<lparr>errors := bump error_type 1 (errors m)\<rparr>)"

definition observe_postgres_write_duration :: "rat \<Rightarrow> health_context \<Rightarrow> health_context" where
  "observe_postgres_write_duration v =
     upd_metrics (\<lambda>m. m\<lparr>postgres_write_duration := observe_histogram (postgres_write_duration m) v\<rparr>)"

definition observe_redis_write_duration :: "rat \<Rightarrow> health_context \<Rightarrow> health_context" where
  "observe_redis_write_duration v =
     upd_metrics (\<lambda>m. m\<lparr>redis_write_duration := observe_histogram (redis_write_duration m) v\<rparr>)"

definition observe_batch_size :: "nat \<Rightarrow> health_context \<Rightarrow> health_context" where
  "observe_batch_size n = upd_metrics (\<lambda>m. m\<lparr>batch_size := observe_histogram (batch_size m) (of_nat n)\<rparr>)"

definition set_consumer_lag :: "int \<Rightarrow> int \<Rightarrow> health_context \<Rightarrow> health_context" where
  "set_consumer_lag part lag = upd_metrics (\<lambda>m. m\<lparr>consumer_lag := om_set (consumer_lag m) part lag\<rparr>)"

datatype status = Healthy | Degraded | Unhealthy

record health_status =
  hs_status :: status
  hs_kafka_ok :: bool
  hs_postgres_ok :: bool
  hs_redis_ok :: bool
  hs_circuit_open :: bool
  hs_uptime_seconds :: int
  hs_max_consumer_lag :: int
  hs_last_event_at :: "int option"

definition get_health_status :: "int \<Rightarrow> health_context \<Rightarrow> health_status" where
  "get_health_status now ctx =
     (let max_lag = get_max_consumer_lag (consumer_lag (metrics_of ctx));
          has_lag_issue = max_lag > 1000;
          st = (if \<not> kafka_healthy ctx \<or> \<not> postgres_healthy ctx \<or> \<not> redis_healthy ctx then Unhealthy
                else if has_lag_issue \<or> circuit_open ctx then Degraded
                else Healthy)
      in \<lparr>hs_status = st, hs_kafka_ok = kafka_healthy ctx, hs_postgres_ok = postgres_healthy ctx,
          hs_redis_ok = redis_healthy ctx, hs_circuit_open = circuit_open ctx,
          hs_uptime_seconds = (now - start_time ctx) div 1000, hs_max_consumer_lag = max_lag,
          hs_last_event_at = last_event_at ctx\<rparr>)"

definition is_ready :: "health_context \<Rightarrow> bool" where
  "is_ready ctx \<longleftrightarrow> kafka_healthy ctx \<and> postgres_healthy ctx \<and> redis_healthy ctx \<and> \<not> circuit_open ctx"

definition counter_lines :: "string \<Rightarrow> string \<Rightarrow> string \<Rightarrow> (string, nat) omap \<Rightarrow> string list" where
  "counter_lines name help label m =
     [''# HELP '' @ name @ '' '' @ help, ''# TYPE '' @ name @ '' counter''] @
     map (\<lambda>(k, n). name @ ''{'' @ label @ ''='' @ [CHR 0x22] @ quote_metric_label_value k @ [CHR 0x22] @ ''} '' @ nat_str n) m"

definition format_metrics :: "(rat \<Rightarrow> string) \<Rightarrow> int \<Rightarrow> health_context \<Rightarrow> string" where
  "format_metrics num_str now ctx =
     (let m = metrics_of ctx;
          ls = counter_lines ''ri_persister_events_processed_total'' ''Events written to Postgres'' ''source''
                 (events_processed m) @
               counter_lines ''ri_persister_events_skipped_total'' ''Events skipped by reason'' ''reason''
                 (events_skipped m) @
               counter_lines ''ri_persister_errors_total'' ''Errors by category'' ''error_type'' (errors m) @
               [''# HELP ri_persister_consumer_lag Messages behind latest by partition'',
                ''# TYPE ri_persister_consumer_lag gauge''] @
               map (\<lambda>(p, lag). ''ri_persister_consumer_lag{partition='' @ [CHR 0x22] @ int_str p @ [CHR 0x22] @
                 ''} '' @ int_str lag) (consumer_lag m) @
               format_histogram num_str ''ri_persister_postgres_write_duration_seconds''
                 ''Postgres write duration in seconds'' (postgres_write_duration m) [] True @
               format_histogram num_str ''ri_persister_redis_write_duration_seconds''
                 ''Redis write duration in seconds'' (redis_write_duration m) [] True @
               format_histogram num_str ''ri_persister_batch_size'' ''Kafka batch size'' (batch_size m) [] True @
               [''# HELP ri_persister_up 1 when service dependencies are healthy'',
                ''# TYPE ri_persister_up gauge'',
                ''ri_persister_up '' @ (if hs_status (get_health_status now ctx) = Unhealthy then ''0'' else ''1'')]
      in join [CHR 0x0A] ls @ [CHR 0x0A])"

subsection \<open>Invariants\<close>

definition histogram_ok :: "histogram_state \<Rightarrow> bool" where
  "histogram_ok h \<longleftrightarrow> length (bucket_counts h) = length (buckets h) \<and>
     sum_list (bucket_counts h) + overflow_count h = hist_count h \<and> 0 \<le> hist_sum h"

lemma first_bucket_less: "first_bucket bs v = Some i \<Longrightarrow> i < length bs"
  by (induction bs arbitrary: i) (auto split: if_splits)

lemma histogram_ok_create [simp]: "histogram_ok (create_histogram bs)"
  by (simp add: histogram_ok_def create_histogram_def sum_list_replicate)

lemma histogram_ok_observe [simp]: "histogram_ok h \<Longrightarrow> histogram_ok (observe_histogram h v)"
  by (auto simp: histogram_ok_def observe_histogram_def Let_def sum_list_update dest: first_bucket_less
      split: option.splits)

lemma cumulative_nth: "i < length cs \<Longrightarrow> cumulative a cs ! i = a + sum_list (take (Suc i) cs)"
proof (induction cs arbitrary: a i)
  case (Cons c cs)
  then show ?case by (cases i) auto
qed simp

lemma length_cumulative [simp]: "length (cumulative a cs) = length cs"
  by (induction cs arbitrary: a) auto

lemma hist_count_observe: "hist_count (observe_histogram h v) = (if v < 0 then hist_count h else Suc (hist_count h))"
  by (simp add: observe_histogram_def Let_def split: option.splits)

text \<open>The number of observations that fit in a bucket, whichever bucket counted them.\<close>

definition observed_le :: "rat list \<Rightarrow> rat \<Rightarrow> nat" where
  "observed_le vs b = length (filter (\<lambda>v. 0 \<le> v \<and> v \<le> b) vs)"

lemma buckets_observe [simp]: "buckets (observe_histogram h v) = buckets h"
  by (simp add: observe_histogram_def Let_def split: option.splits)

lemma first_bucket_le:
  assumes "sorted bs" and "i < length bs"
  shows "v \<le> bs ! i \<longleftrightarrow> (\<exists>j. first_bucket bs v = Some j \<and> j \<le> i)"
  using assms
proof (induction bs arbitrary: i)
  case (Cons b bs)
  show ?case
  proof (cases "v \<le> b")
    case True
    have "b \<le> (b # bs) ! i" using Cons.prems by (cases i) auto
    with True show ?thesis by simp
  next
    case False
    show ?thesis
    proof (cases i)
      case 0
      with False show ?thesis by auto
    next
      case (Suc k)
      with False Cons show ?thesis by auto
    qed
  qed
qed simp

lemma sum_take_update:
  "j < length xs \<Longrightarrow> sum_list (take n (xs[j := Suc (xs ! j)])) = sum_list (take n xs) + (if j < n then 1 else (0 :: nat))"
proof (cases "j < n")
  case True
  then show "j < length xs \<Longrightarrow> ?thesis" by (simp add: take_update_swap sum_list_update elem_le_sum_list)
qed simp

lemma bucket_counts_observe:
  "bucket_counts (observe_histogram h v) =
    (if v < 0 then bucket_counts h
     else case first_bucket (buckets h) v of
         Some i \<Rightarrow> (bucket_counts h)[i := bucket_counts h ! i + 1] | None \<Rightarrow> bucket_counts h)"
  by (simp add: observe_histogram_def Let_def split: option.splits)

lemma observe_many_counts:
  assumes "sorted bs"
  shows "histogram_ok (foldl observe_histogram (create_histogram bs) vs) \<and>
    buckets (foldl observe_histogram (create_histogram bs) vs) = bs \<and>
    hist_count (foldl observe_histogram (create_histogram bs) vs) = length (filter (\<lambda>v. 0 \<le> v) vs) \<and>
    (\<forall>i < length bs. sum_list (take (Suc i) (bucket_counts (foldl observe_histogram (create_histogram bs) vs)))
       = observed_le vs (bs ! i))"
proof (induction vs rule: rev_induct)
  case Nil
  show ?case by (simp add: observed_le_def create_histogram_def histogram_ok_def sum_list_replicate)
next
  case (snoc v vs)
  let ?h = "foldl observe_histogram (create_histogram bs) vs"
  have ok: "histogram_ok ?h" "buckets ?h = bs" "length (bucket_counts ?h) = length bs"
    using snoc by (auto simp: histogram_ok_def)
  have "sum_list (take (Suc i) (bucket_counts (observe_histogram ?h v))) = observed_le (vs @ [v]) (bs ! i)"
    if i: "i < length bs" for i
  proof (cases "v < 0")
    case True
    with snoc i show ?thesis by (simp add: bucket_counts_observe observed_le_def)
  next
    case False
    show ?thesis
    proof (cases "first_bucket bs v")
      case None
      then have "\<not> v \<le> bs ! i" using first_bucket_le [OF assms i] by simp
      with None False ok snoc i show ?thesis by (simp add: bucket_counts_observe observed_le_def)
    next
      case (Some j)
      then have "v \<le> bs ! i \<longleftrightarrow> j \<le> i" using first_bucket_le [OF assms i] by simp
      with Some False ok snoc i show ?thesis
        using first_bucket_less [OF Some]
        by (simp add: bucket_counts_observe observed_le_def sum_take_update del: take_Suc_conv_app_nth)
    qed
  qed
  moreover have "hist_count (observe_histogram ?h v) = length (filter (\<lambda>v. 0 \<le> v) (vs @ [v]))"
    using snoc by (simp add: hist_count_observe)
  ultimately show ?case using ok by simp
qed

text \<open>
  C38. A histogram with ascending buckets counts every observation once: after any observations the
  total is their number (negative ones are ignored), the buckets and the overflow add up to it, and
  the cumulative count that is printed for a bucket is the number of observations up to its bound.
\<close>

theorem histogram_counts:
  assumes "sorted bs" and "i < length bs"
  shows "let h = foldl observe_histogram (create_histogram bs) vs in hist_count h = length (filter (\<lambda>v. 0 \<le> v) vs)
    \<and> sum_list (bucket_counts h) + overflow_count h = hist_count h
    \<and> cumulative 0 (bucket_counts h) ! i = observed_le vs (bs ! i)"
  using observe_many_counts [OF assms(1), of vs] assms(2)
  by (auto simp: Let_def histogram_ok_def cumulative_nth)

lemma histogram_counts_witness:
  "cumulative 0 (bucket_counts (foldl observe_histogram (create_histogram count_buckets) [0, 3, -1, 5, 7, 2000])) ! 1 = 3"
proof -
  have "sorted count_buckets" "1 < length count_buckets" by (simp_all add: count_buckets_def)
  from histogram_counts [OF this, of "[0, 3, -1, 5, 7, 2000]", unfolded Let_def, THEN conjunct2, THEN conjunct2]
  show ?thesis by (simp only:) (simp add: observed_le_def count_buckets_def)
qed

lemma max_lag_foldl: "foldl (\<lambda>m l. if l > m then l else m) (a :: int) ls = fold max ls a"
proof -
  have "(\<lambda>m l :: int. if l > m then l else m) = (\<lambda>m l. max l m)" by (intro ext) (auto simp: max_def)
  then show ?thesis by (simp add: foldl_conv_fold)
qed

lemma fold_max_less: "(fold max ls (a :: int) > b) \<longleftrightarrow> a > b \<or> (\<exists>l \<in> set ls. l > b)"
  by (induction ls arbitrary: a) auto

text \<open>
  The health status follows the precedence of its tests: unhealthy exactly when a dependency is
  down; ready exactly when it is not unhealthy and the circuit is closed; healthy exactly when it is
  ready and no partition lags by more than a thousand messages. (The specification of the service
  lets an open circuit be healthy and calls a lag of a thousand degraded.)
\<close>

theorem health_status_precedence:
  "(hs_status (get_health_status now ctx) = Unhealthy \<longleftrightarrow>
      \<not> (kafka_healthy ctx \<and> postgres_healthy ctx \<and> redis_healthy ctx))
   \<and> (is_ready ctx \<longleftrightarrow> hs_status (get_health_status now ctx) \<noteq> Unhealthy \<and> \<not> circuit_open ctx)
   \<and> (hs_status (get_health_status now ctx) = Healthy \<longleftrightarrow>
      is_ready ctx \<and> \<not> (\<exists>(p, lag) \<in> set (consumer_lag (metrics_of ctx)). lag > 1000))"
  by (auto simp: get_health_status_def is_ready_def Let_def get_max_consumer_lag_def max_lag_foldl fold_max_less)

end
