(* ===== verification/Breaker.thy ===== *)
theory Breaker
  imports JsBase
begin

section \<open>Circuit breaker and backoff (packages/shared/src/runtime)\<close>

text \<open>
  \<open>circuit-breaker.ts\<close>: the three fields of the class and its five methods, the time of day being
  an argument; \<open>backoff.ts\<close>: the exponential delay with jitter, the random number in \<open>[0, 1)\<close> being
  an argument.
\<close>

subsection \<open>The circuit breaker\<close>

record circuit_breaker =
  consecutive_failures :: nat
  open_until :: int
  half_open :: bool

definition new_circuit_breaker :: circuit_breaker where
  "new_circuit_breaker = \<lparr>consecutive_failures = 0, open_until = 0, half_open = False\<rparr>"

definition cb_is_open :: "int \<Rightarrow> circuit_breaker \<Rightarrow> bool \<times> circuit_breaker" where
  "cb_is_open now cb =
     (if now \<ge> open_until cb \<and> open_until cb > 0 then (False, cb\<lparr>half_open := True\<rparr>)
      else (now < open_until cb, cb))"

definition cb_is_half_open :: "circuit_breaker \<Rightarrow> bool" where
  "cb_is_half_open cb = half_open cb"

definition cb_time_until_close :: "int \<Rightarrow> circuit_breaker \<Rightarrow> int" where
  "cb_time_until_close now cb = max 0 (open_until cb - now)"

definition cb_record_success :: "circuit_breaker \<Rightarrow> circuit_breaker" where
  "cb_record_success cb = cb\<lparr>consecutive_failures := 0, open_until := 0, half_open := False\<rparr>"

definition cb_record_failure :: "nat \<Rightarrow> int \<Rightarrow> int \<Rightarrow> circuit_breaker \<Rightarrow> bool \<times> circuit_breaker" where
  "cb_record_failure failure_threshold open_ms now cb =
     (if half_open cb then
        (True, cb\<lparr>half_open := False, open_until := now + open_ms, consecutive_failures := 0\<rparr>)
      else
        let cb' = cb\<lparr>consecutive_failures := consecutive_failures cb + 1\<rparr> in
        if consecutive_failures cb' \<ge> failure_threshold then
          (True, cb'\<lparr>open_until := now + open_ms, consecutive_failures := 0\<rparr>)
        else (False, cb'))"

text \<open>A use of the breaker is a list of calls.\<close>

datatype cb_event = IsOpen int | Success | Failure int

fun cb_call :: "nat \<Rightarrow> int \<Rightarrow> cb_event \<Rightarrow> circuit_breaker \<Rightarrow> bool \<times> circuit_breaker" where
  "cb_call th ms (IsOpen now) cb = cb_is_open now cb"
| "cb_call th ms Success cb = (False, cb_record_success cb)"
| "cb_call th ms (Failure now) cb = cb_record_failure th ms now cb"

fun cb_run :: "nat \<Rightarrow> int \<Rightarrow> cb_event list \<Rightarrow> circuit_breaker \<Rightarrow> bool list \<times> circuit_breaker" where
  "cb_run th ms [] cb = ([], cb)"
| "cb_run th ms (c # cs) cb =
     (let (r, cb') = cb_call th ms c cb; (rs, cb'') = cb_run th ms cs cb' in (r # rs, cb''))"

text \<open>
  The abstract breaker: closed with a number of consecutive failures, open until a time, or probing
  after that time.
\<close>

datatype phase = Closed nat | Open int nat | Probing int

definition phase_of :: "circuit_breaker \<Rightarrow> phase" where
  "phase_of cb =
     (if half_open cb then Probing (open_until cb)
      else if open_until cb > 0 then Open (open_until cb) (consecutive_failures cb)
      else Closed (consecutive_failures cb))"

fun phase_call :: "nat \<Rightarrow> int \<Rightarrow> cb_event \<Rightarrow> phase \<Rightarrow> bool \<times> phase" where
  "phase_call th ms (IsOpen now) (Closed n) = (False, Closed n)"
| "phase_call th ms (IsOpen now) (Open t n) = (if now < t then (True, Open t n) else (False, Probing t))"
| "phase_call th ms (IsOpen now) (Probing t) = (now < t, Probing t)"
| "phase_call th ms Success p = (False, Closed 0)"
| "phase_call th ms (Failure now) (Closed n) =
     (if n + 1 \<ge> th then (True, Open (now + ms) 0) else (False, Closed (n + 1)))"
| "phase_call th ms (Failure now) (Open t n) =
     (if n + 1 \<ge> th then (True, Open (now + ms) 0) else (False, Open t (n + 1)))"
| "phase_call th ms (Failure now) (Probing t) = (True, Open (now + ms) 0)"

fun phase_run :: "nat \<Rightarrow> int \<Rightarrow> cb_event list \<Rightarrow> phase \<Rightarrow> bool list \<times> phase" where
  "phase_run th ms [] p = ([], p)"
| "phase_run th ms (c # cs) p =
     (let (r, p') = phase_call th ms c p; (rs, p'') = phase_run th ms cs p' in (r # rs, p''))"

text \<open>The clock reads times after the epoch, so a trip never ends at or before zero.\<close>

fun call_after_epoch :: "int \<Rightarrow> cb_event \<Rightarrow> bool" where
  "call_after_epoch ms (IsOpen now) \<longleftrightarrow> 0 \<le> now"
| "call_after_epoch ms Success \<longleftrightarrow> True"
| "call_after_epoch ms (Failure now) \<longleftrightarrow> 0 \<le> now \<and> 0 < now + ms"

definition cb_ok :: "circuit_breaker \<Rightarrow> bool" where
  "cb_ok cb \<longleftrightarrow> 0 \<le> open_until cb \<and> (half_open cb \<longrightarrow> 0 < open_until cb)"

lemma cb_call_refines:
  assumes "cb_ok cb" and "call_after_epoch ms c"
  shows "cb_ok (snd (cb_call th ms c cb))"
    and "fst (cb_call th ms c cb) = fst (phase_call th ms c (phase_of cb))"
    and "phase_of (snd (cb_call th ms c cb)) = snd (phase_call th ms c (phase_of cb))"
  using assms
  by (cases c; auto simp: cb_ok_def phase_of_def cb_is_open_def cb_record_success_def
      cb_record_failure_def Let_def)+

lemma cb_ok_new [simp]: "cb_ok new_circuit_breaker"
  by (simp add: cb_ok_def new_circuit_breaker_def)

lemma cb_run_refines:
  assumes "cb_ok cb" and "\<forall>c \<in> set cs. call_after_epoch ms c"
  shows "fst (cb_run th ms cs cb) = fst (phase_run th ms cs (phase_of cb))
    \<and> phase_of (snd (cb_run th ms cs cb)) = snd (phase_run th ms cs (phase_of cb))"
  using assms
proof (induction cs arbitrary: cb)
  case (Cons c cs)
  have "\<forall>c \<in> set cs. call_after_epoch ms c" "call_after_epoch ms c" using Cons.prems(2) by simp_all
  note step = cb_call_refines [OF Cons.prems(1) this(2), of th]
  from Cons.IH [OF step(1) \<open>\<forall>c \<in> set cs. call_after_epoch ms c\<close>] step(2,3)
  show ?case by (simp add: case_prod_beta Let_def)
qed simp

text \<open>
  C33. Under any sequence of calls the breaker shows the behaviour of the three-phase machine: closed
  with a count of consecutive failures, open until a time, or letting a probe through; every result
  and the final phase agree.
\<close>

theorem cb_run_refines_phases:
  assumes "\<forall>c \<in> set cs. call_after_epoch ms c"
  shows "fst (cb_run th ms cs new_circuit_breaker) = fst (phase_run th ms cs (Closed 0))
    \<and> phase_of (snd (cb_run th ms cs new_circuit_breaker)) = snd (phase_run th ms cs (Closed 0))"
proof -
  have "phase_of new_circuit_breaker = Closed 0" by (simp add: phase_of_def new_circuit_breaker_def)
  then show ?thesis using cb_run_refines [OF cb_ok_new assms, of th] by simp
qed

lemma cb_run_refines_phases_witness:
  "fst (cb_run 2 100 [Failure 5, Failure 6, IsOpen 50, IsOpen 106, Failure 110, IsOpen 120] new_circuit_breaker)
    = [False, True, True, False, True, True]"
proof -
  have "\<forall>c \<in> set [Failure 5, Failure 6, IsOpen 50, IsOpen 106, Failure 110, IsOpen 120]. call_after_epoch 100 c"
    by simp
  from cb_run_refines_phases [OF this, of 2] show ?thesis by simp
qed

text \<open>
  While a circuit is not probing, failures with no success in between open it on every
  \<open>failureThreshold\<close>-th of them and on no other.
\<close>

theorem cb_failures_run:
  assumes "0 < th" and "\<not> half_open cb" and "consecutive_failures cb < th"
  shows "fst (cb_run th ms (map Failure ts) cb) =
    map (\<lambda>i. (consecutive_failures cb + i + 1) mod th = 0) [0..<length ts]"
  using assms(2,3)
proof (induction ts arbitrary: cb)
  case (Cons t ts)
  let ?n = "consecutive_failures cb"
  let ?r = "cb_record_failure th ms t cb"
  have r: "\<not> half_open (snd ?r)" "consecutive_failures (snd ?r) = (?n + 1) mod th"
    "consecutive_failures (snd ?r) < th" "fst ?r \<longleftrightarrow> (?n + 1) mod th = 0"
    using Cons.prems assms(1)
    by (auto simp: cb_record_failure_def Let_def le_less_Suc_eq not_le dest: le_antisym)
  have "[0..<length (t # ts)] = 0 # map Suc [0..<length ts]"
    by (metis length_Cons map_Suc_upt upt_conv_Cons zero_less_Suc)
  moreover have "((?n + 1) mod th + i + 1) mod th = (?n + Suc i + 1) mod th" for i
    by (metis add.assoc add_Suc_shift mod_add_left_eq plus_1_eq_Suc)
  ultimately show ?case using Cons.IH [OF r(1,3)] r(2,4) by (simp add: case_prod_beta Let_def)
qed simp

lemma cb_failures_run_witness:
  "fst (cb_run 3 100 (map Failure [1, 2, 3, 4, 5, 6]) new_circuit_breaker) =
    [False, False, True, False, False, True]"
  using cb_failures_run [of 3 new_circuit_breaker 100 "[1, 2, 3, 4, 5, 6]"]
  by (simp add: new_circuit_breaker_def)

end
