(* ===== verification/Lifecycle.thy ===== *)
theory Lifecycle
  imports JsBase
begin

section \<open>Step chains, shutdown and start-up rollback (packages/shared/src/runtime)\<close>

text \<open>
  \<open>execution-pipeline.ts\<close> (a chain of steps, each of which may call \<open>next\<close> once),
  \<open>lifecycle.ts\<close> (\<open>runShutdownSteps\<close>), \<open>initialization-rollback.ts\<close> and \<open>startup-facade.ts\<close>
  (rollback in reverse order when start-up fails) and \<open>function-dependency-builder.ts\<close>.
\<close>

subsection \<open>The asynchronous chain\<close>

text \<open>
  What a step does is a tree: it returns a result, or calls \<open>next\<close> in some state and goes on with
  the outcome of that call. A second call of \<open>next\<close> by the same step throws.
\<close>

datatype ('s, 'e, 'r) prog =
    Ret "'e + 'r" 's
  | CallNext 's "'e + 'r \<Rightarrow> 's \<Rightarrow> ('s, 'e, 'r) prog"

primrec run_step :: "'e \<Rightarrow> ('s, 'e, 'r) eff \<Rightarrow> ('s, 'e, 'r) prog \<Rightarrow> bool \<Rightarrow> ('e + 'r) \<times> 's" where
  "run_step dup next (Ret r s) = (\<lambda>next_called. (r, s))"
| "run_step dup next (CallNext s k) = (\<lambda>next_called.
     if next_called then run_step dup next (k (Inl dup) s) True
     else run_step dup next (k (fst (next s)) (snd (next s))) True)"

type_synonym ('s, 'e, 'r) chain_step = "string \<times> ('s \<Rightarrow> ('s, 'e, 'r) prog)"

primrec run_async_chain ::
  "(string \<Rightarrow> 'e) \<Rightarrow> (nat \<Rightarrow> ('s, 'e, 'r) eff) \<Rightarrow> ('s, 'e, 'r) chain_step list \<Rightarrow> nat \<Rightarrow> ('s, 'e, 'r) eff"
where
  "run_async_chain duplicate_next_error on_end [] index = on_end index"
| "run_async_chain duplicate_next_error on_end (st # sts) index =
     (\<lambda>s. run_step (duplicate_next_error (fst st))
        (run_async_chain duplicate_next_error on_end sts (index + 1)) (snd st s) False)"

text \<open>The usual step: do something, then \<open>await next()\<close>; or return early.\<close>

definition before_next :: "('s, 'e, 'a) eff \<Rightarrow> 's \<Rightarrow> ('s, 'e, 'r) prog" where
  "before_next m s = (case m s of (Inl e, s') \<Rightarrow> Ret (Inl e) s' | (Inr _, s') \<Rightarrow> CallNext s' Ret)"

definition gate_next :: "('s, 'e, bool) eff \<Rightarrow> 's \<Rightarrow> ('s, 'e, unit) prog" where
  "gate_next m s = (case m s of
       (Inl e, s') \<Rightarrow> Ret (Inl e) s'
     | (Inr go, s') \<Rightarrow> if go then CallNext s' Ret else Ret (Inr ()) s')"

lemma run_step_called: "run_step dup nxt p True = run_step dup nxt' p True"
  by (induction p) auto

text \<open>
  Whatever a step does, the rest of the chain runs at most once: the outcome depends on \<open>next\<close> in
  at most one state.
\<close>

lemma run_step_next_once: "\<exists>s0. \<forall>nxt'. nxt' s0 = nxt s0 \<longrightarrow> run_step dup nxt' p False = run_step dup nxt p False"
proof (cases p)
  case (CallNext s k)
  then show ?thesis using run_step_called by (intro exI [of _ s]) fastforce
qed simp

lemma run_async_chain_before [eff_simps]:
  "run_async_chain d e ((n, before_next m) # sts) i = eff_bind m (\<lambda>_. run_async_chain d e sts (i + 1))"
  by (rule ext) (simp add: before_next_def eff_bind_def split: prod.splits sum.splits)

lemma run_async_chain_gate [eff_simps]:
  "run_async_chain d e ((n, gate_next m) # sts) i =
     eff_bind m (\<lambda>go. if go then run_async_chain d e sts (i + 1) else eff_ret ())"
  by (rule ext) (simp add: gate_next_def eff_bind_def eff_ret_def split: prod.splits sum.splits)

subsection \<open>Shutdown steps\<close>

record ('w, 'e) shutdown_step =
  step_name :: string
  step_run :: "('w, 'e, unit) eff"
  step_error_message :: "string option"
  step_on_success :: "('w, 'e, unit) eff option"

text \<open>Every step runs; an error is logged (step, error, message) and never propagates.\<close>

fun run_shutdown_steps ::
  "('w, 'e) shutdown_step list \<Rightarrow> 'w \<Rightarrow> (string \<times> 'e \<times> string) list \<times> 'w" where
  "run_shutdown_steps [] w = ([], w)"
| "run_shutdown_steps (st # sts) w =
     (let m = eff_bind (step_run st)
                (\<lambda>_. case step_on_success st of Some f \<Rightarrow> f | None \<Rightarrow> eff_ret ());
          (r, w') = m w;
          (ws, w'') = run_shutdown_steps sts w'
      in (case r of
            Inl e \<Rightarrow> (step_name st, e,
              (case step_error_message st of Some t \<Rightarrow> t | None \<Rightarrow> step_name st @ '' shutdown step failed'')) # ws
          | Inr _ \<Rightarrow> ws, w''))"

subsection \<open>Start-up with rollback\<close>

text \<open>The rollback builder keeps its steps in reverse registration order.\<close>

definition rollback_register :: "('w, 'e) shutdown_step \<Rightarrow> ('w, 'e) shutdown_step list \<Rightarrow> ('w, 'e) shutdown_step list" where
  "rollback_register st steps = st # steps"

definition rollback_run ::
  "('w, 'e) shutdown_step list \<Rightarrow> 'w \<Rightarrow> (string \<times> 'e \<times> string) list \<times> ('w, 'e) shutdown_step list \<times> 'w" where
  "rollback_run steps w =
     (if steps = [] then ([], [], w)
      else let (ws, w') = run_shutdown_steps steps w in (ws, [], w'))"

record ('w, 'e, 'r) resource_spec =
  res_name :: string
  res_connect :: "('w, 'e, 'r) eff"
  res_disconnect :: "'r \<Rightarrow> ('w, 'e, unit) eff"
  res_disconnect_error_message :: "string option"
  res_rollback_action :: "string option"

definition default_disconnect_error_message :: "string \<Rightarrow> string \<Rightarrow> string" where
  "default_disconnect_error_message name rollback_action =
     name @ '' '' @ rollback_action @ '' failed during initialization rollback''"

text \<open>The state of a start-up: the registered rollback steps and the world.\<close>

type_synonym ('w, 'e) startup = "('w, 'e) shutdown_step list \<times> 'w"

definition disconnect_step :: "('w, 'e, 'r) resource_spec \<Rightarrow> 'r \<Rightarrow> ('w, 'e) shutdown_step" where
  "disconnect_step spec r =
     \<lparr>step_name = res_name spec, step_run = res_disconnect spec r,
      step_error_message = Some (case res_disconnect_error_message spec of
          Some m \<Rightarrow> m
        | None \<Rightarrow> default_disconnect_error_message (res_name spec)
            (case res_rollback_action spec of Some a \<Rightarrow> a | None \<Rightarrow> ''cleanup'')),
      step_on_success = None\<rparr>"

text \<open>The resource builder's \<open>create\<close>: make the resource, then register its rollback.\<close>

definition init_resource_create ::
  "('w, 'e, 'r) eff \<Rightarrow> ('r \<Rightarrow> ('w, 'e) shutdown_step) \<Rightarrow> (('w, 'e) startup, 'e, 'r) eff" where
  "init_resource_create create rollback st =
     (case create (snd st) of
        (Inl e, w) \<Rightarrow> (Inl e, (fst st, w))
      | (Inr r, w) \<Rightarrow> (Inr r, (rollback_register (rollback r) (fst st), w)))"

definition startup_connect :: "('w, 'e, 'r) resource_spec \<Rightarrow> (('w, 'e) startup, 'e, 'r) eff" where
  "startup_connect spec = init_resource_create (res_connect spec) (disconnect_step spec)"

text \<open>\<open>run\<close>: on an error the registered steps run, and the error is thrown again.\<close>

definition startup_run :: "(('w, 'e) startup, 'e, 'a) eff \<Rightarrow> (('w, 'e) startup, 'e, 'a) eff" where
  "startup_run initialize st =
     (case initialize st of
        (Inl e, (steps, w)) \<Rightarrow> (let (ws, steps', w') = rollback_run steps w in (Inl e, (steps', w')))
      | (Inr a, st') \<Rightarrow> (Inr a, st'))"

text \<open>An initialization that connects resources one after the other.\<close>

primrec connect_all :: "('w, 'e, 'r) resource_spec list \<Rightarrow> (('w, 'e) startup, 'e, 'r list) eff" where
  "connect_all [] = eff_ret []"
| "connect_all (sp # sps) =
     eff_bind (startup_connect sp) (\<lambda>r. eff_bind (connect_all sps) (\<lambda>rs. eff_ret (r # rs)))"

text \<open>The plain connections, without any rollback: the resources made before the first error.\<close>

fun connect_plain ::
  "('w, 'e, 'r) resource_spec list \<Rightarrow> 'w \<Rightarrow> (('w, 'e, 'r) resource_spec \<times> 'r) list \<times> 'e option \<times> 'w" where
  "connect_plain [] w = ([], None, w)"
| "connect_plain (sp # sps) w =
     (case res_connect sp w of
        (Inl e, w') \<Rightarrow> ([], Some e, w')
      | (Inr r, w') \<Rightarrow> (let (made, e, w'') = connect_plain sps w' in ((sp, r) # made, e, w'')))"

lemma connect_all_plain:
  "connect_all sps (steps, w) =
     (let (made, e, w') = connect_plain sps w in
      ((case e of None \<Rightarrow> Inr (map snd made) | Some x \<Rightarrow> Inl x),
       (rev (map (\<lambda>(sp, r). disconnect_step sp r) made) @ steps, w')))"
proof (induction sps arbitrary: steps w)
  case (Cons sp sps)
  show ?case
  proof (cases "res_connect sp w")
    case (Pair x w')
    then show ?thesis
      by (cases x) (auto simp: startup_connect_def init_resource_create_def rollback_register_def Cons.IH eff_defs
          split: prod.splits option.splits)
  qed
qed (simp add: eff_ret_def)

text \<open>Every rollback step runs, so the errors of some do not keep others from running.\<close>

lemma run_shutdown_steps_append:
  "run_shutdown_steps (xs @ ys) w =
     (let (ws, w') = run_shutdown_steps xs w; (vs, w'') = run_shutdown_steps ys w' in (ws @ vs, w''))"
  by (induction xs arbitrary: w) (auto simp: Let_def split: prod.splits sum.splits)

text \<open>
  When a start-up fails, its error is thrown, the disconnection steps of the resources that had been
  connected are run as \<^const>\<open>run_shutdown_steps\<close> does, in reverse order of connection,
  and no rollback step stays registered. A start-up that succeeds disconnects nothing and keeps a step
  for every resource.
\<close>

theorem startup_run_rollback:
  "startup_run (connect_all sps) ([], w) =
    (let (made, e, w') = connect_plain sps w; steps = rev (map (\<lambda>(sp, r). disconnect_step sp r) made) in
     (case e of
        Some x \<Rightarrow> (Inl x, ([], snd (run_shutdown_steps steps w')))
      | None \<Rightarrow> (Inr (map snd made), (steps, w'))))"
  by (auto simp: startup_run_def connect_all_plain rollback_run_def Let_def split: prod.splits option.splits)

text \<open>
  C36. A step of an asynchronous chain runs the rest of the chain at most once, however often it
  calls \<open>next\<close>: its outcome is determined by the outcome of the rest in at most one state.
\<close>

theorem run_async_chain_next_once:
  "\<exists>s0. \<forall>sts'. run_async_chain d e sts' (i + 1) s0 = run_async_chain d e sts (i + 1) s0 \<longrightarrow>
     run_async_chain d e (st # sts') i s = run_async_chain d e (st # sts) i s"
  using run_step_next_once [of "run_async_chain d e sts (i + 1)" "d (fst st)" "snd st s"] by auto

definition twice_step :: "(nat, string, unit) chain_step" where
  "twice_step = (''twice'', \<lambda>s. CallNext s (\<lambda>_ s'. CallNext s' Ret))"

definition count_end :: "nat \<Rightarrow> (nat, string, unit) eff" where
  "count_end i s = (Inr (), s + 1)"

lemma run_async_chain_next_once_witness:
  "run_async_chain id count_end [twice_step, (''pass'', before_next (eff_ret ()))] 0 0 = (Inl ''twice'', 1)"
proof -
  let ?pass = "[(''pass'', before_next (eff_ret ()))] :: (nat, string, unit) chain_step list"
  have "run_async_chain id count_end ?pass (0 + 1) s = run_async_chain id count_end [] (0 + 1) s" for s
    by (simp add: before_next_def eff_ret_def count_end_def)
  with run_async_chain_next_once [of id count_end 0 "[]" twice_step 0]
  have "run_async_chain id count_end (twice_step # ?pass) 0 0 = run_async_chain id count_end [twice_step] 0 0"
    by blast
  also have "\<dots> = (Inl ''twice'', 1)" by (simp add: twice_step_def count_end_def)
  finally show ?thesis .
qed

subsection \<open>Overriding function dependencies\<close>

datatype 'f dep_value = Undefined | Function 'f | NonFunction

datatype dep_error = NotSupported string | MustBeFunction string

fun with_overrides :: "(string, 'f) omap \<Rightarrow> (string \<times> 'f dep_value) list \<Rightarrow> dep_error + (string, 'f) omap" where
  "with_overrides deps [] = Inr deps"
| "with_overrides deps ((name, v) # os) =
     (if v = Undefined then with_overrides deps os
      else if \<not> om_has deps name then Inl (NotSupported name)
      else (case v of
          Function f \<Rightarrow> with_overrides (om_set deps name f) os
        | _ \<Rightarrow> Inl (MustBeFunction name)))"

definition build_function_dependencies ::
  "(string, 'f) omap \<Rightarrow> (string, 'f dep_value) omap \<Rightarrow> dep_error + (string, 'f) omap" where
  "build_function_dependencies defaults overrides = with_overrides defaults overrides"

lemma with_overrides_Inr:
  "with_overrides deps os = Inr deps' \<Longrightarrow> distinct (map fst os) \<Longrightarrow>
   om_keys deps' = om_keys deps \<and>
   (\<forall>n. map_of deps' n = (case map_of os n of Some (Function f) \<Rightarrow> Some f | _ \<Rightarrow> map_of deps n))"
proof (induction deps os rule: with_overrides.induct)
  case (2 deps name v os)
  have n: "map_of os name = None" using "2.prems"(2) by (simp add: map_of_eq_None_iff)
  show ?case
  proof (cases v)
    case Undefined
    then have "om_keys deps' = om_keys deps \<and>
      (\<forall>n. map_of deps' n = (case map_of os n of Some (Function f) \<Rightarrow> Some f | _ \<Rightarrow> map_of deps n))"
      using "2.IH"(1) "2.prems" by simp
    then show ?thesis using n Undefined by auto
  next
    case (Function f)
    then have "om_has deps name" using "2.prems"(1) by (auto split: if_splits)
    then show ?thesis using "2.IH"(2) [of f] "2.prems" Function n
      by (auto simp: js_map split: option.splits dep_value.splits)
  next
    case NonFunction
    then show ?thesis using "2.prems"(1) by (auto split: if_splits)
  qed
qed simp

end
