(* ===== verification/ConsumerLag.thy ===== *)
theory ConsumerLag
  imports Events
begin

section \<open>The lag of a consumer\<close>

text \<open>What both consumers write about their lag, and how an offset is read as an integer.\<close>

record lag_update =
  lu_consumer_group :: string
  lu_topic :: string
  lu_partition :: int
  lu_current_offset :: int
  lu_latest_offset :: int
  lu_lag_messages :: int
  lu_observed_at :: int

text \<open>
  \<open>BigInt(text)\<close>, between white space: decimal digits with an optional sign, or digits of base 16, 8
  or 2 after their prefix; the empty text is zero, and what is none of these (\<open>None\<close>) throws.
\<close>

definition digit_of :: "char \<Rightarrow> int option" where
  "digit_of c =
     (if is_digit c then Some (of_char c - 48)
      else if of_char (lower_char c) \<in> {97 ..< 103 :: nat} then Some (of_char (lower_char c) - 87) else None)"

definition radix_literal :: "string \<Rightarrow> int option" where
  "radix_literal s = (case s of
       z # p # ds \<Rightarrow>
         (case map_of [(CHR ''x'', 16), (CHR ''o'', 8), (CHR ''b'', 2)] (lower_char p) of
            None \<Rightarrow> None
          | Some base \<Rightarrow>
              if z = CHR ''0'' \<and> ds \<noteq> [] \<and> list_all (\<lambda>c. case digit_of c of None \<Rightarrow> False | Some d \<Rightarrow> d < base) ds
              then Some (foldl (\<lambda>v c. base * v + the (digit_of c)) 0 ds) else None)
     | _ \<Rightarrow> None)"

definition big_int :: "string \<Rightarrow> int option" where
  "big_int text =
     (let s = trim text in
      if s = [] then Some 0
      else if list_all is_digit s \<or> (hd s \<in> {CHR ''-'', CHR ''+''} \<and> list_all is_digit (tl s)) then parse_int10 s
      else radix_literal s)"

lemma big_int_examples:
  "big_int ''12'' = Some 12" "big_int '' -7 '' = Some (- 7)" "big_int [] = Some 0" "big_int ''0xfF'' = Some 255"
  "big_int ''0o17'' = Some 15" "big_int ''0b101'' = Some 5" "big_int ''0x'' = None" "big_int ''-0x1'' = None"
  "big_int ''1.5'' = None" "big_int ''-'' = None" "big_int ''0b2'' = None"
  by code_simp+

text \<open>The offsets Kafka hands out are decimal, and are read as they are.\<close>

lemma big_int_offset: "big_int (nat_str n) = Some (int n)"
proof -
  have d: "list_all is_digit (nat_str n)" "nat_str n \<noteq> []" "digits_value (nat_str n) = int n"
    using nat_str_digits [of n] by simp_all
  then have ws: "\<not> is_ws c" if "c \<in> set (nat_str n)" for c
    using that by (auto simp: list_all_iff is_digit_def is_ws_def)
  have "dropWhile is_ws xs = xs" if "set xs \<subseteq> set (nat_str n)" for xs
    using that ws by (cases xs) auto
  then have t: "trim (nat_str n) = nat_str n" by (simp add: trim_def trim_start_def trim_end_def)
  have "int_str (int n) = nat_str n" by (simp add: int_str_def)
  then have "parse_int10 (nat_str n) = Some (int n)" using parse_int10_int_str [of "int n"] by simp
  then show ?thesis using d by (simp add: big_int_def t)
qed

end
