(* ===== verification/Persister.thy ===== *)
theory Persister
  imports Health Breaker Lifecycle ConsumerLag
begin

section \<open>The persister (apps/persister/src/process.ts, persist.ts, redis.ts)\<close>

text \<open>
  One Kafka batch is gated, paused while the Postgres circuit is open, decoded, written to Postgres,
  marked in Redis and only then acknowledged and committed. The steps run as a chain
  (\<^const>\<open>run_async_chain\<close>).

  Everything outside the process is an environment: the clock, the batch object of the consumer,
  Postgres and Redis. The world is the list of the calls made so far, each with its answer, and an
  environment answers a call as any function of that list; so the theorems hold for all answers, and
  they can speak of the order of the calls.
\<close>

subsection \<open>State\<close>

datatype 'm pcall =
    IsActive bool
  | Now int
  | Sleep int
  | KeepAlive "string + unit"
  | Acknowledge string
  | Commit "string + unit"
  | Pause
  | Resume
  | CreateMany "'m parsed_raw_event list" "string + nat"
  | MarkSeen "string list" int "string + unit"
  | UpsertLag lag_update "string + unit"

type_synonym 'm calls = "'m pcall list"

record 'm persister_env =
  ans_active :: "'m calls \<Rightarrow> bool"
  ans_now :: "'m calls \<Rightarrow> int"
  ans_keep_alive :: "'m calls \<Rightarrow> string + unit"
  ans_commit :: "'m calls \<Rightarrow> string + unit"
  ans_create_many :: "'m calls \<Rightarrow> 'm parsed_raw_event list \<Rightarrow> string + nat"
  ans_mark_seen :: "'m calls \<Rightarrow> string list \<Rightarrow> string + unit"
  ans_upsert_lag :: "'m calls \<Rightarrow> lag_update \<Rightarrow> string + unit"

record persister_config =
  seen_ttl_seconds :: int
  consumer_lag_update_interval_ms :: int
  kafka_consumer_group :: string
  circuit_failure_threshold :: nat
  circuit_open_ms :: int

datatype persister_error =
    External string
  | RedisWriteFailure string
  | ReachedWithoutEvents
  | DuplicateNext string

record 'm persister =
  health :: health_context
  breaker :: circuit_breaker
  lag_write_timestamps :: "(string, int) omap"
  collected :: "'m parsed_raw_event list option"
  calls :: "'m calls"

type_synonym ('m, 'a) peff = "('m persister, persister_error, 'a) eff"

record pipeline_message =
  message_value :: "raw_event_wire option option"
  position :: string

record batch =
  batch_topic :: string
  batch_partition :: int
  high_watermark :: string

subsection \<open>Calls\<close>

definition log_call :: "'m pcall \<Rightarrow> ('m, unit) peff" where
  "log_call c = eff_upd (\<lambda>s. s\<lparr>calls := calls s @ [c]\<rparr>)"

definition ask :: "('m calls \<Rightarrow> 'r) \<Rightarrow> ('r \<Rightarrow> 'm pcall) \<Rightarrow> ('m, 'r) peff" where
  "ask f mk s = (Inr (f (calls s)), s\<lparr>calls := calls s @ [mk (f (calls s))]\<rparr>)"

definition attempt :: "('m calls \<Rightarrow> string + 'r) \<Rightarrow> (string + 'r \<Rightarrow> 'm pcall) \<Rightarrow> ('m, 'r) peff" where
  "attempt f mk = eff_bind (ask f mk) (\<lambda>x. case x of Inl e \<Rightarrow> eff_throw (External e) | Inr r \<Rightarrow> eff_ret r)"

definition is_active :: "'m persister_env \<Rightarrow> ('m, bool) peff" where
  "is_active env = ask (ans_active env) IsActive"

definition now :: "'m persister_env \<Rightarrow> ('m, int) peff" where
  "now env = ask (ans_now env) Now"

definition keep_alive :: "'m persister_env \<Rightarrow> ('m, unit) peff" where
  "keep_alive env = attempt (ans_keep_alive env) KeepAlive"

definition on_health :: "(health_context \<Rightarrow> health_context) \<Rightarrow> ('m, unit) peff" where
  "on_health f = eff_upd (\<lambda>s. s\<lparr>health := f (health s)\<rparr>)"

text \<open>The breaker of the context; its methods read the clock for their default argument.\<close>

definition breaker_is_open :: "'m persister_env \<Rightarrow> ('m, bool) peff" where
  "breaker_is_open env = eff_bind (now env) (\<lambda>t s.
     (Inr (fst (cb_is_open t (breaker s))), s\<lparr>breaker := snd (cb_is_open t (breaker s))\<rparr>))"

definition breaker_record_failure :: "persister_config \<Rightarrow> 'm persister_env \<Rightarrow> ('m, bool) peff" where
  "breaker_record_failure cfg env = eff_bind (now env) (\<lambda>t s.
     let r = cb_record_failure (circuit_failure_threshold cfg) (circuit_open_ms cfg) t (breaker s)
     in (Inr (fst r), s\<lparr>breaker := snd r\<rparr>))"

definition breaker_record_success :: "('m, unit) peff" where
  "breaker_record_success = eff_upd (\<lambda>s. s\<lparr>breaker := cb_record_success (breaker s)\<rparr>)"

definition breaker_time_until_close :: "'m persister_env \<Rightarrow> ('m, int) peff" where
  "breaker_time_until_close env = eff_bind (now env) (\<lambda>t s. (Inr (cb_time_until_close t (breaker s)), s))"

fun source_label :: "canonical \<Rightarrow> string" where
  "source_label (Canonical s) = source_key s"
| "source_label (Inherited _) = ''undefined''"

subsection \<open>Postgres and Redis\<close>

text \<open>\<open>groupBySource\<close>: the groups in the order of their first event.\<close>

definition group_by_source ::
  "'m parsed_raw_event list \<Rightarrow> (canonical, 'm parsed_raw_event list) omap" where
  "group_by_source evs = foldl (\<lambda>m e. om_set m (event_source e) (om_get [] m (event_source e) @ [e])) [] evs"

record persist_batch_result =
  attempted :: nat
  inserted :: nat
  duplicates :: int
  inserted_by_source :: "(canonical, nat) omap"

primrec persist_groups ::
  "'m persister_env \<Rightarrow> (canonical \<times> 'm parsed_raw_event list) list \<Rightarrow> persist_batch_result \<Rightarrow>
   ('m, persist_batch_result) peff" where
  "persist_groups env [] r = eff_ret r"
| "persist_groups env (g # gs) r =
     eff_bind (attempt (\<lambda>h. ans_create_many env h (snd g)) (CreateMany (snd g))) (\<lambda>n.
       persist_groups env gs
         (r\<lparr>inserted_by_source := om_set (inserted_by_source r) (fst g) n,
            inserted := inserted r + n,
            duplicates := duplicates r + (int (length (snd g)) - int n)\<rparr>))"

definition persist_batch ::
  "'m persister_env \<Rightarrow> 'm parsed_raw_event list \<Rightarrow> ('m, persist_batch_result) peff" where
  "persist_batch env evs =
     (let r = \<lparr>attempted = length evs, inserted = 0, duplicates = 0, inserted_by_source = []\<rparr> in
      if length evs = 0 then eff_ret r else persist_groups env (group_by_source evs) r)"

definition seen_key :: "'m parsed_raw_event \<Rightarrow> string" where
  "seen_key e = ''seen:'' @ source_label (event_source e) @ '':'' @ event_id e"

definition mark_events_seen ::
  "'m persister_env \<Rightarrow> 'm parsed_raw_event list \<Rightarrow> int \<Rightarrow> ('m, unit) peff" where
  "mark_events_seen env evs ttl =
     (if length evs = 0 then eff_ret ()
      else attempt (\<lambda>h. ans_mark_seen env h (map seen_key evs)) (MarkSeen (map seen_key evs) ttl))"

definition now_seconds :: "'m persister_env \<Rightarrow> int \<Rightarrow> ('m, rat) peff" where
  "now_seconds env start = eff_bind (now env) (\<lambda>t. eff_ret (of_int (t - start) / 1000))"

definition count_result :: "persist_batch_result \<Rightarrow> health_context \<Rightarrow> health_context" where
  "count_result r h =
     (let h' = foldl (\<lambda>h (src, n). increment_events_processed (source_label src) n h) h (inserted_by_source r)
      in if duplicates r > 0 then increment_events_skipped ''duplicate'' (nat (duplicates r)) h' else h')"

definition mark_seen_or_fail ::
  "persister_config \<Rightarrow> 'm persister_env \<Rightarrow> 'm parsed_raw_event list \<Rightarrow> ('m, unit) peff" where
  "mark_seen_or_fail cfg env evs =
     eff_catch
       (eff_bind (now env) (\<lambda>start.
        eff_bind (mark_events_seen env evs (seen_ttl_seconds cfg)) (\<lambda>_.
        eff_bind (now_seconds env start) (\<lambda>d.
        eff_bind (on_health (observe_redis_write_duration d)) (\<lambda>_.
        on_health (\<lambda>h. h\<lparr>redis_healthy := True\<rparr>))))))
       (\<lambda>e. eff_bind (on_health (increment_error ''redis_error'')) (\<lambda>_.
            eff_bind (on_health (\<lambda>h. h\<lparr>redis_healthy := False\<rparr>)) (\<lambda>_.
            eff_throw (RedisWriteFailure (case e of External x \<Rightarrow> x | _ \<Rightarrow> [])))))"

definition persist_and_mark_seen ::
  "persister_config \<Rightarrow> 'm persister_env \<Rightarrow> 'm parsed_raw_event list \<Rightarrow> ('m, unit) peff" where
  "persist_and_mark_seen cfg env evs =
     eff_bind (now env) (\<lambda>start.
     eff_bind (persist_batch env evs) (\<lambda>r.
     eff_bind (now_seconds env start) (\<lambda>d.
     eff_bind (on_health (observe_postgres_write_duration d)) (\<lambda>_.
     eff_bind (on_health (count_result r)) (\<lambda>_.
     mark_seen_or_fail cfg env evs)))))"

subsection \<open>The steps of a batch\<close>

definition batch_lifecycle_gate :: "'m persister_env \<Rightarrow> ('m, bool) peff" where
  "batch_lifecycle_gate env = is_active env"

function wait_with_heartbeats :: "'m persister_env \<Rightarrow> int \<Rightarrow> ('m, unit) peff" where
  "wait_with_heartbeats env remaining =
     (if remaining > 0 then
        eff_bind (log_call (Sleep (min remaining 2000))) (\<lambda>_.
        eff_bind (keep_alive env) (\<lambda>_.
        wait_with_heartbeats env (remaining - min remaining 2000)))
      else eff_ret ())"
  by pat_completeness auto
termination by (relation "measure (\<lambda>(env, remaining). nat remaining)") auto

declare wait_with_heartbeats.simps [simp del]

definition eff_finally :: "('s, 'e, 'a) eff \<Rightarrow> ('s \<Rightarrow> 's) \<Rightarrow> ('s, 'e, 'a) eff" where
  "eff_finally m f s = (case m s of (r, s') \<Rightarrow> (r, f s'))"

definition pause_partition_when_circuit_open :: "'m persister_env \<Rightarrow> ('m, bool) peff" where
  "pause_partition_when_circuit_open env =
     eff_bind (breaker_is_open env) (\<lambda>is_open.
     if \<not> is_open then eff_ret False
     else
       eff_bind (breaker_time_until_close env) (\<lambda>wait_ms.
       eff_bind (on_health (\<lambda>h. h\<lparr>circuit_open := True\<rparr>)) (\<lambda>_.
       eff_bind (log_call Pause) (\<lambda>_.
       eff_bind (eff_finally (wait_with_heartbeats env wait_ms) (\<lambda>s. s\<lparr>calls := calls s @ [Resume]\<rparr>)) (\<lambda>_.
       eff_ret True)))))"

text \<open>
  The persister reads an event with the shared parser and then looks its source up once more
  (\<open>deserialize.ts\<close>), for the enumeration of the database, which has the same names. An inherited
  member is no text, so its second parse fails and the message counts as malformed.
\<close>

definition parse_source :: "source_value \<Rightarrow> source_error + canonical" where
  "parse_source value = parse_canonical_source value"

definition deserialize_db_event ::
  "'m parsers \<Rightarrow> raw_event_wire option \<Rightarrow> event_error + 'm parsed_raw_event" where
  "deserialize_db_event ps decoded =
     ebind (deserialize_raw_event ps decoded) (\<lambda>shared.
       case parse_source (source_text (event_source shared)) of
         Inl e \<Rightarrow> Inl (BadSource e)
       | Inr src \<Rightarrow> Inr (shared\<lparr>event_source := src\<rparr>))"

lemma deserialize_db_event_iff:
  "deserialize_db_event ps v = Inr e \<longleftrightarrow> deserialize_raw_event ps v = Inr e \<and> (\<exists>src. event_source e = Canonical src)"
  by (cases "deserialize_raw_event ps v")
    (auto simp: deserialize_db_event_def parse_source_def ebind_def source_text_accepted source_text_parsed split: sum.splits)

text \<open>\<open>collectMessagesWithStrategy\<close> with the strategy for raw events.\<close>

definition on_malformed :: "('m, unit) peff" where
  "on_malformed = eff_bind (on_health (increment_events_skipped ''malformed'' 1)) (\<lambda>_.
     on_health (increment_error ''parse_error''))"

definition every_fifty :: "'m persister_env \<Rightarrow> nat \<Rightarrow> ('m, unit) peff" where
  "every_fifty env handled = (if handled mod 50 = 0 then keep_alive env else eff_ret ())"

primrec collect_messages ::
  "'m parsers \<Rightarrow> 'm persister_env \<Rightarrow> pipeline_message list \<Rightarrow> nat \<Rightarrow> 'm parsed_raw_event list \<Rightarrow>
   ('m, 'm parsed_raw_event list option) peff" where
  "collect_messages ps env [] handled evs =
     eff_bind (is_active env) (\<lambda>active. eff_ret (if \<not> active then None else Some evs))"
| "collect_messages ps env (m # ms) handled evs =
     eff_bind (is_active env) (\<lambda>active.
     if \<not> active then eff_ret None
     else (case message_value m of
         None \<Rightarrow>
           eff_bind on_malformed (\<lambda>_. eff_bind (every_fifty env (handled + 1)) (\<lambda>_.
           collect_messages ps env ms (handled + 1) evs))
       | Some v \<Rightarrow> (case deserialize_db_event ps v of
             Inl e \<Rightarrow>
               eff_bind on_malformed (\<lambda>_. eff_bind (every_fifty env (handled + 1)) (\<lambda>_.
               collect_messages ps env ms (handled + 1) evs))
           | Inr e \<Rightarrow>
               eff_bind (every_fifty env (handled + 1)) (\<lambda>_.
               collect_messages ps env ms (handled + 1) (evs @ [e])))))"

fun is_redis_write_failure :: "persister_error \<Rightarrow> bool" where
  "is_redis_write_failure (RedisWriteFailure _) = True"
| "is_redis_write_failure _ = False"

definition handle_persist_error ::
  "persister_config \<Rightarrow> 'm persister_env \<Rightarrow> persister_error \<Rightarrow> ('m, unit) peff" where
  "handle_persist_error cfg env e =
     (if is_redis_write_failure e then
        eff_bind breaker_record_success (\<lambda>_.
        eff_bind (on_health (\<lambda>h. h\<lparr>postgres_healthy := True, redis_healthy := False\<rparr>)) (\<lambda>_.
        eff_bind (breaker_is_open env) (\<lambda>is_open.
        eff_bind (on_health (\<lambda>h. h\<lparr>circuit_open := is_open\<rparr>)) (\<lambda>_. eff_throw e))))
      else
        eff_bind (breaker_record_failure cfg env) (\<lambda>opened.
        eff_bind (on_health (\<lambda>h. h\<lparr>postgres_healthy := False\<rparr>)) (\<lambda>_.
        eff_bind (breaker_is_open env) (\<lambda>is_open.
        eff_bind (on_health (\<lambda>h. h\<lparr>circuit_open := is_open\<rparr>)) (\<lambda>_.
        eff_bind (on_health (increment_error ''postgres_error'')) (\<lambda>_. eff_throw e))))))"

definition persist_collected ::
  "persister_config \<Rightarrow> 'm persister_env \<Rightarrow> 'm parsed_raw_event list \<Rightarrow> ('m, unit) peff" where
  "persist_collected cfg env evs =
     eff_bind (persist_and_mark_seen cfg env evs) (\<lambda>_.
     eff_bind (now env) (\<lambda>t.
     eff_bind (on_health (\<lambda>h. h\<lparr>last_event_at := Some t\<rparr>)) (\<lambda>_.
     eff_bind breaker_record_success (\<lambda>_.
     on_health (\<lambda>h. h\<lparr>postgres_healthy := True\<rparr>)))))"

definition persist_events_with_circuit_handling ::
  "persister_config \<Rightarrow> 'm persister_env \<Rightarrow> 'm parsed_raw_event list \<Rightarrow> ('m, unit) peff" where
  "persist_events_with_circuit_handling cfg env evs =
     eff_catch
       (eff_bind (if length evs > 0 then persist_collected cfg env evs else eff_ret ()) (\<lambda>_.
        eff_bind (breaker_is_open env) (\<lambda>is_open. on_health (\<lambda>h. h\<lparr>circuit_open := is_open\<rparr>))))
       (handle_persist_error cfg env)"

text \<open>The last three steps.\<close>

primrec resolve_offsets :: "pipeline_message list \<Rightarrow> ('m, unit) peff" where
  "resolve_offsets [] = eff_ret ()"
| "resolve_offsets (m # ms) = eff_bind (log_call (Acknowledge (position m))) (\<lambda>_. resolve_offsets ms)"

definition commit_and_heartbeat :: "'m persister_env \<Rightarrow> ('m, bool) peff" where
  "commit_and_heartbeat env =
     eff_bind (attempt (ans_commit env) Commit) (\<lambda>_.
     eff_bind (is_active env) (\<lambda>active.
     if \<not> active then eff_ret False
     else eff_bind (keep_alive env) (\<lambda>_. eff_ret True)))"

definition to_big_int :: "string \<Rightarrow> int \<Rightarrow> int" where
  "to_big_int value fallback = (case big_int value of Some n \<Rightarrow> n | None \<Rightarrow> fallback)"

definition update_lag ::
  "persister_config \<Rightarrow> 'm persister_env \<Rightarrow> batch \<Rightarrow> int \<Rightarrow> int \<Rightarrow> int \<Rightarrow> ('m, bool) peff" where
  "update_lag cfg env b current_offset latest_offset lag =
     eff_bind (on_health (set_consumer_lag (batch_partition b) lag)) (\<lambda>_.
     eff_bind (now env) (\<lambda>t s.
       let partition_key = batch_topic b @ '':'' @ int_str (batch_partition b);
           last_write = om_get 0 (lag_write_timestamps s) partition_key;
           upd = \<lparr>lu_consumer_group = kafka_consumer_group cfg, lu_topic = batch_topic b,
             lu_partition = batch_partition b, lu_current_offset = current_offset,
             lu_latest_offset = latest_offset, lu_lag_messages = lag, lu_observed_at = t\<rparr>
       in if t - last_write < consumer_lag_update_interval_ms cfg then (Inr False, s)
          else
            eff_bind (attempt (\<lambda>h. ans_upsert_lag env h upd) (UpsertLag upd)) (\<lambda>_.
            eff_bind (eff_upd (\<lambda>s. s\<lparr>lag_write_timestamps := om_set (lag_write_timestamps s) partition_key t\<rparr>)) (\<lambda>_.
            eff_ret True)) s))"

definition lag_of :: "batch \<Rightarrow> string \<Rightarrow> int \<times> int \<times> int" where
  "lag_of b last_position =
     (let current_offset = to_big_int last_position 0 + 1;
          latest_offset = to_big_int (high_watermark b) current_offset
      in (current_offset, latest_offset,
          if latest_offset > current_offset then latest_offset - current_offset else 0))"

definition update_consumer_lag ::
  "persister_config \<Rightarrow> 'm persister_env \<Rightarrow> batch \<Rightarrow> pipeline_message list \<Rightarrow> ('m, unit) peff" where
  "update_consumer_lag cfg env b ms =
     (if ms = [] then eff_ret ()
      else
        (case lag_of b (position (last ms)) of (current_offset, latest_offset, lag) \<Rightarrow>
           eff_catch
             (eff_bind (update_lag cfg env b current_offset latest_offset lag) (\<lambda>wrote_lag.
               if wrote_lag then on_health (\<lambda>h. h\<lparr>postgres_healthy := True\<rparr>) else eff_ret ()))
             (\<lambda>e. eff_bind (on_health (increment_error ''postgres_error'')) (\<lambda>_.
                on_health (\<lambda>h. h\<lparr>postgres_healthy := False\<rparr>)))))"

text \<open>The chain. What \<open>state.events\<close> holds is passed in the state.\<close>

definition collect_messages_step ::
  "'m parsers \<Rightarrow> 'm persister_env \<Rightarrow> pipeline_message list \<Rightarrow> ('m, bool) peff" where
  "collect_messages_step ps env ms =
     eff_bind (collect_messages ps env ms 0 []) (\<lambda>evs.
       case evs of
         None \<Rightarrow> eff_ret False
       | Some es \<Rightarrow> eff_bind (eff_upd (\<lambda>s. s\<lparr>collected := Some es\<rparr>)) (\<lambda>_. eff_ret True))"

definition persist_events_step :: "persister_config \<Rightarrow> 'm persister_env \<Rightarrow> ('m, unit) peff" where
  "persist_events_step cfg env s =
     (case collected s of
        None \<Rightarrow> (Inl ReachedWithoutEvents, s)
      | Some evs \<Rightarrow> persist_events_with_circuit_handling cfg env evs s)"

definition process_batch_steps ::
  "persister_config \<Rightarrow> 'm parsers \<Rightarrow> 'm persister_env \<Rightarrow> batch \<Rightarrow> pipeline_message list \<Rightarrow>
   ('m persister, persister_error, unit) chain_step list" where
  "process_batch_steps cfg ps env b ms =
     [(''batch-lifecycle-gate'', gate_next (batch_lifecycle_gate env)),
      (''circuit-breaker-pause'', gate_next (eff_bind (pause_partition_when_circuit_open env) (\<lambda>paused. eff_ret (\<not> paused)))),
      (''observe-batch-size'', before_next (on_health (observe_batch_size (length ms)))),
      (''collect-messages'', gate_next (collect_messages_step ps env ms)),
      (''persist-events'', before_next (persist_events_step cfg env)),
      (''resolve-offsets'', before_next (resolve_offsets ms)),
      (''commit-and-heartbeat'', gate_next (commit_and_heartbeat env)),
      (''update-consumer-lag'', before_next (update_consumer_lag cfg env b ms))]"

definition process_batch ::
  "persister_config \<Rightarrow> 'm parsers \<Rightarrow> 'm persister_env \<Rightarrow> batch \<Rightarrow> pipeline_message list \<Rightarrow> ('m, unit) peff" where
  "process_batch cfg ps env b ms s =
     run_async_chain DuplicateNext (\<lambda>_. eff_ret ()) (process_batch_steps cfg ps env b ms) 0 (s\<lparr>collected := None\<rparr>)"

subsection \<open>Reasoning about the calls of an operation\<close>

definition on_calls :: "('m, 'a) peff \<Rightarrow> (persister_error + 'a \<Rightarrow> 'm calls \<Rightarrow> bool) \<Rightarrow> bool" where
  "on_calls m Q \<longleftrightarrow> (\<forall>s. \<exists>t. calls (snd (m s)) = calls s @ t \<and> Q (fst (m s)) t)"

named_theorems calls_intro \<open>rules that split an operation into its parts\<close>

lemma on_callsI: "(\<And>s. \<exists>t. calls (snd (m s)) = calls s @ t \<and> Q (fst (m s)) t) \<Longrightarrow> on_calls m Q"
  by (simp add: on_calls_def)

lemma on_calls_mono: "on_calls m Q \<Longrightarrow> (\<And>r t. Q r t \<Longrightarrow> Q' r t) \<Longrightarrow> on_calls m Q'"
  unfolding on_calls_def by metis

lemma on_calls_bind:
  assumes "on_calls m Q1" and "\<And>a. on_calls (k a) (Q2 a)"
    and "\<And>e t. Q1 (Inl e) t \<Longrightarrow> Q (Inl e) t"
    and "\<And>a t1 r t2. Q1 (Inr a) t1 \<Longrightarrow> Q2 a r t2 \<Longrightarrow> Q r (t1 @ t2)"
  shows "on_calls (eff_bind m k) Q"
proof (rule on_callsI)
  fix s
  from assms(1) obtain t where t: "calls (snd (m s)) = calls s @ t" "Q1 (fst (m s)) t" unfolding on_calls_def by blast
  show "\<exists>t. calls (snd (eff_bind m k s)) = calls s @ t \<and> Q (fst (eff_bind m k s)) t"
  proof (cases "m s")
    case (Pair x s1)
    show ?thesis
    proof (cases x)
      case (Inl e)
      with Pair t assms(3) show ?thesis by (auto simp: eff_bind_def)
    next
      case (Inr a)
      from assms(2) [of a] obtain t2 where "calls (snd (k a s1)) = calls s1 @ t2" "Q2 a (fst (k a s1)) t2"
        unfolding on_calls_def by blast
      with Pair Inr t assms(4) show ?thesis by (auto simp: eff_bind_def)
    qed
  qed
qed

lemma on_calls_catch:
  assumes "on_calls m Q1" and "\<And>e. on_calls (h e) (Q2 e)"
    and "\<And>a t. Q1 (Inr a) t \<Longrightarrow> Q (Inr a) t"
    and "\<And>e t1 r t2. Q1 (Inl e) t1 \<Longrightarrow> Q2 e r t2 \<Longrightarrow> Q r (t1 @ t2)"
  shows "on_calls (eff_catch m h) Q"
proof (rule on_callsI)
  fix s
  from assms(1) obtain t where t: "calls (snd (m s)) = calls s @ t" "Q1 (fst (m s)) t" unfolding on_calls_def by blast
  show "\<exists>t. calls (snd (eff_catch m h s)) = calls s @ t \<and> Q (fst (eff_catch m h s)) t"
  proof (cases "m s")
    case (Pair x s1)
    show ?thesis
    proof (cases x)
      case (Inr a)
      with Pair t assms(3) show ?thesis by (auto simp: eff_catch_def)
    next
      case (Inl e)
      from assms(2) [of e] obtain t2 where "calls (snd (h e s1)) = calls s1 @ t2" "Q2 e (fst (h e s1)) t2"
        unfolding on_calls_def by blast
      with Pair Inl t assms(4) show ?thesis by (auto simp: eff_catch_def)
    qed
  qed
qed

text \<open>Operations that make only calls of some kinds.\<close>

definition makes :: "('m pcall \<Rightarrow> bool) \<Rightarrow> ('m, 'a) peff \<Rightarrow> bool" where
  "makes P m \<longleftrightarrow> on_calls m (\<lambda>r t. \<forall>c \<in> set t. P c)"

lemma makes_ret [calls_intro]: "makes P (eff_ret a)"
  by (auto simp: makes_def on_calls_def eff_ret_def)

lemma makes_throw [calls_intro]: "makes P (eff_throw e)"
  by (auto simp: makes_def on_calls_def eff_throw_def)

lemma makes_bind [calls_intro]: "makes P m \<Longrightarrow> (\<And>a. makes P (k a)) \<Longrightarrow> makes P (eff_bind m k)"
  unfolding makes_def
  by (rule on_calls_bind [where ?Q1.0 = "\<lambda>r t. \<forall>c \<in> set t. P c" and ?Q2.0 = "\<lambda>a r t. \<forall>c \<in> set t. P c"]) auto

lemma makes_catch [calls_intro]: "makes P m \<Longrightarrow> (\<And>e. makes P (h e)) \<Longrightarrow> makes P (eff_catch m h)"
  unfolding makes_def
  by (rule on_calls_catch [where ?Q1.0 = "\<lambda>r t. \<forall>c \<in> set t. P c" and ?Q2.0 = "\<lambda>a r t. \<forall>c \<in> set t. P c"]) auto

lemma makes_health [calls_intro]: "makes P (on_health f)"
  by (auto simp: makes_def on_calls_def on_health_def eff_upd_def)

lemma makes_ask: "(\<And>r. P (mk r)) \<Longrightarrow> makes P (ask f mk)"
  by (auto simp: makes_def on_calls_def ask_def)

lemma makes_log: "P c \<Longrightarrow> makes P (log_call c)"
  by (auto simp: makes_def on_calls_def log_call_def eff_upd_def)

lemma makes_attempt: "(\<And>r. P (mk r)) \<Longrightarrow> makes P (attempt f mk)"
  unfolding attempt_def by (intro makes_bind makes_ask) (auto intro: calls_intro split: sum.split)

lemma makes_local [calls_intro]:
  "makes P breaker_record_success"
  "makes P (eff_upd (\<lambda>s. s\<lparr>collected := x\<rparr>))"
  "makes P (\<lambda>s. (Inr (f (breaker s)), s))"
  "makes P (\<lambda>s. (Inr (g (breaker s)), s\<lparr>breaker := h (breaker s)\<rparr>))"
  by (auto simp: makes_def on_calls_def breaker_record_success_def eff_upd_def)

lemma makes_if [calls_intro]: "(b \<Longrightarrow> makes P m) \<Longrightarrow> (\<not> b \<Longrightarrow> makes P m') \<Longrightarrow> makes P (if b then m else m')"
  by simp

text \<open>Calls to the clock, the consumer's heart beat and its state.\<close>

fun is_poll :: "'m pcall \<Rightarrow> bool" where
  "is_poll (Now _) = True"
| "is_poll (IsActive _) = True"
| "is_poll (KeepAlive _) = True"
| "is_poll (Sleep _) = True"
| "is_poll _ = False"

definition polls_or :: "('m pcall \<Rightarrow> bool) \<Rightarrow> 'm pcall \<Rightarrow> bool" where
  "polls_or P c \<longleftrightarrow> is_poll c \<or> P c"

lemma makes_polls [calls_intro]:
  "makes (polls_or P) (now env)" "makes (polls_or P) (is_active env)" "makes (polls_or P) (keep_alive env)"
  by (auto simp: now_def is_active_def keep_alive_def polls_or_def intro!: makes_ask makes_attempt)

lemma makes_breaker [calls_intro]:
  "makes (polls_or P) (breaker_is_open env)" "makes (polls_or P) (breaker_record_failure cfg env)"
  "makes (polls_or P) (breaker_time_until_close env)"
  unfolding breaker_is_open_def breaker_record_failure_def breaker_time_until_close_def Let_def
  by (intro calls_intro)+

lemma makes_collect [calls_intro]: "makes (polls_or P) (collect_messages ps env ms n evs)"
  by (induction ms arbitrary: n evs)
    (auto simp: on_malformed_def every_fifty_def intro!: calls_intro split: option.split sum.split)

lemma bind_InrD: "fst (eff_bind m k s) = Inr x \<Longrightarrow> \<exists>a s1. fst (k a s1) = Inr x"
  by (auto simp: eff_bind_def split: prod.splits sum.splits)

text \<open>The events of a batch that can be read.\<close>

definition decoded :: "'m parsers \<Rightarrow> pipeline_message list \<Rightarrow> 'm parsed_raw_event list" where
  "decoded ps ms = concat (map (\<lambda>m. case message_value m of None \<Rightarrow> [] | Some v \<Rightarrow>
     (case deserialize_db_event ps v of Inl e \<Rightarrow> [] | Inr e \<Rightarrow> [e])) ms)"

lemma collect_messages_result:
  "fst (collect_messages ps env ms n evs s) = Inr (Some es) \<Longrightarrow> es = evs @ decoded ps ms"
proof (induction ms arbitrary: n evs s)
  case Nil
  then show ?case by (auto simp: decoded_def eff_bind_def eff_ret_def split: prod.splits sum.splits if_splits)
next
  case (Cons m ms)
  from bind_InrD [OF Cons.prems [unfolded collect_messages.simps]] obtain s1 where
    s1: "fst ((case message_value m of
         None \<Rightarrow>
           eff_bind on_malformed (\<lambda>_. eff_bind (every_fifty env (n + 1)) (\<lambda>_.
           collect_messages ps env ms (n + 1) evs))
       | Some v \<Rightarrow> (case deserialize_db_event ps v of
             Inl e \<Rightarrow>
               eff_bind on_malformed (\<lambda>_. eff_bind (every_fifty env (n + 1)) (\<lambda>_.
               collect_messages ps env ms (n + 1) evs))
           | Inr e \<Rightarrow>
               eff_bind (every_fifty env (n + 1)) (\<lambda>_.
               collect_messages ps env ms (n + 1) (evs @ [e])))) s1) = Inr (Some es)"
    by (auto simp: eff_ret_def split: if_splits)
  show ?case
  proof (cases "\<exists>v e. message_value m = Some v \<and> deserialize_db_event ps v = Inr e")
    case True
    then obtain v e where ve: "message_value m = Some v" "deserialize_db_event ps v = Inr e" by blast
    with s1 obtain s2 where "fst (collect_messages ps env ms (n + 1) (evs @ [e]) s2) = Inr (Some es)"
      by (auto dest: bind_InrD)
    from Cons.IH [OF this] ve show ?thesis by (simp add: decoded_def)
  next
    case False
    with s1 obtain s2 where "fst (collect_messages ps env ms (n + 1) evs s2) = Inr (Some es)"
      by (fastforce dest!: bind_InrD split: option.splits sum.splits)
    from Cons.IH [OF this] False show ?thesis by (auto simp: decoded_def split: option.splits sum.splits)
  qed
qed

text \<open>What has been called when an operation returns.\<close>

definition lasting :: "('m calls \<Rightarrow> bool) \<Rightarrow> bool" where
  "lasting Q \<longleftrightarrow> (\<forall>t u v. Q t \<longrightarrow> Q (u @ t @ v))"

definition ensures :: "('m calls \<Rightarrow> bool) \<Rightarrow> ('m, 'a) peff \<Rightarrow> bool" where
  "ensures Q m \<longleftrightarrow> on_calls m (\<lambda>r t. \<not> isl r \<longrightarrow> Q t)"

abbreviation grows :: "('m, 'a) peff \<Rightarrow> bool" where
  "grows m \<equiv> makes (polls_or (\<lambda>c. True)) m"

lemma lasting_append: "lasting Q \<Longrightarrow> Q t \<Longrightarrow> Q (u @ t) \<and> Q (t @ v)"
  unfolding lasting_def by (metis append_Nil append_Nil2)

lemma grows_True: "grows m \<Longrightarrow> on_calls m (\<lambda>r t. True)"
  unfolding makes_def by (erule on_calls_mono) simp

lemma ensures_bind1: "lasting Q \<Longrightarrow> ensures Q m \<Longrightarrow> (\<And>a. grows (k a)) \<Longrightarrow> ensures Q (eff_bind m k)"
  unfolding ensures_def
  by (rule on_calls_bind [where ?Q1.0 = "\<lambda>r t. \<not> isl r \<longrightarrow> Q t" and ?Q2.0 = "\<lambda>a r t. True"])
    (auto dest: lasting_append simp: grows_True)

lemma ensures_bind2: "lasting Q \<Longrightarrow> grows m \<Longrightarrow> (\<And>a. ensures Q (k a)) \<Longrightarrow> ensures Q (eff_bind m k)"
  unfolding ensures_def
  by (rule on_calls_bind [where ?Q1.0 = "\<lambda>r t. True" and ?Q2.0 = "\<lambda>a r t. \<not> isl r \<longrightarrow> Q t"])
    (auto dest: lasting_append simp: grows_True)

lemma ensures_throw: "ensures Q (eff_throw e)"
  by (auto simp: ensures_def on_calls_def eff_throw_def)

lemma ensures_catch: "lasting Q \<Longrightarrow> ensures Q m \<Longrightarrow> (\<And>e. ensures Q (h e)) \<Longrightarrow> ensures Q (eff_catch m h)"
  unfolding ensures_def
  by (rule on_calls_catch [where ?Q1.0 = "\<lambda>r t. \<not> isl r \<longrightarrow> Q t" and ?Q2.0 = "\<lambda>e r t. \<not> isl r \<longrightarrow> Q t"])
    (auto dest: lasting_append)

lemma ensures_attempt: "(\<And>r. Q [mk (Inr r)]) \<Longrightarrow> ensures Q (attempt f mk)"
  by (auto simp: ensures_def on_calls_def attempt_def eff_bind_def ask_def eff_throw_def eff_ret_def split: sum.split)

lemma on_calls_conj: "on_calls m Q1 \<Longrightarrow> on_calls m Q2 \<Longrightarrow> on_calls m (\<lambda>r t. Q1 r t \<and> Q2 r t)"
  unfolding on_calls_def by (metis same_append_eq)

fun is_store :: "'m pcall \<Rightarrow> bool" where
  "is_store (CreateMany _ _) = True"
| "is_store (MarkSeen _ _ _) = True"
| "is_store _ = False"

definition created :: "'m parsed_raw_event list \<Rightarrow> 'm calls \<Rightarrow> bool" where
  "created es t \<longleftrightarrow> (\<exists>n. CreateMany es (Inr n) \<in> set t)"

definition marked :: "'m parsed_raw_event list \<Rightarrow> int \<Rightarrow> 'm calls \<Rightarrow> bool" where
  "marked evs ttl t \<longleftrightarrow> MarkSeen (map seen_key evs) ttl (Inr ()) \<in> set t"

lemma lasting_created [simp]: "lasting (created es)"
  by (auto simp: lasting_def created_def)

lemma lasting_marked [simp]: "lasting (marked evs ttl)"
  by (auto simp: lasting_def marked_def)

lemma makes_store [calls_intro]:
  "makes (polls_or is_store) (attempt f (CreateMany es))"
  "makes (polls_or is_store) (attempt g (MarkSeen ks ttl))"
  "grows (attempt f (CreateMany es))"
  "grows (attempt g (MarkSeen ks ttl))"
  by (auto simp: polls_or_def intro!: makes_attempt)

lemma makes_now_seconds [calls_intro]: "makes (polls_or P) (now_seconds env start)"
  unfolding now_seconds_def by (intro calls_intro)

lemma makes_persist_groups [calls_intro]:
  "makes (polls_or is_store) (persist_groups env gs r)" "grows (persist_groups env gs r)"
  by (induction gs arbitrary: r) (auto intro!: calls_intro)

lemma makes_mark_seen [calls_intro]:
  "makes (polls_or is_store) (mark_seen_or_fail cfg env evs)" "grows (mark_seen_or_fail cfg env evs)"
  unfolding mark_seen_or_fail_def mark_events_seen_def by (intro calls_intro)+

lemma makes_persist_and_mark_seen [calls_intro]:
  "makes (polls_or is_store) (persist_and_mark_seen cfg env evs)" "grows (persist_and_mark_seen cfg env evs)"
  unfolding persist_and_mark_seen_def persist_batch_def Let_def by (intro calls_intro)+

lemma makes_persist_handling [calls_intro]:
  "makes (polls_or P) (handle_persist_error cfg env e)"
  "makes (polls_or is_store) (persist_events_with_circuit_handling cfg env evs)"
  "grows (persist_events_with_circuit_handling cfg env evs)"
  unfolding persist_events_with_circuit_handling_def persist_collected_def handle_persist_error_def
  by (intro calls_intro)+

lemma ensures_persist_groups:
  "g \<in> set gs \<Longrightarrow> ensures (created (snd g)) (persist_groups env gs r)"
proof (induction gs arbitrary: r)
  case (Cons h gs)
  show ?case
  proof (cases "g = h")
    case True
    then show ?thesis
      by (simp only: persist_groups.simps) (rule ensures_bind1, simp, rule ensures_attempt, auto simp: created_def intro!: calls_intro)
  next
    case False
    then have "g \<in> set gs" using Cons.prems by simp
    from Cons.IH [OF this] show ?thesis by (auto intro!: ensures_bind2 calls_intro)
  qed
qed simp

lemma om_get_group_by_source: "om_get [] (group_by_source evs) k = filter (\<lambda>e. event_source e = k) evs"
proof (induction evs arbitrary: k rule: rev_induct)
  case Nil
  show ?case by (simp add: group_by_source_def om_get_def)
next
  case (snoc e evs)
  then show ?case by (simp add: group_by_source_def om_get_om_set)
qed

lemma group_of_event:
  assumes "e \<in> set evs"
  shows "\<exists>g \<in> set (group_by_source evs). e \<in> set (snd g)"
proof -
  have "e \<in> set (om_get [] (group_by_source evs) (event_source e))"
    using assms by (simp add: om_get_group_by_source)
  then obtain v where "map_of (group_by_source evs) (event_source e) = Some v" "e \<in> set v"
    by (cases "map_of (group_by_source evs) (event_source e)") (auto simp: om_get_def)
  then show ?thesis by (metis map_of_SomeD snd_conv)
qed

lemma ensures_mark_seen:
  assumes "evs \<noteq> []"
  shows "ensures (marked evs (seen_ttl_seconds cfg)) (mark_seen_or_fail cfg env evs)"
proof -
  have "ensures (marked evs (seen_ttl_seconds cfg)) (mark_events_seen env evs (seen_ttl_seconds cfg))"
    using assms by (auto simp: mark_events_seen_def marked_def intro!: ensures_attempt)
  then have mark: "ensures (marked evs (seen_ttl_seconds cfg))
      (eff_bind (mark_events_seen env evs (seen_ttl_seconds cfg)) k)" if "\<And>a. grows (k a)"
    for k :: "unit \<Rightarrow> ('a, unit) peff"
    using that by (rule ensures_bind1 [OF lasting_marked])
  show ?thesis unfolding mark_seen_or_fail_def
    by (rule ensures_catch, simp, rule ensures_bind2, simp, intro calls_intro, rule mark, intro calls_intro)
      (intro ensures_bind2 lasting_marked ensures_throw calls_intro)
qed

lemma ensures_persist_and_mark_seen:
  assumes "evs \<noteq> []"
  shows "e \<in> set evs \<Longrightarrow> \<exists>es. e \<in> set es \<and> ensures (created es) (persist_and_mark_seen cfg env evs)"
    and "ensures (marked evs (seen_ttl_seconds cfg)) (persist_and_mark_seen cfg env evs)"
proof -
  show "ensures (marked evs (seen_ttl_seconds cfg)) (persist_and_mark_seen cfg env evs)"
    unfolding persist_and_mark_seen_def persist_batch_def Let_def
    by (intro ensures_bind2 ensures_mark_seen calls_intro assms lasting_marked)
  assume "e \<in> set evs"
  then obtain g where g: "g \<in> set (group_by_source evs)" "e \<in> set (snd g)" using group_of_event by blast
  have "ensures (created (snd g)) (persist_and_mark_seen cfg env evs)"
    unfolding persist_and_mark_seen_def
    by (rule ensures_bind2, simp, intro calls_intro, rule ensures_bind1, simp)
      (use assms ensures_persist_groups [OF g(1)] in \<open>auto simp: persist_batch_def intro!: calls_intro\<close>)
  with g(2) show "\<exists>es. e \<in> set es \<and> ensures (created es) (persist_and_mark_seen cfg env evs)" by blast
qed

definition stored :: "'m parsed_raw_event list \<Rightarrow> int \<Rightarrow> 'm calls \<Rightarrow> bool" where
  "stored evs ttl t \<longleftrightarrow> (\<forall>e \<in> set evs. \<exists>es. e \<in> set es \<and> created es t) \<and> (evs \<noteq> [] \<longrightarrow> marked evs ttl t)"

lemma ensures_handling:
  "lasting Q \<Longrightarrow> evs \<noteq> [] \<Longrightarrow> ensures Q (persist_and_mark_seen cfg env evs) \<Longrightarrow>
   ensures Q (persist_events_with_circuit_handling cfg env evs)"
  unfolding persist_events_with_circuit_handling_def persist_collected_def handle_persist_error_def
  by (rule ensures_catch, assumption, rule ensures_bind1, assumption, simp, rule ensures_bind1, assumption, assumption)
    (auto intro!: calls_intro ensures_bind2 ensures_throw)

lemma on_calls_handling:
  "on_calls (persist_events_with_circuit_handling cfg env evs)
     (\<lambda>r t. (\<forall>c \<in> set t. polls_or is_store c) \<and> (\<not> isl r \<longrightarrow> stored evs (seen_ttl_seconds cfg) t))"
proof (rule on_callsI)
  fix s
  let ?m = "persist_events_with_circuit_handling cfg env evs"
  have "makes (polls_or is_store) ?m" by (intro calls_intro)
  then obtain t where t: "calls (snd (?m s)) = calls s @ t" "\<forall>c \<in> set t. polls_or is_store c"
    unfolding makes_def on_calls_def by blast
  have Q: "Q t" if "lasting Q" "ensures Q (persist_and_mark_seen cfg env evs)" "evs \<noteq> []" "\<not> isl (fst (?m s))" for Q
    using ensures_handling [OF that(1,3,2)] that(4) t(1) unfolding ensures_def on_calls_def by (metis same_append_eq)
  have "stored evs (seen_ttl_seconds cfg) t" if "\<not> isl (fst (?m s))"
  proof (cases "evs = []")
    case False
    note e = ensures_persist_and_mark_seen [OF False]
    show ?thesis unfolding stored_def
    proof (intro conjI ballI impI)
      fix x assume "x \<in> set evs"
      from e(1) [OF this] obtain es where "x \<in> set es" "ensures (created es) (persist_and_mark_seen cfg env evs)" by blast
      then show "\<exists>es. x \<in> set es \<and> created es t" using Q [OF lasting_created _ False that] by blast
    qed (use Q [OF lasting_marked e(2) False that] in simp)
  qed (simp add: stored_def)
  with t show "\<exists>t. calls (snd (?m s)) = calls s @ t \<and> (\<forall>c \<in> set t. polls_or is_store c) \<and>
      (\<not> isl (fst (?m s)) \<longrightarrow> stored evs (seen_ttl_seconds cfg) t)" by blast
qed

fun closes :: "pipeline_message list \<Rightarrow> 'm pcall \<Rightarrow> bool" where
  "closes ms (Acknowledge p) \<longleftrightarrow> p \<in> position ` set ms"
| "closes ms (Commit _) \<longleftrightarrow> True"
| "closes ms (UpsertLag _ _) \<longleftrightarrow> True"
| "closes ms _ \<longleftrightarrow> False"

lemma makes_resolve: "set ms \<subseteq> set ms' \<Longrightarrow> makes (polls_or (closes ms')) (resolve_offsets ms)"
  by (induction ms) (auto simp: polls_or_def intro!: calls_intro makes_log)

lemma makes_commit: "makes (polls_or (closes ms)) (commit_and_heartbeat env)"
  unfolding commit_and_heartbeat_def by (intro calls_intro makes_attempt) (simp add: polls_or_def)

lemma makes_update_lag: "makes (polls_or (closes ms)) (update_lag cfg env b x y z)"
proof -
  have "makes (polls_or (closes ms)) (\<lambda>s. if c s then (Inr False, s) else
      eff_bind (attempt (\<lambda>h. ans_upsert_lag env h upd) (UpsertLag upd)) (\<lambda>_.
      eff_bind (eff_upd (\<lambda>s. s\<lparr>lag_write_timestamps := f s\<rparr>)) (\<lambda>_. eff_ret True)) s)" for c upd f
  proof -
    let ?m = "eff_bind (attempt (\<lambda>h. ans_upsert_lag env h upd) (UpsertLag upd)) (\<lambda>_.
      eff_bind (eff_upd (\<lambda>s. s\<lparr>lag_write_timestamps := f s\<rparr>)) (\<lambda>_. eff_ret True))"
    have "makes (polls_or (closes ms)) (eff_upd (\<lambda>s. s\<lparr>lag_write_timestamps := f s\<rparr>))"
      by (auto simp: makes_def on_calls_def eff_upd_def)
    moreover have "makes (polls_or (closes ms)) (attempt (\<lambda>h. ans_upsert_lag env h upd) (UpsertLag upd))"
      by (rule makes_attempt) (simp add: polls_or_def)
    ultimately have "makes (polls_or (closes ms)) ?m" by (intro calls_intro)
    then show ?thesis unfolding makes_def on_calls_def by auto
  qed
  note m = this
  show ?thesis unfolding update_lag_def Let_def
    by (intro calls_intro) (rule m)
qed

lemma makes_update_consumer_lag: "makes (polls_or (closes ms)) (update_consumer_lag cfg env b ms')"
  unfolding update_consumer_lag_def
  by (auto intro!: calls_intro makes_update_lag split: prod.split)

text \<open>The batch as one operation.\<close>

definition finish_batch ::
  "persister_config \<Rightarrow> 'm persister_env \<Rightarrow> batch \<Rightarrow> pipeline_message list \<Rightarrow> ('m, unit) peff" where
  "finish_batch cfg env b ms =
     eff_bind (resolve_offsets ms) (\<lambda>_.
     eff_bind (commit_and_heartbeat env) (\<lambda>go.
     if go then eff_bind (update_consumer_lag cfg env b ms) (\<lambda>_. eff_ret ()) else eff_ret ()))"

definition store_batch ::
  "persister_config \<Rightarrow> 'm parsers \<Rightarrow> 'm persister_env \<Rightarrow> batch \<Rightarrow> pipeline_message list \<Rightarrow> ('m, unit) peff" where
  "store_batch cfg ps env b ms =
     eff_bind (collect_messages ps env ms 0 []) (\<lambda>evs. case evs of
         None \<Rightarrow> eff_ret ()
       | Some es \<Rightarrow> eff_bind (eff_upd (\<lambda>s. s\<lparr>collected := Some es\<rparr>)) (\<lambda>_.
           eff_bind (persist_events_with_circuit_handling cfg env es) (\<lambda>_. finish_batch cfg env b ms)))"

lemma process_batch_unfold:
  "process_batch cfg ps env b ms s =
    eff_bind (batch_lifecycle_gate env) (\<lambda>go. if go then
      eff_bind (eff_bind (pause_partition_when_circuit_open env) (\<lambda>paused. eff_ret (\<not> paused))) (\<lambda>go. if go then
        eff_bind (on_health (observe_batch_size (length ms))) (\<lambda>_. store_batch cfg ps env b ms)
      else eff_ret ()) else eff_ret ()) (s\<lparr>collected := None\<rparr>)"
proof -
  have "eff_bind (collect_messages_step ps env ms) (\<lambda>go. if go then eff_bind (persist_events_step cfg env) K else eff_ret ())
      = eff_bind (collect_messages ps env ms 0 []) (\<lambda>evs. case evs of
         None \<Rightarrow> eff_ret ()
       | Some es \<Rightarrow> eff_bind (eff_upd (\<lambda>s. s\<lparr>collected := Some es\<rparr>)) (\<lambda>_.
           eff_bind (persist_events_with_circuit_handling cfg env es) K))" for K :: "unit \<Rightarrow> ('a, unit) peff"
    by (rule ext) (auto simp: collect_messages_step_def persist_events_step_def eff_bind_def eff_ret_def eff_upd_def
        split: prod.splits sum.splits option.splits)
  then show ?thesis
    by (simp only: process_batch_def process_batch_steps_def run_async_chain_gate run_async_chain_before
        run_async_chain.simps(1) store_batch_def finish_batch_def)
qed

definition acks_stored :: "'m parsed_raw_event list \<Rightarrow> int \<Rightarrow> pipeline_message list \<Rightarrow> 'm calls \<Rightarrow> bool" where
  "acks_stored evs ttl ms t \<longleftrightarrow>
     (\<forall>u p v. t = u @ Acknowledge p # v \<longrightarrow> p \<in> position ` set ms \<and> stored evs ttl u)"

lemma stored_append: "stored evs ttl t \<Longrightarrow> stored evs ttl (u @ t @ v)"
  unfolding stored_def using lasting_created lasting_marked unfolding lasting_def by metis

lemma acks_stored_free: "(\<forall>c \<in> set t. polls_or is_store c) \<Longrightarrow> acks_stored evs ttl ms t"
  by (auto simp: acks_stored_def polls_or_def)

lemma acks_stored_Nil [simp]: "acks_stored evs ttl ms []"
  by (simp add: acks_stored_def)

lemma acks_stored_append:
  assumes "\<forall>c \<in> set t. polls_or is_store c \<or> c = Pause \<or> c = Resume" and "acks_stored evs ttl ms t'"
  shows "acks_stored evs ttl ms (t @ t')"
  unfolding acks_stored_def
proof (intro allI impI)
  fix u p v assume "t @ t' = u @ Acknowledge p # v"
  then consider w where "t = u @ w" "w @ t' = Acknowledge p # v" "w \<noteq> []" | w where "u = t @ w" "t' = w @ Acknowledge p # v"
    by (auto simp: append_eq_append_conv2 append_eq_Cons_conv)
  then show "p \<in> position ` set ms \<and> stored evs ttl u"
  proof cases
    case 1
    then have "Acknowledge p \<in> set t" by (cases w) auto
    with assms(1) show ?thesis by (auto simp: polls_or_def)
  next
    case 2
    with assms(2) have "p \<in> position ` set ms" "stored evs ttl w" by (auto simp: acks_stored_def)
    with 2 show ?thesis using stored_append [of evs ttl w t "[]"] by simp
  qed
qed

lemma acks_stored_closing:
  assumes "stored evs ttl t" and "\<forall>c \<in> set t. polls_or is_store c" and "\<forall>c \<in> set t'. polls_or (closes ms) c"
  shows "acks_stored evs ttl ms (t @ t')"
  unfolding acks_stored_def
proof (intro allI impI)
  fix u p v assume eq: "t @ t' = u @ Acknowledge p # v"
  then consider w where "t = u @ w" "w @ t' = Acknowledge p # v" "w \<noteq> []" | w where "u = t @ w" "t' = w @ Acknowledge p # v"
    by (auto simp: append_eq_append_conv2 append_eq_Cons_conv)
  then show "p \<in> position ` set ms \<and> stored evs ttl u"
  proof cases
    case 1
    then have "Acknowledge p \<in> set t" by (cases w) auto
    with assms(2) show ?thesis by (auto simp: polls_or_def)
  next
    case 2
    with assms(3) have "p \<in> position ` set ms" by (auto simp: polls_or_def)
    with 2 assms(1) show ?thesis using stored_append [of evs ttl t "[]" w] by simp
  qed
qed

lemma on_calls_store_batch:
  "on_calls (store_batch cfg ps env b ms) (\<lambda>r t. acks_stored (decoded ps ms) (seen_ttl_seconds cfg) ms t)"
proof -
  let ?A = "acks_stored (decoded ps ms) (seen_ttl_seconds cfg) ms"
  let ?H = "\<lambda>es. eff_bind (persist_events_with_circuit_handling cfg env es) (\<lambda>_. finish_batch cfg env b ms)"
  have fin: "makes (polls_or (closes ms)) (finish_batch cfg env b ms)"
    unfolding finish_batch_def
    by (intro calls_intro makes_resolve makes_commit makes_update_consumer_lag order_refl)
  have H: "on_calls (?H es) (\<lambda>r t. es = decoded ps ms \<longrightarrow> ?A t)" for es
    by (rule on_calls_bind [OF on_calls_handling [of cfg env es] fin [unfolded makes_def]])
      (auto intro: acks_stored_free acks_stored_closing)
  have K: "on_calls (case evs of None \<Rightarrow> eff_ret () | Some es \<Rightarrow> eff_bind (eff_upd (\<lambda>s. s\<lparr>collected := Some es\<rparr>)) (\<lambda>_. ?H es))
      (\<lambda>r t. evs = None \<or> evs = Some (decoded ps ms) \<longrightarrow> ?A t)" for evs
  proof (cases evs)
    case None
    then show ?thesis by (auto simp: on_calls_def eff_ret_def acks_stored_def)
  next
    case (Some es)
    have "on_calls (eff_bind (eff_upd (\<lambda>s. s\<lparr>collected := Some es\<rparr>)) (\<lambda>_. ?H es)) (\<lambda>r t. es = decoded ps ms \<longrightarrow> ?A t)"
      by (rule on_calls_bind [where ?Q1.0 = "\<lambda>r t. t = []", OF _ H]) (auto simp: on_calls_def eff_upd_def)
    then show ?thesis using Some by simp
  qed
  have C: "on_calls (collect_messages ps env ms 0 []) (\<lambda>r t. (\<forall>c \<in> set t. polls_or is_store c) \<and>
      (\<forall>evs. r = Inr evs \<longrightarrow> evs = None \<or> evs = Some (decoded ps ms)))"
  proof (rule on_callsI)
    fix s
    have "makes (polls_or is_store) (collect_messages ps env ms 0 [])" by (intro calls_intro)
    then obtain t where t: "calls (snd (collect_messages ps env ms 0 [] s)) = calls s @ t" "\<forall>c \<in> set t. polls_or is_store c"
      unfolding makes_def on_calls_def by blast
    moreover have "\<forall>evs. fst (collect_messages ps env ms 0 [] s) = Inr evs \<longrightarrow> evs = None \<or> evs = Some (decoded ps ms)"
      using collect_messages_result [of ps env ms 0 "[]" s] by (metis append_Nil not_None_eq)
    ultimately show "\<exists>t. calls (snd (collect_messages ps env ms 0 [] s)) = calls s @ t \<and> (\<forall>c \<in> set t. polls_or is_store c) \<and>
      (\<forall>evs. fst (collect_messages ps env ms 0 [] s) = Inr evs \<longrightarrow> evs = None \<or> evs = Some (decoded ps ms))" by blast
  qed
  show ?thesis unfolding store_batch_def
    by (rule on_calls_bind [OF C K]) (auto intro: acks_stored_free acks_stored_append)
qed

fun is_pause :: "'m pcall \<Rightarrow> bool" where
  "is_pause Pause = True"
| "is_pause Resume = True"
| "is_pause _ = False"

lemma makes_wait [calls_intro]: "makes (polls_or P) (wait_with_heartbeats env n)"
proof (induction env n rule: wait_with_heartbeats.induct)
  case (1 env n)
  have "makes (polls_or P) (log_call (Sleep (min n 2000)))" by (rule makes_log) (simp add: polls_or_def)
  then show ?case by (subst wait_with_heartbeats.simps) (intro calls_intro 1)
qed

lemma makes_finally_resume:
  assumes "makes (polls_or is_pause) m"
  shows "makes (polls_or is_pause) (eff_finally m (\<lambda>s. s\<lparr>calls := calls s @ [Resume]\<rparr>))"
  unfolding makes_def
proof (rule on_callsI)
  fix s
  from assms obtain t where "calls (snd (m s)) = calls s @ t" "\<forall>c \<in> set t. polls_or is_pause c"
    unfolding makes_def on_calls_def by blast
  then show "\<exists>t. calls (snd (eff_finally m (\<lambda>s. s\<lparr>calls := calls s @ [Resume]\<rparr>) s)) = calls s @ t \<and>
      (\<forall>c \<in> set t. polls_or is_pause c)"
    by (intro exI [of _ "t @ [Resume]"]) (auto simp: eff_finally_def polls_or_def split: prod.splits)
qed

lemma makes_pause: "makes (polls_or is_pause) (pause_partition_when_circuit_open env)"
  unfolding pause_partition_when_circuit_open_def
  by (intro calls_intro makes_finally_resume makes_log) (simp add: polls_or_def)

lemma acks_stored_prefix:
  assumes "makes (polls_or is_pause) m" and "\<And>a. on_calls (k a) (\<lambda>r t. acks_stored evs ttl ms t)"
  shows "on_calls (eff_bind m k) (\<lambda>r t. acks_stored evs ttl ms t)"
proof (rule on_calls_bind [OF assms(1) [unfolded makes_def] assms(2)])
  fix a and t1 t2 :: "'a calls" and r :: "persister_error + 'c"
  have P: "polls_or is_pause c \<Longrightarrow> polls_or is_store c \<or> c = Pause \<or> c = Resume" for c :: "'a pcall"
    by (cases c) (auto simp: polls_or_def)
  assume "\<forall>c \<in> set t1. polls_or is_pause c" "acks_stored evs ttl ms t2"
  with P show "acks_stored evs ttl ms (t1 @ t2)" by (intro acks_stored_append) auto
next
  fix e and t :: "'a calls"
  have "\<not> polls_or is_pause (Acknowledge p :: 'a pcall)" for p by (simp add: polls_or_def)
  moreover assume "\<forall>c \<in> set t. polls_or is_pause c"
  ultimately show "acks_stored evs ttl ms t" by (auto simp: acks_stored_def)
qed

lemma on_calls_ret_acks: "on_calls (eff_ret a) (\<lambda>r t. acks_stored evs ttl ms t)"
  by (auto simp: on_calls_def eff_ret_def)

text \<open>
  C9. An offset is acknowledged only after its batch is stored: whatever the clock, the consumer,
  Postgres and Redis answer, each acknowledgement a batch makes is for one of its messages, and
  before it every event of the batch that can be read (\<^const>\<open>decoded\<close>) was in a write to Postgres
  that returned and, if there was any such event, the write of all their seen keys to Redis returned.
\<close>

theorem process_batch_acknowledges_stored:
  "\<exists>t. calls (snd (process_batch cfg ps env b ms s)) = calls s @ t \<and>
    acks_stored (decoded ps ms) (seen_ttl_seconds cfg) ms t"
proof -
  let ?M = "eff_bind (batch_lifecycle_gate env) (\<lambda>go. if go then
      eff_bind (eff_bind (pause_partition_when_circuit_open env) (\<lambda>paused. eff_ret (\<not> paused))) (\<lambda>go. if go then
        eff_bind (on_health (observe_batch_size (length ms))) (\<lambda>_. store_batch cfg ps env b ms)
      else eff_ret ()) else eff_ret ())"
  have "on_calls ?M (\<lambda>r t. acks_stored (decoded ps ms) (seen_ttl_seconds cfg) ms t)"
    unfolding batch_lifecycle_gate_def
    by (auto intro!: acks_stored_prefix on_calls_store_batch on_calls_ret_acks makes_pause calls_intro)
  from this [unfolded on_calls_def, rule_format, of "s\<lparr>collected := None\<rparr>"]
  show ?thesis unfolding process_batch_unfold by simp
qed

subsection \<open>The open circuit\<close>

fun slept :: "'m pcall \<Rightarrow> int" where
  "slept (Sleep n) = n"
| "slept _ = 0"

text \<open>The calls of a wait of \<open>n\<close> milliseconds: slices of two seconds, the last one shorter, each
  followed by a heart beat; a heart beat that fails ends the wait.\<close>

fun waits :: "int \<Rightarrow> 'm calls \<Rightarrow> bool" where
  "waits n [] \<longleftrightarrow> n \<le> 0"
| "waits n (Sleep d # KeepAlive x # t) \<longleftrightarrow>
     0 < n \<and> d = min n 2000 \<and> (case x of Inl _ \<Rightarrow> t = [] | Inr _ \<Rightarrow> waits (n - d) t)"
| "waits n _ \<longleftrightarrow> False"

lemma waits_slept:
  "waits n t \<Longrightarrow> 0 \<le> n \<Longrightarrow> sum_list (map slept t) \<le> n \<and>
    ((\<forall>e. KeepAlive (Inl e) \<notin> set t) \<longrightarrow> sum_list (map slept t) = n)"
  by (induction n t rule: waits.induct) (auto split: sum.splits)

lemma wait_with_heartbeats_waits:
  assumes "0 \<le> n"
  shows "\<exists>t. calls (snd (wait_with_heartbeats env n s)) = calls s @ t \<and> waits n t \<and>
    (isl (fst (wait_with_heartbeats env n s)) \<longleftrightarrow> (\<exists>e. KeepAlive (Inl e) \<in> set t)) \<and>
    health (snd (wait_with_heartbeats env n s)) = health s \<and> breaker (snd (wait_with_heartbeats env n s)) = breaker s"
  using assms
proof (induction env n arbitrary: s rule: wait_with_heartbeats.induct)
  case (1 env n)
  show ?case
  proof (cases "n > 0")
    case False
    then show ?thesis using "1.prems"
      by (subst (1 2 3 4) wait_with_heartbeats.simps) (auto simp: eff_ret_def intro!: exI [of _ "[]"])
  next
    case True
    let ?d = "min n 2000"
    let ?s1 = "s\<lparr>calls := calls s @ [Sleep ?d]\<rparr>"
    let ?x = "ans_keep_alive env (calls ?s1)"
    let ?s2 = "?s1\<lparr>calls := calls ?s1 @ [KeepAlive ?x]\<rparr>"
    have step: "wait_with_heartbeats env n s =
        (case ?x of Inl e \<Rightarrow> (Inl (External e), ?s2) | Inr _ \<Rightarrow> wait_with_heartbeats env (n - ?d) ?s2)"
      using True by (subst wait_with_heartbeats.simps)
        (auto simp: log_call_def keep_alive_def attempt_def ask_def eff_defs split: sum.split)
    show ?thesis
    proof (cases ?x)
      case (Inl e)
      then show ?thesis unfolding step using True
        by (intro exI [of _ "[Sleep ?d, KeepAlive ?x]"]) auto
    next
      case (Inr u)
      have "0 \<le> n - ?d" by simp
      from "1.IH" [OF True this, of ?s2] obtain t where t:
        "calls (snd (wait_with_heartbeats env (n - ?d) ?s2)) = calls ?s2 @ t" "waits (n - ?d) t"
        "isl (fst (wait_with_heartbeats env (n - ?d) ?s2)) \<longleftrightarrow> (\<exists>e. KeepAlive (Inl e) \<in> set t)"
        "health (snd (wait_with_heartbeats env (n - ?d) ?s2)) = health ?s2"
        "breaker (snd (wait_with_heartbeats env (n - ?d) ?s2)) = breaker ?s2"
        by blast
      then show ?thesis unfolding step using True Inr
        by (intro exI [of _ "[Sleep ?d, KeepAlive ?x] @ t"]) auto
    qed
  qed
qed

text \<open>
  C18. While the circuit is open a batch touches neither Postgres nor Redis and acknowledges nothing.
  It asks whether it is active and reads the clock twice, pauses the partition, waits for the time
  until the circuit closes, in slices of two seconds (the last one shorter) with a heart beat after
  each, and resumes the partition. A heart beat that fails ends the wait, and the batch fails exactly
  then; the partition is resumed also in this case.
\<close>

theorem process_batch_open_circuit:
  assumes "ans_active env (calls s)"
    and t0: "t0 = ans_now env (calls s @ [IsActive True])"
    and t1: "t1 = ans_now env (calls s @ [IsActive True, Now t0])"
    and "fst (cb_is_open t0 (breaker s))"
  shows "\<exists>t. calls (snd (process_batch cfg ps env b ms s)) =
      calls s @ [IsActive True, Now t0, Now t1, Pause] @ t @ [Resume]
    \<and> waits (cb_time_until_close t1 (breaker s)) t
    \<and> (isl (fst (process_batch cfg ps env b ms s)) \<longleftrightarrow> (\<exists>e. KeepAlive (Inl e) \<in> set t))
    \<and> circuit_open (health (snd (process_batch cfg ps env b ms s)))
    \<and> breaker (snd (process_batch cfg ps env b ms s)) = breaker s"
proof -
  let ?w = "cb_time_until_close t1 (breaker s)"
  let ?s1 = "s\<lparr>collected := None, health := (health s)\<lparr>circuit_open := True\<rparr>,
    calls := calls s @ [IsActive True, Now t0, Now t1, Pause]\<rparr>"
  have unchanged: "snd (cb_is_open t0 (breaker s)) = breaker s"
    using assms(4) by (auto simp: cb_is_open_def split: if_splits)
  have run: "process_batch cfg ps env b ms s = (case wait_with_heartbeats env ?w ?s1 of (r, s') \<Rightarrow>
      (r, s'\<lparr>calls := calls s' @ [Resume]\<rparr>))"
    using assms unchanged
    by (auto simp: process_batch_unfold batch_lifecycle_gate_def is_active_def ask_def now_def
        pause_partition_when_circuit_open_def breaker_is_open_def breaker_time_until_close_def
        on_health_def log_call_def eff_finally_def eff_defs split: prod.split sum.split)
  have "0 \<le> ?w" by (simp add: cb_time_until_close_def)
  from wait_with_heartbeats_waits [OF this, of env ?s1] obtain t where
    "calls (snd (wait_with_heartbeats env ?w ?s1)) = calls ?s1 @ t" "waits ?w t"
    "isl (fst (wait_with_heartbeats env ?w ?s1)) \<longleftrightarrow> (\<exists>e. KeepAlive (Inl e) \<in> set t)"
    "health (snd (wait_with_heartbeats env ?w ?s1)) = health ?s1"
    "breaker (snd (wait_with_heartbeats env ?w ?s1)) = breaker ?s1" by blast
  then show ?thesis unfolding run
    by (intro exI [of _ t]) (auto split: prod.split)
qed

subsection \<open>The outcome for the breaker and the health\<close>

definition keeps_breaker :: "('m, 'a) peff \<Rightarrow> bool" where
  "keeps_breaker m \<longleftrightarrow> (\<forall>s. breaker (snd (m s)) = breaker s)"

named_theorems keeps_intro \<open>operations that leave the breaker alone\<close>

lemma keeps_basic [keeps_intro]:
  "keeps_breaker (eff_ret a)" "keeps_breaker (eff_throw e)" "keeps_breaker (ask f mk)" "keeps_breaker (on_health h)"
  by (simp_all add: keeps_breaker_def eff_ret_def eff_throw_def ask_def on_health_def eff_upd_def)

lemma keeps_breaker_bind [keeps_intro]: "keeps_breaker m \<Longrightarrow> (\<And>a. keeps_breaker (k a)) \<Longrightarrow> keeps_breaker (eff_bind m k)"
  unfolding keeps_breaker_def eff_bind_def by (auto split: prod.split sum.split) (metis snd_conv)+

lemma keeps_breaker_catch [keeps_intro]: "keeps_breaker m \<Longrightarrow> (\<And>e. keeps_breaker (h e)) \<Longrightarrow> keeps_breaker (eff_catch m h)"
  unfolding keeps_breaker_def eff_catch_def by (auto split: prod.split sum.split) (metis snd_conv)+

lemma keeps_attempt [keeps_intro]: "keeps_breaker (attempt f mk)"
  unfolding attempt_def by (intro keeps_intro) (auto intro: keeps_intro split: sum.split)

lemma keeps_breaker_now [keeps_intro]: "keeps_breaker (now env)"
  unfolding now_def by (intro keeps_intro)

lemma keeps_persist_groups [keeps_intro]: "keeps_breaker (persist_groups env gs r)"
  by (induction gs arbitrary: r) (auto intro!: keeps_intro)

lemma keeps_persist_and_mark_seen: "keeps_breaker (persist_and_mark_seen cfg env evs)"
  unfolding persist_and_mark_seen_def persist_batch_def mark_seen_or_fail_def mark_events_seen_def
    now_seconds_def Let_def
  by (intro keeps_intro conjI impI | simp only: if_split)+

lemma mark_seen_or_fail_healthy:
  "mark_seen_or_fail cfg env evs s = (Inr u, s') \<Longrightarrow> redis_healthy (health s')"
  by (auto simp: mark_seen_or_fail_def eff_defs on_health_def split: prod.splits sum.splits)

lemma persist_and_mark_seen_healthy:
  "persist_and_mark_seen cfg env evs s = (Inr u, s') \<Longrightarrow> redis_healthy (health s')"
  by (auto simp: persist_and_mark_seen_def eff_bind_def dest: mark_seen_or_fail_healthy
      split: prod.splits sum.splits)

definition cb_closed :: "circuit_breaker \<Rightarrow> bool" where
  "cb_closed cb \<longleftrightarrow> consecutive_failures cb = 0 \<and> open_until cb = 0 \<and> \<not> half_open cb"

lemma cb_closed_success [simp]: "cb_closed (cb_record_success cb)"
  by (simp add: cb_closed_def cb_record_success_def)

lemma cb_closed_is_open: "cb_closed cb \<Longrightarrow> 0 \<le> t \<Longrightarrow> cb_is_open t cb = (False, cb)"
  by (simp add: cb_closed_def cb_is_open_def)

text \<open>
  What the breaker makes of the outcome of a batch. After a batch of events that was stored, and also
  after one that failed as a failure of Redis, the circuit is closed with no failures counted, and the
  health tells which of the two services failed; after any other error the breaker has recorded one
  failure, Postgres is reported as unhealthy, and the error is thrown on.
\<close>

theorem persist_outcome_for_breaker:
  assumes "evs \<noteq> []" and "\<forall>h. 0 \<le> ans_now env h"
    and "persist_events_with_circuit_handling cfg env evs s = (r, s')"
  shows "case r of
      Inr _ \<Rightarrow> postgres_healthy (health s') \<and> redis_healthy (health s') \<and> \<not> circuit_open (health s') \<and> cb_closed (breaker s')
    | Inl (RedisWriteFailure _) \<Rightarrow> postgres_healthy (health s') \<and> \<not> redis_healthy (health s') \<and>
        \<not> circuit_open (health s') \<and> cb_closed (breaker s')
    | Inl _ \<Rightarrow> \<not> postgres_healthy (health s') \<and>
        (\<exists>t t'. (circuit_open (health s'), breaker s') = cb_is_open t'
          (snd (cb_record_failure (circuit_failure_threshold cfg) (circuit_open_ms cfg) t (breaker s))))"
proof -
  obtain x s1 where p: "persist_and_mark_seen cfg env evs s = (x, s1)" by fastforce
  have b: "breaker s1 = breaker s"
    using keeps_persist_and_mark_seen [of cfg env evs] p unfolding keeps_breaker_def by (metis snd_conv)
  show ?thesis
  proof (cases x)
    case (Inr u)
    have r: "redis_healthy (health s1)" using persist_and_mark_seen_healthy p Inr by blast
    show ?thesis using assms p Inr r
      by (auto simp: persist_events_with_circuit_handling_def persist_collected_def eff_defs now_def ask_def
          on_health_def breaker_record_success_def breaker_is_open_def cb_closed_is_open)
  next
    case (Inl e)
    show ?thesis
    proof (cases "\<exists>y. e = RedisWriteFailure y")
      case True
      then have "is_redis_write_failure e" by auto
      then show ?thesis using assms p Inl True
        by (auto simp: persist_events_with_circuit_handling_def persist_collected_def handle_persist_error_def
            eff_defs now_def ask_def on_health_def breaker_record_success_def breaker_is_open_def cb_closed_is_open)
    next
      case False
      let ?t = "ans_now env (calls s1)"
      have nr: "\<not> is_redis_write_failure e" using False by (cases e) auto
      have "r = Inl e \<and> \<not> postgres_healthy (health s') \<and> (circuit_open (health s'), breaker s') =
        cb_is_open (ans_now env (calls s1 @ [Now ?t]))
          (snd (cb_record_failure (circuit_failure_threshold cfg) (circuit_open_ms cfg) ?t (breaker s)))"
        using assms p Inl b nr
        by (auto simp: persist_events_with_circuit_handling_def persist_collected_def handle_persist_error_def
            eff_defs now_def ask_def on_health_def breaker_record_failure_def breaker_is_open_def increment_error_def
            upd_metrics_def Let_def)
      then show ?thesis using False by (cases e) auto
    qed
  qed
qed

subsection \<open>Samples\<close>

definition sample_env :: "(string + nat) \<Rightarrow> unit persister_env" where
  "sample_env answer = \<lparr>ans_active = (\<lambda>h. True), ans_now = (\<lambda>h. 1000), ans_keep_alive = (\<lambda>h. Inr ()),
     ans_commit = (\<lambda>h. Inr ()), ans_create_many = (\<lambda>h es. answer), ans_mark_seen = (\<lambda>h ks. Inr ()),
     ans_upsert_lag = (\<lambda>h u. Inr ())\<rparr>"

definition sample_config :: persister_config where
  "sample_config = \<lparr>seen_ttl_seconds = 60, consumer_lag_update_interval_ms = 5000,
     kafka_consumer_group = ''persister'', circuit_failure_threshold = 3, circuit_open_ms = 10000\<rparr>"

definition sample_state :: "circuit_breaker \<Rightarrow> unit persister" where
  "sample_state cb = \<lparr>health = create_health_context 0, breaker = cb, lag_write_timestamps = [],
     collected = None, calls = []\<rparr>"

definition sample_parsers :: "unit parsers" where
  "sample_parsers = \<lparr>date_value = parse_int10, json_meta = (\<lambda>_. None)\<rparr>"

definition sample_batch :: batch where
  "sample_batch = \<lparr>batch_topic = ''raw'', batch_partition = 0, high_watermark = ''9''\<rparr>"

definition sample_parsed :: "unit parsed_raw_event" where
  "sample_parsed = \<lparr>event_id = ''e1'', event_source = Canonical News, fetched_at = 7, published_at = None,
     event_url = None, title = None, event_text = ''text'', author_id = None, author_handle = None,
     author_display_name = None, engagement_score = None, engagement_comments = None, engagement_likes = None,
     engagement_shares = None, lang = None, tags = [], extracted_hashtags = [], extracted_urls = [],
     source_meta = None\<rparr>"

lemma process_batch_open_circuit_witness:
  "\<exists>t. calls (snd (process_batch sample_config sample_parsers (sample_env (Inr 1)) sample_batch []
      (sample_state \<lparr>consecutive_failures = 0, open_until = 6000, half_open = False\<rparr>))) =
    [IsActive True, Now 1000, Now 1000, Pause] @ t @ [Resume] \<and> waits 5000 t \<and> t \<noteq> []"
proof -
  let ?s = "sample_state \<lparr>consecutive_failures = 0, open_until = 6000, half_open = False\<rparr>"
  have now: "ans_now (sample_env (Inr 1)) h = 1000" "ans_active (sample_env (Inr 1)) h" for h
    by (simp_all add: sample_env_def)
  have "fst (cb_is_open 1000 (breaker ?s))" "cb_time_until_close 1000 (breaker ?s) = 5000"
    by (simp_all add: sample_state_def cb_is_open_def cb_time_until_close_def)
  from process_batch_open_circuit [OF now(2) now(1) [symmetric] now(1) [symmetric] this(1),
      of sample_config sample_parsers sample_batch "[]"] this(2)
  show ?thesis by (auto simp: sample_state_def)
qed

lemma persist_outcome_for_breaker_witness:
  "\<not> postgres_healthy (health (snd (persist_events_with_circuit_handling sample_config (sample_env (Inl ''down''))
      [sample_parsed] (sample_state new_circuit_breaker))))"
proof -
  let ?run = "persist_events_with_circuit_handling sample_config (sample_env (Inl ''down'')) [sample_parsed]
    (sample_state new_circuit_breaker)"
  have "(case fst ?run of Inl (External x) \<Rightarrow> True | _ \<Rightarrow> False)" by code_simp
  then obtain x s' where run: "?run = (Inl (External x), s')"
    by (cases ?run) (auto split: sum.splits persister_error.splits)
  have "\<forall>h. 0 \<le> ans_now (sample_env (Inl ''down'')) h" by (simp add: sample_env_def)
  from persist_outcome_for_breaker [OF _ this run] run show ?thesis by simp
qed

end
