(* ===== verification/Backoff.thy ===== *)
theory Backoff
  imports JsBase
begin

section \<open>Exponential backoff and error classification (packages/shared/src/runtime/backoff.ts)\<close>

text \<open>
  \<open>BackoffManager\<close> keeps the number of attempts; a wait computes a capped exponential delay with
  jitter (the random number in \<open>[0, 1)\<close> is an argument) and counts the attempt. The classification
  of an unknown error walks its chain of causes: error values live in a store of objects, since a
  chain may be cyclic.
\<close>

subsection \<open>The delay\<close>

record backoff_config =
  base_delay_ms :: rat
  max_delay_ms :: rat
  jitter_factor :: rat

record backoff_overrides =
  o_base_delay_ms :: "rat option"
  o_max_delay_ms :: "rat option"
  o_jitter_factor :: "rat option"

definition default_rate_limit_config :: backoff_config where
  "default_rate_limit_config =
     \<lparr>base_delay_ms = 30000, max_delay_ms = 15 * 60 * 1000, jitter_factor = 2 / 10\<rparr>"

definition default_transient_config :: backoff_config where
  "default_transient_config =
     \<lparr>base_delay_ms = 5000, max_delay_ms = 5 * 60 * 1000, jitter_factor = 2 / 10\<rparr>"

record backoff_manager =
  attempts :: nat
  rate_limit_config :: backoff_config
  transient_config :: backoff_config

definition merge_config :: "backoff_config \<Rightarrow> backoff_overrides \<Rightarrow> backoff_config" where
  "merge_config d o' =
     \<lparr>base_delay_ms = (case o_base_delay_ms o' of Some v \<Rightarrow> v | None \<Rightarrow> base_delay_ms d),
      max_delay_ms = (case o_max_delay_ms o' of Some v \<Rightarrow> v | None \<Rightarrow> max_delay_ms d),
      jitter_factor = (case o_jitter_factor o' of Some v \<Rightarrow> v | None \<Rightarrow> jitter_factor d)\<rparr>"

definition new_backoff_manager :: "backoff_overrides \<Rightarrow> backoff_overrides \<Rightarrow> backoff_manager" where
  "new_backoff_manager r t =
     \<lparr>attempts = 0, rate_limit_config = merge_config default_rate_limit_config r,
      transient_config = merge_config default_transient_config t\<rparr>"

definition backoff_reset :: "backoff_manager \<Rightarrow> backoff_manager" where
  "backoff_reset b = b\<lparr>attempts := 0\<rparr>"

definition wait_delay :: "backoff_config \<Rightarrow> nat \<Rightarrow> rat \<Rightarrow> int" where
  "wait_delay cfg n random =
     (let exponential_delay = base_delay_ms cfg * 2 ^ n;
          capped_delay = min exponential_delay (max_delay_ms cfg);
          jitter = capped_delay * jitter_factor cfg * random
      in \<lfloor>capped_delay + jitter\<rfloor>)"

definition backoff_wait :: "backoff_config \<Rightarrow> rat \<Rightarrow> backoff_manager \<Rightarrow> int \<times> backoff_manager" where
  "backoff_wait cfg random b = (wait_delay cfg (attempts b) random, b\<lparr>attempts := attempts b + 1\<rparr>)"

definition wait_rate_limit :: "rat \<Rightarrow> backoff_manager \<Rightarrow> int \<times> backoff_manager" where
  "wait_rate_limit random b = backoff_wait (rate_limit_config b) random b"

definition wait_transient :: "rat \<Rightarrow> backoff_manager \<Rightarrow> int \<times> backoff_manager" where
  "wait_transient random b = backoff_wait (transient_config b) random b"

definition config_ok :: "backoff_config \<Rightarrow> bool" where
  "config_ok cfg \<longleftrightarrow> 0 \<le> base_delay_ms cfg \<and> 0 \<le> max_delay_ms cfg \<and> 0 \<le> jitter_factor cfg"

lemma wait_delay_bounds:
  assumes "config_ok cfg" and "0 \<le> r" and "r \<le> 1"
  shows "\<lfloor>min (base_delay_ms cfg * 2 ^ n) (max_delay_ms cfg)\<rfloor> \<le> wait_delay cfg n r"
    and "wait_delay cfg n r \<le> \<lfloor>max_delay_ms cfg * (1 + jitter_factor cfg)\<rfloor>"
proof -
  let ?c = "min (base_delay_ms cfg * 2 ^ n) (max_delay_ms cfg)"
  have c: "0 \<le> ?c" "?c \<le> max_delay_ms cfg" using assms by (auto simp: config_ok_def)
  have j: "0 \<le> jitter_factor cfg" using assms by (simp add: config_ok_def)
  have "0 \<le> ?c * jitter_factor cfg * r" using c(1) j assms(2) by (intro mult_nonneg_nonneg)
  then show "\<lfloor>?c\<rfloor> \<le> wait_delay cfg n r"
    unfolding wait_delay_def Let_def by (intro floor_mono) linarith
  have "?c * (jitter_factor cfg * r) \<le> ?c * jitter_factor cfg"
    using c(1) j assms(3) by (intro mult_left_mono) (auto intro: mult_left_le)
  also have "\<dots> \<le> max_delay_ms cfg * jitter_factor cfg" using c j by (intro mult_right_mono)
  finally show "wait_delay cfg n r \<le> \<lfloor>max_delay_ms cfg * (1 + jitter_factor cfg)\<rfloor>"
    unfolding wait_delay_def Let_def using c(2)
    by (intro floor_mono) (simp add: algebra_simps)
qed

lemma wait_delay_mono:
  assumes "config_ok cfg" and "0 \<le> r" and "m \<le> n"
  shows "wait_delay cfg m r \<le> wait_delay cfg n r"
proof -
  let ?c = "\<lambda>n. min (base_delay_ms cfg * 2 ^ n) (max_delay_ms cfg)"
  have "base_delay_ms cfg * 2 ^ m \<le> base_delay_ms cfg * 2 ^ n"
    using assms by (intro mult_left_mono) (auto simp: config_ok_def)
  then have c: "?c m \<le> ?c n" by (rule min.mono) simp
  have k: "0 \<le> jitter_factor cfg * r" using assms by (simp add: config_ok_def)
  have "?c m + ?c m * jitter_factor cfg * r \<le> ?c n + ?c n * jitter_factor cfg * r"
    using c mult_right_mono [OF c k] by (simp add: mult.assoc)
  then show ?thesis unfolding wait_delay_def Let_def by (rule floor_mono)
qed

text \<open>A sequence of waits, each with its own random number.\<close>

fun wait_many :: "backoff_config \<Rightarrow> rat list \<Rightarrow> backoff_manager \<Rightarrow> int list \<times> backoff_manager" where
  "wait_many cfg [] b = ([], b)"
| "wait_many cfg (r # rs) b =
     (let (d, b') = backoff_wait cfg r b; (ds, b'') = wait_many cfg rs b' in (d # ds, b''))"

lemma wait_many_attempts: "attempts (snd (wait_many cfg rs b)) = attempts b + length rs"
  by (induction rs arbitrary: b) (auto simp: backoff_wait_def case_prod_beta Let_def)

lemma wait_many_delays:
  "fst (wait_many cfg rs b) = map2 (wait_delay cfg) [attempts b..<attempts b + length rs] rs"
proof (induction rs arbitrary: b)
  case (Cons r rs)
  have "[attempts b..<attempts b + length (r # rs)] =
      attempts b # [attempts b + 1..<attempts b + 1 + length rs]"
    using upt_conv_Cons [of "attempts b" "attempts b + length (r # rs)"] by simp
  then show ?case
    using Cons.IH [of "b\<lparr>attempts := attempts b + 1\<rparr>"]
    by (simp add: backoff_wait_def case_prod_beta Let_def)
qed simp

text \<open>
  C34. However many waits follow each other, the manager counts each of them, and the delays stay
  between zero and the maximal delay enlarged by the full jitter; with a constant random number they
  never decrease.
\<close>

theorem wait_many_bounds:
  assumes "config_ok cfg" and "\<forall>r \<in> set rs. 0 \<le> r \<and> r < 1"
  shows "attempts (snd (wait_many cfg rs b)) = attempts b + length rs
    \<and> (\<forall>d \<in> set (fst (wait_many cfg rs b)). 0 \<le> d \<and> d \<le> \<lfloor>max_delay_ms cfg * (1 + jitter_factor cfg)\<rfloor>)
    \<and> (\<forall>r. rs = replicate (length rs) r \<longrightarrow> sorted (fst (wait_many cfg rs b)))"
proof (intro conjI)
  show "attempts (snd (wait_many cfg rs b)) = attempts b + length rs" by (rule wait_many_attempts)
  have nonneg: "0 \<le> wait_delay cfg n r" if "0 \<le> r" "r < 1" for n r
  proof -
    have "0 \<le> min (base_delay_ms cfg * 2 ^ n) (max_delay_ms cfg)" using assms(1) by (simp add: config_ok_def)
    then have "0 \<le> \<lfloor>min (base_delay_ms cfg * 2 ^ n) (max_delay_ms cfg)\<rfloor>" by (simp only: zero_le_floor)
    with wait_delay_bounds(1) [OF assms(1), of r n] that show ?thesis by linarith
  qed
  have mem: "\<exists>n. \<exists>r \<in> set rs. d = wait_delay cfg n r" if "d \<in> set (map2 (wait_delay cfg) ns rs)" for d ns
    using that by (auto dest: set_zip_rightD)
  show "\<forall>d \<in> set (fst (wait_many cfg rs b)). 0 \<le> d \<and> d \<le> \<lfloor>max_delay_ms cfg * (1 + jitter_factor cfg)\<rfloor>"
  proof
    fix d assume "d \<in> set (fst (wait_many cfg rs b))"
    then obtain n r where "r \<in> set rs" "d = wait_delay cfg n r" unfolding wait_many_delays using mem by blast
    with assms(2) show "0 \<le> d \<and> d \<le> \<lfloor>max_delay_ms cfg * (1 + jitter_factor cfg)\<rfloor>"
      using nonneg wait_delay_bounds(2) [OF assms(1), of r n] by force
  qed
  show "\<forall>r. rs = replicate (length rs) r \<longrightarrow> sorted (fst (wait_many cfg rs b))"
  proof (intro allI impI)
    fix r assume r: "rs = replicate (length rs) r"
    show "sorted (fst (wait_many cfg rs b))"
    proof (cases "rs = []")
      case False
      then have "r \<in> set rs" using r by (metis in_set_replicate length_0_conv)
      then have "0 \<le> r" using assms(2) by auto
      moreover have "fst (wait_many cfg rs b) = map (\<lambda>n. wait_delay cfg n r) [attempts b..<attempts b + length rs]"
        unfolding wait_many_delays by (subst r) (simp add: zip_replicate2 o_def)
      ultimately show ?thesis
        using wait_delay_mono [OF assms(1)] by (auto simp: sorted_iff_nth_mono)
    qed simp
  qed
qed

lemma wait_many_bounds_witness:
  "fst (wait_many default_transient_config [0, 1 / 2, 9 / 10] (new_backoff_manager
     \<lparr>o_base_delay_ms = None, o_max_delay_ms = None, o_jitter_factor = None\<rparr>
     \<lparr>o_base_delay_ms = None, o_max_delay_ms = None, o_jitter_factor = None\<rparr>)) = [5000, 11000, 23600]
   \<and> 23600 \<le> \<lfloor>max_delay_ms default_transient_config * (1 + jitter_factor default_transient_config)\<rfloor>"
proof -
  let ?o = "\<lparr>o_base_delay_ms = None, o_max_delay_ms = None, o_jitter_factor = None\<rparr>"
  have "config_ok default_transient_config" by (simp add: config_ok_def default_transient_config_def)
  note b = wait_many_bounds [OF this, of "[0, 1 / 2, 9 / 10]" "new_backoff_manager ?o ?o"]
  have d: "fst (wait_many default_transient_config [0, 1 / 2, 9 / 10] (new_backoff_manager ?o ?o)) = [5000, 11000, 23600]"
    by (simp add: backoff_wait_def new_backoff_manager_def wait_delay_def default_transient_config_def)
  from b d show ?thesis by simp
qed

subsection \<open>Classifying errors\<close>

text \<open>
  A value of type \<open>unknown\<close>: \<open>undefined\<close>, another value that is no object (among them \<open>null\<close>), or
  a reference. An object has a \<open>status\<close> or \<open>cause\<close> property or not; only instances of \<open>Error\<close> have
  their \<open>message\<close> read. A status that is no finite number is \<open>NotFinite\<close>.
\<close>

datatype jval = JUndef | JPrim | JRef nat

datatype status_value = Finite rat | NotFinite

record err_obj =
  is_error :: bool
  message :: string
  status :: "status_value option"
  cause :: "jval option"

type_synonym err_heap = "(nat \<times> err_obj) list"

fun get_status_code :: "err_heap \<Rightarrow> jval \<Rightarrow> rat option" where
  "get_status_code h (JRef a) =
     (case map_of h a of
        Some ob \<Rightarrow> (case status ob of Some (Finite n) \<Rightarrow> Some n | _ \<Rightarrow> None)
      | None \<Rightarrow> None)"
| "get_status_code h _ = None"

fun get_error_message :: "err_heap \<Rightarrow> jval \<Rightarrow> string option" where
  "get_error_message h (JRef a) =
     (case map_of h a of
        Some ob \<Rightarrow> if is_error ob then Some (to_lower (message ob)) else None
      | None \<Rightarrow> None)"
| "get_error_message h _ = None"

definition includes_any_term :: "string option \<Rightarrow> string list \<Rightarrow> bool" where
  "includes_any_term v terms =
     (case v of None \<Rightarrow> False | Some s \<Rightarrow> s \<noteq> [] \<and> (\<exists>t \<in> set terms. str_includes s t))"

definition get_cause :: "err_obj \<Rightarrow> jval" where
  "get_cause ob = (case cause ob of None \<Rightarrow> JUndef | Some v \<Rightarrow> v)"

function iterate_candidates :: "err_heap \<Rightarrow> nat list \<Rightarrow> jval \<Rightarrow> jval list" where
  "iterate_candidates h visited JUndef = []"
| "iterate_candidates h visited JPrim = [JPrim]"
| "iterate_candidates h visited (JRef a) = JRef a #
     (if a \<in> set visited then []
      else case map_of h a of
          None \<Rightarrow> []
        | Some ob \<Rightarrow> iterate_candidates h (a # visited) (get_cause ob))"
  by pat_completeness auto
termination
proof (relation "measure (\<lambda>(h, visited, v). card (fst ` set h - set visited))", goal_cases)
  case (2 h visited a ob)
  then have "a \<in> fst ` set h - set visited" by (auto dest: map_of_SomeD intro: rev_image_eqI)
  then have "card (fst ` set h - set (a # visited)) < card (fst ` set h - set visited)"
    by (intro psubset_card_mono) auto
  then show ?case by simp
qed simp

definition rate_limit_handlers :: "(err_heap \<Rightarrow> jval \<Rightarrow> bool) list" where
  "rate_limit_handlers =
     [\<lambda>h c. get_status_code h c = Some 429,
      \<lambda>h c. includes_any_term (get_error_message h c) [''429'', ''rate limit'']]"

definition transient_handlers :: "(err_heap \<Rightarrow> jval \<Rightarrow> bool) list" where
  "transient_handlers =
     [\<lambda>h c. (case get_status_code h c of None \<Rightarrow> False | Some s \<Rightarrow> s \<ge> 500 \<and> s < 600),
      \<lambda>h c. includes_any_term (get_error_message h c)
        [''econnrefused'', ''enotfound'', ''etimedout'', ''econnreset'', ''socket hang up'', ''network'']]"

definition classify_error :: "err_heap \<Rightarrow> jval \<Rightarrow> (err_heap \<Rightarrow> jval \<Rightarrow> bool) list \<Rightarrow> bool" where
  "classify_error h e handlers =
     list_ex (\<lambda>c. list_ex (\<lambda>m. m h c) handlers) (iterate_candidates h [] e)"

definition is_rate_limit_error :: "err_heap \<Rightarrow> jval \<Rightarrow> bool" where
  "is_rate_limit_error h e = classify_error h e rate_limit_handlers"

definition is_transient_error :: "err_heap \<Rightarrow> jval \<Rightarrow> bool" where
  "is_transient_error h e = classify_error h e transient_handlers"

text \<open>The specification: some value on the chain of causes satisfies a handler.\<close>

inductive cause_chain :: "err_heap \<Rightarrow> jval \<Rightarrow> jval \<Rightarrow> bool" for h where
  here: "v \<noteq> JUndef \<Longrightarrow> cause_chain h v v"
| next': "cause_chain h v (JRef a) \<Longrightarrow> map_of h a = Some ob \<Longrightarrow> get_cause ob \<noteq> JUndef \<Longrightarrow>
     cause_chain h v (get_cause ob)"

lemma hd_iterate_candidates: "v \<noteq> JUndef \<Longrightarrow> v \<in> set (iterate_candidates h visited v)"
  by (cases v) auto

lemma iterate_candidates_closed:
  "JRef a \<in> set (iterate_candidates h visited v) \<Longrightarrow> map_of h a = Some ob \<Longrightarrow> get_cause ob \<noteq> JUndef \<Longrightarrow>
   get_cause ob \<in> set (iterate_candidates h visited v) \<or> a \<in> set visited"
proof (induction h visited v rule: iterate_candidates.induct)
  case (3 h visited b)
  show ?case
  proof (cases "a = b")
    case True
    then show ?thesis using "3.prems" hd_iterate_candidates [of "get_cause ob" h "b # visited"] by auto
  next
    case False
    then obtain ob' where b: "b \<notin> set visited" "map_of h b = Some ob'"
      and a: "JRef a \<in> set (iterate_candidates h (b # visited) (get_cause ob'))"
      using "3.prems"(1) by (cases "map_of h b") (auto split: if_splits)
    from "3.IH" [OF b a "3.prems"(2,3)] False b show ?thesis by auto
  qed
qed auto

lemma iterate_candidates_sound:
  "w \<in> set (iterate_candidates h visited v) \<Longrightarrow> cause_chain h u v \<or> v = JUndef \<Longrightarrow> cause_chain h u w"
proof (induction h visited v rule: iterate_candidates.induct)
  case (3 h visited b)
  show ?case
  proof (cases "w = JRef b")
    case False
    then obtain ob where b: "b \<notin> set visited" "map_of h b = Some ob"
      and w: "w \<in> set (iterate_candidates h (b # visited) (get_cause ob))"
      using "3.prems"(1) by (cases "map_of h b") (auto split: if_splits)
    have "cause_chain h u (get_cause ob) \<or> get_cause ob = JUndef"
      using "3.prems"(2) b(2) next' by auto
    from "3.IH" [OF b w this] show ?thesis .
  qed (use 3 in auto)
qed auto

lemma set_iterate_candidates: "w \<in> set (iterate_candidates h [] v) \<longleftrightarrow> cause_chain h v w"
proof
  assume w: "w \<in> set (iterate_candidates h [] v)"
  then have "cause_chain h v v \<or> v = JUndef" using here by blast
  with w show "cause_chain h v w" by (rule iterate_candidates_sound)
next
  assume "cause_chain h v w"
  then show "w \<in> set (iterate_candidates h [] v)"
  proof induction
    case (next' v a ob)
    then show ?case using iterate_candidates_closed [of a h "[]"] by simp
  qed (rule hd_iterate_candidates)
qed

lemma classify_error_iff:
  "classify_error h e handlers \<longleftrightarrow> (\<exists>c. cause_chain h e c \<and> (\<exists>m \<in> set handlers. m h c))"
  by (auto simp: classify_error_def list_ex_iff set_iterate_candidates)

lemma includes_any_term_Some:
  "[] \<notin> set ts \<Longrightarrow> includes_any_term v ts \<longleftrightarrow> (\<exists>m t. v = Some m \<and> t \<in> set ts \<and> str_includes m t)"
  by (cases v) (auto simp: includes_any_term_def list_ex_iff)

text \<open>
  C35. Classification terminates on every error value, also when its causes form a cycle, and finds
  exactly what its handlers describe: some value on the chain of causes is an object with the status
  429, or in the range of server errors, or an \<open>Error\<close> whose message, in lower case, contains one of
  the terms.
\<close>

theorem error_classification:
  "(is_rate_limit_error h e \<longleftrightarrow>
      (\<exists>c. cause_chain h e c \<and> (get_status_code h c = Some 429 \<or>
        (\<exists>m t. get_error_message h c = Some m \<and> t \<in> {''429'', ''rate limit''} \<and> str_includes m t))))
   \<and> (is_transient_error h e \<longleftrightarrow>
      (\<exists>c. cause_chain h e c \<and> ((\<exists>s. get_status_code h c = Some s \<and> 500 \<le> s \<and> s < 600) \<or>
        (\<exists>m t. get_error_message h c = Some m \<and>
          t \<in> {''econnrefused'', ''enotfound'', ''etimedout'', ''econnreset'', ''socket hang up'', ''network''} \<and>
          str_includes m t))))"
  unfolding is_rate_limit_error_def is_transient_error_def classify_error_iff
    rate_limit_handlers_def transient_handlers_def
  by (simp add: includes_any_term_Some case_option_False_iff)

end
