(* ===== verification/TopicGlob.thy ===== *)
theory TopicGlob
  imports JsRegex
begin

section \<open>Topic globs (apps/brief/src/topic-glob.ts)\<close>

text \<open>
  Validation, normalisation and compilation of the topic globs of a request, and what a compiled glob
  accepts.
\<close>

subsection \<open>Definitions\<close>

datatype glob_error = GlobEmpty | GlobTooLong | GlobUnsupported string

definition max_glob_length :: nat where
  "max_glob_length = 128"

definition topic_glob_char :: "char \<Rightarrow> bool" where
  "topic_glob_char c \<longleftrightarrow> (let n = (of_char c :: nat) in
     65 \<le> n \<and> n \<le> 90 \<or> 97 \<le> n \<and> n \<le> 122 \<or> 48 \<le> n \<and> n \<le> 57 \<or>
     c \<in> {CHR ''.'', CHR ''*'', CHR ''?'', CHR ''_'', CHR ''-''})"

definition validate_topic_glob :: "string \<Rightarrow> glob_error + string" where
  "validate_topic_glob glob =
     (let normalized = trim glob in
      if length normalized = 0 then Inl GlobEmpty
      else if length normalized > max_glob_length then Inl GlobTooLong
      else if \<not> list_all topic_glob_char normalized then Inl (GlobUnsupported glob)
      else Inr normalized)"

fun validate_all :: "string set \<Rightarrow> string list \<Rightarrow> glob_error + string list" where
  "validate_all seen [] = Inr []"
| "validate_all seen (g # gs) =
     (case validate_topic_glob g of
        Inl e \<Rightarrow> Inl e
      | Inr n \<Rightarrow>
          if n \<in> seen then validate_all seen gs
          else map_sum id ((#) n) (validate_all (insert n seen) gs))"

definition normalize_topic_globs :: "string list option \<Rightarrow> glob_error + string list option" where
  "normalize_topic_globs globs =
     (case globs of
        None \<Rightarrow> Inr None
      | Some gs \<Rightarrow> if length gs = 0 then Inr None else map_sum id Some (validate_all {} gs))"

text \<open>The expression of a glob, with the flag \<open>i\<close>.\<close>

definition glob_char_re :: "char \<Rightarrow> re" where
  "glob_char_re c =
     (if c = CHR ''*'' then Star any_char
      else if c = CHR ''?'' then any_char
      else Cls (\<lambda>d. d = lower_char c))"

definition glob_re :: "string \<Rightarrow> re" where
  "glob_re glob = ci (Cat Bol (foldr (\<lambda>c r. Cat (glob_char_re c) r) glob Eol))"

definition compile_topic_glob :: "string \<Rightarrow> glob_error + re" where
  "compile_topic_glob glob = map_sum id glob_re (validate_topic_glob glob)"

record topic_glob_matcher_set =
  globs :: "string list"
  glob_matchers :: "re list"

definition create_topic_glob_matcher_set :: "string list option \<Rightarrow> glob_error + topic_glob_matcher_set" where
  "create_topic_glob_matcher_set gs =
     ebind (normalize_topic_globs gs) (\<lambda>normalized.
       let resolved = (case normalized of Some ns \<Rightarrow> if length ns > 0 then ns else [''*''] | None \<Rightarrow> [''*'']) in
       Inr \<lparr>globs = resolved, glob_matchers = map glob_re resolved\<rparr>)"

definition matches_any_topic_glob :: "string \<Rightarrow> re list \<Rightarrow> bool" where
  "matches_any_topic_glob topic ms \<longleftrightarrow> list_ex (\<lambda>m. re_test m topic) ms"

definition glob_set_matches :: "topic_glob_matcher_set \<Rightarrow> string \<Rightarrow> bool" where
  "glob_set_matches s topic = matches_any_topic_glob topic (glob_matchers s)"

subsection \<open>What a glob matches\<close>

text \<open>
  A star stands for any run of characters that contains no line break, a question mark for one
  character that is no line break, every other character for itself in either case.
\<close>

fun glob_spec :: "string \<Rightarrow> string \<Rightarrow> bool" where
  "glob_spec [] t \<longleftrightarrow> t = []"
| "glob_spec (g # gs) t \<longleftrightarrow>
     (if g = CHR ''*'' then \<exists>u v. t = u @ v \<and> CHR 0x0A \<notin> set u \<and> CHR 0x0D \<notin> set u \<and> glob_spec gs v
      else if g = CHR ''?'' then \<exists>d v. t = d # v \<and> d \<noteq> CHR 0x0A \<and> d \<noteq> CHR 0x0D \<and> glob_spec gs v
      else \<exists>d v. t = d # v \<and> lower_char d = lower_char g \<and> glob_spec gs v)"

definition glob_body :: "string \<Rightarrow> re" where
  "glob_body gs = ci (foldr (\<lambda>c r. Cat (glob_char_re c) r) gs Eol)"

lemma glob_body_simps: "glob_body [] = Eol" "glob_body (g # gs) = Cat (ci (glob_char_re g)) (glob_body gs)"
  by (simp_all add: glob_body_def)

lemma lower_char_newline: "lower_char d = CHR 0x0A \<longleftrightarrow> d = CHR 0x0A" "lower_char d = CHR 0x0D \<longleftrightarrow> d = CHR 0x0D"
proof -
  have code: "c = d' \<longleftrightarrow> (of_char c :: nat) = of_char d'" for c d' :: char by simp
  have "(of_char d :: nat) < 256" by simp
  then have "(of_char (lower_char d) :: nat) = (let n = (of_char d :: nat) in
      if 65 \<le> n \<and> n \<le> 90 \<or> 192 \<le> n \<and> n \<le> 222 \<and> n \<noteq> 215 then n + 32
      else if n = 138 \<or> n = 140 \<or> n = 142 then n + 16 else if n = 159 then 255 else n)"
    by (simp add: lower_char_def Let_def of_char_of)
  moreover have "(of_char (CHR 0x0A) :: nat) = 10" "(of_char (CHR 0x0D) :: nat) = 13" by simp_all
  ultimately show "lower_char d = CHR 0x0A \<longleftrightarrow> d = CHR 0x0A" "lower_char d = CHR 0x0D \<longleftrightarrow> d = CHR 0x0D"
    unfolding code by (auto simp: Let_def)
qed

lemma matches_Cls_iff: "matches (Cls f) p q \<longleftrightarrow> (\<exists>c. f c \<and> snd p = c # snd q \<and> fst q = Some c)"
  by (cases p; cases q) (auto intro: matches.intros)

lemma matches_star_cls:
  "matches (Star (Cls f)) p q \<Longrightarrow> \<exists>u. snd p = u @ snd q \<and> list_all f u"
proof (induction "Star (Cls f)" p q rule: matches.induct)
  case (m_star1 p q t)
  then obtain u where "snd q = u @ snd t" "list_all f u" by blast
  with m_star1(1) show ?case by (auto intro: exI [of _ "_ # u"])
qed auto

lemma star_cls_matches: "list_all f u \<Longrightarrow> \<exists>b'. matches (Star (Cls f)) (b, u @ v) (b', v)"
proof (induction u arbitrary: b)
  case (Cons c u)
  then obtain b' where "matches (Star (Cls f)) (Some c, u @ v) (b', v)" by auto
  with Cons.prems show ?case using m_star1 [OF m_cls] by fastforce
qed (auto intro: matches.intros)

lemma glob_body_spec: "(\<exists>q. matches (glob_body gs) (b, t) q) \<longleftrightarrow> glob_spec gs t"
proof (induction gs arbitrary: b t)
  case Nil
  have "(\<exists>q. matches Eol (b, t) q) \<longleftrightarrow> t = []"
    by (metis m_eol matches_eolE snd_conv)
  then show ?case by (simp add: glob_body_simps)
next
  case (Cons g gs)
  let ?any = "\<lambda>c. c \<noteq> CHR 0x0A \<and> c \<noteq> CHR 0x0D"
  have any: "ci any_char = Cls ?any" by (simp add: any_char_def lower_char_newline)
  have step: "(\<exists>q. matches (Cat r (glob_body gs)) (b, t) q) \<longleftrightarrow> (\<exists>p. matches r (b, t) p \<and> glob_spec gs (snd p))" for r
    unfolding matches_cat_iff using Cons.IH by (metis prod.collapse)
  have cls: "(\<exists>p. matches (Cls f) (b, t) p \<and> glob_spec gs (snd p)) \<longleftrightarrow> (\<exists>d v. t = d # v \<and> f d \<and> glob_spec gs v)" for f
    by (auto simp: matches_Cls_iff)
  consider "g = CHR ''*''" | "g = CHR ''?''" | "g \<noteq> CHR ''*''" "g \<noteq> CHR ''?''" by blast
  then show ?case
  proof cases
    case 1
    have "(\<exists>p. matches (Star (Cls ?any)) (b, t) p \<and> glob_spec gs (snd p)) \<longleftrightarrow>
        (\<exists>u v. t = u @ v \<and> CHR 0x0A \<notin> set u \<and> CHR 0x0D \<notin> set u \<and> glob_spec gs v)"
    proof
      assume "\<exists>p. matches (Star (Cls ?any)) (b, t) p \<and> glob_spec gs (snd p)"
      then show "\<exists>u v. t = u @ v \<and> CHR 0x0A \<notin> set u \<and> CHR 0x0D \<notin> set u \<and> glob_spec gs v"
        by (fastforce dest: matches_star_cls simp: list_all_iff)
    next
      assume "\<exists>u v. t = u @ v \<and> CHR 0x0A \<notin> set u \<and> CHR 0x0D \<notin> set u \<and> glob_spec gs v"
      then obtain u v where u: "t = u @ v" "list_all ?any u" "glob_spec gs v" by (auto simp: list_all_iff)
      from star_cls_matches [OF u(2), of b v] u show "\<exists>p. matches (Star (Cls ?any)) (b, t) p \<and> glob_spec gs (snd p)"
        by fastforce
    qed
    then show ?thesis using 1 by (simp add: glob_body_simps glob_char_re_def step any del: split_paired_Ex)
  next
    case 2
    then show ?thesis by (simp add: glob_body_simps glob_char_re_def step any cls conj_assoc del: split_paired_Ex)
  next
    case 3
    then show ?thesis by (simp add: glob_body_simps glob_char_re_def step cls del: split_paired_Ex)
  qed
qed

text \<open>
  C27. A compiled topic glob accepts exactly the topics that its characters describe: star, question
  mark and literal characters, over the whole topic and regardless of case.
\<close>

theorem glob_set_matches_iff:
  assumes "create_topic_glob_matcher_set gs = Inr s"
  shows "glob_set_matches s topic \<longleftrightarrow> (\<exists>g \<in> set (globs s). glob_spec g topic)"
proof -
  have "re_test (glob_re g) topic \<longleftrightarrow> glob_spec g topic" for g
  proof -
    have "re_test (glob_re g) topic \<longleftrightarrow> (\<exists>p q. reach (None, topic) p \<and> matches (Cat Bol (glob_body g)) p q)"
      by (simp add: re_test_reach glob_re_def glob_body_def)
    also have "\<dots> \<longleftrightarrow> (\<exists>q. matches (glob_body g) (None, topic) q)" (is "?l = ?r")
    proof
      assume ?l
      then obtain p q where p: "reach (None, topic) p" "matches (Cat Bol (glob_body g)) p q" by metis
      have m: "fst p = None" "matches (glob_body g) p q" using p(2) by (metis matches_bolE matches_cat_iff)+
      have "p = (None, topic)" using p(1) m(1) by (cases p) (auto simp: reach_def split: if_splits)
      with m show ?r by blast
    next
      assume ?r
      then obtain q where q: "matches (glob_body g) (None, topic) q" by metis
      have "matches Bol (None, topic) (None, topic)" by (rule m_bol) simp
      then have "matches (Cat Bol (glob_body g)) (None, topic) q" using q by (rule m_cat)
      then show ?l using reach_refl by metis
    qed
    finally show ?thesis by (simp add: glob_body_spec del: split_paired_Ex)
  qed
  moreover have "glob_matchers s = map glob_re (globs s)"
    using assms by (auto simp: create_topic_glob_matcher_set_def ebind_def Let_def split: sum.splits)
  ultimately show ?thesis
    by (simp add: glob_set_matches_def matches_any_topic_glob_def list_ex_iff)
qed

theorem glob_set_matches_iff_witness:
  "glob_set_matches \<lparr>globs = [''a*''], glob_matchers = [glob_re ''a*'']\<rparr> ''aB'' \<and>
   \<not> glob_set_matches \<lparr>globs = [''a*''], glob_matchers = [glob_re ''a*'']\<rparr> ''ba''"
proof -
  have *: "create_topic_glob_matcher_set (Some ['' a*'', ''a*'']) = Inr \<lparr>globs = [''a*''], glob_matchers = [glob_re ''a*'']\<rparr>"
    by (simp add: create_topic_glob_matcher_set_def normalize_topic_globs_def validate_topic_glob_def topic_glob_char_def
        trim_def trim_start_def trim_end_def is_ws_def max_glob_length_def ebind_def)
  show ?thesis
    using glob_set_matches_iff [OF *, of "''aB''"] glob_set_matches_iff [OF *, of "''ba''"] by (simp add: lower_char_def)
qed

end
