(* ===== verification/Selection.thy ===== *)
theory Selection
  imports TopicGlob JsSort Events
begin

section \<open>Choosing evidence (apps/brief/src/query-mode-selection.ts)\<close>

text \<open>
  For a request that queries the stored events: ranking topics from trend snapshots, testing whether
  an event is relevant to a topic (through a bounded cache of compiled matchers), matching topic
  globs, and selecting evidence by recency, engagement or diversity of sources.

  Times are milliseconds; scores are exact. Parameters: \<open>localeCompare\<close>, and the schema that
  parses the JSON of a snapshot (its result is \<open>None\<close> when it fails).
\<close>

subsection \<open>Events\<close>

record raw_event_for_selection =
  sel_event_id :: string
  sel_source :: source
  sel_published_at :: "int option"
  sel_fetched_at :: int
  sel_engagement_score :: "rat option"

record query_mode_raw_event = raw_event_for_selection +
  qm_url :: string
  qm_title :: "string option"
  qm_text :: string
  qm_topics :: "string list"

datatype bucket = Curated | Discussion | Other

definition curated_sources :: "source list" where
  "curated_sources = [Rss, News, Github]"

definition discussion_sources :: "source list" where
  "discussion_sources = [Reddit, Hackernews, Bluesky, Mastodon]"

definition diversity_source_bucket_strategies :: "(bucket \<times> (source \<Rightarrow> bool)) list" where
  "diversity_source_bucket_strategies =
     [(Curated, \<lambda>s. s \<in> set curated_sources), (Discussion, \<lambda>s. s \<in> set discussion_sources), (Other, \<lambda>s. True)]"

definition resolve_diversity_source_bucket :: "source \<Rightarrow> bucket" where
  "resolve_diversity_source_bucket s =
     (case find (\<lambda>st. snd st s) diversity_source_bucket_strategies of Some st \<Rightarrow> fst st | None \<Rightarrow> Other)"

subsection \<open>Relevance of an event to a topic\<close>

definition generic_topic_segments :: "string list" where
  "generic_topic_segments =
     [''ai'', ''cloud'', ''data'', ''devtools'', ''framework'', ''infra'', ''language'', ''ml'',
      ''observability'', ''platform'', ''security'', ''web'']"

text \<open>
  \<open>TOPIC_RELEVANCE_ALIASES[topicKey] ?? []\<close>: for a key that names a member of
  \<open>Object.prototype\<close> the table gives that member, which has no \<open>map\<close>.
\<close>

definition topic_relevance_aliases :: "string \<Rightarrow> js_fault + string list" where
  "topic_relevance_aliases topic_key =
     (if topic_key = ''data.kafka'' then Inr [''kafka'', ''redpanda'']
      else if topic_key = ''observability.opentelemetry'' then Inr [''opentelemetry'', ''otel'']
      else if topic_key \<in> set object_prototype_keys then Inl TypeError
      else Inr [])"

definition derive_topic_relevance_terms :: "string \<Rightarrow> js_fault + string list" where
  "derive_topic_relevance_terms topic_key =
     (let segments = filter (\<lambda>s. s \<notin> set generic_topic_segments) (filter (\<lambda>s. length s \<ge> 3)
            (map (\<lambda>s. to_lower (trim s)) (split_at (\<lambda>c. c \<in> {CHR ''.'', CHR ''_'', CHR ''-''}) topic_key)))
      in map_sum id (\<lambda>aliases. js_set (segments @ map to_lower aliases)) (topic_relevance_aliases topic_key))"

text \<open>\<open>\\bterm\\b\<close> with the flag \<open>i\<close>.\<close>

definition exact_term_re :: "string \<Rightarrow> re" where
  "exact_term_re term = ci (cats [Wb, lit term, Wb])"

type_synonym topic_matcher = "re list"

definition build_topic_relevance_matcher :: "string \<Rightarrow> js_fault + topic_matcher option" where
  "build_topic_relevance_matcher topic_key =
     map_sum id (\<lambda>terms. if length terms = 0 then None else Some (map exact_term_re terms))
       (derive_topic_relevance_terms topic_key)"

definition count_regex_matches :: "string \<Rightarrow> re \<Rightarrow> nat" where
  "count_regex_matches content r = (if content = [] then 0 else length (re_match_g r content))"

definition title_or_url_rule :: "query_mode_raw_event \<Rightarrow> topic_matcher \<Rightarrow> bool option" where
  "title_or_url_rule ev m =
     (let title_and_url = trim (default [] (qm_title ev) @ '' '' @ qm_url ev) in
      if list_ex (\<lambda>r. re_test r title_and_url) m then Some True else None)"

fun body_matches :: "string \<Rightarrow> nat \<Rightarrow> topic_matcher \<Rightarrow> bool" where
  "body_matches text n [] = False"
| "body_matches text n (r # rs) =
     (let n' = n + count_regex_matches text r in if n' \<ge> 2 then True else body_matches text n' rs)"

definition body_match_threshold_rule :: "query_mode_raw_event \<Rightarrow> topic_matcher \<Rightarrow> bool option" where
  "body_match_threshold_rule ev m = Some (body_matches (qm_text ev) 0 m)"

fun first_decision :: "(query_mode_raw_event \<Rightarrow> topic_matcher \<Rightarrow> bool option) list \<Rightarrow>
    query_mode_raw_event \<Rightarrow> topic_matcher \<Rightarrow> bool" where
  "first_decision [] ev m = False"
| "first_decision (r # rs) ev m = (case r ev m of Some b \<Rightarrow> b | None \<Rightarrow> first_decision rs ev m)"

subsection \<open>The cache of matchers\<close>

record 'v lru_cache =
  max_entries :: nat
  entries :: "(string, 'v) omap"

text \<open>The constructor; its argument is an integer here.\<close>

definition create_lru :: "int \<Rightarrow> 'v lru_cache option" where
  "create_lru n = (if n \<le> 0 then None else Some \<lparr>max_entries = nat n, entries = []\<rparr>)"

definition evict_least_recently_used_if_needed :: "'v lru_cache \<Rightarrow> 'v lru_cache" where
  "evict_least_recently_used_if_needed c =
     (if length (entries c) \<le> max_entries c then c
      else (case entries c of [] \<Rightarrow> c | e # es \<Rightarrow> c\<lparr>entries := om_del (entries c) (fst e)\<rparr>))"

definition lru_resolve :: "(string \<Rightarrow> 'e + 'v) \<Rightarrow> string \<Rightarrow> 'v lru_cache \<Rightarrow> ('e + 'v) \<times> 'v lru_cache" where
  "lru_resolve build topic_key c =
     (case map_of (entries c) topic_key of
        Some cached \<Rightarrow> (Inr cached, c\<lparr>entries := om_set (om_del (entries c) topic_key) topic_key cached\<rparr>)
      | None \<Rightarrow> (case build topic_key of
            Inl e \<Rightarrow> (Inl e, c)
          | Inr v \<Rightarrow> (Inr v, evict_least_recently_used_if_needed (c\<lparr>entries := om_set (entries c) topic_key v\<rparr>))))"

type_synonym matcher_cache = "topic_matcher option lru_cache"

definition get_topic_relevance_matcher ::
  "string \<Rightarrow> matcher_cache \<Rightarrow> (js_fault + topic_matcher option) \<times> matcher_cache" where
  "get_topic_relevance_matcher topic_key c = lru_resolve build_topic_relevance_matcher topic_key c"

definition is_event_relevant_to_topic ::
  "query_mode_raw_event \<Rightarrow> string \<Rightarrow> matcher_cache \<Rightarrow> (js_fault + bool) \<times> matcher_cache" where
  "is_event_relevant_to_topic ev topic_key c =
     (case get_topic_relevance_matcher topic_key c of
        (Inl e, c') \<Rightarrow> (Inl e, c')
      | (Inr None, c') \<Rightarrow> (Inr True, c')
      | (Inr (Some m), c') \<Rightarrow> (Inr (first_decision [title_or_url_rule, body_match_threshold_rule] ev m), c'))"

definition count_topic_relevance_term_matches ::
  "string \<Rightarrow> string \<Rightarrow> nat \<Rightarrow> matcher_cache \<Rightarrow> (js_fault + nat) \<times> matcher_cache" where
  "count_topic_relevance_term_matches topic_key value fallback c =
     (case get_topic_relevance_matcher topic_key c of
        (Inl e, c') \<Rightarrow> (Inl e, c')
      | (Inr None, c') \<Rightarrow> (Inr fallback, c')
      | (Inr (Some m), c') \<Rightarrow> (Inr (foldl (\<lambda>n r. n + count_regex_matches value r) 0 m), c'))"

subsection \<open>Selecting evidence\<close>

definition get_event_recency_time :: "'a raw_event_for_selection_scheme \<Rightarrow> int" where
  "get_event_recency_time ev = default (sel_fetched_at ev) (sel_published_at ev)"

definition engagement_cmp :: "'a raw_event_for_selection_scheme \<Rightarrow> 'a raw_event_for_selection_scheme \<Rightarrow> rat" where
  "engagement_cmp l r =
     (let left_score = default 0 (sel_engagement_score l); right_score = default 0 (sel_engagement_score r) in
      if right_score \<noteq> left_score then right_score - left_score
      else of_int (get_event_recency_time r - get_event_recency_time l))"

definition sort_by_engagement_then_recency ::
  "'a raw_event_for_selection_scheme list \<Rightarrow> 'a raw_event_for_selection_scheme list" where
  "sort_by_engagement_then_recency evs = js_sort engagement_cmp evs"

definition select_evidence_by_recency ::
  "'a raw_event_for_selection_scheme list \<Rightarrow> nat \<Rightarrow> 'a raw_event_for_selection_scheme list" where
  "select_evidence_by_recency evs max_count = take max_count evs"

definition select_evidence_by_engagement ::
  "'a raw_event_for_selection_scheme list \<Rightarrow> nat \<Rightarrow> 'a raw_event_for_selection_scheme list" where
  "select_evidence_by_engagement evs max_count = take max_count (sort_by_engagement_then_recency evs)"

text \<open>
  The set of the events selected so far compares objects by identity. Each place of the list holds an
  object of its own, so after the buckets are filled the first of a bucket is excluded by dropping
  the head of that bucket.
\<close>

definition select_evidence_by_diversity ::
  "'a raw_event_for_selection_scheme list \<Rightarrow> nat \<Rightarrow> 'a raw_event_for_selection_scheme list" where
  "select_evidence_by_diversity evs max_count =
     (let bucket_of = (\<lambda>b. filter (\<lambda>e. resolve_diversity_source_bucket (sel_source e) = b) evs);
          curated = bucket_of Curated; discussion = bucket_of Discussion; other = bucket_of Other;
          seed1 = (if max_count \<le> 0 then 0 else 1);
          selected1 = take seed1 curated;
          seed2 = (if length selected1 \<ge> max_count then 0 else 1);
          selected2 = selected1 @ take seed2 discussion;
          remaining = drop seed1 curated @ drop seed2 discussion @ other
      in selected2 @ take (max_count - length selected2) (sort_by_engagement_then_recency remaining))"

datatype selection_error = UnsupportedEvidenceStrategy string

definition select_evidence ::
  "'a raw_event_for_selection_scheme list \<Rightarrow> string \<Rightarrow> int \<Rightarrow>
   selection_error + 'a raw_event_for_selection_scheme list" where
  "select_evidence evs strategy max_count =
     (if length evs = 0 \<or> max_count \<le> 0 then Inr []
      else if strategy = ''recency'' then Inr (select_evidence_by_recency evs (nat max_count))
      else if strategy = ''engagement'' then Inr (select_evidence_by_engagement evs (nat max_count))
      else if strategy = ''diversity'' then Inr (select_evidence_by_diversity evs (nat max_count))
      else Inl (UnsupportedEvidenceStrategy strategy))"

subsection \<open>Ranking topics from snapshots\<close>

record snapshot_topic =
  snap_topic :: string
  snap_score :: rat
  snap_volume :: rat
  snap_acceleration :: rat

text \<open>A row: when the snapshot was made, and its topics when the schema accepts it.\<close>

record snapshot_row =
  generated_at :: int
  parsed_topics :: "snapshot_topic list option"

record ranked_topic_accumulator =
  weighted_score :: rat
  weighted_volume :: rat
  weighted_acceleration :: rat
  weight_sum :: rat
  acc_latest_generated_at_ms :: int

record ranked_topic_score =
  rk_topic :: string
  rk_score :: rat
  rk_volume :: rat
  rk_acceleration :: rat
  rk_latest_generated_at_ms :: int

definition compute_recent_weight :: "int \<Rightarrow> int \<Rightarrow> rat" where
  "compute_recent_weight snapshot_generated_at requested_at =
     (let age_ms = max 0 (requested_at - snapshot_generated_at);
          age_hours = of_int age_ms / (60 * 60 * 1000)
      in 1 / (1 + age_hours))"

type_synonym topic_table = "(string, ranked_topic_accumulator) omap"

definition add_metric :: "(string \<Rightarrow> bool) \<Rightarrow> rat \<Rightarrow> int \<Rightarrow> topic_table \<Rightarrow> snapshot_topic \<Rightarrow> topic_table" where
  "add_metric topic_ok weight generated_at_ms by_topic metric =
     (let topic = trim (snap_topic metric) in
      if topic = [] \<or> \<not> topic_ok topic then by_topic
      else
        let ex = om_get \<lparr>weighted_score = 0, weighted_volume = 0, weighted_acceleration = 0, weight_sum = 0,
              acc_latest_generated_at_ms = generated_at_ms\<rparr> by_topic topic
        in om_set by_topic topic
             \<lparr>weighted_score = weighted_score ex + snap_score metric * weight,
              weighted_volume = weighted_volume ex + snap_volume metric * weight,
              weighted_acceleration = weighted_acceleration ex + snap_acceleration metric * weight,
              weight_sum = weight_sum ex + weight,
              acc_latest_generated_at_ms = max (acc_latest_generated_at_ms ex) generated_at_ms\<rparr>)"

definition add_snapshot :: "(string \<Rightarrow> bool) \<Rightarrow> int \<Rightarrow> topic_table \<Rightarrow> snapshot_row \<Rightarrow> topic_table" where
  "add_snapshot topic_ok requested_at by_topic row =
     (case parsed_topics row of
        None \<Rightarrow> by_topic
      | Some ts \<Rightarrow> foldl (add_metric topic_ok (compute_recent_weight (generated_at row) requested_at) (generated_at row))
          by_topic ts)"

definition to_ranked_topic :: "string \<times> ranked_topic_accumulator \<Rightarrow> ranked_topic_score" where
  "to_ranked_topic e =
     (let acc = snd e; denominator = (if weight_sum acc \<le> 0 then 1 else weight_sum acc) in
      \<lparr>rk_topic = fst e, rk_score = weighted_score acc / denominator,
       rk_volume = weighted_volume acc / denominator, rk_acceleration = weighted_acceleration acc / denominator,
       rk_latest_generated_at_ms = acc_latest_generated_at_ms acc\<rparr>)"

type_synonym locale_cmp = "string \<Rightarrow> string \<Rightarrow> int"

definition ranked_topic_cmp :: "locale_cmp \<Rightarrow> ranked_topic_score \<Rightarrow> ranked_topic_score \<Rightarrow> rat" where
  "ranked_topic_cmp lc l r =
     (if rk_score r \<noteq> rk_score l then rk_score r - rk_score l
      else if rk_latest_generated_at_ms r \<noteq> rk_latest_generated_at_ms l
      then of_int (rk_latest_generated_at_ms r - rk_latest_generated_at_ms l)
      else of_int (lc (rk_topic l) (rk_topic r)))"

definition rank_topics_from_snapshots ::
  "locale_cmp \<Rightarrow> snapshot_row list \<Rightarrow> int \<Rightarrow> topic_glob_matcher_set \<Rightarrow> ranked_topic_score list" where
  "rank_topics_from_snapshots lc snapshots requested_at topic_matchers =
     js_sort (ranked_topic_cmp lc)
       (map to_ranked_topic (foldl (add_snapshot (glob_set_matches topic_matchers) requested_at) [] snapshots))"

definition get_top_level_topic_group :: "string \<Rightarrow> string" where
  "get_top_level_topic_group topic_key =
     (let normalized = to_lower (trim topic_key) in
      if normalized = [] then []
      else (case index_of CHR ''.'' normalized of None \<Rightarrow> normalized | Some i \<Rightarrow> take i normalized))"

definition add_group_score :: "(string, rat \<times> int) omap \<Rightarrow> ranked_topic_score \<Rightarrow> (string, rat \<times> int) omap" where
  "add_group_score m t =
     (let group = get_top_level_topic_group (rk_topic t) in
      if group = [] then m
      else
        let ex = om_get (0, rk_latest_generated_at_ms t) m group
        in om_set m group (fst ex + rk_score t, max (snd ex) (rk_latest_generated_at_ms t)))"

definition group_cmp :: "locale_cmp \<Rightarrow> string \<times> rat \<times> int \<Rightarrow> string \<times> rat \<times> int \<Rightarrow> rat" where
  "group_cmp lc l r =
     (if fst (snd r) \<noteq> fst (snd l) then fst (snd r) - fst (snd l)
      else if snd (snd r) \<noteq> snd (snd l) then of_int (snd (snd r) - snd (snd l))
      else of_int (lc (fst l) (fst r)))"

text \<open>The bound is finite here; its integer part is taken.\<close>

definition select_top_level_topic_groups :: "locale_cmp \<Rightarrow> ranked_topic_score list \<Rightarrow> rat \<Rightarrow> string list" where
  "select_top_level_topic_groups lc ranked_topics max_topic_groups =
     (if max_topic_groups \<le> 0 then []
      else js_set (map fst (take (nat \<lfloor>max_topic_groups\<rfloor>) (js_sort (group_cmp lc) (foldl add_group_score [] ranked_topics)))))"

text \<open>An event for the examples.\<close>

definition sample_event :: "string \<Rightarrow> query_mode_raw_event" where
  "sample_event i = \<lparr>sel_event_id = i, sel_source = Rss, sel_published_at = None, sel_fetched_at = 0,
     sel_engagement_score = None, qm_url = [], qm_title = None, qm_text = [], qm_topics = []\<rparr>"

subsection \<open>The cache changes nothing but the cost\<close>

text \<open>What a caller relies on when it resolves a key through a state.\<close>

fun thread :: "('q \<Rightarrow> 'c \<Rightarrow> 'a \<times> 'c) \<Rightarrow> 'q list \<Rightarrow> 'c \<Rightarrow> 'a list \<times> 'c" where
  "thread f [] c = ([], c)"
| "thread f (q # qs) c = (fst (f q c) # fst (thread f qs (snd (f q c))), snd (thread f qs (snd (f q c))))"

locale resolver =
  fixes resolve :: "'k \<Rightarrow> 'c \<Rightarrow> ('e + 'v) \<times> 'c" and ok :: "'c \<Rightarrow> bool" and build :: "'k \<Rightarrow> 'e + 'v"
  assumes transparent: "ok c \<Longrightarrow> fst (resolve k c) = build k"
    and keeps: "ok c \<Longrightarrow> ok (snd (resolve k c))"
begin

lemma resolve_eq: "ok c \<Longrightarrow> resolve k c = (build k, snd (resolve k c))"
  using transparent [of c k] by (metis prod.collapse)

lemma thread_transparent:
  assumes "\<And>q c. f q c = (g q (fst (resolve (key q) c)), snd (resolve (key q) c))"
  shows "ok c \<Longrightarrow> fst (thread f qs c) = map (\<lambda>q. g q (build (key q))) qs"
    and "ok c \<Longrightarrow> ok (snd (thread f qs c))"
    and "snd (thread f qs c) = foldl (\<lambda>c k. snd (resolve k c)) c (map key qs)"
  by (induction qs arbitrary: c) (simp_all add: assms transparent keeps)

end

definition lru_ok :: "(string \<Rightarrow> 'e + 'v) \<Rightarrow> 'v lru_cache \<Rightarrow> bool" where
  "lru_ok build c \<longleftrightarrow> om_ok (entries c) \<and> length (entries c) \<le> max_entries c \<and> 0 < max_entries c \<and>
     (\<forall>k v. map_of (entries c) k = Some v \<longrightarrow> build k = Inr v)"

lemma lru_ok_create: "create_lru n = Some c \<Longrightarrow> lru_ok build c"
  by (auto simp: create_lru_def lru_ok_def split: if_splits)

text \<open>The last \<open>n\<close> members.\<close>

definition lastn :: "nat \<Rightarrow> 'a list \<Rightarrow> 'a list" where
  "lastn n xs = drop (length xs - n) xs"

lemma remdups_snoc: "remdups (xs @ [x]) = filter (\<lambda>y. y \<noteq> x) (remdups xs) @ [x]"
  by (induction xs) auto

lemma lastn_append: "length B = n \<Longrightarrow> lastn n (A @ B) = B"
  by (simp add: lastn_def)

lemma filter_neq_id: "x \<notin> set xs \<Longrightarrow> filter (\<lambda>y. y \<noteq> x) xs = xs"
  by (rule filter_id_conv [THEN iffD2]) auto

lemma length_filter_neq: "distinct xs \<Longrightarrow> x \<in> set xs \<Longrightarrow> Suc (length (filter (\<lambda>y. y \<noteq> x) xs)) = length xs"
  by (induction xs) (auto simp: filter_neq_id)

lemma lastn_touch:
  assumes "distinct K" "0 < n"
  shows "lastn n (filter (\<lambda>y. y \<noteq> x) K @ [x]) =
    (if x \<in> set (lastn n K) then filter (\<lambda>y. y \<noteq> x) (lastn n K) @ [x]
     else if length (lastn n K) = n then tl (lastn n K) @ [x] else lastn n K @ [x])"
proof -
  define A B where "A = take (length K - n) K" and "B = lastn n K"
  have K: "K = A @ B" by (simp add: A_def B_def lastn_def)
  have len: "length B = n \<or> (length B < n \<and> A = [])" by (auto simp: A_def B_def lastn_def)
  show ?thesis
  proof (cases "x \<in> set B")
    case True
    then have "x \<notin> set A" using assms(1) K by auto
    moreover have "Suc (length (filter (\<lambda>y. y \<noteq> x) B)) = length B"
      using True assms(1) K by (intro length_filter_neq) auto
    ultimately show ?thesis using True len unfolding B_def [symmetric] K
      by (auto simp: filter_neq_id lastn_def)
  next
    case False
    then have "lastn n (filter (\<lambda>y. y \<noteq> x) K @ [x]) = lastn n (filter (\<lambda>y. y \<noteq> x) A @ B @ [x])"
      by (simp add: K filter_neq_id)
    also have "\<dots> = (if length B = n then tl B @ [x] else B @ [x])"
    proof (cases "length B = n")
      case True
      then obtain b bs where "B = b # bs" using assms(2) by (cases B) auto
      with True show ?thesis using lastn_append [of "bs @ [x]" n "filter (\<lambda>y. y \<noteq> x) A @ [b]"] by auto
    next
      case c: False
      with len show ?thesis by (simp add: lastn_def)
    qed
    finally show ?thesis using False by (simp add: B_def)
  qed
qed

lemma keys_om_del: "om_keys (om_del m k) = filter (\<lambda>y. y \<noteq> k) (om_keys m)"
  by (induction m) (auto simp: om_del_def)

lemma om_has_iff: "map_of m k = None \<longleftrightarrow> k \<notin> set (om_keys m)"
  by (force simp: map_of_eq_None_iff)

lemma lru_resolve_ok:
  assumes "lru_ok build c"
  shows "fst (lru_resolve build k c) = build k" and "lru_ok build (snd (lru_resolve build k c))"
    and "max_entries (snd (lru_resolve build k c)) = max_entries c"
    and "om_keys (entries (snd (lru_resolve build k c))) =
      (if isl (build k) then om_keys (entries c)
       else if k \<in> set (om_keys (entries c)) then filter (\<lambda>y. y \<noteq> k) (om_keys (entries c)) @ [k]
       else if length (om_keys (entries c)) = max_entries c then tl (om_keys (entries c)) @ [k]
       else om_keys (entries c) @ [k])"
proof -
  have ok: "om_ok (entries c)" "length (entries c) \<le> max_entries c" "0 < max_entries c"
    and built: "map_of (entries c) k' = Some v \<Longrightarrow> build k' = Inr v" for k' v
    using assms by (auto simp: lru_ok_def)
  show "fst (lru_resolve build k c) = build k"
    using built by (auto simp: lru_resolve_def split: option.splits sum.splits)
  show "max_entries (snd (lru_resolve build k c)) = max_entries c"
    by (auto simp: lru_resolve_def evict_least_recently_used_if_needed_def split: option.splits sum.splits list.splits)
  consider (hit) v where "map_of (entries c) k = Some v" "build k = Inr v"
    | (fails) e where "map_of (entries c) k = None" "build k = Inl e"
    | (fresh) v where "map_of (entries c) k = None" "build k = Inr v" "length (entries c) < max_entries c"
    | (evict) v e es where "map_of (entries c) k = None" "build k = Inr v" "length (entries c) = max_entries c" "entries c = e # es"
    using built ok by (cases "map_of (entries c) k"; cases "build k"; cases "entries c") fastforce+
  then have "lru_ok build (snd (lru_resolve build k c)) \<and> om_keys (entries (snd (lru_resolve build k c))) =
      (if isl (build k) then om_keys (entries c)
       else if k \<in> set (om_keys (entries c)) then filter (\<lambda>y. y \<noteq> k) (om_keys (entries c)) @ [k]
       else if length (om_keys (entries c)) = max_entries c then tl (om_keys (entries c)) @ [k]
       else om_keys (entries c) @ [k])"
  proof cases
    case hit
    have k: "k \<in> set (om_keys (entries c))" using hit(1) by (metis om_has_iff option.distinct(1))
    have r: "lru_resolve build k c = (Inr v, c\<lparr>entries := om_del (entries c) k @ [(k, v)]\<rparr>)"
      using hit by (simp add: lru_resolve_def om_set_fresh js_map)
    have "Suc (length (om_del (entries c) k)) = length (entries c)"
      using length_om_del_present [of "entries c" k] hit ok by simp
    moreover have "map_of (om_del (entries c) k @ [(k, v)]) k' = Some v' \<Longrightarrow> build k' = Inr v'" for k' v'
      using hit built [of k' v'] by (auto simp: map_add_def js_map split: option.splits if_splits)
    ultimately show ?thesis using hit k ok by (simp add: r lru_ok_def keys_om_del)
  next
    case fails
    then show ?thesis using assms by (simp add: lru_resolve_def)
  next
    case fresh
    have k: "k \<notin> set (om_keys (entries c))" using fresh(1) by (simp add: om_has_iff)
    have r: "lru_resolve build k c = (Inr v, c\<lparr>entries := entries c @ [(k, v)]\<rparr>)"
      using fresh by (simp add: lru_resolve_def om_set_fresh evict_least_recently_used_if_needed_def)
    have "map_of (entries c @ [(k, v)]) k' = Some v' \<Longrightarrow> build k' = Inr v'" for k' v'
      using fresh built [of k' v'] by (auto simp: map_add_def split: option.splits if_splits)
    then show ?thesis using fresh k ok by (simp add: r lru_ok_def)
  next
    case evict
    have "k \<notin> set (om_keys (entries c))" using evict(1) by (simp add: om_has_iff)
    then have k: "k \<noteq> fst e" "k \<notin> set (om_keys es)" using evict(4) by auto
    have e: "fst e \<notin> set (om_keys es)" using ok evict by auto
    have "om_set (entries c) k v = e # es @ [(k, v)]" using evict by (simp add: om_set_fresh)
    moreover have "om_del (e # es @ [(k, v)]) (fst e) = es @ [(k, v)]"
      using k e by (cases e) (force simp: om_del_def intro: filter_id_conv [THEN iffD2])
    ultimately have r: "lru_resolve build k c = (Inr v, c\<lparr>entries := es @ [(k, v)]\<rparr>)"
      using evict by (simp add: lru_resolve_def evict_least_recently_used_if_needed_def)
    have "map_of es k' = Some v' \<Longrightarrow> map_of (entries c) k' = Some v'" for k' v'
      using evict(4) e by (cases e) (metis fst_conv map_of_Cons_code(2) om_has_iff option.distinct(1))
    then have "map_of (es @ [(k, v)]) k' = Some v' \<Longrightarrow> build k' = Inr v'" for k' v'
      using evict(2) built [of k' v'] by (auto simp: map_add_def simp del: map_of_eq_None_iff split: option.splits if_splits)
    then show ?thesis using evict k e ok by (simp add: r lru_ok_def)
  qed
  then show "lru_ok build (snd (lru_resolve build k c))" "om_keys (entries (snd (lru_resolve build k c))) =
      (if isl (build k) then om_keys (entries c)
       else if k \<in> set (om_keys (entries c)) then filter (\<lambda>y. y \<noteq> k) (om_keys (entries c)) @ [k]
       else if length (om_keys (entries c)) = max_entries c then tl (om_keys (entries c)) @ [k]
       else om_keys (entries c) @ [k])" by blast+
qed

interpretation relevance_cache: resolver "lru_resolve build_topic_relevance_matcher"
  "lru_ok build_topic_relevance_matcher" build_topic_relevance_matcher
  by unfold_locales (simp_all add: lru_resolve_ok)

lemma lru_keys_run:
  assumes "lru_ok build c" "entries c = []"
  defines "run \<equiv> foldl (\<lambda>c k. snd (lru_resolve build k c)) c"
  shows "lru_ok build (run ks) \<and> max_entries (run ks) = max_entries c \<and>
    om_keys (entries (run ks)) = lastn (max_entries c) (remdups (filter (\<lambda>k. \<not> isl (build k)) ks))"
proof (induction ks rule: rev_induct)
  case Nil
  then show ?case using assms by (simp add: lastn_def)
next
  case (snoc k ks)
  let ?c = "run ks" and ?K = "remdups (filter (\<lambda>k. \<not> isl (build k)) ks)"
  have step: "run (ks @ [k]) = snd (lru_resolve build k ?c)" by (simp add: run_def)
  have "0 < max_entries c" using assms by (simp add: lru_ok_def)
  with lastn_touch [of ?K "max_entries c" k] snoc lru_resolve_ok [of build ?c k] show ?case
    by (auto simp: step remdups_snoc)
qed

text \<open>The answer without the cache.\<close>

definition decide :: "query_mode_raw_event \<Rightarrow> js_fault + topic_matcher option \<Rightarrow> js_fault + bool" where
  "decide ev built = map_sum id (\<lambda>m. case m of None \<Rightarrow> True
     | Some rs \<Rightarrow> first_decision [title_or_url_rule, body_match_threshold_rule] ev rs) built"

text \<open>
  C26. The cache of compiled topic matchers never changes an answer: a run of relevance questions,
  started on an empty cache, answers each one as if its matcher were built anew. After the run the
  cache holds exactly the most recently asked topics whose matcher could be built, oldest first and
  at most as many as the constructor was given.
\<close>

theorem relevance_cache_transparent:
  assumes "create_lru n = Some c"
  shows "fst (thread (\<lambda>q. is_event_relevant_to_topic (fst q) (snd q)) qs c) =
      map (\<lambda>q. decide (fst q) (build_topic_relevance_matcher (snd q))) qs \<and>
    om_keys (entries (snd (thread (\<lambda>q. is_event_relevant_to_topic (fst q) (snd q)) qs c))) =
      lastn (nat n) (remdups (filter (\<lambda>k. \<not> isl (build_topic_relevance_matcher k)) (map snd qs)))"
proof (intro conjI)
  have c: "entries c = []" "max_entries c = nat n" using assms by (auto simp: create_lru_def split: if_splits)
  have ok: "lru_ok build_topic_relevance_matcher c" using assms by (rule lru_ok_create)
  have f: "is_event_relevant_to_topic (fst q) (snd q) c' =
      (decide (fst q) (fst (lru_resolve build_topic_relevance_matcher (snd q) c')),
       snd (lru_resolve build_topic_relevance_matcher (snd q) c'))" for q c'
    by (auto simp: is_event_relevant_to_topic_def get_topic_relevance_matcher_def decide_def split: prod.splits sum.splits option.splits)
  note run = relevance_cache.thread_transparent [where f = "\<lambda>q. is_event_relevant_to_topic (fst q) (snd q)"
      and g = "\<lambda>q. decide (fst q)" and key = snd, OF f]
  show "fst (thread (\<lambda>q. is_event_relevant_to_topic (fst q) (snd q)) qs c) =
      map (\<lambda>q. decide (fst q) (build_topic_relevance_matcher (snd q))) qs"
    using ok by (rule run(1))
  show "om_keys (entries (snd (thread (\<lambda>q. is_event_relevant_to_topic (fst q) (snd q)) qs c))) =
      lastn (nat n) (remdups (filter (\<lambda>k. \<not> isl (build_topic_relevance_matcher k)) (map snd qs)))"
    unfolding run(3) using lru_keys_run [OF ok c(1)] c(2) by simp
qed

theorem relevance_cache_transparent_witness:
  "om_keys (entries (snd (thread (\<lambda>q. is_event_relevant_to_topic (fst q) (snd q))
     [(sample_event [], ''ai''), (sample_event [], ''constructor''), (sample_event [], ''web''), (sample_event [], ''ai''), (sample_event [], ''data'')] \<lparr>max_entries = 2, entries = []\<rparr>))) = [''ai'', ''data'']"
  using relevance_cache_transparent [of 2 "\<lparr>max_entries = 2, entries = []\<rparr>"
      "[(sample_event [], ''ai''), (sample_event [], ''constructor''), (sample_event [], ''web''), (sample_event [], ''ai''), (sample_event [], ''data'')]"]
  by (simp add: create_lru_def build_topic_relevance_matcher_def derive_topic_relevance_terms_def
      topic_relevance_aliases_def object_prototype_keys_def lastn_def)

subsection \<open>Evidence\<close>

lemma comparator_engagement: "comparator engagement_cmp"
proof -
  have "engagement_cmp = lex_cmp (desc_cmp (\<lambda>e. default 0 (sel_engagement_score e)))
      (desc_cmp (\<lambda>e. of_int (get_event_recency_time e)))"
    by (intro ext) (auto simp: engagement_cmp_def lex_cmp_def desc_cmp_def Let_def)
  then show ?thesis by (metis comparator_lex comparator_desc)
qed

lemma mset_buckets:
  "mset (filter (\<lambda>e. f e = Curated) xs) + mset (filter (\<lambda>e. f e = Discussion) xs) + mset (filter (\<lambda>e. f e = Other) xs) = mset xs"
proof (induction xs)
  case (Cons x xs)
  then show ?case by (cases "f x") auto
qed simp

lemma diversity_selection:
  assumes "0 < n"
  shows "\<exists>seeds best. select_evidence_by_diversity evs n = seeds @ best \<and>
      seeds = take n (take 1 (filter (\<lambda>e. sel_source e \<in> set curated_sources) evs) @
                      take 1 (filter (\<lambda>e. sel_source e \<in> set discussion_sources) evs)) \<and>
      length (seeds @ best) = min n (length evs) \<and>
      (\<exists>others. mset evs = mset seeds + mset others \<and> ranked_prefix (n - length seeds) engagement_cmp others best)"
proof -
  let ?b = "\<lambda>b. filter (\<lambda>e. resolve_diversity_source_bucket (sel_source e) = b) evs"
  have bucket: "?b Curated = filter (\<lambda>e. sel_source e \<in> set curated_sources) evs"
    "?b Discussion = filter (\<lambda>e. sel_source e \<in> set discussion_sources) evs"
    by (rule filter_cong, simp, simp add: resolve_diversity_source_bucket_def diversity_source_bucket_strategies_def
        curated_sources_def discussion_sources_def)+
  define seed2 :: nat where "seed2 = (if length (take 1 (?b Curated)) \<ge> n then 0 else 1)"
  define seeds others where "seeds = take 1 (?b Curated) @ take seed2 (?b Discussion)"
    and "others = drop 1 (?b Curated) @ drop seed2 (?b Discussion) @ ?b Other"
  define best where "best = take (n - length seeds) (sort_by_engagement_then_recency others)"
  have result: "select_evidence_by_diversity evs n = seeds @ best"
    using assms by (simp add: select_evidence_by_diversity_def seeds_def others_def best_def seed2_def Let_def)
  have seeds: "seeds = take n (take 1 (?b Curated) @ take 1 (?b Discussion))"
    using assms by (cases "?b Curated"; cases n) (auto simp: seeds_def seed2_def)
  have split_mset: "mset xs = mset (take k xs) + mset (drop k xs)" for k and xs :: "'a raw_event_for_selection_scheme list"
    by (metis append_take_drop_id mset_append)
  have parts: "mset evs = mset seeds + mset others"
    unfolding seeds_def others_def
    using mset_buckets [of "\<lambda>e. resolve_diversity_source_bucket (sel_source e)" evs]
      split_mset [of "?b Curated" 1] split_mset [of "?b Discussion" seed2]
    by (simp add: ac_simps)
  have "ranked_prefix (n - length seeds) engagement_cmp others best"
    by (simp add: best_def sort_by_engagement_then_recency_def ranked_prefix_take_js_sort comparator_engagement)
  moreover have "length (seeds @ best) = min n (length evs)"
  proof -
    have "length evs = length seeds + length others" using arg_cong [OF parts, of size] by simp
    moreover have "length seeds \<le> n" by (simp add: seeds)
    moreover have "length best = min (n - length seeds) (length others)"
      by (simp add: best_def sort_by_engagement_then_recency_def)
    ultimately show ?thesis by simp
  qed
  ultimately show ?thesis unfolding bucket [symmetric] using result seeds parts by (intro exI conjI)
qed

text \<open>
  C25. Selecting by diversity returns the requested number of events, or all of them, without
  repeating one; with room for two it contains the most recent event of a curated source and the
  most recent of a discussion source, when there are any; the places left go to the best of the
  remaining events by engagement, then recency.
\<close>

theorem select_evidence_by_diversity_spec:
  assumes "0 < n"
  shows "\<exists>seeds best. select_evidence_by_diversity evs n = seeds @ best \<and>
      seeds = take n (take 1 (filter (\<lambda>e. sel_source e \<in> set curated_sources) evs) @
                      take 1 (filter (\<lambda>e. sel_source e \<in> set discussion_sources) evs)) \<and>
      length (seeds @ best) = min n (length evs) \<and>
      (\<exists>others. mset evs = mset seeds + mset others \<and> ranked_prefix (n - length seeds) engagement_cmp others best)"
  by (rule diversity_selection [OF assms])

theorem select_evidence_by_diversity_spec_witness:
  "length (select_evidence_by_diversity [sample_event ''a'', sample_event ''b'', sample_event ''c''] 2) = 2"
  using select_evidence_by_diversity_spec [of 2 "[sample_event ''a'', sample_event ''b'', sample_event ''c'']"] by auto

lemma set_js_sort_engagement: "set (sort_by_engagement_then_recency evs) = set evs"
  by (metis set_mset_mset mset_js_sort sort_by_engagement_then_recency_def)

lemma diversity_subset: "set (select_evidence_by_diversity evs n) \<subseteq> set evs"
  unfolding select_evidence_by_diversity_def Let_def
  by (auto simp: set_js_sort_engagement dest!: in_set_takeD in_set_dropD)

lemma select_evidence_bounded:
  assumes "select_evidence evs strategy n = Inr out"
  shows "length out \<le> nat n" and "set out \<subseteq> set evs"
proof -
  have d: "length (select_evidence_by_diversity evs (nat n)) \<le> nat n" if "0 < n"
  proof -
    from that have "0 < nat n" by simp
    from diversity_selection [OF this, of evs] obtain seeds best
      where "select_evidence_by_diversity evs (nat n) = seeds @ best \<and> length (seeds @ best) = min (nat n) (length evs)" by blast
    then show ?thesis by (metis min.cobounded1)
  qed
  show "length out \<le> nat n"
    using assms d by (auto simp: select_evidence_def select_evidence_by_recency_def select_evidence_by_engagement_def split: if_splits)
  show "set out \<subseteq> set evs"
    using assms diversity_subset [of evs "nat n"]
    by (auto simp: select_evidence_def select_evidence_by_recency_def select_evidence_by_engagement_def set_js_sort_engagement
        split: if_splits dest!: in_set_takeD)
qed

text \<open>
  A selection of no events, or from none, is empty whatever the strategy; an unknown strategy is
  an error otherwise. Selection by recency keeps the order of the query; selection by engagement
  returns as many of the best events as asked for or as there are, in order.
\<close>

theorem select_evidence_outcomes:
  "select_evidence evs strategy n =
    (if evs = [] \<or> n \<le> 0 then Inr []
     else if strategy = ''recency'' then Inr (take (nat n) evs)
     else if strategy = ''engagement'' then Inr (select_evidence_by_engagement evs (nat n))
     else if strategy = ''diversity'' then Inr (select_evidence_by_diversity evs (nat n))
     else Inl (UnsupportedEvidenceStrategy strategy)) \<and>
   ranked_prefix (nat n) engagement_cmp evs (select_evidence_by_engagement evs (nat n))"
proof (intro conjI)
  show "select_evidence evs strategy n =
    (if evs = [] \<or> n \<le> 0 then Inr []
     else if strategy = ''recency'' then Inr (take (nat n) evs)
     else if strategy = ''engagement'' then Inr (select_evidence_by_engagement evs (nat n))
     else if strategy = ''diversity'' then Inr (select_evidence_by_diversity evs (nat n))
     else Inl (UnsupportedEvidenceStrategy strategy))"
    by (simp add: select_evidence_def select_evidence_by_recency_def)
  show "ranked_prefix (nat n) engagement_cmp evs (select_evidence_by_engagement evs (nat n))"
    by (simp add: select_evidence_by_engagement_def sort_by_engagement_then_recency_def
        ranked_prefix_take_js_sort comparator_engagement)
qed

subsection \<open>Ranking\<close>

text \<open>What the accepted snapshots say of a topic: pairs of a metric and the weight of its snapshot.\<close>

type_synonym sighting = "rat \<times> int \<times> snapshot_topic"

definition sightings :: "int \<Rightarrow> snapshot_row list \<Rightarrow> sighting list" where
  "sightings requested_at rows =
     concat (map (\<lambda>r. map (\<lambda>m. (compute_recent_weight (generated_at r) requested_at, generated_at r, m))
       (default [] (parsed_topics r))) rows)"

definition sightings_of :: "string \<Rightarrow> sighting list \<Rightarrow> sighting list" where
  "sightings_of t ss = filter (\<lambda>(w, g, m). trim (snap_topic m) = t) ss"

definition weight_total :: "sighting list \<Rightarrow> rat" where
  "weight_total ss = (\<Sum>(w, g, m) \<leftarrow> ss. w)"

definition score_total :: "sighting list \<Rightarrow> rat" where
  "score_total ss = (\<Sum>(w, g, m) \<leftarrow> ss. snap_score m * w)"

lemma add_snapshots_flat:
  "foldl (add_snapshot ok req) t rows = foldl (\<lambda>t (w, g, m). add_metric ok w g t m) t (sightings req rows)"
proof (induction rows arbitrary: t)
  case (Cons r rows)
  have "foldl (\<lambda>t (w, g, m). add_metric ok w g t m) t (map (\<lambda>m. (w, g, m)) ms) = foldl (add_metric ok w g) t ms" for t w g ms
    by (induction ms arbitrary: t) simp_all
  with Cons show ?case
    by (cases "parsed_topics r") (simp_all add: sightings_def add_snapshot_def default_def)
qed (simp add: sightings_def)

lemma topic_table_totals:
  defines "table ok ss \<equiv> foldl (\<lambda>t (w, g, m). add_metric ok w g t m) [] ss"
  shows "om_ok (table ok ss)"
    and "map_of (table ok ss) t \<noteq> None \<longleftrightarrow> t \<noteq> [] \<and> ok t \<and> sightings_of t ss \<noteq> []"
    and "map_of (table ok ss) t = Some a \<Longrightarrow>
      weighted_score a = score_total (sightings_of t ss) \<and> weight_sum a = weight_total (sightings_of t ss)"
proof -
  have "om_ok (table ok ss) \<and> (\<forall>t. (map_of (table ok ss) t \<noteq> None \<longleftrightarrow> t \<noteq> [] \<and> ok t \<and> sightings_of t ss \<noteq> []) \<and>
      (\<forall>a. map_of (table ok ss) t = Some a \<longrightarrow>
        weighted_score a = score_total (sightings_of t ss) \<and> weight_sum a = weight_total (sightings_of t ss)))"
  proof (induction ss rule: rev_induct)
    case Nil
    show ?case by (simp add: table_def sightings_of_def)
  next
    case (snoc s ss)
    obtain w g m where s: "s = (w, g, m)" by (cases s)
    have step: "table ok (ss @ [s]) = add_metric ok w g (table ok ss) m" by (simp add: table_def s)
    have of: "sightings_of t (ss @ [s]) = sightings_of t ss @ (if trim (snap_topic m) = t then [s] else [])" for t
      by (simp add: sightings_of_def s)
    show ?case
    proof (cases "trim (snap_topic m) = [] \<or> \<not> ok (trim (snap_topic m))")
      case True
      then show ?thesis using snoc by (auto simp: step of add_metric_def split: if_splits)
    next
      case False
      have None: "map_of (table ok ss) t = None \<Longrightarrow> t \<noteq> [] \<Longrightarrow> ok t \<Longrightarrow> sightings_of t ss = []" for t
        using snoc by blast
      let ?k = "trim (snap_topic m)"
      define e where "e = om_get \<lparr>weighted_score = 0, weighted_volume = 0, weighted_acceleration = 0, weight_sum = 0,
              acc_latest_generated_at_ms = g\<rparr> (table ok ss) ?k"
      have e: "weighted_score e = score_total (sightings_of ?k ss)" "weight_sum e = weight_total (sightings_of ?k ss)"
        using snoc None [of ?k] False
        by (cases "map_of (table ok ss) ?k"; simp add: e_def om_get_def score_total_def weight_total_def)+
      have totals': "score_total (sightings_of ?k (ss @ [s])) = score_total (sightings_of ?k ss) + snap_score m * w"
        "weight_total (sightings_of ?k (ss @ [s])) = weight_total (sightings_of ?k ss) + w"
        unfolding of by (simp_all add: score_total_def weight_total_def s)
      have "\<exists>a. table ok (ss @ [s]) = om_set (table ok ss) ?k a \<and>
          weighted_score a = weighted_score e + snap_score m * w \<and> weight_sum a = weight_sum e + w"
        unfolding step add_metric_def Let_def if_not_P [OF False] e_def [symmetric] by (intro exI conjI) (rule refl, simp_all)
      then obtain a where a: "table ok (ss @ [s]) = om_set (table ok ss) ?k a"
        "weighted_score a = score_total (sightings_of ?k (ss @ [s]))" "weight_sum a = weight_total (sightings_of ?k (ss @ [s]))"
        using totals' unfolding e by metis
      have "om_ok (table ok (ss @ [s]))" using snoc a(1) by simp
      moreover have m: "map_of (table ok (ss @ [s])) t = (if t = ?k then Some a else map_of (table ok ss) t)" for t
        by (simp add: a(1) js_map)
      moreover have "(map_of (table ok (ss @ [s])) t \<noteq> None \<longleftrightarrow> t \<noteq> [] \<and> ok t \<and> sightings_of t (ss @ [s]) \<noteq> []) \<and>
        (\<forall>a. map_of (table ok (ss @ [s])) t = Some a \<longrightarrow> weighted_score a = score_total (sightings_of t (ss @ [s])) \<and>
          weight_sum a = weight_total (sightings_of t (ss @ [s])))" for t
      proof (cases "t = ?k")
        case True
        with a(2,3) False show ?thesis by (simp add: m of)
      next
        case other: False
        then have "map_of (table ok (ss @ [s])) t = map_of (table ok ss) t" "sightings_of t (ss @ [s]) = sightings_of t ss"
          by (simp_all add: m of)
        then show ?thesis using snoc by metis
      qed
      ultimately show ?thesis by blast
    qed
  qed
  then show "om_ok (table ok ss)" "map_of (table ok ss) t \<noteq> None \<longleftrightarrow> t \<noteq> [] \<and> ok t \<and> sightings_of t ss \<noteq> []"
    "map_of (table ok ss) t = Some a \<Longrightarrow>
      weighted_score a = score_total (sightings_of t ss) \<and> weight_sum a = weight_total (sightings_of t ss)" by blast+
qed

lemma weight_pos: "0 < compute_recent_weight g req"
  by (simp add: compute_recent_weight_def Let_def add_pos_nonneg)

lemma weight_total_pos:
  assumes "sightings_of t (sightings req rows) \<noteq> []"
  shows "0 < weight_total (sightings_of t (sightings req rows))"
proof -
  have "0 < w" if "(w, g, m) \<in> set (sightings_of t (sightings req rows))" for w g m
    using that by (auto simp: sightings_of_def sightings_def weight_pos)
  moreover have "(\<And>w g m. (w, g, m) \<in> set ss \<Longrightarrow> 0 < w) \<Longrightarrow> ss \<noteq> [] \<Longrightarrow> 0 < weight_total ss" for ss
    by (induction ss) (fastforce simp: weight_total_def add_pos_nonneg intro: sum_list_nonneg less_imp_le)+
  ultimately show ?thesis using assms by blast
qed

lemma comparator_ranked_topic: "comparator lc \<Longrightarrow> comparator (ranked_topic_cmp lc)"
proof -
  assume lc: "comparator lc"
  have "ranked_topic_cmp lc = lex_cmp (desc_cmp rk_score) (lex_cmp (desc_cmp (\<lambda>t. of_int (rk_latest_generated_at_ms t)))
      (\<lambda>l r. of_int (lc (rk_topic l) (rk_topic r))))"
    by (intro ext) (auto simp: ranked_topic_cmp_def lex_cmp_def desc_cmp_def)
  then show ?thesis
    using lc by (simp add: comparator_lex comparator_desc comparator_on [OF comparator_of_int [OF lc]])
qed

lemma ranked_topics:
  assumes "comparator lc"
  shows "distinct (map rk_topic (rank_topics_from_snapshots lc rows requested_at gs)) \<and>
    (\<forall>t. t \<in> rk_topic ` set (rank_topics_from_snapshots lc rows requested_at gs) \<longleftrightarrow>
      t \<noteq> [] \<and> glob_set_matches gs t \<and> sightings_of t (sightings requested_at rows) \<noteq> []) \<and>
    (\<forall>r \<in> set (rank_topics_from_snapshots lc rows requested_at gs). rk_score r =
      score_total (sightings_of (rk_topic r) (sightings requested_at rows)) /
      weight_total (sightings_of (rk_topic r) (sightings requested_at rows))) \<and>
    sorted_wrt (\<lambda>a b. ranked_topic_cmp lc a b \<le> 0)
      (rank_topics_from_snapshots lc rows requested_at gs)"
proof (intro conjI allI ballI)
  let ?ok = "glob_set_matches gs" and ?ss = "sightings requested_at rows" and ?ranked = "rank_topics_from_snapshots lc rows requested_at gs"
  define table where "table = foldl (add_snapshot ?ok requested_at) [] rows"
  note totals = topic_table_totals [of ?ok ?ss, folded add_snapshots_flat [of ?ok requested_at "[]" rows], folded table_def]
  have ranked: "mset ?ranked = mset (map to_ranked_topic table)" "set ?ranked = to_ranked_topic ` set table"
    by (simp_all add: rank_topics_from_snapshots_def table_def)
  have keys: "map rk_topic (map to_ranked_topic table) = om_keys table"
    by (simp add: to_ranked_topic_def Let_def)
  have "mset (map rk_topic ?ranked) = mset (om_keys table)" using ranked(1) keys by (metis mset_map)
  then show "distinct (map rk_topic ?ranked)" using totals(1) mset_eq_imp_distinct_iff by blast
  have "rk_topic ` set ?ranked = set (om_keys table)" using ranked(2) keys by (metis image_set)
  then show "t \<in> rk_topic ` set ?ranked \<longleftrightarrow> t \<noteq> [] \<and> ?ok t \<and> sightings_of t ?ss \<noteq> []" for t
    using totals(2) [of t] by (simp add: om_has_iff del: map_of_eq_None_iff)
  show "sorted_wrt (\<lambda>a b. ranked_topic_cmp lc a b \<le> 0) ?ranked"
    unfolding rank_topics_from_snapshots_def
    by (intro comparator.sorted_js_sort comparator_ranked_topic assms)
  fix r assume "r \<in> set ?ranked"
  then obtain k a where r: "(k, a) \<in> set table" "r = to_ranked_topic (k, a)" using ranked(2) by auto
  then have a: "map_of table k = Some a" using totals(1) by simp
  then have "sightings_of k ?ss \<noteq> []" using totals(2) [of k] by simp
  then show "rk_score r = score_total (sightings_of (rk_topic r) ?ss) / weight_total (sightings_of (rk_topic r) ?ss)"
    using totals(3) [OF a] weight_total_pos [of k requested_at rows] by (auto simp: r to_ranked_topic_def Let_def)
qed

text \<open>
  C24. Ranking the topics of the trend snapshots lists every topic exactly once that the globs accept and
  some well-formed snapshot mentions, with the mean of its scores weighted by the recency of their
  snapshots; given a consistent \<open>localeCompare\<close>, the list is sorted by score, then by the most recent snapshot, then by name.
\<close>

theorem rank_topics_from_snapshots_spec:
  assumes "comparator lc"
  shows "distinct (map rk_topic (rank_topics_from_snapshots lc rows requested_at gs)) \<and>
    (\<forall>t. t \<in> rk_topic ` set (rank_topics_from_snapshots lc rows requested_at gs) \<longleftrightarrow>
      t \<noteq> [] \<and> glob_set_matches gs t \<and> sightings_of t (sightings requested_at rows) \<noteq> []) \<and>
    (\<forall>r \<in> set (rank_topics_from_snapshots lc rows requested_at gs). rk_score r =
      score_total (sightings_of (rk_topic r) (sightings requested_at rows)) /
      weight_total (sightings_of (rk_topic r) (sightings requested_at rows))) \<and>
    sorted_wrt (\<lambda>a b. ranked_topic_cmp lc a b \<le> 0)
      (rank_topics_from_snapshots lc rows requested_at gs)"
  by (rule ranked_topics [OF assms])

definition sample_row :: snapshot_row where
  "sample_row = \<lparr>generated_at = 0, parsed_topics = Some [\<lparr>snap_topic = ''ai '', snap_score = 3, snap_volume = 0, snap_acceleration = 0\<rparr>]\<rparr>"

theorem rank_topics_from_snapshots_spec_witness:
  "\<exists>r \<in> set (rank_topics_from_snapshots (\<lambda>_ _. 0) [sample_row] 0 \<lparr>globs = [], glob_matchers = [Bol]\<rparr>).
     rk_topic r = ''ai'' \<and> rk_score r = 3"
proof -
  let ?ranked = "rank_topics_from_snapshots (\<lambda>_ _. 0) [sample_row] 0 \<lparr>globs = [], glob_matchers = [Bol]\<rparr>"
  have c: "comparator (\<lambda>_ _. 0 :: int)" by unfold_locales simp_all
  have "glob_set_matches \<lparr>globs = [], glob_matchers = [Bol]\<rparr> ''ai''" by code_simp
  moreover have s: "sightings_of ''ai'' (sightings 0 [sample_row]) = sightings 0 [sample_row]"
    by (simp add: sightings_of_def sightings_def sample_row_def default_def trim_def trim_start_def trim_end_def is_ws_def)
  moreover have ne: "sightings 0 [sample_row] = [(1, 0, \<lparr>snap_topic = ''ai '', snap_score = 3, snap_volume = 0, snap_acceleration = 0\<rparr>)]"
    by (simp add: sightings_def sample_row_def default_def compute_recent_weight_def)
  ultimately have "''ai'' \<in> rk_topic ` set ?ranked"
    using rank_topics_from_snapshots_spec [OF c, where gs = "\<lparr>globs = [], glob_matchers = [Bol]\<rparr>"] by auto
  then obtain r where r: "r \<in> set ?ranked" "rk_topic r = ''ai''" by auto
  moreover have "rk_score r = 3"
    using rank_topics_from_snapshots_spec [OF c] r s ne by (fastforce simp: score_total_def weight_total_def)
  ultimately show ?thesis by blast
qed

end
