(* ===== verification/JsDate.thy ===== *)
theory JsDate
  imports JsBase
begin

section \<open>Dates\<close>

text \<open>
  A date is its time value, the milliseconds since the start of 1970 in UTC. The calendar is the
  proleptic Gregorian one; \<open>civil_from_days\<close> counts days from 1 March of year 0 in eras of 400 years.
\<close>

definition ms_per_day :: int where
  "ms_per_day = 86400000"

definition day_number :: "int \<Rightarrow> int" where
  "day_number t = t div ms_per_day"

definition civil_from_days :: "int \<Rightarrow> int \<times> int \<times> int" where
  "civil_from_days d =
     (let z = d + 719468; era = z div 146097; doe = z mod 146097;
          yoe = (doe - doe div 1460 + doe div 36524 - doe div 146096) div 365;
          doy = doe - (365 * yoe + yoe div 4 - yoe div 100);
          mp = (5 * doy + 2) div 153;
          day = doy - (153 * mp + 2) div 5 + 1;
          month = (if mp < 10 then mp + 3 else mp - 9)
      in (yoe + era * 400 + (if month \<le> 2 then 1 else 0), month, day))"

definition days_from_civil :: "int \<Rightarrow> int \<Rightarrow> int \<Rightarrow> int" where
  "days_from_civil y m d =
     (let y' = (if m \<le> 2 then y - 1 else y); era = y' div 400; yoe = y' mod 400;
          doy = (153 * (if m > 2 then m - 3 else m + 9) + 2) div 5 + d - 1;
          doe = yoe * 365 + yoe div 4 - yoe div 100 + doy
      in era * 146097 + doe - 719468)"

definition pad :: "nat \<Rightarrow> int \<Rightarrow> string" where
  "pad n i = (let s = nat_str (nat i) in replicate (n - length s) CHR ''0'' @ s)"

definition year_str :: "int \<Rightarrow> string" where
  "year_str y = (if 0 \<le> y \<and> y \<le> 9999 then pad 4 y
     else (if y < 0 then CHR ''-'' else CHR ''+'') # pad 6 \<bar>y\<bar>)"

definition to_iso_string :: "int \<Rightarrow> string" where
  "to_iso_string t =
     (let (y, m, d) = civil_from_days (day_number t); ms = t mod ms_per_day in
      year_str y @ ''-'' @ pad 2 m @ ''-'' @ pad 2 d @ ''T'' @ pad 2 (ms div 3600000) @ '':'' @
      pad 2 (ms div 60000 mod 60) @ '':'' @ pad 2 (ms div 1000 mod 60) @ ''.'' @ pad 3 (ms mod 1000) @ ''Z'')"

text \<open>\<open>getUTCDay\<close>: Sunday is 0; 1 January 1970 was a Thursday.\<close>

definition get_utc_day :: "int \<Rightarrow> nat" where
  "get_utc_day t = nat ((day_number t + 4) mod 7)"

text \<open>\<open>Math.round\<close>.\<close>

definition math_round :: "rat \<Rightarrow> int" where
  "math_round x = \<lfloor>x + 1 / 2\<rfloor>"

lemma get_utc_day_less: "get_utc_day t < 7"
  by (simp add: get_utc_day_def)

lemma to_iso_string_examples:
  "to_iso_string 0 = ''1970-01-01T00:00:00.000Z''"
  "to_iso_string 951868799999 = ''2000-02-29T23:59:59.999Z''"
  "to_iso_string (- 1) = ''1969-12-31T23:59:59.999Z''"
  by code_simp+

lemma days_from_civil_examples:
  "days_from_civil 1970 1 1 = 0" "days_from_civil 2000 2 29 = 11016" "civil_from_days 11016 = (2000, 2, 29)"
  by code_simp+

end
