(* ===== verification/Hydration.thy ===== *)
theory Hydration
  imports Events JsRegex JsSort
begin

section \<open>Preparing an event for storage (packages/pipeline/src/hydration/raw-event-enrichment.ts)\<close>

text \<open>
  Before an event is stored or counted, its URL is normalised, placeholder texts are replaced, its
  language and topics are inferred where they are missing, and a record of its quality is added to
  its source meta data.

  A URL is the record the \<open>URL\<close> class exposes. Its parser and the codec of query strings are
  parameters; the setters the code calls and the serialiser are written out for the two protocols
  that pass the guard.
\<close>

subsection \<open>URLs\<close>

record url =
  protocol :: string
  credentials :: string
  hostname :: string
  port :: string
  pathname :: string
  query :: "string option"
  fragment :: "string option"

record url_api =
  url_parse :: "string \<Rightarrow> url option"
  query_parse :: "string \<Rightarrow> (string \<times> string) list"
  query_serialize :: "(string \<times> string) list \<Rightarrow> string"

definition url_to_string :: "url \<Rightarrow> string" where
  "url_to_string u =
     protocol u @ ''//'' @ credentials u @ hostname u @ (if port u = [] then [] else '':'' @ port u) @ pathname u @
     (case query u of None \<Rightarrow> [] | Some q \<Rightarrow> ''?'' @ q) @ (case fragment u of None \<Rightarrow> [] | Some f \<Rightarrow> ''#'' @ f)"

text \<open>A host that is empty leaves the URL as it is; an empty path becomes the root.\<close>

definition set_hostname :: "string \<Rightarrow> url \<Rightarrow> url" where
  "set_hostname h u = (if h = [] then u else u\<lparr>hostname := h\<rparr>)"

definition set_pathname :: "string \<Rightarrow> url \<Rightarrow> url" where
  "set_pathname p u = u\<lparr>pathname := if p = [] then ''/'' else p\<rparr>"

text \<open>\<open>searchParams\<close>: a list read from the query once; every update writes it back to the query.\<close>

definition search_params :: "url_api \<Rightarrow> url \<Rightarrow> (string \<times> string) list" where
  "search_params api u = (case query u of None \<Rightarrow> [] | Some q \<Rightarrow> query_parse api q)"

definition update_query :: "url_api \<Rightarrow> (string \<times> string) list \<Rightarrow> url \<Rightarrow> url" where
  "update_query api ps u = u\<lparr>query := if ps = [] then None else Some (query_serialize api ps)\<rparr>"

type_synonym params = "(string \<times> string) list"

definition params_delete :: "url_api \<Rightarrow> string \<Rightarrow> params \<times> url \<Rightarrow> params \<times> url" where
  "params_delete api k = (\<lambda>(ps, u). let ps' = filter (\<lambda>p. fst p \<noteq> k) ps in (ps', update_query api ps' u))"

definition params_sort :: "url_api \<Rightarrow> params \<times> url \<Rightarrow> params \<times> url" where
  "params_sort api = (\<lambda>(ps, u).
     let ps' = js_sort (\<lambda>p q. code_unit_cmp (fst p) (fst q)) ps in (ps', update_query api ps' u))"

subsection \<open>Normalising a URL\<close>

definition tracking_query_param_keys :: "string list" where
  "tracking_query_param_keys =
     [''fbclid'', ''gclid'', ''dclid'', ''msclkid'', ''igshid'', ''mc_cid'', ''mc_eid'', ''ref_src'']"

definition is_tracking_param_key :: "string \<Rightarrow> bool" where
  "is_tracking_param_key k \<longleftrightarrow>
     (let normalized = to_lower k in starts_with normalized ''utm_'' \<or> normalized \<in> set tracking_query_param_keys)"

definition slug_char :: "char \<Rightarrow> bool" where
  "slug_char c \<longleftrightarrow> (let n = (of_char c :: nat) in 97 \<le> n \<and> n \<le> 122 \<or> 48 \<le> n \<and> n \<le> 57 \<or> c = CHR ''-'')"

definition url_typo_re :: re where
  "url_typo_re = ci (cats [lit ''.com'', lit ''about-'', plus_re (Cls slug_char), lit ''/''])"

text \<open>The first group of the expression is the four characters of \<open>.com\<close>.\<close>

definition repair_known_url_typos :: "string \<Rightarrow> string" where
  "repair_known_url_typos raw = re_replace_g url_typo_re (\<lambda>m. take 4 m @ ''/'' @ drop 4 m) raw"

record url_normalization_result =
  normalized_url :: "string option"
  normalized :: bool
  invalid :: bool
  original_url :: "string option"
  issue_codes :: "string list"

text \<open>Each rewriting step takes the URL and the codes so far.\<close>

type_synonym url_step = "url \<times> string list \<Rightarrow> url \<times> string list"

definition strip_www :: url_step where
  "strip_www = (\<lambda>(u, codes).
     let u = set_hostname (to_lower (hostname u)) u in
     if starts_with (hostname u) ''www.''
     then (set_hostname (drop 4 (hostname u)) u, codes @ [''stripped_www_prefix''])
     else (u, codes))"

definition drop_default_port :: url_step where
  "drop_default_port = (\<lambda>(u, codes).
     if port u = ''80'' \<and> protocol u = ''http:'' then (u\<lparr>port := []\<rparr>, codes @ [''removed_default_port''])
     else if port u = ''443'' \<and> protocol u = ''https:'' then (u\<lparr>port := []\<rparr>, codes @ [''removed_default_port''])
     else (u, codes))"

fun delete_tracking_params :: "url_api \<Rightarrow> string list \<Rightarrow> params \<times> url \<Rightarrow> bool \<Rightarrow> (params \<times> url) \<times> bool" where
  "delete_tracking_params api [] pu removed = (pu, removed)"
| "delete_tracking_params api (k # ks) pu removed =
     (if is_tracking_param_key k then delete_tracking_params api ks (params_delete api k pu) True
      else delete_tracking_params api ks pu removed)"

definition drop_tracking_params :: "url_api \<Rightarrow> url_step" where
  "drop_tracking_params api = (\<lambda>(u, codes).
     let ps = search_params api u in
     case delete_tracking_params api (map fst ps) (ps, u) False of
       (pu, removed) \<Rightarrow>
         (snd (params_sort api pu), if removed then codes @ [''removed_tracking_query_params''] else codes))"

definition drop_fragment :: url_step where
  "drop_fragment = (\<lambda>(u, codes).
     if (case fragment u of None \<Rightarrow> False | Some f \<Rightarrow> f \<noteq> [])
     then (u\<lparr>fragment := None\<rparr>, codes @ [''removed_fragment'']) else (u, codes))"

definition strip_trailing_slashes :: "string \<Rightarrow> string" where
  "strip_trailing_slashes s = rev (dropWhile (\<lambda>c. c = CHR ''/'') (rev s))"

definition trim_trailing_slash :: url_step where
  "trim_trailing_slash = (\<lambda>(u, codes).
     if pathname u \<noteq> ''/'' \<and> ends_with (pathname u) ''/''
     then (set_pathname (strip_trailing_slashes (pathname u)) u, codes @ [''trimmed_trailing_slash''])
     else (u, codes))"

definition rewrite_url :: "url_api \<Rightarrow> url \<Rightarrow> string list \<Rightarrow> url \<times> string list" where
  "rewrite_url api parsed codes =
     (case trim_trailing_slash (drop_fragment (drop_tracking_params api (drop_default_port (strip_www (parsed, codes))))) of
        (u, cs) \<Rightarrow> (u, if hostname parsed \<noteq> hostname u then cs @ [''normalized_hostname''] else cs))"

definition invalid_url_result :: "string \<Rightarrow> string list \<Rightarrow> url_normalization_result" where
  "invalid_url_result raw codes =
     \<lparr>normalized_url = None, normalized = False, invalid = True, original_url = Some raw, issue_codes = codes\<rparr>"

definition normalize_url :: "url_api \<Rightarrow> string option \<Rightarrow> url_normalization_result" where
  "normalize_url api raw_url =
     (case raw_url of
        None \<Rightarrow> \<lparr>normalized_url = None, normalized = False, invalid = False, original_url = None, issue_codes = []\<rparr>
      | Some raw \<Rightarrow>
          if raw = [] then \<lparr>normalized_url = None, normalized = False, invalid = False, original_url = None, issue_codes = []\<rparr>
          else
            let trimmed = trim raw in
            if length trimmed = 0 then invalid_url_result raw [''empty_url'']
            else
              let repaired = repair_known_url_typos trimmed;
                  codes = (if repaired \<noteq> trimmed then [''repaired_known_url_typo''] else []) in
              case url_parse api repaired of
                None \<Rightarrow> invalid_url_result raw (codes @ [''invalid_url_parse''])
              | Some parsed \<Rightarrow>
                  if protocol parsed \<noteq> ''http:'' \<and> protocol parsed \<noteq> ''https:''
                  then invalid_url_result raw (codes @ [''unsupported_url_protocol''])
                  else if hostname parsed = [] then invalid_url_result raw (codes @ [''missing_url_hostname''])
                  else
                    let (u, codes') = rewrite_url api parsed codes; result = url_to_string u in
                    \<lparr>normalized_url = Some result,
                     normalized = result \<noteq> url_to_string parsed \<or> repaired \<noteq> trimmed,
                     invalid = False,
                     original_url = (if result \<noteq> raw then Some raw else None),
                     issue_codes = codes'\<rparr>)"

subsection \<open>Language, text and topics\<close>

text \<open>\<open>replaceAll('_', '-')\<close>.\<close>

definition normalize_language_tag :: "string \<Rightarrow> string" where
  "normalize_language_tag value = map (\<lambda>c. if c = CHR ''_'' then CHR ''-'' else c) (to_lower (trim value))"

fun first_language :: "json option list \<Rightarrow> string option" where
  "first_language [] = None"
| "first_language (c # cs) =
     (case c of
        Some (JStr s) \<Rightarrow> if length (trim s) > 0 then Some (normalize_language_tag s) else first_language cs
      | _ \<Rightarrow> first_language cs)"

definition infer_language_from_source_meta :: "json_object option \<Rightarrow> string option" where
  "infer_language_from_source_meta meta =
     (case meta of
        None \<Rightarrow> None
      | Some m \<Rightarrow> first_language [map_of m ''lang'', map_of m ''language'', map_of m ''locale''])"

definition english_stopwords :: "string list" where
  "english_stopwords =
     [''the'', ''and'', ''for'', ''with'', ''from'', ''that'', ''this'', ''are'', ''was'', ''were'', ''have'',
      ''has'', ''will'', ''into'', ''about'', ''over'', ''more'', ''new'', ''than'']"

definition ascii_letter :: "char \<Rightarrow> bool" where
  "ascii_letter c \<longleftrightarrow> (let n = (of_char c :: nat) in 97 \<le> n \<and> n \<le> 122)"

definition non_ascii :: "char \<Rightarrow> bool" where
  "non_ascii c \<longleftrightarrow> (of_char c :: nat) > 127"

fun stopword_hits :: "string \<Rightarrow> nat \<Rightarrow> string list \<Rightarrow> nat" where
  "stopword_hits combined hits [] = hits"
| "stopword_hits combined hits (w # ws) =
     (let hits' = (if str_includes combined ('' '' @ w @ '' '') then hits + 1 else hits) in
      if hits' \<ge> 2 then hits' else stopword_hits combined hits' ws)"

definition infer_english_language_heuristic :: "string option \<Rightarrow> string \<Rightarrow> string option" where
  "infer_english_language_heuristic ttl text =
     (let combined = to_lower (take 5000 (default [] ttl @ '' '' @ text));
          letter_count = length (filter ascii_letter combined);
          non_ascii_count = length (filter non_ascii combined);
          non_ascii_ratio = (if length combined > 0 then of_nat non_ascii_count / of_nat (length combined) else 0 :: rat)
      in if letter_count < 20 then None
         else if non_ascii_ratio \<le> 5 / 100 \<and> stopword_hits combined 0 english_stopwords \<ge> 2 then Some ''en''
         else None)"

definition comments_only_re :: re where
  "comments_only_re = ci (cats [Bol, lit ''comment'', opt (lit ''s''), Eol])"

definition url_only_re :: re where
  "url_only_re = ci (cats [Bol, lit ''http'', opt (lit ''s''), lit ''://'', plus_re (Cls (\<lambda>c. \<not> is_ws c)), Eol])"

record normalized_text =
  nt_text :: string
  nt_low_information :: bool
  nt_issue_codes :: "string list"

definition normalize_text :: "string \<Rightarrow> string option \<Rightarrow> normalized_text" where
  "normalize_text text ttl =
     (let trimmed = trim text;
          comments_only = re_test comments_only_re trimmed;
          url_only = re_test url_only_re trimmed;
          very_short = length trimmed < 40;
          has_title = truthy ttl;
          (new_text, codes) =
            (if comments_only \<and> has_title then (the ttl, [''comments_placeholder_replaced_with_title''])
             else if url_only \<and> has_title then (the ttl @ [CHR 0x0A] @ trimmed, [''url_only_text_padded_with_title''])
             else if length trimmed = 0 \<and> has_title then (the ttl, [''blank_text_replaced_with_title''])
             else (text, []))
      in \<lparr>nt_text = new_text, nt_low_information = comments_only \<or> url_only \<or> very_short,
          nt_issue_codes = codes @ (if comments_only then [''comments_placeholder_text''] else []) @
            (if url_only then [''url_only_text''] else []) @ (if very_short then [''very_short_text''] else [])\<rparr>)"

text \<open>\<open>\\bword\\b\<close>; the flag \<open>i\<close> is added to every pattern.\<close>

definition bounded :: "re list \<Rightarrow> re" where
  "bounded rs = cats ([Wb] @ rs @ [Wb])"

definition word_re :: "string \<Rightarrow> re" where
  "word_re w = bounded [lit w]"

definition topic_inference_rules :: "(string \<times> re list) list" where
  "topic_inference_rules = map (\<lambda>(k, rs). (k, map ci rs))
     [(''ai.openai'', [word_re ''openai'', word_re ''chatgpt'', cats [Wb, lit ''gpt'', opt (lit ''-''), Cls digit]]),
      (''ai.anthropic'', [word_re ''anthropic'', word_re ''claude'']),
      (''ai.google'', [word_re ''gemini'', word_re ''google ai'', word_re ''deepmind'', word_re ''vertex ai'']),
      (''ai.agents'', [word_re ''agentic'', bounded [lit ''ai agent'', opt (lit ''s'')], bounded [lit ''agent'', opt (lit ''s'')]]),
      (''ai.llm'', [bounded [lit ''llm'', opt (lit ''s'')], lit ''large language model'']),
      (''aws.bedrock'', [word_re ''bedrock'']),
      (''aws.s3'', [word_re ''s3'']),
      (''aws.ec2'', [word_re ''ec2'']),
      (''aws.lambda'', [word_re ''lambda'']),
      (''aws.eks'', [word_re ''eks'', word_re ''elastic kubernetes'']),
      (''aws.sagemaker'', [word_re ''sagemaker'']),
      (''aws.general'', [word_re ''aws'', lit ''amazon web services'']),
      (''dev.github'', [word_re ''github'', lit ''github.com'']),
      (''framework.react'', [word_re ''react'', word_re ''next.js'']),
      (''lang.python'', [word_re ''python'', word_re ''pandas'', word_re ''numpy'']),
      (''lang.rust'', [word_re ''rust'', word_re ''cargo'', bounded [lit ''crate'', opt (lit ''s'')]]),
      (''data.kafka'', [word_re ''kafka'', word_re ''redpanda'']),
      (''cloud.azure'', [word_re ''azure'', word_re ''microsoft foundry'']),
      (''apple.xcode'', [word_re ''xcode'']),
      (''apple.macos'', [word_re ''macos'',
         bounded [alts [lit ''sequoia'', lit ''sonoma'', lit ''ventura'', lit ''monterey'', lit ''catalina'']]]),
      (''apple.ecosystem'', [word_re ''apple'', word_re ''iphone'', word_re ''ipad'',
         bounded [lit ''mac'', opt (lit ''book'')], word_re ''apple watch'', word_re ''vision pro'',
         word_re ''airpods'', word_re ''homepod'']),
      (''security.general'', [bounded [lit ''cve-'', rep_between 4 4 (Cls digit), lit ''-'', plus_re (Cls digit)],
         word_re ''vulnerability'', bounded [lit ''zero'', Cls (\<lambda>c. c = CHR ''-'' \<or> c = CHR '' ''), lit ''day''],
         word_re ''exploit'', word_re ''rce''])]"

definition max_inferred_topics :: nat where
  "max_inferred_topics = 5"

fun infer_topics_loop :: "string \<Rightarrow> string list \<Rightarrow> (string \<times> re list) list \<Rightarrow> string list" where
  "infer_topics_loop content inferred [] = inferred"
| "infer_topics_loop content inferred (r # rs) =
     (let inferred' = (if list_ex (\<lambda>p. re_test p content) (snd r) then inferred @ [fst r] else inferred) in
      if length inferred' \<ge> max_inferred_topics then inferred' else infer_topics_loop content inferred' rs)"

definition infer_topics :: "string \<Rightarrow> string list" where
  "infer_topics content = infer_topics_loop content [] topic_inference_rules"

subsection \<open>The event\<close>

definition normalize_tag_list :: "string list \<Rightarrow> string list" where
  "normalize_tag_list ts = js_set (filter (\<lambda>t. length t > 0) (map trim ts))"

datatype lang_inference_method = FromSourceMeta | HeuristicEn

record ri_quality_metadata =
  stale_event :: bool
  stale_age_hours :: "rat option"
  published_in_future :: bool
  invalid_url :: bool
  q_normalized_url :: bool
  q_original_url :: "string option"
  url_issue_codes :: "string list option"
  low_information_text :: bool
  text_issue_codes :: "string list option"
  inferred_topics :: bool
  inferred_topic_count :: nat
  inferred_lang :: bool
  lang_inference_method_of :: "lang_inference_method option"

text \<open>\<open>withoutUndefined\<close> on the quality record.\<close>

definition field :: "string \<Rightarrow> json option \<Rightarrow> json_object" where
  "field k v = (case v of None \<Rightarrow> [] | Some j \<Rightarrow> [(k, j)])"

definition quality_json :: "ri_quality_metadata \<Rightarrow> json_object" where
  "quality_json q =
     [(''schema_version'', JNum 1), (''stale_event'', JBool (stale_event q))] @
     field ''stale_age_hours'' (map_option JNum (stale_age_hours q)) @
     [(''published_in_future'', JBool (published_in_future q)), (''invalid_url'', JBool (invalid_url q)),
      (''normalized_url'', JBool (q_normalized_url q))] @
     field ''original_url'' (map_option JStr (q_original_url q)) @
     field ''url_issue_codes'' (map_option (\<lambda>cs. JArr (map JStr cs)) (url_issue_codes q)) @
     [(''low_information_text'', JBool (low_information_text q))] @
     field ''text_issue_codes'' (map_option (\<lambda>cs. JArr (map JStr cs)) (text_issue_codes q)) @
     [(''inferred_topics'', JBool (inferred_topics q)),
      (''inferred_topic_count'', JNum (of_nat (inferred_topic_count q))),
      (''inferred_lang'', JBool (inferred_lang q))] @
     field ''lang_inference_method'' (map_option (\<lambda>m. JStr (case m of
       FromSourceMeta \<Rightarrow> ''source_meta'' | HeuristicEn \<Rightarrow> ''heuristic_en'')) (lang_inference_method_of q))"

definition build_merged_source_meta :: "json_object option \<Rightarrow> ri_quality_metadata \<Rightarrow> json_object" where
  "build_merged_source_meta meta q =
     (let base = (case meta of Some m \<Rightarrow> m | None \<Rightarrow> []) in
      om_set (om_del base ''ri_quality'') ''ri_quality'' (JObj (quality_json q)))"

record prepared_raw_event = "json_object parsed_raw_event" +
  ev_topics :: "string list"

definition stale_event_threshold_ms :: int where
  "stale_event_threshold_ms = 30 * 24 * 60 * 60 * 1000"

text \<open>\<open>Number(x.toFixed(2))\<close> on a positive number: the nearest hundredth, upwards in the middle.\<close>

definition to_fixed_2 :: "rat \<Rightarrow> rat" where
  "to_fixed_2 x = of_int \<lfloor>x * 100 + 1 / 2\<rfloor> / 100"

definition string_values :: "json option \<Rightarrow> string list" where
  "string_values v = (case v of
     Some (JArr js) \<Rightarrow> concat (map (\<lambda>j. case j of JStr s \<Rightarrow> [s] | _ \<Rightarrow> []) js) | _ \<Rightarrow> [])"

definition infer_lang ::
  "json_object parsed_raw_event \<Rightarrow> string \<Rightarrow> string option \<times> lang_inference_method option" where
  "infer_lang ev new_text =
     (let given = (if truthy (lang ev) then Some (normalize_language_tag (the (lang ev))) else None) in
      if truthy given then (given, None)
      else
        (case infer_language_from_source_meta (source_meta ev) of
           Some l \<Rightarrow> if l \<noteq> [] then (Some l, Some FromSourceMeta) else (given, None)
         | None \<Rightarrow> (case infer_english_language_heuristic (title ev) new_text of
               Some l \<Rightarrow> (Some l, Some HeuristicEn)
             | None \<Rightarrow> (given, None))))"

definition infer_tags ::
  "json_object parsed_raw_event \<Rightarrow> string \<Rightarrow> string option \<Rightarrow> string list \<times> bool" where
  "infer_tags ev new_text new_url =
     (let ts = normalize_tag_list (tags ev) in
      if length ts = 0 then
        let meta_tags = string_values (Option.bind (source_meta ev) (\<lambda>m. map_of m ''tags''));
            nl = [CHR 0x0A];
            haystack = default [] (title ev) @ nl @ new_text @ nl @ default [] new_url @ nl @ join '' '' meta_tags;
            inferred = infer_topics haystack
        in if length inferred > 0 then (inferred, True) else (ts, False)
      else (ts, False))"

definition non_empty :: "'a list \<Rightarrow> 'a list option" where
  "non_empty xs = (if length xs > 0 then Some xs else None)"

definition prepare_raw_event_for_persistence ::
  "url_api \<Rightarrow> json_object parsed_raw_event \<Rightarrow> prepared_raw_event" where
  "prepare_raw_event_for_persistence api ev =
     (let nurl = normalize_url api (event_url ev);
          ntext = normalize_text (event_text ev) (title ev);
          stale_ms = map_option (\<lambda>p. fetched_at ev - p) (published_at ev);
          (new_lang, how) = infer_lang ev (nt_text ntext);
          (final_tags, topics_inferred) = infer_tags ev (nt_text ntext) (normalized_url nurl);
          quality =
            \<lparr>stale_event = (case stale_ms of Some d \<Rightarrow> d > stale_event_threshold_ms | None \<Rightarrow> False),
             stale_age_hours = (case stale_ms of
                 Some d \<Rightarrow> if d > 0 then Some (to_fixed_2 (of_int d / (60 * 60 * 1000))) else None
               | None \<Rightarrow> None),
             published_in_future = (case published_at ev of Some p \<Rightarrow> p > fetched_at ev | None \<Rightarrow> False),
             invalid_url = invalid nurl, q_normalized_url = normalized nurl, q_original_url = original_url nurl,
             url_issue_codes = non_empty (issue_codes nurl),
             low_information_text = nt_low_information ntext,
             text_issue_codes = non_empty (nt_issue_codes ntext),
             inferred_topics = topics_inferred,
             inferred_topic_count = (if topics_inferred then length final_tags else 0),
             inferred_lang = how \<noteq> None, lang_inference_method_of = how\<rparr>
      in parsed_raw_event.extend
           (ev\<lparr>event_url := normalized_url nurl, event_text := nt_text ntext, lang := new_lang, tags := final_tags,
               source_meta := Some (build_merged_source_meta (source_meta ev) quality)\<rparr>)
           (prepared_raw_event.fields final_tags))"

subsection \<open>A rewritten URL is in normal form\<close>

definition clean_params :: "params \<Rightarrow> params" where
  "clean_params ps =
     js_sort (\<lambda>p q. code_unit_cmp (fst p) (fst q)) (filter (\<lambda>p. \<not> is_tracking_param_key (fst p)) ps)"

lemma comparator_fst: "comparator (\<lambda>p q. code_unit_cmp (fst p) (fst q))"
  by (rule comparator_on) (rule code_unit.comparator_axioms)

lemma clean_params_idem [simp]: "clean_params (clean_params ps) = clean_params ps"
proof -
  have "filter (\<lambda>p. \<not> is_tracking_param_key (fst p)) (clean_params ps) = clean_params ps"
    by (rule filter_id_conv [THEN iffD2]) (simp add: clean_params_def)
  then show ?thesis
    by (simp add: clean_params_def js_sort_sorted comparator.sorted_js_sort [OF comparator_fst])
qed

lemma mset_clean_params: "mset (clean_params ps) \<subseteq># mset ps"
  by (simp add: clean_params_def multiset_filter_subset)

lemma delete_tracking_params_eq:
  "\<exists>u'. delete_tracking_params api ks (ps, u) r =
     ((filter (\<lambda>p. \<not> (is_tracking_param_key (fst p) \<and> fst p \<in> set ks)) ps, u'), r \<or> list_ex is_tracking_param_key ks) \<and>
     (\<exists>q. u' = u\<lparr>query := q\<rparr>)"
proof (induction ks arbitrary: ps u r)
  case Nil
  show ?case by (intro exI [of _ u] conjI exI [of _ "query u"]) auto
next
  case (Cons k ks)
  show ?case
  proof (cases "is_tracking_param_key k")
    case True
    let ?ps = "filter (\<lambda>p. fst p \<noteq> k) ps"
    have f: "filter (\<lambda>p. \<not> (is_tracking_param_key (fst p) \<and> fst p \<in> set ks)) ?ps =
        filter (\<lambda>p. \<not> (is_tracking_param_key (fst p) \<and> fst p \<in> set (k # ks))) ps"
      using True by (auto intro: filter_cong)
    from Cons.IH [of ?ps "update_query api ?ps u" True] obtain u' q where
      "delete_tracking_params api ks (?ps, update_query api ?ps u) True =
        ((filter (\<lambda>p. \<not> (is_tracking_param_key (fst p) \<and> fst p \<in> set ks)) ?ps, u'), True)"
      "u' = (update_query api ?ps u)\<lparr>query := q\<rparr>" by auto
    then show ?thesis using True f by (auto simp: params_delete_def Let_def update_query_def)
  next
    case False
    then have "filter (\<lambda>p. \<not> (is_tracking_param_key (fst p) \<and> fst p \<in> set (k # ks))) ps =
        filter (\<lambda>p. \<not> (is_tracking_param_key (fst p) \<and> fst p \<in> set ks)) ps"
      by (auto intro: filter_cong)
    then show ?thesis using False Cons.IH [of ps u r] by simp
  qed
qed

lemma drop_tracking_params_eq:
  "drop_tracking_params api (u, codes) =
     (update_query api (clean_params (search_params api u)) u,
      if list_ex is_tracking_param_key (map fst (search_params api u))
      then codes @ [''removed_tracking_query_params''] else codes)"
proof -
  let ?ps = "search_params api u"
  obtain u' q where d: "delete_tracking_params api (map fst ?ps) (?ps, u) False =
      ((filter (\<lambda>p. \<not> (is_tracking_param_key (fst p) \<and> fst p \<in> set (map fst ?ps))) ?ps, u'),
       list_ex is_tracking_param_key (map fst ?ps))" "u' = u\<lparr>query := q\<rparr>"
    using delete_tracking_params_eq [of api "map fst ?ps" ?ps u False] by auto
  moreover have "filter (\<lambda>p. \<not> (is_tracking_param_key (fst p) \<and> fst p \<in> set (map fst ?ps))) ?ps =
      filter (\<lambda>p. \<not> is_tracking_param_key (fst p)) ?ps"
    by (rule filter_cong) auto
  ultimately show ?thesis
    by (simp add: drop_tracking_params_def params_sort_def Let_def update_query_def clean_params_def)
qed

definition norm_host :: "string \<Rightarrow> string" where
  "norm_host h = (let l = to_lower h in if starts_with l ''www.'' \<and> drop 4 l \<noteq> [] then drop 4 l else l)"

definition norm_port :: "url \<Rightarrow> string" where
  "norm_port u = (if port u = ''80'' \<and> protocol u = ''http:'' \<or> port u = ''443'' \<and> protocol u = ''https:'' then [] else port u)"

definition norm_path :: "string \<Rightarrow> string" where
  "norm_path p = (if strip_trailing_slashes p = [] \<and> p \<noteq> [] then ''/'' else strip_trailing_slashes p)"

lemma ends_with_slash: "ends_with p ''/'' \<longleftrightarrow> p \<noteq> [] \<and> last p = CHR ''/''"
  by (cases p rule: rev_cases) (simp_all add: ends_with_def starts_with_def)

lemma strip_trailing_slashes_snoc [simp]:
  "strip_trailing_slashes (p @ [c]) = (if c = CHR ''/'' then strip_trailing_slashes p else p @ [c])"
  "strip_trailing_slashes [] = []"
  by (simp_all add: strip_trailing_slashes_def)

lemma strip_trailing_slashes_last: "strip_trailing_slashes p \<noteq> [] \<Longrightarrow> last (strip_trailing_slashes p) \<noteq> CHR ''/''"
  by (induction p rule: rev_induct) auto

lemma trim_trailing_slash_fst: "fst (trim_trailing_slash (u, c)) = u\<lparr>pathname := norm_path (pathname u)\<rparr>"
proof (cases "pathname u" rule: rev_cases)
  case (snoc p c)
  have "strip_trailing_slashes ''/'' = []" by (simp add: strip_trailing_slashes_def)
  with snoc show ?thesis
    by (auto simp: trim_trailing_slash_def norm_path_def ends_with_slash set_pathname_def)
qed (simp add: trim_trailing_slash_def norm_path_def ends_with_slash)

lemma strip_www_eq:
  "hostname u \<noteq> [] \<Longrightarrow> strip_www (u, codes) =
     (u\<lparr>hostname := norm_host (hostname u)\<rparr>,
      if starts_with (to_lower (hostname u)) ''www.'' then codes @ [''stripped_www_prefix''] else codes)"
proof -
  assume "hostname u \<noteq> []"
  then have "to_lower (hostname u) \<noteq> []" by (metis length_0_conv length_to_lower)
  then show ?thesis by (auto simp: strip_www_def norm_host_def set_hostname_def Let_def)
qed

definition norm_fragment :: "string option \<Rightarrow> string option" where
  "norm_fragment f = (case f of Some (c # cs) \<Rightarrow> None | _ \<Rightarrow> f)"

text \<open>The whole rewriting, component by component.\<close>

definition normal_url :: "url_api \<Rightarrow> url \<Rightarrow> url" where
  "normal_url api u = (update_query api (clean_params (search_params api u)) u)
     \<lparr>hostname := norm_host (hostname u), port := norm_port u, pathname := norm_path (pathname u),
      fragment := norm_fragment (fragment u)\<rparr>"

lemma search_params_cong [simp]:
  "search_params api (u\<lparr>hostname := h\<rparr>) = search_params api u"
  "search_params api (u\<lparr>port := p\<rparr>) = search_params api u"
  by (simp_all add: search_params_def)

lemma drop_default_port_eq:
  "drop_default_port (u, codes) =
     (u\<lparr>port := norm_port u\<rparr>, if norm_port u \<noteq> port u then codes @ [''removed_default_port''] else codes)"
  by (auto simp: drop_default_port_def norm_port_def)

lemma drop_fragment_eq:
  "drop_fragment (u, codes) =
     (u\<lparr>fragment := norm_fragment (fragment u)\<rparr>, if norm_fragment (fragment u) \<noteq> fragment u then codes @ [''removed_fragment''] else codes)"
  by (auto simp: drop_fragment_def norm_fragment_def split: option.splits list.splits)

lemma trim_trailing_slash_eq:
  "trim_trailing_slash (u, codes) = (u\<lparr>pathname := norm_path (pathname u)\<rparr>,
     if pathname u \<noteq> ''/'' \<and> ends_with (pathname u) ''/'' then codes @ [''trimmed_trailing_slash''] else codes)"
  using trim_trailing_slash_fst [of u codes] by (auto simp: trim_trailing_slash_def)

lemma rewrite_url_eq:
  assumes "hostname u \<noteq> []"
  shows "rewrite_url api u codes =
    (normal_url api u,
     codes @ (if starts_with (to_lower (hostname u)) ''www.'' then [''stripped_www_prefix''] else [])
       @ (if norm_port u \<noteq> port u then [''removed_default_port''] else [])
       @ (if list_ex is_tracking_param_key (map fst (search_params api u)) then [''removed_tracking_query_params''] else [])
       @ (if norm_fragment (fragment u) \<noteq> fragment u then [''removed_fragment''] else [])
       @ (if pathname u \<noteq> ''/'' \<and> ends_with (pathname u) ''/'' then [''trimmed_trailing_slash''] else [])
       @ (if hostname u \<noteq> norm_host (hostname u) then [''normalized_hostname''] else []))"
  unfolding rewrite_url_def strip_www_eq [OF assms] drop_default_port_eq drop_tracking_params_eq drop_fragment_eq
    trim_trailing_slash_eq
  by (simp add: normal_url_def update_query_def norm_port_def)

lemma norm_host_nonempty: "h \<noteq> [] \<Longrightarrow> norm_host h \<noteq> []"
  unfolding norm_host_def Let_def by (metis length_0_conv length_to_lower)

lemma to_lower_drop: "to_lower (drop n s) = drop n (to_lower s)"
  by (simp add: to_lower_def drop_map)

lemma to_lower_norm_host [simp]: "to_lower (norm_host h) = norm_host h"
  by (simp add: norm_host_def Let_def to_lower_drop)

lemma norm_host_idem: "\<not> starts_with (norm_host h) ''www.'' \<Longrightarrow> norm_host (norm_host h) = norm_host h"
  by (simp add: norm_host_def [of "norm_host h"])

lemma norm_path_props: "norm_path p = ''/'' \<or> \<not> ends_with (norm_path p) ''/''"
  by (auto simp: norm_path_def ends_with_slash strip_trailing_slashes_last)

lemma strip_trailing_slashes_id: "\<not> ends_with p ''/'' \<Longrightarrow> strip_trailing_slashes p = p"
  by (cases p rule: rev_cases) (auto simp: ends_with_slash)

lemma norm_path_idem: "norm_path (norm_path p) = norm_path p"
proof (cases "norm_path p = ''/''")
  case True
  then show ?thesis by (simp add: norm_path_def strip_trailing_slashes_def)
next
  case False
  with norm_path_props [of p] have "strip_trailing_slashes (norm_path p) = norm_path p"
    by (simp add: strip_trailing_slashes_id)
  then show ?thesis by (simp add: norm_path_def [of "norm_path p"])
qed

text \<open>The part of the codec law that concerns the parameters of one URL.\<close>

definition codec_faithful :: "url_api \<Rightarrow> url \<Rightarrow> bool" where
  "codec_faithful api u \<longleftrightarrow>
     (\<forall>ps. mset ps \<subseteq># mset (search_params api u) \<and> ps \<noteq> [] \<longrightarrow> query_parse api (query_serialize api ps) = ps)"

lemma search_params_normal:
  "codec_faithful api u \<Longrightarrow> search_params api (normal_url api u) = clean_params (search_params api u)"
  by (auto simp: codec_faithful_def normal_url_def update_query_def search_params_def [of api "_\<lparr>fragment := _\<rparr>"]
      mset_clean_params)

text \<open>
  C28. Rewriting a URL brings it into a normal form: no tracking parameter is left and the parameters are
  sorted by name, there is no fragment, no default port and no trailing slash, and the host is in lower case. Rewriting the
  result again changes nothing and reports no issue, unless what is left of the host begins with \<open>www.\<close> once more.
\<close>

theorem rewrite_url_normal_form:
  assumes "hostname u \<noteq> []" and "codec_faithful api u" and "rewrite_url api u codes = (n, issues)"
  shows "\<not> list_ex is_tracking_param_key (map fst (search_params api n)) \<and>
    sorted_wrt (\<lambda>p q. code_unit_cmp (fst p) (fst q) \<le> 0) (search_params api n) \<and>
    fragment n \<in> {None, Some []} \<and> norm_port n = port n \<and>
    (pathname n = ''/'' \<or> \<not> ends_with (pathname n) ''/'') \<and> to_lower (hostname n) = hostname n \<and>
    (rewrite_url api n [] = (n, []) \<or> starts_with (hostname n) ''www.'')"
proof -
  have n: "n = normal_url api u" using assms(3) by (simp add: rewrite_url_eq [OF assms(1)])
  have sel: "hostname n = norm_host (hostname u)" "port n = norm_port u" "pathname n = norm_path (pathname u)"
    "fragment n = norm_fragment (fragment u)" "protocol n = protocol u"
    by (simp_all add: n normal_url_def update_query_def)
  have ps: "search_params api n = clean_params (search_params api u)" using n assms(2) by (simp add: search_params_normal)
  have untracked: "\<not> list_ex is_tracking_param_key (map fst (search_params api n))"
    by (simp add: ps clean_params_def list_ex_iff)
  have sorted: "sorted_wrt (\<lambda>p q. code_unit_cmp (fst p) (fst q) \<le> 0) (search_params api n)"
    unfolding ps clean_params_def by (rule comparator.sorted_js_sort [OF comparator_fst])
  have frag: "fragment n \<in> {None, Some []}" by (auto simp: sel norm_fragment_def split: option.splits list.splits)
  have port: "norm_port n = port n" by (auto simp: norm_port_def sel)
  have path: "pathname n = ''/'' \<or> \<not> ends_with (pathname n) ''/''" using norm_path_props by (simp add: sel)
  have host: "to_lower (hostname n) = hostname n" "hostname n \<noteq> []"
    using assms(1) by (simp_all add: sel norm_host_nonempty)
  have again: "rewrite_url api n [] = (n, [])" if "\<not> starts_with (hostname n) ''www.''"
  proof -
    have nh: "norm_host (hostname n) = hostname n" using that norm_host_idem by (simp add: sel)
    have nf: "norm_fragment (fragment n) = fragment n" using frag by (auto simp: norm_fragment_def)
    have np: "norm_path (pathname n) = pathname n" by (simp add: sel norm_path_idem)
    have "normal_url api n = n"
    proof -
      have "update_query api (clean_params (search_params api n)) n = n"
        unfolding ps by (simp add: n normal_url_def update_query_def)
      then show ?thesis by (simp add: normal_url_def nh nf np port)
    qed
    then show ?thesis
      using that untracked path host by (auto simp: rewrite_url_eq nh nf np port)
  qed
  from untracked sorted frag port path host(1) again show ?thesis by blast
qed

definition sample_api :: url_api where
  "sample_api =
     \<lparr>url_parse = (\<lambda>_. None), query_parse = (\<lambda>q. if q = ''a=1'' then [(''a'', ''1'')] else [(''utm_id'', ''x''), (''a'', ''1'')]),
      query_serialize = (\<lambda>ps. if ps = [(''a'', ''1'')] then ''a=1'' else ''utm_id=x&a=1'')\<rparr>"

definition sample_url :: url where
  "sample_url = \<lparr>protocol = ''https:'', credentials = [], hostname = ''www.Example.org'', port = [], pathname = ''/news/'',
     query = Some ''a=1'', fragment = Some ''top''\<rparr>"

theorem rewrite_url_normal_form_witness:
  "\<exists>n issues. rewrite_url sample_api sample_url [] = (n, issues) \<and> pathname n = ''/news'' \<and> hostname n = ''example.org'' \<and>
     rewrite_url sample_api n [] = (n, [])"
proof -
  obtain n issues where r: "rewrite_url sample_api sample_url [] = (n, issues)" by fastforce
  have h: "hostname sample_url \<noteq> []" by (simp add: sample_url_def)
  have sel: "n = normal_url sample_api sample_url" using r by (simp add: rewrite_url_eq [OF h])
  have "codec_faithful sample_api sample_url"
    by (auto simp: codec_faithful_def sample_url_def sample_api_def search_params_def
        dest: nonempty_subseteq_mset_eq_single [rotated])
  then have "rewrite_url sample_api n [] = (n, []) \<or> starts_with (hostname n) ''www.''"
    using rewrite_url_normal_form [OF h _ r] by blast
  moreover have "norm_host ''www.Example.org'' = ''example.org''" by code_simp
  then have "pathname n = ''/news''" "hostname n = ''example.org''"
    by (simp_all add: sel normal_url_def sample_url_def norm_path_def strip_trailing_slashes_def update_query_def)
  ultimately show ?thesis using r by (auto simp: starts_with_def)
qed

text \<open>Only one prefix is removed, so a host with two is not yet normal.\<close>

lemma strip_www_once:
  "strip_www (sample_url\<lparr>hostname := ''www.www.org''\<rparr>, []) = (sample_url\<lparr>hostname := ''www.org''\<rparr>, [''stripped_www_prefix''])"
  by (simp add: strip_www_def set_hostname_def sample_url_def to_lower_def lower_char_def starts_with_def)

subsection \<open>A prepared event\<close>

lemma infer_topics_loop_bound:
  "length acc < max_inferred_topics \<Longrightarrow> length (infer_topics_loop c acc rs) \<le> max_inferred_topics"
  by (induction rs arbitrary: acc) (auto simp: Let_def max_inferred_topics_def)

lemma infer_topics_loop_eq:
  "length acc < max_inferred_topics \<Longrightarrow>
   infer_topics_loop c acc rs =
     take max_inferred_topics (acc @ map fst (filter (\<lambda>r. list_ex (\<lambda>p. re_test p c) (snd r)) rs))"
proof (induction rs arbitrary: acc)
  case (Cons r rs)
  show ?case
  proof (cases "list_ex (\<lambda>p. re_test p c) (snd r)")
    case True
    have "length acc + 1 < max_inferred_topics \<or> max_inferred_topics - length acc = 1" using Cons.prems by auto
    with True Cons.prems Cons.IH [of "acc @ [fst r]"] show ?thesis by (auto simp: Let_def)
  next
    case False
    with Cons show ?thesis by (simp add: Let_def)
  qed
qed simp

lemma distinct_rule_keys: "distinct (map fst topic_inference_rules)"
  by (simp add: topic_inference_rules_def)

lemma infer_topics_eq:
  "infer_topics c = take max_inferred_topics (map fst (filter (\<lambda>r. list_ex (\<lambda>p. re_test p c) (snd r)) topic_inference_rules))"
  by (simp add: infer_topics_def infer_topics_loop_eq max_inferred_topics_def)

lemma distinct_infer_topics: "distinct (infer_topics c)"
  unfolding infer_topics_eq by (intro distinct_take) (rule distinct_map_filter [OF distinct_rule_keys])

text \<open>
  C29. A prepared event lists its topics once each, without blanks: the trimmed tags of the event when it has any,
  and otherwise at most five of the topics of the inference rules (which of them is not stated here).
\<close>

theorem prepared_topics:
  "let p = prepare_raw_event_for_persistence api ev in
   ev_topics p = tags p \<and> distinct (ev_topics p) \<and>
   (if normalize_tag_list (tags ev) = [] then length (ev_topics p) \<le> 5 \<and> set (ev_topics p) \<subseteq> fst ` set topic_inference_rules
    else set (ev_topics p) = {trim t |t. t \<in> set (tags ev) \<and> trim t \<noteq> []})"
proof -
  have tags: "distinct (normalize_tag_list ts)" "set (normalize_tag_list ts) = {trim t |t. t \<in> set ts \<and> trim t \<noteq> []}" for ts
    by (auto simp: normalize_tag_list_def)
  have inferred: "length (infer_topics c) \<le> 5" "set (infer_topics c) \<subseteq> fst ` set topic_inference_rules" for c
  proof -
    show "length (infer_topics c) \<le> 5" by (simp add: infer_topics_eq max_inferred_topics_def)
    show "set (infer_topics c) \<subseteq> fst ` set topic_inference_rules"
      unfolding infer_topics_eq by (rule subset_trans [OF set_take_subset]) auto
  qed
  define ts where "ts = fst (infer_tags ev (nt_text (normalize_text (event_text ev) (title ev))) (normalized_url (normalize_url api (event_url ev))))"
  have "ev_topics (prepare_raw_event_for_persistence api ev) = ts \<and> tags (prepare_raw_event_for_persistence api ev) = ts"
    by (simp add: prepare_raw_event_for_persistence_def ts_def Let_def parsed_raw_event.defs prepared_raw_event.defs split: prod.split)
  moreover have "distinct ts \<and> (if normalize_tag_list (tags ev) = [] then length ts \<le> 5 \<and> set ts \<subseteq> fst ` set topic_inference_rules
      else set ts = {trim t |t. t \<in> set (tags ev) \<and> trim t \<noteq> []})"
    using tags inferred distinct_infer_topics by (auto simp: ts_def infer_tags_def Let_def)
  ultimately show ?thesis by (simp add: Let_def)
qed

end
