(* ===== verification/TrendWindows.thy ===== *)
theory TrendWindows
  imports JsDate Hydration
begin

section \<open>Counting events in windows (apps/trends/src/redis.ts, event-preparation.ts, deserialize.ts)\<close>

text \<open>
  An event that mentions topics is counted once per window and topic by a Lua script that Redis runs
  as one step: it skips events it has seen in the largest window, counts every story once, and keeps
  the best events of a topic as evidence.

  Redis is a parameter: its commands, and what the code relies on of them, are the locale
  \<open>window_redis\<close>. A call may fail before the script has run, or after it, when only the reply is lost.
\<close>

subsection \<open>Events\<close>

datatype trend_window = W15m | W60m

definition window_name :: "trend_window \<Rightarrow> string" where
  "window_name w = (case w of W15m \<Rightarrow> ''15m'' | W60m \<Rightarrow> ''60m'')"

record trend_event = "json_object parsed_raw_event" +
  feed_priority :: rat
  tracked_topics :: "string list"

definition extract_feed_priority :: "json_object option \<Rightarrow> rat" where
  "extract_feed_priority meta =
     (case meta of
        None \<Rightarrow> 50
      | Some m \<Rightarrow> (case map_of m ''feed_priority'' of
            Some (JNum raw) \<Rightarrow> if raw \<ge> 1 then raw else 50
          | _ \<Rightarrow> 50))"

text \<open>\<open>deserializeRawEvent\<close> of the service: the shared one, a missing score is zero, and the priority is added.\<close>

definition deserialize_trend_event ::
  "json_object parsers \<Rightarrow> raw_event_wire option \<Rightarrow> event_error + trend_event" where
  "deserialize_trend_event ps value =
     map_sum id (\<lambda>ev. parsed_raw_event.extend
         (ev\<lparr>engagement_score := Some (default 0 (engagement_score ev))\<rparr>)
         (trend_event.fields (extract_feed_priority (source_meta ev)) []))
       (deserialize_raw_event ps value)"

definition to_persistence_input :: "trend_event \<Rightarrow> json_object parsed_raw_event" where
  "to_persistence_input ev =
     (parsed_raw_event.truncate ev)
       \<lparr>author_id := None, author_handle := None, author_display_name := None, engagement_comments := None,
        engagement_likes := None, engagement_shares := None, extracted_hashtags := []\<rparr>"

text \<open>\<open>filter_tracked_tags\<close> is \<open>filterTrackedTags\<close> with the allowlist.\<close>

definition prepare_trend_event ::
  "url_api \<Rightarrow> (string list \<Rightarrow> string list) \<Rightarrow> trend_event \<Rightarrow> trend_event" where
  "prepare_trend_event api filter_tracked_tags ev =
     (let p = prepare_raw_event_for_persistence api (to_persistence_input ev) in
      parsed_raw_event.extend
        ((parsed_raw_event.truncate p)
          \<lparr>engagement_score := (case engagement_score p of Some s \<Rightarrow> Some s | None \<Rightarrow> engagement_score ev)\<rparr>)
        (trend_event.fields (feed_priority ev) (filter_tracked_tags (ev_topics p))))"

definition is_event_fresh_enough_for_tracking :: "trend_event \<Rightarrow> int \<Rightarrow> bool" where
  "is_event_fresh_enough_for_tracking ev max_age_ms =
     (case published_at ev of
        None \<Rightarrow> True
      | Some p \<Rightarrow> let age_ms = fetched_at ev - p in if age_ms \<le> 0 then True else age_ms \<le> max_age_ms)"

subsection \<open>Keys and buckets\<close>

definition window_seconds :: "trend_window \<Rightarrow> int" where
  "window_seconds w = (case w of W15m \<Rightarrow> 15 * 60 | W60m \<Rightarrow> 60 * 60)"

definition bucket_ms :: "int \<Rightarrow> trend_window \<Rightarrow> int" where
  "bucket_ms t w = t div (window_seconds w * 1000) * (window_seconds w * 1000)"

definition get_bucket_start :: "int \<Rightarrow> trend_window \<Rightarrow> string" where
  "get_bucket_start t w = to_iso_string (bucket_ms t w)"

definition get_counter_key :: "trend_window \<Rightarrow> string \<Rightarrow> string \<Rightarrow> string" where
  "get_counter_key w topic bucket = ''window:'' @ window_name w @ '':'' @ topic @ '':'' @ bucket"

definition get_previous_counter_key :: "trend_window \<Rightarrow> string \<Rightarrow> string" where
  "get_previous_counter_key w topic = ''prev:'' @ window_name w @ '':'' @ topic"

definition get_evidence_key :: "trend_window \<Rightarrow> string \<Rightarrow> string" where
  "get_evidence_key w topic = ''evidence:'' @ window_name w @ '':'' @ topic"

definition get_story_urls_key :: "trend_window \<Rightarrow> string \<Rightarrow> string \<Rightarrow> string" where
  "get_story_urls_key w topic bucket = ''story_urls:'' @ window_name w @ '':'' @ topic @ '':'' @ bucket"

definition get_dedup_key :: "trend_window \<Rightarrow> string \<Rightarrow> string" where
  "get_dedup_key w bucket = ''dedup:'' @ window_name w @ '':'' @ bucket"

definition choose_dedup_window :: "trend_window list \<Rightarrow> trend_window" where
  "choose_dedup_window ws = hd (js_sort (\<lambda>a b. window_seconds b - window_seconds a) ws)"

subsection \<open>The commands and the script\<close>

datatype redis_link = LinkOk | LinkLost string | ReplyLost string

datatype read_command = GetKey string | RevRange string int int

datatype read_reply = Missing | Text string | Members "string list" | CommandError

record 'r redis_commands =
  r_link :: "'r \<Rightarrow> redis_link"
  r_tick :: "'r \<Rightarrow> 'r"
  r_exec_null :: "'r \<Rightarrow> bool"
  r_sadd :: "string \<Rightarrow> string \<Rightarrow> 'r \<Rightarrow> nat \<times> 'r"
  r_expire :: "string \<Rightarrow> int \<Rightarrow> 'r \<Rightarrow> 'r"
  r_incrby :: "string \<Rightarrow> int \<Rightarrow> 'r \<Rightarrow> 'r"
  r_zadd :: "string \<Rightarrow> int \<Rightarrow> string \<Rightarrow> 'r \<Rightarrow> 'r"
  r_zremrangebyrank :: "string \<Rightarrow> int \<Rightarrow> int \<Rightarrow> 'r \<Rightarrow> 'r"
  r_set :: "string \<Rightarrow> string \<Rightarrow> 'r \<Rightarrow> 'r"
  r_read :: "read_command \<Rightarrow> 'r \<Rightarrow> read_reply"

record window_plan =
  counter_key :: string
  counter_ttl_seconds :: int
  evidence_key :: string
  evidence_ttl_seconds :: int
  story_urls_key :: string
  story_urls_ttl_seconds :: int
  story_member :: string

record script_args =
  sa_dedup_key :: string
  sa_event_id :: string
  sa_dedup_ttl_seconds :: int
  sa_max_evidence_per_topic :: int
  sa_engagement_score :: int
  sa_volume_weight :: int
  sa_plans :: "window_plan list"

text \<open>The body of the loop of \<open>APPLY_EVENT_TO_WINDOWS_SCRIPT\<close>: the counter, then the evidence.\<close>

definition count_story :: "'r redis_commands \<Rightarrow> script_args \<Rightarrow> window_plan \<Rightarrow> 'r \<Rightarrow> 'r" where
  "count_story rc a p r =
     (let (should_increment, r1) =
            (if story_urls_key p \<noteq> [] \<and> story_member p \<noteq> [] then
               (case r_sadd rc (story_urls_key p) (story_member p) r of
                  (n, r') \<Rightarrow> (n, r_expire rc (story_urls_key p) (story_urls_ttl_seconds p) r'))
             else (1, r))
      in if should_increment = 1
         then r_expire rc (counter_key p) (counter_ttl_seconds p) (r_incrby rc (counter_key p) (sa_volume_weight a) r1)
         else r1)"

definition rank_evidence :: "'r redis_commands \<Rightarrow> script_args \<Rightarrow> window_plan \<Rightarrow> 'r \<Rightarrow> 'r" where
  "rank_evidence rc a p r =
     r_expire rc (evidence_key p) (evidence_ttl_seconds p)
       (r_zremrangebyrank rc (evidence_key p) 0 (- (sa_max_evidence_per_topic a + 1))
         (r_zadd rc (evidence_key p) (sa_engagement_score a) (sa_event_id a) r))"

definition apply_plan :: "'r redis_commands \<Rightarrow> script_args \<Rightarrow> 'r \<Rightarrow> window_plan \<Rightarrow> 'r" where
  "apply_plan rc a r p = rank_evidence rc a p (count_story rc a p r)"

definition apply_event_script :: "'r redis_commands \<Rightarrow> script_args \<Rightarrow> 'r \<Rightarrow> int \<times> 'r" where
  "apply_event_script rc a r =
     (case r_sadd rc (sa_dedup_key a) (sa_event_id a) r of
        (dedup_added, r1) \<Rightarrow>
          let r2 = r_expire rc (sa_dedup_key a) (sa_dedup_ttl_seconds a) r1 in
          if dedup_added = 0 then (0, r2) else (1, foldl (apply_plan rc a) r2 (sa_plans a)))"

definition eval_script :: "'r redis_commands \<Rightarrow> script_args \<Rightarrow> ('r, string, int) eff" where
  "eval_script rc a r =
     (case r_link rc r of
        LinkLost e \<Rightarrow> (Inl e, r_tick rc r)
      | ReplyLost e \<Rightarrow> (Inl e, r_tick rc (snd (apply_event_script rc a r)))
      | LinkOk \<Rightarrow> (case apply_event_script rc a r of (n, r') \<Rightarrow> (Inr n, r_tick rc r')))"

subsection \<open>Applying an event\<close>

definition make_plans :: "trend_event \<Rightarrow> string list \<Rightarrow> trend_window list \<Rightarrow> (trend_window \<Rightarrow> string) \<Rightarrow> window_plan list" where
  "make_plans ev topics windows bucket =
     concat (map (\<lambda>w.
       let ttl = window_seconds w * 3; evidence_ttl = window_seconds w * 2; member = default [] (event_url ev) in
       map (\<lambda>topic.
         \<lparr>counter_key = get_counter_key w topic (bucket w), counter_ttl_seconds = ttl,
          evidence_key = get_evidence_key w topic, evidence_ttl_seconds = evidence_ttl,
          story_urls_key = (if member \<noteq> [] then get_story_urls_key w topic (bucket w) else []),
          story_urls_ttl_seconds = ttl, story_member = member\<rparr>) topics) windows)"

definition volume_weight_of :: "trend_event \<Rightarrow> int" where
  "volume_weight_of ev = max 1 (math_round (feed_priority ev / 50))"

definition make_script_args :: "trend_event \<Rightarrow> string list \<Rightarrow> trend_window list \<Rightarrow> int \<Rightarrow> script_args" where
  "make_script_args ev topics windows max_evidence =
     (let bucket = get_bucket_start (fetched_at ev); dedup_window = choose_dedup_window windows in
      \<lparr>sa_dedup_key = get_dedup_key dedup_window (bucket dedup_window), sa_event_id = event_id ev,
       sa_dedup_ttl_seconds = window_seconds dedup_window * 3, sa_max_evidence_per_topic = max_evidence,
       sa_engagement_score = math_round (default 0 (engagement_score ev) * (feed_priority ev / 50)),
       sa_volume_weight = volume_weight_of ev, sa_plans = make_plans ev topics windows bucket\<rparr>)"

record window_update_result =
  duplicate :: bool
  update_buckets :: "(trend_window, string) omap"

datatype trend_error = RedisError string | UnexpectedScriptResult int | PipelineNull

definition apply_event_to_windows ::
  "'r redis_commands \<Rightarrow> trend_event \<Rightarrow> string list \<Rightarrow> trend_window list \<Rightarrow> int \<Rightarrow>
   ('r, trend_error, window_update_result) eff" where
  "apply_event_to_windows rc ev topics windows max_evidence r =
     (if topics = [] \<or> windows = [] then (Inr \<lparr>duplicate = False, update_buckets = []\<rparr>, r)
      else
        let buckets = foldl (\<lambda>m w. om_set m w (get_bucket_start (fetched_at ev) w)) [] windows in
        case eval_script rc (make_script_args ev topics windows max_evidence) r of
          (Inl e, r') \<Rightarrow> (Inl (RedisError e), r')
        | (Inr n, r') \<Rightarrow>
            if n \<noteq> 0 \<and> n \<noteq> 1 then (Inl (UnexpectedScriptResult n), r')
            else (Inr \<lparr>duplicate = (n = 0), update_buckets = buckets\<rparr>, r'))"

text \<open>
  \<open>writePreviousWindowCounts\<close>: a pipeline of writes. Its \<open>exec\<close> does not fail; it gives one reply per
  command, each possibly an error (\<open>first_error\<close> is the first of them), or no replies at all.
\<close>

definition write_previous_window_counts ::
  "'r redis_commands \<Rightarrow> ('r \<Rightarrow> string option) \<Rightarrow> trend_window \<Rightarrow> (string, int) omap \<Rightarrow>
   ('r, trend_error, unit) eff" where
  "write_previous_window_counts rc first_error w counts r =
     (let ttl = window_seconds w * 2;
          run = (\<lambda>r. foldl (\<lambda>r (topic, n).
            r_expire rc (get_previous_counter_key w topic) ttl (r_set rc (get_previous_counter_key w topic) (int_str n) r)) r counts)
      in case r_link rc r of
           LinkLost e \<Rightarrow> (if counts = [] then (Inr (), r) else (Inl (RedisError e), r_tick rc r))
         | ReplyLost e \<Rightarrow> (if counts = [] then (Inr (), r) else (Inl (RedisError e), r_tick rc (run r)))
         | LinkOk \<Rightarrow>
             if r_exec_null rc r then (Inl PipelineNull, r_tick rc r)
             else (case first_error r of
                 Some e \<Rightarrow> (Inl (RedisError e), r_tick rc (run r))
               | None \<Rightarrow> (Inr (), r_tick rc (run r))))"

subsection \<open>What the code relies on of Redis\<close>

text \<open>\<open>g\<close> is what is left of \<open>f\<close> when all but the \<open>n\<close> highest scores are removed.\<close>

definition best_of :: "nat \<Rightarrow> (string \<rightharpoonup> int) \<Rightarrow> (string \<rightharpoonup> int) \<Rightarrow> bool" where
  "best_of n f g \<longleftrightarrow> g \<subseteq>\<^sub>m f \<and> finite (dom f) \<and> card (dom g) = min n (card (dom f)) \<and>
     (\<forall>a b x y. g a = Some x \<and> f b = Some y \<and> b \<notin> dom g \<longrightarrow> y \<le> x)"

text \<open>
  The sets, numbers and sorted sets stored under a key are observed; every command changes what it is
  documented to change. An expiry time changes nothing that is observed before it has passed.
\<close>

locale window_redis =
  fixes rc :: "'r redis_commands" and ok :: "'r \<Rightarrow> bool" and members :: "'r \<Rightarrow> string \<Rightarrow> string set"
    and number :: "'r \<Rightarrow> string \<Rightarrow> int" and scores :: "'r \<Rightarrow> string \<Rightarrow> string \<rightharpoonup> int"
  assumes tick: "members (r_tick rc r) = members r" "number (r_tick rc r) = number r" "scores (r_tick rc r) = scores r"
      "ok r \<Longrightarrow> ok (r_tick rc r)"
    and expire: "members (r_expire rc k s r) = members r" "number (r_expire rc k s r) = number r"
      "scores (r_expire rc k s r) = scores r" "ok r \<Longrightarrow> ok (r_expire rc k s r)"
    and sadd: "fst (r_sadd rc k m r) = (if m \<in> members r k then 0 else 1)"
      "members (snd (r_sadd rc k m r)) = (members r)(k := insert m (members r k))"
      "number (snd (r_sadd rc k m r)) = number r" "scores (snd (r_sadd rc k m r)) = scores r"
      "ok r \<Longrightarrow> ok (snd (r_sadd rc k m r))"
    and incrby: "members (r_incrby rc k n r) = members r" "number (r_incrby rc k n r) = (number r)(k := number r k + n)"
      "scores (r_incrby rc k n r) = scores r" "ok r \<Longrightarrow> ok (r_incrby rc k n r)"
    and zadd: "members (r_zadd rc k s m r) = members r" "number (r_zadd rc k s m r) = number r"
      "k' \<noteq> k \<Longrightarrow> scores (r_zadd rc k s m r) k' = scores r k'" "ok r \<Longrightarrow> ok (r_zadd rc k s m r)"
    and zadd_same: "ok r \<Longrightarrow> scores (r_zadd rc k s m r) k = (scores r k)(m \<mapsto> s)"
    and zrem: "members (r_zremrangebyrank rc k i j r) = members r" "number (r_zremrangebyrank rc k i j r) = number r"
      "k' \<noteq> k \<Longrightarrow> scores (r_zremrangebyrank rc k i j r) k' = scores r k'" "ok r \<Longrightarrow> ok (r_zremrangebyrank rc k i j r)"
    and zrem_best: "ok r \<Longrightarrow> best_of c (scores r k) (scores (r_zremrangebyrank rc k 0 (- (int c + 1)) r) k)"
begin

lemmas commands = tick expire sadd incrby zadd zrem

lemma count_story_facts:
  "members (count_story rc a p r) =
     (if story_urls_key p \<noteq> [] \<and> story_member p \<noteq> []
      then (members r)(story_urls_key p := insert (story_member p) (members r (story_urls_key p))) else members r)"
  "number (count_story rc a p r) =
     (if (story_urls_key p \<noteq> [] \<and> story_member p \<noteq> []) \<and> story_member p \<in> members r (story_urls_key p) then number r
      else (number r)(counter_key p := number r (counter_key p) + sa_volume_weight a))"
  "scores (count_story rc a p r) = scores r" "ok r \<Longrightarrow> ok (count_story rc a p r)"
  by (auto simp: count_story_def Let_def commands case_prod_beta)

lemma rank_evidence_facts:
  "members (rank_evidence rc a p r) = members r" "number (rank_evidence rc a p r) = number r"
  "k \<noteq> evidence_key p \<Longrightarrow> scores (rank_evidence rc a p r) k = scores r k"
  "ok r \<Longrightarrow> ok (rank_evidence rc a p r)"
  by (simp_all add: rank_evidence_def commands)

lemma plan_facts:
  "members (apply_plan rc a r p) =
     (if story_urls_key p \<noteq> [] \<and> story_member p \<noteq> []
      then (members r)(story_urls_key p := insert (story_member p) (members r (story_urls_key p))) else members r)"
  "number (apply_plan rc a r p) =
     (if (story_urls_key p \<noteq> [] \<and> story_member p \<noteq> []) \<and> story_member p \<in> members r (story_urls_key p) then number r
      else (number r)(counter_key p := number r (counter_key p) + sa_volume_weight a))"
  "k \<noteq> evidence_key p \<Longrightarrow> scores (apply_plan rc a r p) k = scores r k"
  "ok r \<Longrightarrow> ok (apply_plan rc a r p)"
  by (simp_all add: apply_plan_def count_story_facts rank_evidence_facts)

lemma apply_plan_scores:
  assumes "ok r" "sa_max_evidence_per_topic a = int n"
  shows "best_of n ((scores r (evidence_key p))(sa_event_id a \<mapsto> sa_engagement_score a))
    (scores (apply_plan rc a r p) (evidence_key p))"
proof -
  let ?z = "r_zadd rc (evidence_key p) (sa_engagement_score a) (sa_event_id a) (count_story rc a p r)"
  have "best_of n (scores ?z (evidence_key p)) (scores (apply_plan rc a r p) (evidence_key p))"
    using zrem_best [of ?z n "evidence_key p"] assms
    by (simp add: apply_plan_def rank_evidence_def expire zadd count_story_facts(4))
  then show ?thesis using assms by (simp only: zadd_same count_story_facts)
qed

lemma members_plans: "members r k \<subseteq> members (foldl (apply_plan rc a) r ps) k"
proof (induction ps arbitrary: r)
  case (Cons p ps)
  have "members r k \<subseteq> members (apply_plan rc a r p) k" by (auto simp: plan_facts)
  with Cons show ?case by (metis foldl_Cons subset_trans)
qed simp

lemma members_plans_other:
  "k \<notin> story_urls_key ` set ps \<Longrightarrow> members (foldl (apply_plan rc a) r ps) k = members r k"
  by (induction ps arbitrary: r) (auto simp: plan_facts)

lemma number_plans_other:
  "k \<notin> counter_key ` set ps \<Longrightarrow> number (foldl (apply_plan rc a) r ps) k = number r k"
  by (induction ps arbitrary: r) (auto simp: plan_facts)

lemma scores_plans_other:
  "k \<notin> evidence_key ` set ps \<Longrightarrow> scores (foldl (apply_plan rc a) r ps) k = scores r k"
  by (induction ps arbitrary: r) (auto simp: plan_facts)

lemma ok_plans: "ok r \<Longrightarrow> ok (foldl (apply_plan rc a) r ps)"
  by (induction ps arbitrary: r) (auto simp: plan_facts)

lemma number_plans:
  assumes "distinct (map counter_key ps)" "distinct (map story_urls_key (filter (\<lambda>p. story_urls_key p \<noteq> []) ps))" "p \<in> set ps"
  shows "number (foldl (apply_plan rc a) r ps) (counter_key p) = number r (counter_key p) +
    (if story_urls_key p \<noteq> [] \<and> story_member p \<noteq> [] \<and> story_member p \<in> members r (story_urls_key p) then 0 else sa_volume_weight a)"
  using assms
proof (induction ps arbitrary: r)
  case (Cons q ps)
  show ?case
  proof (cases "p = q")
    case True
    with Cons.prems have "counter_key p \<notin> counter_key ` set ps" by auto
    with True show ?thesis by (simp add: number_plans_other plan_facts)
  next
    case False
    with Cons.prems have p: "p \<in> set ps" "counter_key q \<noteq> counter_key p" by force+
    have s: "story_urls_key p \<noteq> [] \<Longrightarrow> story_urls_key q \<noteq> story_urls_key p"
      using Cons.prems(2) p(1) by (auto split: if_splits)
    have "number (foldl (apply_plan rc a) (apply_plan rc a r q) ps) (counter_key p) =
        number (apply_plan rc a r q) (counter_key p) +
        (if story_urls_key p \<noteq> [] \<and> story_member p \<noteq> [] \<and> story_member p \<in> members (apply_plan rc a r q) (story_urls_key p)
         then 0 else sa_volume_weight a)"
      using Cons.prems p by (intro Cons.IH) (auto split: if_splits)
    moreover have "story_urls_key p \<noteq> [] \<Longrightarrow> members (apply_plan rc a r q) (story_urls_key p) = members r (story_urls_key p)"
      using s by (auto simp: plan_facts)
    moreover have "number (apply_plan rc a r q) (counter_key p) = number r (counter_key p)"
      using p(2) by (simp add: plan_facts)
    ultimately show ?thesis by auto
  qed
qed simp

lemma scores_plans:
  assumes "distinct (map evidence_key ps)" "p \<in> set ps" "ok r" "sa_max_evidence_per_topic a = int n"
  shows "best_of n ((scores r (evidence_key p))(sa_event_id a \<mapsto> sa_engagement_score a))
    (scores (foldl (apply_plan rc a) r ps) (evidence_key p))"
  using assms
proof (induction ps arbitrary: r)
  case (Cons q ps)
  show ?case
  proof (cases "p = q")
    case True
    with Cons.prems have "evidence_key p \<notin> evidence_key ` set ps" by auto
    then have eq: "scores (foldl (apply_plan rc a) r (q # ps)) (evidence_key p) = scores (apply_plan rc a r p) (evidence_key p)"
      using True by (simp add: scores_plans_other)
    show ?thesis unfolding eq by (rule apply_plan_scores [OF Cons.prems(3,4)])
  next
    case False
    with Cons.prems have p: "p \<in> set ps" "evidence_key q \<noteq> evidence_key p" by force+
    with Cons.prems Cons.IH [of "apply_plan rc a r q"] show ?thesis
      by (simp add: plan_facts plan_facts)
  qed
qed simp

lemma script_marks: "sa_event_id a \<in> members (snd (apply_event_script rc a r)) (sa_dedup_key a)"
proof -
  have "sa_event_id a \<in> members (r_expire rc (sa_dedup_key a) (sa_dedup_ttl_seconds a) (snd (r_sadd rc (sa_dedup_key a) (sa_event_id a) r))) (sa_dedup_key a)"
    by (simp add: commands)
  then have "sa_event_id a \<in> members (foldl (apply_plan rc a) (r_expire rc (sa_dedup_key a) (sa_dedup_ttl_seconds a)
      (snd (r_sadd rc (sa_dedup_key a) (sa_event_id a) r))) (sa_plans a)) (sa_dedup_key a)"
    using members_plans by blast
  then show ?thesis by (simp add: apply_event_script_def Let_def case_prod_beta commands)
qed

lemma script_again:
  assumes "sa_event_id a \<in> members r (sa_dedup_key a)"
  shows "fst (apply_event_script rc a r) = 0" "members (snd (apply_event_script rc a r)) = members r"
    "number (snd (apply_event_script rc a r)) = number r" "scores (snd (apply_event_script rc a r)) = scores r"
  using assms by (auto simp: apply_event_script_def Let_def case_prod_beta commands insert_absorb)

lemma eval_again:
  assumes "sa_event_id a \<in> members r (sa_dedup_key a)"
  shows "members (snd (eval_script rc a r)) = members r" "number (snd (eval_script rc a r)) = number r"
    "scores (snd (eval_script rc a r)) = scores r" "fst (eval_script rc a r) \<in> {Inr 0} \<union> range Inl"
  using script_again [OF assms] by (auto simp: eval_script_def tick case_prod_beta split: redis_link.splits)

end

subsection \<open>Keys\<close>

lemma window_name_colon: "CHR '':'' \<notin> set (window_name w)"
  by (cases w) (simp_all add: window_name_def)

lemma append_colon_eq:
  "CHR '':'' \<notin> set a \<Longrightarrow> CHR '':'' \<notin> set b \<Longrightarrow> a @ CHR '':'' # x = b @ CHR '':'' # y \<Longrightarrow> a = b \<and> x = y"
  by (induction a arbitrary: b) (auto simp: neq_Nil_conv Cons_eq_append_conv)

lemma window_name_inj: "window_name w = window_name v \<Longrightarrow> w = v"
  by (cases w; cases v) (simp_all add: window_name_def)

lemma bucket_keys_inj:
  assumes "window_name w @ CHR '':'' # t @ CHR '':'' # bucket w = window_name v @ CHR '':'' # u @ CHR '':'' # bucket v"
  shows "w = v \<and> t = u"
proof -
  have "window_name w = window_name v \<and> t @ CHR '':'' # bucket w = u @ CHR '':'' # bucket v"
    using append_colon_eq [OF window_name_colon window_name_colon assms] .
  then show ?thesis using window_name_inj by auto
qed

lemma plan_keys_distinct:
  assumes "distinct topics" "distinct windows"
  shows "distinct (map counter_key (make_plans ev topics windows bucket))" "distinct (map evidence_key (make_plans ev topics windows bucket))"
    "distinct (map story_urls_key (filter (\<lambda>p. story_urls_key p \<noteq> []) (make_plans ev topics windows bucket)))"
proof -
  define ps where "ps = make_plans ev topics windows bucket"
  let ?wt = "concat (map (\<lambda>w. map (Pair w) topics) windows)"
  have wt: "distinct ?wt" using assms(1,2) by (induction windows) (auto simp: distinct_map inj_on_def)
  have plans: "map f ps = map (\<lambda>(w, t). f (hd (make_plans ev [t] [w] bucket))) ?wt" for f
    by (simp add: ps_def make_plans_def map_concat Let_def o_def)
  have inj: "distinct (map f ps)" if "inj_on (\<lambda>(w, t). f (hd (make_plans ev [t] [w] bucket))) UNIV" for f
    using wt inj_on_subset [OF that] by (simp only: plans distinct_map) blast
  have c: "distinct (map counter_key ps)"
    by (rule inj, rule inj_onI) (auto simp: make_plans_def Let_def get_counter_key_def dest: bucket_keys_inj)
  have e: "distinct (map evidence_key ps)"
    by (rule inj, rule inj_onI)
      (auto simp: make_plans_def Let_def get_evidence_key_def dest!: append_colon_eq [OF window_name_colon window_name_colon] window_name_inj)
  have s: "distinct (map story_urls_key (filter (\<lambda>p. story_urls_key p \<noteq> []) ps))"
  proof (cases "default [] (event_url ev) = []")
    case True
    then have "\<forall>p \<in> set ps. story_urls_key p = []" by (auto simp: ps_def make_plans_def Let_def)
    then show ?thesis by (simp add: filter_empty_conv)
  next
    case False
    have "distinct (map story_urls_key ps)"
      by (rule inj, rule inj_onI) (use False in \<open>auto simp: make_plans_def Let_def get_story_urls_key_def dest: bucket_keys_inj\<close>)
    then show ?thesis by (rule distinct_map_filter)
  qed
from c e s show "distinct (map counter_key (make_plans ev topics windows bucket))"
    "distinct (map evidence_key (make_plans ev topics windows bucket))"
    "distinct (map story_urls_key (filter (\<lambda>p. story_urls_key p \<noteq> []) (make_plans ev topics windows bucket)))"
    by (simp_all add: ps_def)
qed

subsection \<open>A Redis in memory\<close>

text \<open>A sorted set is kept in ascending order of score, then member.\<close>

record mem_redis =
  m_sets :: "string \<Rightarrow> string list"
  m_strings :: "string \<Rightarrow> string option"
  m_zsets :: "string \<Rightarrow> (string \<times> int) list"

definition zset_cmp :: "string \<times> int \<Rightarrow> string \<times> int \<Rightarrow> int" where
  "zset_cmp = lex_cmp (\<lambda>a b. snd a - snd b) (\<lambda>a b. code_unit_cmp (fst a) (fst b))"

definition rank_index :: "int \<Rightarrow> nat \<Rightarrow> int" where
  "rank_index i len = (if i < 0 then i + int len else i)"

definition mem_zremrangebyrank :: "string \<Rightarrow> int \<Rightarrow> int \<Rightarrow> mem_redis \<Rightarrow> mem_redis" where
  "mem_zremrangebyrank k i j r =
     (let z = m_zsets r k; a = nat (max 0 (rank_index i (length z))); b = nat (rank_index j (length z) + 1)
      in r\<lparr>m_zsets := (m_zsets r)(k := take a z @ drop (max a b) z)\<rparr>)"

definition mem_number :: "mem_redis \<Rightarrow> string \<Rightarrow> int" where
  "mem_number r k = default 0 (Option.bind (m_strings r k) parse_int10)"

fun mem_read :: "read_command \<Rightarrow> mem_redis \<Rightarrow> read_reply" where
  "mem_read (GetKey k) r = (case m_strings r k of None \<Rightarrow> Missing | Some s \<Rightarrow> Text s)"
| "mem_read (RevRange k i j) r =
     (let z = rev (map fst (m_zsets r k)); a = nat (max 0 (rank_index i (length z))); b = nat (rank_index j (length z) + 1)
      in Members (take (b - a) (drop a z)))"

definition mem_commands :: "mem_redis redis_commands" where
  "mem_commands =
     \<lparr>r_link = (\<lambda>_. LinkOk), r_tick = id, r_exec_null = (\<lambda>_. False),
      r_sadd = (\<lambda>k m r. if m \<in> set (m_sets r k) then (0, r) else (1, r\<lparr>m_sets := (m_sets r)(k := m # m_sets r k)\<rparr>)),
      r_expire = (\<lambda>k s r. r),
      r_incrby = (\<lambda>k n r. r\<lparr>m_strings := (m_strings r)(k := Some (int_str (mem_number r k + n)))\<rparr>),
      r_zadd = (\<lambda>k s m r. r\<lparr>m_zsets := (m_zsets r)(k := js_sort zset_cmp (om_set (m_zsets r k) m s))\<rparr>),
      r_zremrangebyrank = mem_zremrangebyrank,
      r_set = (\<lambda>k v r. r\<lparr>m_strings := (m_strings r)(k := Some v)\<rparr>),
      r_read = mem_read\<rparr>"

definition mem_redis_ok :: "mem_redis \<Rightarrow> bool" where
  "mem_redis_ok r \<longleftrightarrow> (\<forall>k. om_ok (m_zsets r k) \<and> sorted_wrt (\<lambda>a b. zset_cmp a b \<le> 0) (m_zsets r k))"

definition mem_members :: "mem_redis \<Rightarrow> string \<Rightarrow> string set" where
  "mem_members r k = set (m_sets r k)"

definition mem_scores :: "mem_redis \<Rightarrow> string \<Rightarrow> string \<rightharpoonup> int" where
  "mem_scores r k = map_of (m_zsets r k)"

lemma comparator_zset: "comparator zset_cmp"
  unfolding zset_cmp_def
  by (intro comparator_lex comparator_on [OF code_unit.comparator_axioms]) (unfold_locales, auto)

lemma best_of_drop:
  assumes "om_ok z" "sorted_wrt (\<lambda>a b. zset_cmp a b \<le> 0) z"
  shows "best_of n (map_of z) (map_of (drop (length z - n) z))"
proof -
  let ?d = "drop (length z - n) z" and ?t = "take (length z - n) z"
  have z: "z = ?t @ ?d" by simp
  have ok: "om_ok ?d" using assms(1) by (metis distinct_drop drop_map)
  have card: "card (dom (map_of y)) = length y" if "om_ok y" for y :: "(string \<times> int) list"
    using that distinct_card [of "map fst y"] by (simp add: dom_map_of_conv_image_fst)
  have sub: "map_of ?d \<subseteq>\<^sub>m map_of z"
    unfolding map_le_def using assms(1) ok by (metis domD in_set_dropD map_of_eq_Some_iff)
  have best: "y \<le> x" if "map_of ?d a = Some x" "map_of z b = Some y" "b \<notin> dom (map_of ?d)" for a b x y
  proof -
    have "(a, x) \<in> set ?d" using that(1) by (rule map_of_SomeD)
    moreover have "(b, y) \<in> set ?t"
    proof -
      have "(b, y) \<in> set z" using that(2) by (rule map_of_SomeD)
      moreover have "(b, y) \<notin> set ?d" using that(3) ok by (metis domI map_of_eq_Some_iff)
      ultimately show ?thesis by (metis Un_iff set_append z)
    qed
    moreover have "\<forall>p \<in> set ?t. \<forall>q \<in> set ?d. zset_cmp p q \<le> 0" using assms(2) z by (metis sorted_wrt_append)
    ultimately have "zset_cmp (b, y) (a, x) \<le> 0" by blast
    then show ?thesis by (auto simp: zset_cmp_def lex_cmp_def split: if_splits)
  qed
  show ?thesis unfolding best_of_def
  proof (intro conjI allI impI)
    show "finite (dom (map_of z))" by (rule finite_dom_map_of)
    show "card (dom (map_of ?d)) = min n (card (dom (map_of z)))" using card [OF ok] card [OF assms(1)] by simp
  qed (use sub best in blast)+
qed

lemma mset_map_js_sort: "mset (map f (js_sort cmp xs)) = mset (map f xs)"
  by simp

lemma subseq_cut: "subseq (take a z @ drop (max a b) z) z"
proof -
  have "drop (max a b) z = drop (max a b - a) (drop a z)" by (simp add: max_def)
  then have "subseq (drop (max a b) z) (drop a z)" by (metis subseq_order.refl list_emb_append2 append_take_drop_id)
  then have "subseq (take a z @ drop (max a b) z) (take a z @ drop a z)" by (rule list_emb_append_mono [OF subseq_order.refl])
  then show ?thesis by simp
qed

lemma sorted_wrt_subseq: "subseq xs ys \<Longrightarrow> sorted_wrt P ys \<Longrightarrow> sorted_wrt P xs"
proof (induction rule: list_emb.induct)
  case (list_emb_Cons2 x y xs ys)
  then show ?case using list_emb_set by (fastforce)
qed auto

lemma distinct_as_sorted_wrt: "distinct xs \<longleftrightarrow> sorted_wrt (\<noteq>) xs"
  by (induction xs) auto

lemma cut_sorted: "sorted_wrt P z \<Longrightarrow> sorted_wrt P (take a z @ drop (max a b) z)"
  using sorted_wrt_subseq [OF subseq_cut] .

lemma cut_distinct: "distinct (map f z) \<Longrightarrow> distinct (map f (take a z @ drop (max a b) z))"
  using cut_sorted [of "\<lambda>x y. f x \<noteq> f y" z a b] unfolding distinct_as_sorted_wrt sorted_wrt_map .

lemma map_of_js_sort: "om_ok m \<Longrightarrow> map_of (js_sort cmp m) = map_of m"
  by (rule map_of_inject_set [THEN iffD2]) (simp_all add: mset_eq_imp_distinct_iff [OF mset_map_js_sort])

interpretation mem: window_redis mem_commands mem_redis_ok mem_members mem_number mem_scores
proof unfold_locales
  show "best_of c (mem_scores r k) (mem_scores (r_zremrangebyrank mem_commands k 0 (- (int c + 1)) r) k)"
    if "mem_redis_ok r" for c r k
  proof -
    let ?z = "m_zsets r k"
    have "nat (rank_index (- (int c + 1)) (length ?z) + 1) = length ?z - c" by (simp add: rank_index_def)
    then have "mem_scores (r_zremrangebyrank mem_commands k 0 (- (int c + 1)) r) k = map_of (drop (length ?z - c) ?z)"
      by (simp add: mem_commands_def mem_zremrangebyrank_def mem_scores_def rank_index_def Let_def)
    then show ?thesis using best_of_drop that by (simp add: mem_redis_ok_def mem_scores_def)
  qed
  show "mem_redis_ok (r_zremrangebyrank mem_commands k i j r)" if "mem_redis_ok r" for k i j r
    using that by (auto simp: mem_commands_def mem_zremrangebyrank_def mem_redis_ok_def Let_def cut_distinct cut_sorted
        simp del: map_append distinct_append)
  show "mem_redis_ok (r_zadd mem_commands k s m r)" if "mem_redis_ok r" for k s m r
    using that comparator.sorted_js_sort [OF comparator_zset]
    by (simp add: mem_commands_def mem_redis_ok_def mset_eq_imp_distinct_iff [OF mset_map_js_sort])
  show "mem_scores (r_zadd mem_commands k s m r) k = (mem_scores r k)(m \<mapsto> s)" if "mem_redis_ok r" for k s m r
  proof -
    have "om_ok (om_set (m_zsets r k) m s)" using that by (auto simp: mem_redis_ok_def)
    then have "map_of (js_sort zset_cmp (om_set (m_zsets r k) m s)) = (map_of (m_zsets r k))(m \<mapsto> s)"
      unfolding map_of_om_set [symmetric] by (rule map_of_js_sort)
    then show ?thesis by (simp add: mem_commands_def mem_scores_def)
  qed
qed (auto simp: mem_commands_def mem_members_def mem_scores_def mem_redis_ok_def mem_zremrangebyrank_def Let_def
  mem_number_def parse_int10_int_str fun_eq_iff default_def)

subsection \<open>Properties\<close>

definition event_dedup_key :: "trend_event \<Rightarrow> trend_window list \<Rightarrow> string" where
  "event_dedup_key ev windows =
     get_dedup_key (choose_dedup_window windows) (get_bucket_start (fetched_at ev) (choose_dedup_window windows))"

lemma script_args_sel:
  "sa_dedup_key (make_script_args ev topics windows n) = event_dedup_key ev windows"
  "sa_event_id (make_script_args ev topics windows n) = event_id ev"
  "sa_max_evidence_per_topic (make_script_args ev topics windows n) = n"
  "sa_volume_weight (make_script_args ev topics windows n) = volume_weight_of ev"
  "sa_engagement_score (make_script_args ev topics windows n) = math_round (default 0 (engagement_score ev) * (feed_priority ev / 50))"
  "sa_plans (make_script_args ev topics windows n) = make_plans ev topics windows (get_bucket_start (fetched_at ev))"
  by (simp_all add: make_script_args_def event_dedup_key_def Let_def)

text \<open>
  C11. Applying an event again changes no counter, no evidence and no set, and is reported as a duplicate
  when its reply arrives; this holds whenever the first call reached Redis, also when it was reported as a failure
  because only the reply was lost, so the redelivery of a message counts it once.
\<close>

theorem redelivered_event_counts_once:
  assumes "window_redis rc ok members number scores" and "topics \<noteq> []" and "windows \<noteq> []"
    and "\<nexists>e. r_link rc r = LinkLost e"
    and "apply_event_to_windows rc ev topics windows n r = (x1, r1)"
    and "apply_event_to_windows rc ev topics windows n r1 = (x2, r2)"
  shows "members r2 = members r1 \<and> number r2 = number r1 \<and> scores r2 = scores r1 \<and>
    (if r_link rc r1 = LinkOk then \<exists>b. x2 = Inr \<lparr>duplicate = True, update_buckets = b\<rparr> else isl x2)"
proof -
  let ?a = "make_script_args ev topics windows n"
  have r1: "r1 = snd (eval_script rc ?a r)" and r2: "r2 = snd (eval_script rc ?a r1)"
    using assms(2,3,5,6) by (auto simp: apply_event_to_windows_def Let_def split: prod.splits sum.splits if_splits)
  have "members r1 = members (snd (apply_event_script rc ?a r))"
    using assms(4) window_redis.tick(1) [OF assms(1)]
    by (auto simp: r1 eval_script_def case_prod_beta split: redis_link.splits)
  then have seen: "sa_event_id ?a \<in> members r1 (sa_dedup_key ?a)"
    using window_redis.script_marks [OF assms(1)] by simp
  note again = window_redis.eval_again [OF assms(1) seen]
  have "fst (apply_event_script rc ?a r1) = 0" using window_redis.script_again [OF assms(1) seen] by simp
  then have "if r_link rc r1 = LinkOk then \<exists>b. x2 = Inr \<lparr>duplicate = True, update_buckets = b\<rparr> else isl x2"
    using assms(2,3,6)
    by (cases "r_link rc r1") (auto simp: apply_event_to_windows_def eval_script_def Let_def case_prod_beta)
  with again show ?thesis by (simp add: r2)
qed

definition sample_trend_event :: trend_event where
  "sample_trend_event =
     \<lparr>event_id = ''e1'', event_source = Canonical Rss, fetched_at = 0, published_at = None, event_url = Some ''u'',
      title = None, event_text = ''t'', author_id = None, author_handle = None, author_display_name = None,
      engagement_score = Some 3, engagement_comments = None, engagement_likes = None, engagement_shares = None,
      lang = None, tags = [], extracted_hashtags = [], extracted_urls = [], source_meta = None,
      feed_priority = 100, tracked_topics = []\<rparr>"

definition empty_redis :: mem_redis where
  "empty_redis = \<lparr>m_sets = (\<lambda>_. []), m_strings = (\<lambda>_. None), m_zsets = (\<lambda>_. [])\<rparr>"

theorem redelivered_event_counts_once_witness:
  "\<exists>x1 r1 x2 r2. apply_event_to_windows mem_commands sample_trend_event [''ai''] [W15m] 5 empty_redis = (x1, r1) \<and>
     apply_event_to_windows mem_commands sample_trend_event [''ai''] [W15m] 5 r1 = (x2, r2) \<and>
     mem_number r2 = mem_number r1 \<and> (\<exists>b. x2 = Inr \<lparr>duplicate = True, update_buckets = b\<rparr>)"
proof -
  obtain x1 r1 where a: "apply_event_to_windows mem_commands sample_trend_event [''ai''] [W15m] 5 empty_redis = (x1, r1)" by fastforce
  obtain x2 r2 where b: "apply_event_to_windows mem_commands sample_trend_event [''ai''] [W15m] 5 r1 = (x2, r2)" by fastforce
  have "r_link mem_commands r = LinkOk" for r by (simp add: mem_commands_def)
  with redelivered_event_counts_once [OF mem.window_redis_axioms _ _ _ a b] a b show ?thesis by simp
qed

text \<open>
  C12. A new event adds its weight to the counter of every window and topic, except where its story
  was counted before; as evidence it is ranked by its score, and of all events of the topic
  the best are kept, at most as many as configured.
\<close>

theorem new_event_is_counted:
  assumes "window_redis rc ok members number scores" and "ok r" and "r_link rc r = LinkOk"
    and "distinct topics" and "t \<in> set topics" and "distinct windows" and "w \<in> set windows"
    and "event_id ev \<notin> members r (event_dedup_key ev windows)"
    and "apply_event_to_windows rc ev topics windows (int n) r = (x, r')"
  shows "(let bucket = get_bucket_start (fetched_at ev) w; url = default [] (event_url ev) in
      number r' (get_counter_key w t bucket) = number r (get_counter_key w t bucket) +
        (if url \<noteq> [] \<and> url \<in> members r (get_story_urls_key w t bucket) then 0 else volume_weight_of ev) \<and>
      best_of n ((scores r (get_evidence_key w t))
          (event_id ev \<mapsto> math_round (default 0 (engagement_score ev) * (feed_priority ev / 50))))
        (scores r' (get_evidence_key w t))) \<and>
    (\<exists>b. x = Inr \<lparr>duplicate = False, update_buckets = b\<rparr>)"
proof -
  let ?a = "make_script_args ev topics windows (int n)" and ?bucket = "get_bucket_start (fetched_at ev)"
  let ?ps = "make_plans ev topics windows ?bucket"
  define p where "p = hd (make_plans ev [t] [w] ?bucket)"
  have p: "p \<in> set ?ps" using assms(5,7) by (auto simp: p_def make_plans_def Let_def)
  have sel: "counter_key p = get_counter_key w t (?bucket w)" "evidence_key p = get_evidence_key w t"
    "story_member p = default [] (event_url ev)"
    "story_urls_key p = (if default [] (event_url ev) \<noteq> [] then get_story_urls_key w t (?bucket w) else [])"
    by (simp_all add: p_def make_plans_def Let_def)
  define r0 where "r0 = r_expire rc (sa_dedup_key ?a) (sa_dedup_ttl_seconds ?a) (snd (r_sadd rc (sa_dedup_key ?a) (sa_event_id ?a) r))"
  note cmd = window_redis.sadd [OF assms(1)] window_redis.expire [OF assms(1)] window_redis.tick [OF assms(1)]
  have r0: "number r0 = number r" "scores r0 = scores r" "ok r0" using assms(2) by (simp_all add: r0_def cmd)
  have story: "members r0 (get_story_urls_key w t b) = members r (get_story_urls_key w t b)" for b
    by (simp add: r0_def cmd script_args_sel event_dedup_key_def get_dedup_key_def get_story_urls_key_def)
  have story_key: "get_story_urls_key w t b \<noteq> []" for b by (simp add: get_story_urls_key_def)
  have ne: "topics \<noteq> []" "windows \<noteq> []" using assms(5,7) by auto
  have first: "fst (r_sadd rc (event_dedup_key ev windows) (event_id ev) r) = 1" using assms(8) by (simp add: cmd)
  have script: "apply_event_script rc ?a r = (1, foldl (apply_plan rc ?a) r0 ?ps)"
    using first by (simp add: apply_event_script_def r0_def script_args_sel Let_def case_prod_beta)
  have r': "r' = r_tick rc (foldl (apply_plan rc ?a) r0 ?ps)" and x: "\<exists>b. x = Inr \<lparr>duplicate = False, update_buckets = b\<rparr>"
    using assms(9) ne script by (auto simp: apply_event_to_windows_def eval_script_def assms(3) Let_def)
  note keys = plan_keys_distinct [OF assms(4,6), of ev ?bucket]
  have "number r' (counter_key p) = number r (counter_key p) +
      (if story_urls_key p \<noteq> [] \<and> story_member p \<noteq> [] \<and> story_member p \<in> members r0 (story_urls_key p) then 0 else volume_weight_of ev)"
    using window_redis.number_plans [OF assms(1) keys(1,3) p, of ?a r0] by (simp add: r' cmd r0 script_args_sel)
  then have number: "number r' (get_counter_key w t (?bucket w)) = number r (get_counter_key w t (?bucket w)) +
      (if default [] (event_url ev) \<noteq> [] \<and> default [] (event_url ev) \<in> members r (get_story_urls_key w t (?bucket w))
       then 0 else volume_weight_of ev)"
    using story_key by (cases "default [] (event_url ev) = []") (simp_all add: sel story)
  have "best_of n ((scores r (evidence_key p))(event_id ev \<mapsto> sa_engagement_score ?a)) (scores r' (evidence_key p))"
    using window_redis.scores_plans [OF assms(1) keys(2) p r0(3), of ?a n] by (simp only: r' cmd r0 script_args_sel)
  then have "best_of n ((scores r (get_evidence_key w t))
          (event_id ev \<mapsto> math_round (default 0 (engagement_score ev) * (feed_priority ev / 50))))
        (scores r' (get_evidence_key w t))"
    by (simp only: sel script_args_sel)
  with number x show ?thesis by (simp only: Let_def simp_thms)
qed

theorem new_event_is_counted_witness:
  "\<exists>x r'. apply_event_to_windows mem_commands sample_trend_event [''ai''] [W15m] 5 empty_redis = (x, r') \<and>
     mem_number r' (get_counter_key W15m ''ai'' ''1970-01-01T00:00:00.000Z'') = 2"
proof -
  obtain x r' where a: "apply_event_to_windows mem_commands sample_trend_event [''ai''] [W15m] (int 5) empty_redis = (x, r')" by fastforce
  have "mem_redis_ok empty_redis" "r_link mem_commands empty_redis = LinkOk" "mem_members empty_redis k = {}" "mem_number empty_redis k = 0" for k
    by (simp_all add: mem_redis_ok_def empty_redis_def mem_commands_def mem_members_def mem_number_def default_def)
  moreover have "get_bucket_start (fetched_at sample_trend_event) W15m = ''1970-01-01T00:00:00.000Z''"
    "volume_weight_of sample_trend_event = 2"
    by code_simp+
  ultimately show ?thesis
    using new_event_is_counted [OF mem.window_redis_axioms _ _ _ _ _ _ _ a, of "''ai''" W15m] a by (simp add: Let_def)
qed

text \<open>The bucket of a window is the aligned interval of its length that the time falls in.\<close>

lemma bucket_ms_bounds:
  "bucket_ms t w \<le> t" "t < bucket_ms t w + window_seconds w * 1000" "window_seconds w * 1000 dvd bucket_ms t w"
proof -
  have "0 < window_seconds w * 1000" by (simp add: window_seconds_def split: trend_window.split)
  then have "0 \<le> t mod (window_seconds w * 1000)" "t mod (window_seconds w * 1000) < window_seconds w * 1000"
    by (rule pos_mod_sign, rule pos_mod_bound)
  then show "bucket_ms t w \<le> t" "t < bucket_ms t w + window_seconds w * 1000"
    using div_mult_mod_eq [of t "window_seconds w * 1000"] unfolding bucket_ms_def by linarith+
qed (simp add: bucket_ms_def)

end
