(* ===== verification/TrendsHealth.thy ===== *)
theory TrendsHealth
  imports Health TrendWindows
begin

section \<open>Metrics and health of the trends service (apps/trends/src/health.ts)\<close>

text \<open>
  The counters, gauges per window and topic, the last heartbeat of every collector, the health status
  and the text format. The threshold \<open>MAX_LAG_MESSAGES\<close> and the clock are arguments.
\<close>

subsection \<open>Gauges per window and topic\<close>

type_synonym topic_window_map = "(trend_window, (string, rat) omap) omap"

definition set_window_topic :: "topic_window_map \<Rightarrow> string \<Rightarrow> trend_window \<Rightarrow> rat \<Rightarrow> topic_window_map" where
  "set_window_topic m topic w v = om_set m w (om_set (om_get [] m w) topic v)"

definition get_window_topic_metric :: "topic_window_map \<Rightarrow> string \<Rightarrow> trend_window \<Rightarrow> rat option" where
  "get_window_topic_metric m topic w = Option.bind (map_of m w) (\<lambda>t. map_of t topic)"

definition clear_window_topic_metric :: "topic_window_map \<Rightarrow> trend_window \<Rightarrow> topic_window_map" where
  "clear_window_topic_metric m w = om_del m w"

definition count_window_topic_metrics :: "topic_window_map \<Rightarrow> nat" where
  "count_window_topic_metrics m = foldl (\<lambda>n t. n + length (snd t)) 0 m"

definition iterate_window_topic_metrics :: "topic_window_map \<Rightarrow> (string \<times> trend_window \<times> rat) list" where
  "iterate_window_topic_metrics m = concat (map (\<lambda>(w, ts). map (\<lambda>(t, v). (t, w, v)) ts) m)"

record topic_window_metrics =
  topic_volume_by_window :: topic_window_map
  topic_score_by_window :: topic_window_map

definition twm_set :: "string \<Rightarrow> trend_window \<Rightarrow> rat \<Rightarrow> rat \<Rightarrow> topic_window_metrics \<Rightarrow> topic_window_metrics" where
  "twm_set topic w volume score m =
     \<lparr>topic_volume_by_window = set_window_topic (topic_volume_by_window m) topic w volume,
      topic_score_by_window = set_window_topic (topic_score_by_window m) topic w score\<rparr>"

definition twm_clear :: "trend_window \<Rightarrow> topic_window_metrics \<Rightarrow> topic_window_metrics" where
  "twm_clear w m =
     \<lparr>topic_volume_by_window = clear_window_topic_metric (topic_volume_by_window m) w,
      topic_score_by_window = clear_window_topic_metric (topic_score_by_window m) w\<rparr>"

subsection \<open>State\<close>

datatype brief_trigger_type = DailyTrigger | ThresholdTrigger

definition trigger_name :: "brief_trigger_type \<Rightarrow> string" where
  "trigger_name t = (case t of DailyTrigger \<Rightarrow> ''daily'' | ThresholdTrigger \<Rightarrow> ''threshold'')"

record trends_metrics =
  tm_events_processed :: nat
  tm_duplicates_skipped :: nat
  tm_snapshot_published :: "(trend_window, nat) omap"
  tm_brief_triggered :: "(brief_trigger_type, nat) omap"
  tm_brief_skipped_stale_data :: nat
  tm_errors :: "(string, nat) omap"
  tm_consumer_lag :: "(int, int) omap"
  tm_topic_metrics :: topic_window_metrics
  tm_snapshot_duration :: "(trend_window, histogram_state) omap"
  tm_baseline_compute_duration :: histogram_state

datatype collector_status = CollectorHealthy | CollectorDegraded | CollectorError

record collector_heartbeat_state =
  chs_source :: canonical
  chs_status :: collector_status
  chs_timestamp :: int
  chs_last_fetch_at :: int
  chs_items_fetched :: int
  chs_error_message :: "string option"

record trends_health =
  th_start_time :: int
  th_kafka_healthy :: bool
  th_postgres_healthy :: bool
  th_redis_healthy :: bool
  th_allowlist_healthy :: bool
  th_last_event_at :: "int option"
  th_collector_heartbeats :: "(canonical, collector_heartbeat_state) omap"
  th_metrics :: trends_metrics

definition trends_duration_buckets_seconds :: "rat list" where
  "trends_duration_buckets_seconds =
     [1 / 100, 5 / 100, 1 / 10, 25 / 100, 5 / 10, 1, 25 / 10, 5, 10, 30, 60]"

definition create_trends_metrics :: trends_metrics where
  "create_trends_metrics =
     \<lparr>tm_events_processed = 0, tm_duplicates_skipped = 0, tm_snapshot_published = [], tm_brief_triggered = [],
      tm_brief_skipped_stale_data = 0, tm_errors = [], tm_consumer_lag = [],
      tm_topic_metrics = \<lparr>topic_volume_by_window = [], topic_score_by_window = []\<rparr>,
      tm_snapshot_duration =
        [(W15m, create_histogram trends_duration_buckets_seconds), (W60m, create_histogram trends_duration_buckets_seconds)],
      tm_baseline_compute_duration = create_histogram trends_duration_buckets_seconds\<rparr>"

definition create_trends_health :: "int \<Rightarrow> trends_health" where
  "create_trends_health now =
     \<lparr>th_start_time = now, th_kafka_healthy = False, th_postgres_healthy = False, th_redis_healthy = False,
      th_allowlist_healthy = False, th_last_event_at = None, th_collector_heartbeats = [],
      th_metrics = create_trends_metrics\<rparr>"

subsection \<open>Updates\<close>

definition on_metrics :: "(trends_metrics \<Rightarrow> trends_metrics) \<Rightarrow> trends_health \<Rightarrow> trends_health" where
  "on_metrics f h = h\<lparr>th_metrics := f (th_metrics h)\<rparr>"

definition bump_count :: "'k \<Rightarrow> nat \<Rightarrow> ('k, nat) omap \<Rightarrow> ('k, nat) omap" where
  "bump_count k n m = om_set m k (om_get 0 m k + n)"

definition t_increment_events_processed :: "nat \<Rightarrow> trends_health \<Rightarrow> trends_health" where
  "t_increment_events_processed n = on_metrics (\<lambda>m. m\<lparr>tm_events_processed := tm_events_processed m + n\<rparr>)"

definition t_increment_duplicates_skipped :: "nat \<Rightarrow> trends_health \<Rightarrow> trends_health" where
  "t_increment_duplicates_skipped n = on_metrics (\<lambda>m. m\<lparr>tm_duplicates_skipped := tm_duplicates_skipped m + n\<rparr>)"

definition t_increment_snapshot_published :: "trend_window \<Rightarrow> nat \<Rightarrow> trends_health \<Rightarrow> trends_health" where
  "t_increment_snapshot_published w n =
     on_metrics (\<lambda>m. m\<lparr>tm_snapshot_published := bump_count w n (tm_snapshot_published m)\<rparr>)"

definition t_increment_brief_triggered :: "brief_trigger_type \<Rightarrow> nat \<Rightarrow> trends_health \<Rightarrow> trends_health" where
  "t_increment_brief_triggered t n = on_metrics (\<lambda>m. m\<lparr>tm_brief_triggered := bump_count t n (tm_brief_triggered m)\<rparr>)"

definition t_increment_brief_skipped_stale_data :: "nat \<Rightarrow> trends_health \<Rightarrow> trends_health" where
  "t_increment_brief_skipped_stale_data n =
     on_metrics (\<lambda>m. m\<lparr>tm_brief_skipped_stale_data := tm_brief_skipped_stale_data m + n\<rparr>)"

definition t_increment_error :: "string \<Rightarrow> nat \<Rightarrow> trends_health \<Rightarrow> trends_health" where
  "t_increment_error e n = on_metrics (\<lambda>m. m\<lparr>tm_errors := bump_count e n (tm_errors m)\<rparr>)"

definition t_set_consumer_lag :: "int \<Rightarrow> int \<Rightarrow> trends_health \<Rightarrow> trends_health" where
  "t_set_consumer_lag part lag = on_metrics (\<lambda>m. m\<lparr>tm_consumer_lag := om_set (tm_consumer_lag m) part lag\<rparr>)"

definition t_clear_topic_metrics :: "trend_window \<Rightarrow> trends_health \<Rightarrow> trends_health" where
  "t_clear_topic_metrics w = on_metrics (\<lambda>m. m\<lparr>tm_topic_metrics := twm_clear w (tm_topic_metrics m)\<rparr>)"

definition t_set_topic_metrics :: "string \<Rightarrow> trend_window \<Rightarrow> rat \<Rightarrow> rat \<Rightarrow> trends_health \<Rightarrow> trends_health" where
  "t_set_topic_metrics topic w volume score =
     on_metrics (\<lambda>m. m\<lparr>tm_topic_metrics := twm_set topic w volume score (tm_topic_metrics m)\<rparr>)"

definition t_observe_snapshot_duration :: "trend_window \<Rightarrow> rat \<Rightarrow> trends_health \<Rightarrow> trends_health" where
  "t_observe_snapshot_duration w d = on_metrics (\<lambda>m. case map_of (tm_snapshot_duration m) w of
       None \<Rightarrow> m
     | Some h \<Rightarrow> m\<lparr>tm_snapshot_duration := om_set (tm_snapshot_duration m) w (observe_histogram h d)\<rparr>)"

definition t_observe_baseline_compute_duration :: "rat \<Rightarrow> trends_health \<Rightarrow> trends_health" where
  "t_observe_baseline_compute_duration d =
     on_metrics (\<lambda>m. m\<lparr>tm_baseline_compute_duration := observe_histogram (tm_baseline_compute_duration m) d\<rparr>)"

subsection \<open>Status and text format\<close>

record trends_health_status =
  ths_status :: status
  ths_kafka_ok :: bool
  ths_postgres_ok :: bool
  ths_redis_ok :: bool
  ths_allowlist_ok :: bool
  ths_uptime_seconds :: int
  ths_max_consumer_lag :: string
  ths_last_event_at :: "string option"

definition get_trends_health_status :: "int \<Rightarrow> int \<Rightarrow> trends_health \<Rightarrow> trends_health_status" where
  "get_trends_health_status max_lag_messages now h =
     (let max_lag = get_max_consumer_lag (tm_consumer_lag (th_metrics h));
          has_lag_issue = max_lag > max_lag_messages;
          st = (if \<not> th_kafka_healthy h \<or> \<not> th_postgres_healthy h \<or> \<not> th_redis_healthy h \<or> \<not> th_allowlist_healthy h
                then Unhealthy else if has_lag_issue then Degraded else Healthy)
      in \<lparr>ths_status = st, ths_kafka_ok = th_kafka_healthy h, ths_postgres_ok = th_postgres_healthy h,
          ths_redis_ok = th_redis_healthy h, ths_allowlist_ok = th_allowlist_healthy h,
          ths_uptime_seconds = (now - th_start_time h) div 1000, ths_max_consumer_lag = int_str max_lag,
          ths_last_event_at = map_option to_iso_string (th_last_event_at h)\<rparr>)"

definition trends_is_ready :: "trends_health \<Rightarrow> bool" where
  "trends_is_ready h \<longleftrightarrow> th_kafka_healthy h \<and> th_postgres_healthy h \<and> th_redis_healthy h \<and> th_allowlist_healthy h"

definition metric_header :: "string \<Rightarrow> string \<Rightarrow> string \<Rightarrow> string list" where
  "metric_header name help kind = [''# HELP '' @ name @ '' '' @ help, ''# TYPE '' @ name @ '' '' @ kind]"

definition labelled :: "string \<Rightarrow> (string \<times> string) list \<Rightarrow> string \<Rightarrow> string" where
  "labelled name ls v = name @ ''{'' @ join '','' (map (\<lambda>(k, x). k @ ''='' @ [CHR 0x22] @ x @ [CHR 0x22]) ls) @ ''} '' @ v"

definition gauge_lines :: "(rat \<Rightarrow> string) \<Rightarrow> string \<Rightarrow> topic_window_map \<Rightarrow> string list" where
  "gauge_lines num_str name m =
     map (\<lambda>(t, w, v). labelled name [(''topic'', quote_metric_label_value t), (''window'', window_name w)] (num_str v))
       (iterate_window_topic_metrics m)"

fun duration_lines :: "(rat \<Rightarrow> string) \<Rightarrow> (trend_window \<times> histogram_state) list \<Rightarrow> bool \<Rightarrow> string list" where
  "duration_lines num_str [] wrote = []"
| "duration_lines num_str ((w, h) # hs) wrote =
     format_histogram num_str ''ri_trends_snapshot_duration_seconds'' ''Snapshot computation duration in seconds'' h
       [(''window'', window_name w)] (\<not> wrote) @ duration_lines num_str hs True"

definition format_trends_metrics :: "(rat \<Rightarrow> string) \<Rightarrow> int \<Rightarrow> int \<Rightarrow> trends_health \<Rightarrow> string" where
  "format_trends_metrics num_str max_lag_messages now h =
     (let m = th_metrics h;
          ls =
            metric_header ''ri_trends_events_processed_total'' ''Events consumed and applied to trend windows'' ''counter'' @
            [''ri_trends_events_processed_total '' @ nat_str (tm_events_processed m)] @
            metric_header ''ri_trends_duplicates_skipped_total'' ''Duplicate events skipped by dedup'' ''counter'' @
            [''ri_trends_duplicates_skipped_total '' @ nat_str (tm_duplicates_skipped m)] @
            metric_header ''ri_trends_snapshot_published_total'' ''Trend snapshots published by window'' ''counter'' @
            map (\<lambda>(w, n). labelled ''ri_trends_snapshot_published_total'' [(''window'', window_name w)] (nat_str n))
              (tm_snapshot_published m) @
            metric_header ''ri_trends_brief_triggered_total'' ''Brief trigger events by type'' ''counter'' @
            map (\<lambda>t. labelled ''ri_trends_brief_triggered_total'' [(''type'', trigger_name t)]
              (nat_str (om_get 0 (tm_brief_triggered m) t))) [DailyTrigger, ThresholdTrigger] @
            metric_header ''ri_trends_brief_skipped_stale_data_total'' ''Brief triggers skipped due to stale data'' ''counter'' @
            [''ri_trends_brief_skipped_stale_data_total '' @ nat_str (tm_brief_skipped_stale_data m)] @
            metric_header ''ri_trends_errors_total'' ''Errors by category'' ''counter'' @
            map (\<lambda>(e, n). labelled ''ri_trends_errors_total'' [(''error_type'', quote_metric_label_value e)] (nat_str n))
              (tm_errors m) @
            metric_header ''ri_trends_consumer_lag'' ''Messages behind latest by partition'' ''gauge'' @
            map (\<lambda>(p, lag). labelled ''ri_trends_consumer_lag'' [(''partition'', int_str p)] (int_str lag)) (tm_consumer_lag m) @
            metric_header ''ri_trends_topic_volume'' ''Current topic volume by window'' ''gauge'' @
            gauge_lines num_str ''ri_trends_topic_volume'' (topic_volume_by_window (tm_topic_metrics m)) @
            metric_header ''ri_trends_topic_score'' ''Current topic score by window'' ''gauge'' @
            gauge_lines num_str ''ri_trends_topic_score'' (topic_score_by_window (tm_topic_metrics m)) @
            duration_lines num_str (tm_snapshot_duration m) False @
            format_histogram num_str ''ri_trends_baseline_compute_duration_seconds'' ''Baseline computation duration in seconds''
              (tm_baseline_compute_duration m) [] True @
            metric_header ''ri_trends_up'' ''1 when service dependencies are healthy'' ''gauge'' @
            [''ri_trends_up '' @ (if ths_status (get_trends_health_status max_lag_messages now h) = Unhealthy then ''0'' else ''1'')]
      in join [CHR 0x0A] ls @ [CHR 0x0A])"

subsection \<open>Invariant\<close>

text \<open>The histograms are consistent, and volumes and scores are known for the same windows and topics.\<close>

definition trends_metrics_ok :: "trends_metrics \<Rightarrow> bool" where
  "trends_metrics_ok m \<longleftrightarrow>
     list_all (\<lambda>(w, h). histogram_ok h) (tm_snapshot_duration m) \<and> histogram_ok (tm_baseline_compute_duration m) \<and>
     map fst (tm_snapshot_duration m) = [W15m, W60m] \<and>
     (\<forall>t w. get_window_topic_metric (topic_volume_by_window (tm_topic_metrics m)) t w = None \<longleftrightarrow>
       get_window_topic_metric (topic_score_by_window (tm_topic_metrics m)) t w = None)"

lemma get_set_window_topic:
  "get_window_topic_metric (set_window_topic m t w v) t' w' =
     (if w' = w \<and> t' = t then Some v else get_window_topic_metric m t' w')"
  by (auto simp: get_window_topic_metric_def set_window_topic_def js_map om_get_def split: option.split)

lemma get_clear_window_topic:
  "get_window_topic_metric (clear_window_topic_metric m w) t' w' = (if w' = w then None else get_window_topic_metric m t' w')"
  by (simp add: get_window_topic_metric_def clear_window_topic_metric_def js_map)

end
