(* ===== verification/Transport.thy ===== *)
theory Transport
  imports JsBase
begin

section \<open>Messages in batches (packages/pipeline/src/transport/index.ts, topic-router.ts)\<close>

text \<open>
  The wrapper around the Kafka client: brokers, publishers, the object a batch is processed through,
  the strategy that handles a batch message by message, and the dispatch of a batch to the strategy
  of its topic.

  The Kafka client is a parameter: its operations are state transformers of a world \<open>'w\<close> that also
  holds whatever the callbacks of a service change. A service is verified by taking its own state
  for \<open>'w\<close>; what it may rely on of the client is the locale \<open>kafka_payload\<close> below.
\<close>

subsection \<open>Brokers and publishers\<close>

datatype transport_error = NoBrokers | NotPositiveInteger string int

datatype raw_brokers = BrokerText string | BrokerList "string list"

definition parse_kafka_brokers :: "raw_brokers \<Rightarrow> transport_error + string list" where
  "parse_kafka_brokers raw =
     (let brokers = filter (\<lambda>v. length v > 0)
            (map trim (case raw of BrokerList bs \<Rightarrow> bs | BrokerText t \<Rightarrow> split_at (\<lambda>c. c = CHR '','') t))
      in if length brokers = 0 then Inl NoBrokers else Inr brokers)"

datatype pipeline_log_level = LogError | LogWarn | LogInfo | LogDebug

text \<open>The levels of the Kafka client are a parameter.\<close>

record kafka_log_levels =
  level_nothing :: int
  level_error :: int
  level_warn :: int
  level_info :: int
  level_debug :: int

definition get_pipeline_log_level :: "kafka_log_levels \<Rightarrow> int \<Rightarrow> pipeline_log_level option" where
  "get_pipeline_log_level lv level =
     (if level = level_error lv then Some LogError
      else if level = level_warn lv then Some LogWarn
      else if level = level_info lv then Some LogInfo
      else if level = level_debug lv then Some LogDebug
      else None)"

definition kafka_log_target :: "kafka_log_levels \<Rightarrow> int \<Rightarrow> pipeline_log_level option" where
  "kafka_log_target lv level =
     (if level = level_nothing lv then None
      else (case get_pipeline_log_level lv level of
          None \<Rightarrow> Some LogDebug
        | Some LogError \<Rightarrow> Some LogError
        | Some LogWarn \<Rightarrow> Some LogWarn
        | Some LogInfo \<Rightarrow> Some LogInfo
        | Some LogDebug \<Rightarrow> Some LogDebug))"

text \<open>\<open>send\<close> is the call of the producer: a topic and keyed values.\<close>

type_synonym ('w, 'e, 'b) send = "string \<Rightarrow> (string \<times> 'b) list \<Rightarrow> ('w, 'e, unit) eff"

definition producer_publish :: "('w, 'e, 'b) send \<Rightarrow> string \<Rightarrow> string \<Rightarrow> 'b \<Rightarrow> ('w, 'e, unit) eff" where
  "producer_publish send topic k v = send topic [(k, v)]"

definition producer_publish_batch ::
  "('w, 'e, 'b) send \<Rightarrow> string \<Rightarrow> (string \<times> 'b) list \<Rightarrow> ('w, 'e, bool) eff" where
  "producer_publish_batch send topic ms =
     (if length ms = 0 then eff_ret False else eff_bind (send topic ms) (\<lambda>_. eff_ret True))"

record ('w, 'e, 'b, 'p) publisher_options =
  po_send :: "('w, 'e, 'b) send"
  po_topic :: string
  po_serialize :: "('p \<Rightarrow> 'e + 'b) option"

definition topic_publish :: "('p \<Rightarrow> 'e + 'b) \<Rightarrow> ('w, 'e, 'b, 'p) publisher_options \<Rightarrow> string \<Rightarrow> 'p \<Rightarrow> ('w, 'e, unit) eff" where
  "topic_publish serialize_json_payload opts k payload =
     (let serialize = (case po_serialize opts of Some f \<Rightarrow> f | None \<Rightarrow> serialize_json_payload) in
      case serialize payload of
        Inl e \<Rightarrow> eff_throw e
      | Inr v \<Rightarrow> producer_publish (po_send opts) (po_topic opts) k v)"

definition keyed_topic_publish ::
  "('p \<Rightarrow> 'e + 'b) \<Rightarrow> ('w, 'e, 'b, 'p) publisher_options \<Rightarrow> ('p \<Rightarrow> string) \<Rightarrow> 'p \<Rightarrow> ('w, 'e, unit) eff" where
  "keyed_topic_publish serialize_json_payload opts get_key payload =
     topic_publish serialize_json_payload opts (get_key payload) payload"

subsection \<open>The batch object\<close>

record 'b kafka_message =
  km_key :: "'b option"
  km_value :: "'b option"
  km_offset :: string
  km_timestamp :: string

record ('w, 'e, 'b) each_batch_payload =
  ebp_topic :: string
  ebp_partition :: int
  ebp_high_watermark :: string
  ebp_messages :: "'b kafka_message list"
  ebp_is_running :: "'w \<Rightarrow> bool \<times> 'w"
  ebp_is_stale :: "'w \<Rightarrow> bool \<times> 'w"
  ebp_heartbeat :: "('w, 'e, unit) eff"
  ebp_resolve_offset :: "string \<Rightarrow> 'w \<Rightarrow> 'w"
  ebp_commit_offsets_if_necessary :: "('w, 'e, unit) eff"
  ebp_pause :: "'w \<Rightarrow> ('w \<Rightarrow> 'w) \<times> 'w"

record 'b message =
  m_key :: "'b option"
  m_value :: "'b option"
  m_position :: string
  m_timestamp :: string

record ('w, 'e) batch_context =
  bc_topic :: string
  bc_partition :: int
  bc_high_watermark :: string
  bc_is_active :: "('w, 'e, bool) eff"
  bc_keep_alive :: "('w, 'e, unit) eff"
  bc_acknowledge :: "string \<Rightarrow> 'w \<Rightarrow> 'w"
  bc_commit :: "('w, 'e, unit) eff"
  bc_pause :: "'w \<Rightarrow> ('w \<Rightarrow> 'w) \<times> 'w"

text \<open>\<open>pause\<close> stops the partition and gives the operation that resumes it.\<close>

definition create_batch_context :: "('w, 'e, 'b) each_batch_payload \<Rightarrow> ('w, 'e) batch_context" where
  "create_batch_context payload =
     \<lparr>bc_topic = ebp_topic payload, bc_partition = ebp_partition payload,
      bc_high_watermark = ebp_high_watermark payload,
      bc_is_active = (\<lambda>w. case ebp_is_running payload w of
          (False, w') \<Rightarrow> (Inr False, w')
        | (True, w') \<Rightarrow> (case ebp_is_stale payload w' of (stale, w'') \<Rightarrow> (Inr (\<not> stale), w''))),
      bc_keep_alive = ebp_heartbeat payload, bc_acknowledge = ebp_resolve_offset payload,
      bc_commit = ebp_commit_offsets_if_necessary payload, bc_pause = ebp_pause payload\<rparr>"

definition to_pipeline_messages :: "('w, 'e, 'b) each_batch_payload \<Rightarrow> 'b message list" where
  "to_pipeline_messages payload =
     map (\<lambda>m. \<lparr>m_key = km_key m, m_value = km_value m, m_position = km_offset m, m_timestamp = km_timestamp m\<rparr>)
       (ebp_messages payload)"

subsection \<open>Handling a batch message by message\<close>

record ('w, 'e) message_context =
  mc_topic :: string
  mc_partition :: int
  mc_position :: string
  mc_keep_alive :: "('w, 'e, unit) eff"

record ('w, 'e, 'b, 'm) message_strategy =
  ms_deserialize :: "'b \<Rightarrow> 'e + 'm"
  ms_on_empty_value :: "(('w, 'e) message_context \<Rightarrow> ('w, 'e, unit) eff) option"
  ms_on_deserialize_failure :: "(('w, 'e) message_context \<Rightarrow> 'e \<Rightarrow> ('w, 'e, unit) eff) option"
  ms_on_message :: "('w, 'e) message_context \<Rightarrow> 'm \<Rightarrow> ('w, 'e, unit) eff"

record ('w, 'e, 'b, 'm) batch_options =
  bo_strategy :: "('w, 'e, 'b, 'm) message_strategy"
  bo_progress_interval :: "int option"
  bo_acknowledge :: "bool option"
  bo_on_batch_completed :: "('w, 'e, unit) eff option"

definition message_context_of :: "('w, 'e) batch_context \<Rightarrow> 'b message \<Rightarrow> ('w, 'e) message_context" where
  "message_context_of b m =
     \<lparr>mc_topic = bc_topic b, mc_partition = bc_partition b, mc_position = m_position m,
      mc_keep_alive = bc_keep_alive b\<rparr>"

definition run_message_callback :: "('w, 'e, unit) eff option \<Rightarrow> ('w, 'e, unit) eff" where
  "run_message_callback cb = (case cb of None \<Rightarrow> eff_ret () | Some f \<Rightarrow> f)"

text \<open>The part after the callback that the three branches of the loop share.\<close>

definition acknowledge_message :: "bool \<Rightarrow> ('w, 'e) batch_context \<Rightarrow> 'b message \<Rightarrow> ('w, 'e, unit) eff" where
  "acknowledge_message ack b m =
     (if ack then eff_upd (bc_acknowledge b (m_position m)) else eff_ret ())"

definition report_progress :: "int \<Rightarrow> ('w, 'e) batch_context \<Rightarrow> int \<Rightarrow> ('w, 'e, unit) eff" where
  "report_progress interval b handled_count =
     (if handled_count mod interval = 0 then bc_keep_alive b else eff_ret ())"

definition handle_message ::
  "('w, 'e, 'b, 'm) message_strategy \<Rightarrow> ('w, 'e) batch_context \<Rightarrow> 'b message \<Rightarrow> ('w, 'e, unit) eff" where
  "handle_message st b m =
     (let mc = message_context_of b m in
      case m_value m of
        None \<Rightarrow> run_message_callback (map_option (\<lambda>f. f mc) (ms_on_empty_value st))
      | Some v \<Rightarrow> (case ms_deserialize st v of
            Inl e \<Rightarrow> run_message_callback (map_option (\<lambda>f. f mc e) (ms_on_deserialize_failure st))
          | Inr decoded \<Rightarrow> ms_on_message st mc decoded))"

text \<open>The loop; its result is \<open>completed\<close>.\<close>

fun handle_messages ::
  "('w, 'e, 'b, 'm) message_strategy \<Rightarrow> int \<Rightarrow> bool \<Rightarrow> ('w, 'e) batch_context \<Rightarrow> 'b message list \<Rightarrow> int \<Rightarrow>
   ('w, 'e, bool) eff" where
  "handle_messages st interval ack b [] n = eff_ret True"
| "handle_messages st interval ack b (m # ms) n =
     eff_bind (bc_is_active b) (\<lambda>active.
     if \<not> active then eff_ret False
     else
       eff_bind (handle_message st b m) (\<lambda>_.
       eff_bind (acknowledge_message ack b m) (\<lambda>_.
       eff_bind (report_progress interval b (n + 1)) (\<lambda>_.
       handle_messages st interval ack b ms (n + 1)))))"

type_synonym ('w, 'e, 'b) batch_processor =
  "('w, 'e) batch_context \<Rightarrow> 'b message list \<Rightarrow> ('w, 'e, unit) eff"

definition finish_batch ::
  "('w, 'e, unit) eff option \<Rightarrow> ('w, 'e) batch_context \<Rightarrow> bool \<Rightarrow> ('w, 'e, unit) eff" where
  "finish_batch on_completed b completed =
     eff_bind (bc_commit b) (\<lambda>_.
     eff_bind (if completed then bc_is_active b else eff_ret False) (\<lambda>active.
     if \<not> active then eff_ret ()
     else eff_bind (bc_keep_alive b) (\<lambda>_. run_message_callback on_completed)))"

definition assert_positive_integer :: "int \<Rightarrow> string \<Rightarrow> transport_error + unit" where
  "assert_positive_integer n field_name = (if n \<le> 0 then Inl (NotPositiveInteger field_name n) else Inr ())"

definition create_message_batch_strategy ::
  "('w, 'e, 'b, 'm) batch_options \<Rightarrow> transport_error + ('w, 'e, 'b) batch_processor" where
  "create_message_batch_strategy opts =
     (let interval = (case bo_progress_interval opts of Some n \<Rightarrow> n | None \<Rightarrow> 50);
          ack = (case bo_acknowledge opts of Some a \<Rightarrow> a | None \<Rightarrow> True) in
      ebind (assert_positive_integer interval ''progressInterval'') (\<lambda>_.
        Inr (\<lambda>b ms.
          eff_bind (bc_is_active b) (\<lambda>active.
          if \<not> active then eff_ret ()
          else eff_bind (handle_messages (bo_strategy opts) interval ack b ms 0)
                 (finish_batch (bo_on_batch_completed opts) b)))))"

subsection \<open>Dispatching a batch to the strategy of its topic\<close>

fun resolve_offsets_of :: "('w, 'e, 'b) each_batch_payload \<Rightarrow> 'b kafka_message list \<Rightarrow> ('w, 'e, unit) eff" where
  "resolve_offsets_of payload [] = eff_ret ()"
| "resolve_offsets_of payload (m # ms) =
     eff_bind (eff_upd (ebp_resolve_offset payload (km_offset m))) (\<lambda>_. resolve_offsets_of payload ms)"

definition skip_unknown_topic_batch :: "('w, 'e, 'b) each_batch_payload \<Rightarrow> ('w, 'e, unit) eff" where
  "skip_unknown_topic_batch payload =
     eff_bind (resolve_offsets_of payload (ebp_messages payload)) (\<lambda>_.
     eff_bind (ebp_commit_offsets_if_necessary payload) (\<lambda>_. ebp_heartbeat payload))"

datatype ('w, 'e, 'b) topic_strategies =
    OneStrategy "('w, 'e, 'b) batch_processor"
  | StrategyMap "(string, ('w, 'e, 'b) batch_processor) omap"

fun resolve_topic_strategy :: "('w, 'e, 'b) topic_strategies \<Rightarrow> string \<Rightarrow> ('w, 'e, 'b) batch_processor option" where
  "resolve_topic_strategy (OneStrategy p) topic = Some p"
| "resolve_topic_strategy (StrategyMap m) topic = map_of m topic"

definition each_batch :: "('w, 'e, 'b) topic_strategies \<Rightarrow> ('w, 'e, 'b) each_batch_payload \<Rightarrow> ('w, 'e, unit) eff" where
  "each_batch strategy payload =
     (case resolve_topic_strategy strategy (ebp_topic payload) of
        None \<Rightarrow> skip_unknown_topic_batch payload
      | Some p \<Rightarrow> p (create_batch_context payload) (to_pipeline_messages payload))"

text \<open>\<open>consume\<close>: subscribe to every topic, then hand every batch to its strategy.\<close>

datatype consume_topics = OneTopic string | Topics "string list"

record ('w, 'e, 'b) consumer_client =
  cc_subscribe :: "string \<Rightarrow> bool \<Rightarrow> ('w, 'e, unit) eff"
  cc_run :: "(('w, 'e, 'b) each_batch_payload \<Rightarrow> ('w, 'e, unit) eff) \<Rightarrow> ('w, 'e, unit) eff"

fun subscribe_all :: "('w, 'e, 'b) consumer_client \<Rightarrow> bool \<Rightarrow> string list \<Rightarrow> ('w, 'e, unit) eff" where
  "subscribe_all cc from_beginning [] = eff_ret ()"
| "subscribe_all cc from_beginning (t # ts) =
     eff_bind (cc_subscribe cc t from_beginning) (\<lambda>_. subscribe_all cc from_beginning ts)"

definition consume ::
  "('w, 'e, 'b) consumer_client \<Rightarrow> consume_topics \<Rightarrow> ('w, 'e, 'b) topic_strategies \<Rightarrow> bool option \<Rightarrow>
   ('w, 'e, unit) eff" where
  "consume cc topics strategy from_beginning =
     eff_bind (subscribe_all cc (case from_beginning of Some f \<Rightarrow> f | None \<Rightarrow> False)
         (case topics of OneTopic t \<Rightarrow> [t] | Topics ts \<Rightarrow> ts))
       (\<lambda>_. cc_run cc (each_batch strategy))"

text \<open>The router for services that handle the payload themselves.\<close>

definition route_batch ::
  "(string, ('w, 'e, 'b) each_batch_payload \<Rightarrow> ('w, 'e, unit) eff) omap \<Rightarrow>
   (('w, 'e, 'b) each_batch_payload \<Rightarrow> ('w, 'e, unit) eff) option \<Rightarrow>
   ('w, 'e, 'b) each_batch_payload \<Rightarrow> ('w, 'e, unit) eff" where
  "route_batch handlers on_unknown_topic payload =
     (case map_of handlers (ebp_topic payload) of
        Some h \<Rightarrow> h payload
      | None \<Rightarrow> (case on_unknown_topic of Some h \<Rightarrow> h payload | None \<Rightarrow> skip_unknown_topic_batch payload))"

subsection \<open>What a batch may rely on\<close>

text \<open>The calls that matter to the broker.\<close>

datatype client_call = Acked string | Beat | Committed

definition acked :: "client_call list \<Rightarrow> string list" where
  "acked t = concat (map (\<lambda>c. case c of Acked p \<Rightarrow> [p] | _ \<Rightarrow> []) t)"

lemma acked_simps [simp]:
  "acked [] = []" "acked (Acked p # t) = p # acked t" "acked (Beat # t) = acked t"
  "acked (Committed # t) = acked t" "acked (s @ t) = acked s @ acked t"
  by (simp_all add: acked_def)

lemma acked_beats: "set t \<subseteq> {Beat} \<Longrightarrow> acked t = []"
  by (induction t) auto

text \<open>
  \<open>obs\<close> is any observation of the world that records these calls: the operations of the batch object
  append to it.
\<close>

locale batch_consumer =
  fixes b :: "('w, 'e) batch_context" and obs :: "'w \<Rightarrow> client_call list"
  assumes active_log: "obs (snd (bc_is_active b w)) = obs w"
    and active_total: "\<exists>a. fst (bc_is_active b w) = Inr a"
    and beat_log: "obs (snd (bc_keep_alive b w)) = obs w @ [Beat]"
    and ack_log: "obs (bc_acknowledge b p w) = obs w @ [Acked p]"
    and commit_log: "obs (snd (bc_commit b w)) = obs w @ [Committed]"
begin

definition quiet :: "('w, 'e, 'a) eff \<Rightarrow> bool" where
  "quiet f \<longleftrightarrow> (\<forall>w. \<exists>t. obs (snd (f w)) = obs w @ t \<and> set t \<subseteq> {Beat})"

lemma quiet_ret: "quiet (eff_ret x)"
  by (simp add: quiet_def eff_ret_def)

lemma quiet_keep_alive: "quiet (bc_keep_alive b)"
  by (simp add: quiet_def beat_log)

lemma quiet_active: "quiet (bc_is_active b)"
  by (simp add: quiet_def active_log)

lemma quiet_progress: "quiet (report_progress n b k)"
  by (simp add: report_progress_def quiet_keep_alive quiet_ret)

end

text \<open>
  What is documented of the Kafka client: its calls are what the observation records, and asking
  whether the consumer runs or the batch is stale is no call to the broker. The batch object made
  from such a payload may be relied on.
\<close>

locale kafka_payload =
  fixes payload :: "('w, 'e, 'b) each_batch_payload" and obs :: "'w \<Rightarrow> client_call list"
  assumes running_log: "obs (snd (ebp_is_running payload w)) = obs w"
    and stale_log: "obs (snd (ebp_is_stale payload w)) = obs w"
    and heartbeat_log: "obs (snd (ebp_heartbeat payload w)) = obs w @ [Beat]"
    and resolve_log: "obs (ebp_resolve_offset payload p w) = obs w @ [Acked p]"
    and commit_offsets_log: "obs (snd (ebp_commit_offsets_if_necessary payload w)) = obs w @ [Committed]"

sublocale kafka_payload \<subseteq> made: batch_consumer "create_batch_context payload" obs
proof unfold_locales
  fix w
  show "obs (snd (bc_is_active (create_batch_context payload) w)) = obs w"
    using running_log [of w] stale_log [of "snd (ebp_is_running payload w)"]
    by (auto simp: create_batch_context_def split: prod.split bool.split)
  show "\<exists>a. fst (bc_is_active (create_batch_context payload) w) = Inr a"
    by (auto simp: create_batch_context_def split: prod.split bool.split)
qed (simp_all add: create_batch_context_def heartbeat_log resolve_log commit_offsets_log)

text \<open>The callbacks of a service do not acknowledge or commit on their own; they may keep the batch alive.\<close>

locale message_handler = batch_consumer b obs
  for b :: "('w, 'e) batch_context" and obs +
  fixes st :: "('w, 'e, 'b, 'm) message_strategy" and on_completed :: "('w, 'e, unit) eff option"
  assumes quiet_handler: "quiet (handle_message st b m)"
    and quiet_completed: "quiet (run_message_callback on_completed)"

text \<open>How many messages of a batch are handled: the number of callbacks that return without an error.\<close>

fun handled_count ::
  "('w, 'e, 'b, 'm) message_strategy \<Rightarrow> int \<Rightarrow> ('w, 'e) batch_context \<Rightarrow> 'b message list \<Rightarrow> int \<Rightarrow> 'w \<Rightarrow> nat" where
  "handled_count st interval b [] n w = 0"
| "handled_count st interval b (m # ms) n w =
     (case bc_is_active b w of
        (Inr True, w1) \<Rightarrow> (case handle_message st b m w1 of
            (Inr _, w2) \<Rightarrow> Suc (case report_progress interval b (n + 1) (bc_acknowledge b (m_position m) w2) of
                (Inr _, w3) \<Rightarrow> handled_count st interval b ms (n + 1) w3
              | (Inl _, w3) \<Rightarrow> 0)
          | (Inl _, w2) \<Rightarrow> 0)
      | (_, w1) \<Rightarrow> 0)"

context message_handler
begin

lemma handle_messages_log:
  "\<exists>t. obs (snd (handle_messages st interval True b ms n w)) = obs w @ t \<and> Committed \<notin> set t \<and>
     acked t = map m_position (take (handled_count st interval b ms n w) ms) \<and>
     handled_count st interval b ms n w \<le> length ms \<and>
     (fst (handle_messages st interval True b ms n w) = Inr True \<longrightarrow> handled_count st interval b ms n w = length ms)"
proof (induction ms arbitrary: n w)
  case Nil
  show ?case by (simp add: eff_ret_def)
next
  case (Cons m ms)
  obtain a w1 where act: "bc_is_active b w = (Inr a, w1)" "obs w1 = obs w"
    using active_total [of w] active_log [of w] by (metis prod.collapse)
  obtain r w2 where hd: "handle_message st b m w1 = (r, w2)" by fastforce
  obtain t2 where t2: "obs w2 = obs w1 @ t2" "set t2 \<subseteq> {Beat}"
    using quiet_handler [of m] hd unfolding quiet_def by (metis snd_conv)
  have none: "Committed \<notin> set t2" "acked t2 = []" using t2(2) acked_beats by auto
  let ?w3 = "bc_acknowledge b (m_position m) w2"
  obtain r4 w4 where pr: "report_progress interval b (n + 1) ?w3 = (r4, w4)" by fastforce
  obtain t4 where t4: "obs w4 = obs ?w3 @ t4" "set t4 \<subseteq> {Beat}"
    using quiet_progress [of interval "n + 1"] pr unfolding quiet_def by (metis snd_conv)
  have none4: "Committed \<notin> set t4" "acked t4 = []" using t4(2) acked_beats by auto
  note steps = eff_bind_def eff_ret_def eff_upd_def acknowledge_message_def
  show ?case
  proof (cases "a = False")
    case True
    then show ?thesis using act by (simp add: steps)
  next
    case False
    show ?thesis
    proof (cases r)
      case (Inl e)
      then show ?thesis using False act hd t2 none by (auto simp: steps)
    next
      case (Inr u)
      show ?thesis
      proof (cases r4)
        case (Inl e)
        then show ?thesis using False act hd t2 none \<open>r = Inr u\<close> pr t4 none4 ack_log by (auto simp: steps)
      next
        case r4: (Inr u4)
        have run: "handle_messages st interval True b (m # ms) n w = handle_messages st interval True b ms (n + 1) w4"
          "handled_count st interval b (m # ms) n w = Suc (handled_count st interval b ms (n + 1) w4)"
          using False act hd \<open>r = Inr u\<close> pr r4 by (simp_all add: steps)
        from Cons.IH [of "n + 1" w4] obtain t where t:
          "obs (snd (handle_messages st interval True b ms (n + 1) w4)) = obs w4 @ t" "Committed \<notin> set t"
          "acked t = map m_position (take (handled_count st interval b ms (n + 1) w4) ms)"
          "handled_count st interval b ms (n + 1) w4 \<le> length ms"
          "fst (handle_messages st interval True b ms (n + 1) w4) = Inr True \<longrightarrow> handled_count st interval b ms (n + 1) w4 = length ms"
          by blast
        show ?thesis unfolding run
          using t act t2 none t4 none4 ack_log by (intro exI [of _ "t2 @ [Acked (m_position m)] @ t4 @ t"]) simp
      qed
    qed
  qed
qed

lemma finish_batch_log:
  "\<exists>t. obs (snd (finish_batch on_completed b c w)) = obs w @ Committed # t \<and> set t \<subseteq> {Beat}"
proof -
  obtain r1 w1 where c: "bc_commit b w = (r1, w1)" "obs w1 = obs w @ [Committed]"
    using commit_log [of w] by (metis prod.collapse)
  have "quiet (if c then bc_is_active b else eff_ret False)" by (simp add: quiet_active quiet_ret)
  then obtain r2 w2 t2 where a: "(if c then bc_is_active b else eff_ret False) w1 = (r2, w2)" "obs w2 = obs w1 @ t2" "set t2 \<subseteq> {Beat}"
    unfolding quiet_def by (metis prod.collapse)
  obtain r3 w3 where k: "bc_keep_alive b w2 = (r3, w3)" "obs w3 = obs w2 @ [Beat]"
    using beat_log [of w2] by (metis prod.collapse)
  obtain r4 w4 t4 where d: "run_message_callback on_completed w3 = (r4, w4)" "obs w4 = obs w3 @ t4" "set t4 \<subseteq> {Beat}"
    using quiet_completed unfolding quiet_def by (metis prod.collapse)
  show ?thesis using c a k d
    by (cases r1; cases r2; cases r3) (auto simp: finish_batch_def eff_bind_def eff_ret_def)
qed

end

subsection \<open>A client that only records\<close>

definition recording_payload :: "string \<Rightarrow> 'b kafka_message list \<Rightarrow> (client_call list, string, 'b) each_batch_payload" where
  "recording_payload topic ms =
     \<lparr>ebp_topic = topic, ebp_partition = 0, ebp_high_watermark = ''9'', ebp_messages = ms,
      ebp_is_running = (\<lambda>w. (True, w)), ebp_is_stale = (\<lambda>w. (False, w)),
      ebp_heartbeat = (\<lambda>w. (Inr (), w @ [Beat])), ebp_resolve_offset = (\<lambda>p w. w @ [Acked p]),
      ebp_commit_offsets_if_necessary = (\<lambda>w. (Inr (), w @ [Committed])), ebp_pause = (\<lambda>w. (id, w))\<rparr>"

definition recording_batch :: "(client_call list, string) batch_context" where
  "recording_batch = create_batch_context (recording_payload ''events.raw'' ([] :: unit kafka_message list))"

definition ignoring_strategy :: "(client_call list, string, unit, unit) message_strategy" where
  "ignoring_strategy =
     \<lparr>ms_deserialize = Inr, ms_on_empty_value = None, ms_on_deserialize_failure = None,
      ms_on_message = (\<lambda>mc _. mc_keep_alive mc)\<rparr>"

interpretation recording_client: kafka_payload "recording_payload topic ms" id
  by unfold_locales (auto simp: recording_payload_def)

interpretation recording: batch_consumer recording_batch id
  unfolding recording_batch_def by (rule recording_client.made.batch_consumer_axioms)

interpretation recording_ignoring: message_handler recording_batch id ignoring_strategy None
proof unfold_locales
  have "recording.quiet (bc_keep_alive recording_batch)" by (rule recording.quiet_keep_alive)
  then show "recording.quiet (handle_message ignoring_strategy recording_batch m)" for m
    using recording.quiet_ret
    by (auto simp: handle_message_def ignoring_strategy_def run_message_callback_def message_context_of_def
        Let_def split: option.split)
  show "recording.quiet (run_message_callback None)"
    by (simp add: run_message_callback_def recording.quiet_ret)
qed

definition ignoring_options :: "(client_call list, string, unit, unit) batch_options" where
  "ignoring_options =
     \<lparr>bo_strategy = ignoring_strategy, bo_progress_interval = Some 2, bo_acknowledge = None,
      bo_on_batch_completed = None\<rparr>"

definition sample_messages :: "unit message list" where
  "sample_messages = map (\<lambda>p. \<lparr>m_key = None, m_value = Some (), m_position = p, m_timestamp = []\<rparr>) [''7'', ''8'']"

subsection \<open>Properties\<close>

lemma create_message_batch_strategy_Inr:
  "create_message_batch_strategy opts = Inr process \<Longrightarrow>
     process = (\<lambda>b ms. eff_bind (bc_is_active b) (\<lambda>active. if \<not> active then eff_ret ()
       else eff_bind (handle_messages (bo_strategy opts) (case bo_progress_interval opts of Some n \<Rightarrow> n | None \<Rightarrow> 50)
           (case bo_acknowledge opts of Some a \<Rightarrow> a | None \<Rightarrow> True) b ms 0)
         (finish_batch (bo_on_batch_completed opts) b)))"
  by (auto simp: create_message_batch_strategy_def Let_def)

lemma process_active:
  assumes "create_message_batch_strategy opts = Inr process" "bo_acknowledge opts \<noteq> Some False"
    "bc_is_active b w = (Inr True, w1)"
  shows "process b ms w = eff_bind (handle_messages (bo_strategy opts)
      (case bo_progress_interval opts of Some n \<Rightarrow> n | None \<Rightarrow> 50) True b ms 0) (finish_batch (bo_on_batch_completed opts) b) w1"
  using assms by (auto simp: create_message_batch_strategy_Inr [OF assms(1)] eff_bind_def [of "bc_is_active b"] split: option.splits)

text \<open>
  At least once: whatever the broker and the callbacks do, processing a batch acknowledges
  exactly the messages whose callback returned without an error, a prefix of the batch and in its
  order; it acknowledges nothing after it has committed, and it does not return normally from a
  batch that stayed active without having committed.
\<close>

theorem batch_acknowledges_handled:
  assumes "message_handler b obs (bo_strategy opts) (bo_on_batch_completed opts)"
    and "create_message_batch_strategy opts = Inr process" and "bo_acknowledge opts \<noteq> Some False"
    and "bc_is_active b w = (Inr True, w1)"
  shows "\<exists>t u. obs (snd (process b ms w)) = obs w @ t @ u \<and>
      acked t = map m_position (take (handled_count (bo_strategy opts)
        (case bo_progress_interval opts of Some n \<Rightarrow> n | None \<Rightarrow> 50) b ms 0 w1) ms) \<and>
      Committed \<notin> set t \<and> (u = [] \<and> isl (fst (process b ms w)) \<or> (\<exists>v. u = Committed # v \<and> set v \<subseteq> {Beat}))"
proof -
  let ?i = "case bo_progress_interval opts of Some n \<Rightarrow> n | None \<Rightarrow> 50"
  note h = message_handler.handle_messages_log [OF assms(1), where interval = ?i and ms = ms and n = 0 and w = w1]
  note f = message_handler.finish_batch_log [OF assms(1)]
  have "obs w1 = obs w"
    using batch_consumer.active_log [OF message_handler.axioms(1) [OF assms(1)], of w] assms(4) by simp
  note p = process_active [OF assms(2,3,4), of ms]
  obtain t where t: "obs (snd (handle_messages (bo_strategy opts) ?i True b ms 0 w1)) = obs w1 @ t" "Committed \<notin> set t"
    "acked t = map m_position (take (handled_count (bo_strategy opts) ?i b ms 0 w1) ms)"
    using h by blast
  obtain r w2 where r: "handle_messages (bo_strategy opts) ?i True b ms 0 w1 = (r, w2)" by fastforce
  show ?thesis
  proof (cases r)
    case (Inl e)
    then show ?thesis using p r t \<open>obs w1 = obs w\<close> by (intro exI [of _ t] exI [of _ "[]"]) (simp add: eff_bind_def)
  next
    case (Inr c)
    then have "process b ms w = finish_batch (bo_on_batch_completed opts) b c w2" using p r by (simp add: eff_bind_def)
    then obtain v where "obs (snd (process b ms w)) = obs w2 @ Committed # v" "set v \<subseteq> {Beat}" using f by metis
    then show ?thesis using r t \<open>obs w1 = obs w\<close> by (intro exI [of _ t] exI [of _ "Committed # v"]) auto
  qed
qed

theorem batch_acknowledges_handled_witness:
  "\<exists>process t u. create_message_batch_strategy ignoring_options = Inr process \<and>
     id (snd (process recording_batch sample_messages [])) = t @ u \<and> acked t = [''7'', ''8'']"
proof -
  obtain process where p: "create_message_batch_strategy ignoring_options = Inr process"
    by (auto simp: create_message_batch_strategy_def ignoring_options_def assert_positive_integer_def)
  have "handled_count ignoring_strategy 2 recording_batch sample_messages 0 [] = 2"
    by (simp add: sample_messages_def recording_batch_def create_batch_context_def recording_payload_def ignoring_strategy_def handle_message_def report_progress_def
        message_context_of_def eff_ret_def)
  then show ?thesis
    using batch_acknowledges_handled [of recording_batch id ignoring_options process "[]" "[]" sample_messages]
      recording_ignoring.message_handler_axioms p
    by (auto simp: ignoring_options_def recording_batch_def create_batch_context_def recording_payload_def sample_messages_def)
qed

text \<open>A batch in which nothing fails.\<close>

definition never_fails :: "('w, 'e, 'b, 'm) batch_options \<Rightarrow> ('w, 'e) batch_context \<Rightarrow> bool" where
  "never_fails opts b \<longleftrightarrow>
     (\<forall>w. fst (bc_is_active b w) = Inr True) \<and> (\<forall>w. fst (bc_keep_alive b w) = Inr ()) \<and>
     (\<forall>w. fst (bc_commit b w) = Inr ()) \<and> (\<forall>m w. fst (handle_message (bo_strategy opts) b m w) = Inr ()) \<and>
     (\<forall>w. fst (run_message_callback (bo_on_batch_completed opts) w) = Inr ())"

lemma eff_bind_total: "fst (m s) = Inr a \<Longrightarrow> eff_bind m k s = k a (snd (m s))"
  by (cases "m s") (simp add: eff_bind_def)

lemma handle_messages_total:
  assumes "never_fails opts b"
  shows "fst (handle_messages (bo_strategy opts) i True b ms n w) = Inr True"
proof (induction ms arbitrary: n w)
  case (Cons m ms)
  have "fst (report_progress i b k w) = Inr ()" for k w
    using assms by (simp add: report_progress_def never_fails_def eff_ret_def)
  moreover have "fst (acknowledge_message True b m w) = Inr ()" for w
    by (simp add: acknowledge_message_def eff_upd_def)
  ultimately show ?case using assms Cons by (simp add: eff_bind_total never_fails_def)
qed (simp add: eff_ret_def)

text \<open>
  Progress: when the batch stays active and neither the broker nor a callback fails, processing a
  batch returns, has acknowledged every message in order, and has committed after the last one.
\<close>

theorem batch_completes:
  assumes "message_handler b obs (bo_strategy opts) (bo_on_batch_completed opts)"
    and "create_message_batch_strategy opts = Inr process" and "bo_acknowledge opts \<noteq> Some False"
    and "never_fails opts b"
  shows "fst (process b ms w) = Inr () \<and>
    (\<exists>t v. obs (snd (process b ms w)) = obs w @ t @ Committed # v \<and> acked t = map m_position ms \<and> set v \<subseteq> {Beat})"
proof -
  let ?i = "case bo_progress_interval opts of Some n \<Rightarrow> n | None \<Rightarrow> 50"
  obtain w1 where w1: "bc_is_active b w = (Inr True, w1)" using assms(4) by (metis never_fails_def prod.collapse)
  have "obs w1 = obs w"
    using batch_consumer.active_log [OF message_handler.axioms(1) [OF assms(1)], of w] w1 by simp
  obtain w2 where w2: "handle_messages (bo_strategy opts) ?i True b ms 0 w1 = (Inr True, w2)"
    using handle_messages_total [OF assms(4)] by (metis prod.collapse)
  then obtain t where t: "obs w2 = obs w1 @ t" "acked t = map m_position ms"
    using message_handler.handle_messages_log [OF assms(1), where interval = ?i and ms = ms and n = 0 and w = w1] by fastforce
  have p: "process b ms w = finish_batch (bo_on_batch_completed opts) b True w2"
    using process_active [OF assms(2,3) w1, of ms] w2 by (simp add: eff_bind_def)
  have "fst (finish_batch (bo_on_batch_completed opts) b True w2) = Inr ()"
    using assms(4) by (simp add: finish_batch_def eff_bind_total never_fails_def)
  then show ?thesis
    using p t \<open>obs w1 = obs w\<close> message_handler.finish_batch_log [OF assms(1), of True w2] by auto
qed

lemma ignoring_never_fails: "never_fails ignoring_options recording_batch"
  by (auto simp: never_fails_def ignoring_options_def ignoring_strategy_def recording_batch_def create_batch_context_def recording_payload_def handle_message_def
      message_context_of_def run_message_callback_def eff_ret_def Let_def split: option.split)

theorem batch_completes_witness:
  "\<exists>process t v. create_message_batch_strategy ignoring_options = Inr process \<and>
     snd (process recording_batch sample_messages []) = t @ Committed # v \<and> acked t = [''7'', ''8'']"
proof -
  obtain process where p: "create_message_batch_strategy ignoring_options = Inr process"
    by (auto simp: create_message_batch_strategy_def ignoring_options_def assert_positive_integer_def)
  show ?thesis
    using batch_completes [of recording_batch id ignoring_options process sample_messages "[]"]
      recording_ignoring.message_handler_axioms p ignoring_never_fails
    by (auto simp: ignoring_options_def sample_messages_def)
qed

end
