(* ===== verification/Trends.thy ===== *)
theory Trends
  imports TrendsHealth Transport ConsumerLag
begin

section \<open>The trends service (apps/trends/src/process.ts, snapshot.ts, collector-heartbeat-*.ts, index.ts)\<close>

text \<open>
  The two message strategies of the service (raw events and collector heartbeats), its consumer lag,
  and the periodic snapshot of every window.

  The state of the service is its health, the times of its last lag writes, whether a snapshot is in
  flight, Redis, and an outer world \<open>'x\<close> with the clock, the database and the Kafka client, whose
  operations are parameters.
\<close>

subsection \<open>State\<close>

datatype heartbeat_error =
    InvalidJson
  | NotAnObject
  | FieldNotString string
  | InvalidField string string
  | UnsupportedStatus json
  | SourceNotNameOrNumber
  | HeartbeatSource source_error
  | UnsupportedSourceNumber rat

datatype trends_error =
    WindowError trend_error
  | EventError event_error
  | HeartbeatError heartbeat_error
  | ServiceError string

record trends_config =
  tc_windows :: "trend_window list"
  tc_max_evidence_per_topic :: int
  tc_max_tracked_event_age_ms :: int
  tc_consumer_lag_update_interval_ms :: int
  tc_kafka_consumer_group :: string
  tc_topic_raw_events :: string
  tc_topic_collector_heartbeat :: string
  tc_topic_trends_snapshots :: string
  tc_top_n_topics :: int

record 'x trends_services =
  sv_now :: "'x \<Rightarrow> int \<times> 'x"
  sv_upsert_lag :: "lag_update \<Rightarrow> ('x, string, unit) eff"
  sv_publish :: "string \<Rightarrow> string \<Rightarrow> json \<Rightarrow> ('x, string, unit) eff"
  sv_create_snapshot :: "int \<Rightarrow> trend_window \<Rightarrow> json \<Rightarrow> ('x, string, unit) eff"

record ('r, 'x) trends_state =
  ts_health :: trends_health
  ts_lag_write_timestamps :: "(string, int) omap"
  ts_snapshot_in_flight :: bool
  ts_redis :: 'r
  ts_ext :: 'x

type_synonym ('r, 'x, 'a) teff = "(('r, 'x) trends_state, trends_error, 'a) eff"

record ('r, 'x, 'b) trends_env =
  te_config :: trends_config
  te_services :: "'x trends_services"
  te_redis :: "'r redis_commands"
  te_first_write_error :: "'r \<Rightarrow> string option"
  te_allowlist_topics :: "string list"
  te_filter_tracked_tags :: "string list \<Rightarrow> string list"
  te_url_api :: url_api
  te_parsers :: "json_object parsers"
  te_decode_raw :: "'b \<Rightarrow> raw_event_wire option"
  te_decode_json :: "'b \<Rightarrow> json option"

definition t_on_health :: "(trends_health \<Rightarrow> trends_health) \<Rightarrow> ('r, 'x, unit) teff" where
  "t_on_health f = eff_upd (\<lambda>s. s\<lparr>ts_health := f (ts_health s)\<rparr>)"

definition t_now :: "('r, 'x, 'b) trends_env \<Rightarrow> ('r, 'x, int) teff" where
  "t_now env s = (case sv_now (te_services env) (ts_ext s) of (t, x) \<Rightarrow> (Inr t, s\<lparr>ts_ext := x\<rparr>))"

definition on_ext :: "('x, string, 'a) eff \<Rightarrow> ('r, 'x, 'a) teff" where
  "on_ext f s = (case f (ts_ext s) of (r, x) \<Rightarrow> (map_sum ServiceError id r, s\<lparr>ts_ext := x\<rparr>))"

definition on_redis :: "('r, trend_error, 'a) eff \<Rightarrow> ('r, 'x, 'a) teff" where
  "on_redis f s = (case f (ts_redis s) of (r, x) \<Rightarrow> (map_sum WindowError id r, s\<lparr>ts_redis := x\<rparr>))"

subsection \<open>Collector heartbeats\<close>

definition collector_status_by_number :: "(rat, collector_status) omap" where
  "collector_status_by_number = [(1, CollectorHealthy), (2, CollectorDegraded), (3, CollectorError)]"

definition collector_status_by_string :: "(string, collector_status) omap" where
  "collector_status_by_string =
     [(''healthy'', CollectorHealthy), (''collector_status_healthy'', CollectorHealthy),
      (''degraded'', CollectorDegraded), (''collector_status_degraded'', CollectorDegraded),
      (''error'', CollectorError), (''collector_status_error'', CollectorError)]"

definition parse_iso_date :: "'m parsers \<Rightarrow> json option \<Rightarrow> string \<Rightarrow> heartbeat_error + int" where
  "parse_iso_date ps v fld =
     (case v of
        Some (JStr s) \<Rightarrow> (case date_value ps s of None \<Rightarrow> Inl (InvalidField fld s) | Some t \<Rightarrow> Inr t)
      | _ \<Rightarrow> Inl (FieldNotString fld))"

definition parse_collector_status_by_number :: "rat \<Rightarrow> collector_status option" where
  "parse_collector_status_by_number n = map_of collector_status_by_number n"

definition parse_collector_status :: "json option \<Rightarrow> heartbeat_error + collector_status" where
  "parse_collector_status v =
     (let failure = Inl (UnsupportedStatus (default JNull v)) in
      case v of
        Some (JNum n) \<Rightarrow> (case parse_collector_status_by_number n of Some st \<Rightarrow> Inr st | None \<Rightarrow> failure)
      | Some (JStr s) \<Rightarrow>
          (let normalized = to_lower (trim s) in
           case map_of collector_status_by_string normalized of
             Some st \<Rightarrow> Inr st
           | None \<Rightarrow> (case parse_int10 normalized of
                 Some n \<Rightarrow> if int_str n = normalized
                   then (case parse_collector_status_by_number (of_int n) of Some st \<Rightarrow> Inr st | None \<Rightarrow> failure)
                   else failure
               | None \<Rightarrow> failure))
      | _ \<Rightarrow> failure)"

definition parse_non_negative_integer :: "json option \<Rightarrow> int \<Rightarrow> int" where
  "parse_non_negative_integer v fallback =
     (case v of
        Some (JNum n) \<Rightarrow> max 0 \<lfloor>n\<rfloor>
      | Some (JStr s) \<Rightarrow>
          (let normalized = trim s in
           if normalized \<noteq> [] \<and> list_all is_digit normalized then digits_value normalized else fallback)
      | _ \<Rightarrow> fallback)"

definition parse_collector_source :: "json option \<Rightarrow> heartbeat_error + canonical" where
  "parse_collector_source v =
     (case v of
        Some (JNum n) \<Rightarrow>
          if of_int \<lfloor>n\<rfloor> = n then map_sum HeartbeatSource id (parse_canonical_source (SourceNumber \<lfloor>n\<rfloor>))
          else Inl (UnsupportedSourceNumber n)
      | Some (JStr s) \<Rightarrow> map_sum HeartbeatSource id (parse_canonical_source (SourceString s))
      | _ \<Rightarrow> Inl SourceNotNameOrNumber)"

definition parse_collector_heartbeat_record :: "'m parsers \<Rightarrow> json \<Rightarrow> heartbeat_error + collector_heartbeat_state" where
  "parse_collector_heartbeat_record ps decoded =
     (case decoded of
        JObj hb \<Rightarrow>
          ebind (parse_collector_source (map_of hb ''source'')) (\<lambda>src.
          ebind (parse_collector_status (map_of hb ''status'')) (\<lambda>st.
          ebind (parse_iso_date ps (map_of hb ''timestamp'') ''timestamp'') (\<lambda>ts.
          ebind (parse_iso_date ps (map_of hb ''last_fetch_at'') ''last_fetch_at'') (\<lambda>lf.
          Inr \<lparr>chs_source = src, chs_status = st, chs_timestamp = ts, chs_last_fetch_at = lf,
            chs_items_fetched = parse_non_negative_integer (map_of hb ''items_fetched'') 0,
            chs_error_message = (case map_of hb ''error_message'' of
                Some (JStr s) \<Rightarrow> if length (trim s) > 0 then Some s else None
              | _ \<Rightarrow> None)\<rparr>))))
      | _ \<Rightarrow> Inl NotAnObject)"

definition deserialize_collector_heartbeat ::
  "'m parsers \<Rightarrow> json option \<Rightarrow> heartbeat_error + collector_heartbeat_state" where
  "deserialize_collector_heartbeat ps value =
     (case value of None \<Rightarrow> Inl InvalidJson | Some j \<Rightarrow> parse_collector_heartbeat_record ps j)"

datatype record_heartbeat_result = Stored | IgnoredStale

type_synonym heartbeats = "(canonical, collector_heartbeat_state) omap"

definition record_collector_heartbeat ::
  "heartbeats \<Rightarrow> collector_heartbeat_state \<Rightarrow> record_heartbeat_result \<times> heartbeats" where
  "record_collector_heartbeat by_source next_hb =
     (case map_of by_source (chs_source next_hb) of
        Some current \<Rightarrow>
          if chs_timestamp next_hb < chs_timestamp current then (IgnoredStale, by_source)
          else (Stored, om_set by_source (chs_source next_hb) next_hb)
      | None \<Rightarrow> (Stored, om_set by_source (chs_source next_hb) next_hb))"

subsection \<open>Messages\<close>

definition on_parse_error :: "('r, 'x, unit) teff" where
  "on_parse_error = t_on_health (t_increment_error ''parse_error'' 1)"

definition apply_prepared_event :: "('r, 'x, 'b) trends_env \<Rightarrow> trend_event \<Rightarrow> ('r, 'x, unit) teff" where
  "apply_prepared_event env ev =
     (let cfg = te_config env in
      eff_bind (on_redis (apply_event_to_windows (te_redis env) ev (tracked_topics ev) (tc_windows cfg)
          (tc_max_evidence_per_topic cfg))) (\<lambda>result.
      eff_bind (if duplicate result then t_on_health (t_increment_duplicates_skipped 1)
                else eff_bind (t_on_health (t_increment_events_processed 1)) (\<lambda>_.
                     eff_bind (t_now env) (\<lambda>t. t_on_health (\<lambda>h. h\<lparr>th_last_event_at := Some t\<rparr>)))) (\<lambda>_.
      t_on_health (\<lambda>h. h\<lparr>th_redis_healthy := True\<rparr>))))"

definition raw_event_on_message ::
  "('r, 'x, 'b) trends_env \<Rightarrow> (('r, 'x) trends_state, trends_error) message_context \<Rightarrow> trend_event \<Rightarrow> ('r, 'x, unit) teff" where
  "raw_event_on_message env mc ev =
     (let prepared = prepare_trend_event (te_url_api env) (te_filter_tracked_tags env) ev in
      if tracked_topics prepared = [] then eff_ret ()
      else if \<not> is_event_fresh_enough_for_tracking prepared (tc_max_tracked_event_age_ms (te_config env)) then eff_ret ()
      else eff_catch (apply_prepared_event env prepared) (\<lambda>e.
        eff_bind (t_on_health (t_increment_error ''redis_error'' 1)) (\<lambda>_.
        eff_bind (t_on_health (\<lambda>h. h\<lparr>th_redis_healthy := False\<rparr>)) (\<lambda>_. eff_throw e))))"

definition raw_event_message_strategy ::
  "('r, 'x, 'b) trends_env \<Rightarrow> (('r, 'x) trends_state, trends_error, 'b, trend_event) message_strategy" where
  "raw_event_message_strategy env =
     \<lparr>ms_deserialize = (\<lambda>v. map_sum EventError id (deserialize_trend_event (te_parsers env) (te_decode_raw env v))),
      ms_on_empty_value = Some (\<lambda>_. on_parse_error),
      ms_on_deserialize_failure = Some (\<lambda>_ _. on_parse_error),
      ms_on_message = raw_event_on_message env\<rparr>"

definition collector_heartbeat_message_strategy ::
  "('r, 'x, 'b) trends_env \<Rightarrow> (('r, 'x) trends_state, trends_error, 'b, collector_heartbeat_state) message_strategy" where
  "collector_heartbeat_message_strategy env =
     \<lparr>ms_deserialize = (\<lambda>v. map_sum HeartbeatError id (deserialize_collector_heartbeat (te_parsers env) (te_decode_json env v))),
      ms_on_empty_value = Some (\<lambda>_. on_parse_error),
      ms_on_deserialize_failure = Some (\<lambda>_ _. on_parse_error),
      ms_on_message = (\<lambda>_ hb. t_on_health (\<lambda>h.
        h\<lparr>th_collector_heartbeats := snd (record_collector_heartbeat (th_collector_heartbeats h) hb)\<rparr>))\<rparr>"

definition trends_to_big_int :: "string \<Rightarrow> int \<Rightarrow> int" where
  "trends_to_big_int v fallback =
     (if v = [] then fallback else (case big_int v of Some n \<Rightarrow> n | None \<Rightarrow> fallback))"

definition trends_update_consumer_lag ::
  "('r, 'x, 'b) trends_env \<Rightarrow> (('r, 'x) trends_state, trends_error) batch_context \<Rightarrow> 'b message list \<Rightarrow>
   ('r, 'x, unit) teff" where
  "trends_update_consumer_lag env b ms =
     (if ms = [] then eff_ret ()
      else
        let current_offset = trends_to_big_int (m_position (last ms)) 0 + 1;
            latest_offset = trends_to_big_int (bc_high_watermark b) current_offset;
            lag = (if latest_offset > current_offset then latest_offset - current_offset else 0);
            partition_key = bc_topic b @ '':'' @ int_str (bc_partition b) in
        eff_bind (t_on_health (t_set_consumer_lag (bc_partition b) lag)) (\<lambda>_ s.
          let last_write_at = om_get 0 (ts_lag_write_timestamps s) partition_key in
          eff_bind (t_now env) (\<lambda>t.
            if t - last_write_at < tc_consumer_lag_update_interval_ms (te_config env) then eff_ret ()
            else
              let upd = \<lparr>lu_consumer_group = tc_kafka_consumer_group (te_config env), lu_topic = bc_topic b,
                    lu_partition = bc_partition b, lu_current_offset = current_offset, lu_latest_offset = latest_offset,
                    lu_lag_messages = lag, lu_observed_at = t\<rparr> in
              eff_catch
                (eff_bind (on_ext (sv_upsert_lag (te_services env) upd)) (\<lambda>_.
                 eff_bind (t_on_health (\<lambda>h. h\<lparr>th_postgres_healthy := True\<rparr>)) (\<lambda>_.
                 eff_upd (\<lambda>s. s\<lparr>ts_lag_write_timestamps := om_set (ts_lag_write_timestamps s) partition_key t\<rparr>))))
                (\<lambda>e. eff_bind (t_on_health (\<lambda>h. h\<lparr>th_postgres_healthy := False\<rparr>)) (\<lambda>_.
                   t_on_health (t_increment_error ''postgres_error'' 1)))) s))"

definition loop_heartbeat_interval_messages :: int where
  "loop_heartbeat_interval_messages = 50"

definition trends_batch_options ::
  "(('r, 'x) trends_state, trends_error, 'b, 'm) message_strategy \<Rightarrow>
   (('r, 'x) trends_state, trends_error, 'b, 'm) batch_options" where
  "trends_batch_options st =
     \<lparr>bo_strategy = st, bo_progress_interval = Some loop_heartbeat_interval_messages, bo_acknowledge = None,
      bo_on_batch_completed = None\<rparr>"

definition raw_event_process_batch ::
  "('r, 'x, 'b) trends_env \<Rightarrow> (('r, 'x) trends_state, trends_error, 'b) batch_processor \<Rightarrow>
   (('r, 'x) trends_state, trends_error, 'b) batch_processor" where
  "raw_event_process_batch env base b ms =
     eff_bind (base b ms) (\<lambda>_.
     eff_bind (bc_is_active b) (\<lambda>active.
     if \<not> active then eff_ret () else trends_update_consumer_lag env b ms))"

definition create_batch_strategies ::
  "('r, 'x, 'b) trends_env \<Rightarrow> transport_error + (string, (('r, 'x) trends_state, trends_error, 'b) batch_processor) omap" where
  "create_batch_strategies env =
     ebind (create_message_batch_strategy (trends_batch_options (raw_event_message_strategy env))) (\<lambda>raw.
     ebind (create_message_batch_strategy (trends_batch_options (collector_heartbeat_message_strategy env))) (\<lambda>hb.
       Inr (om_set (om_set [] (tc_topic_raw_events (te_config env)) (raw_event_process_batch env raw))
              (tc_topic_collector_heartbeat (te_config env)) hb)))"

subsection \<open>Heartbeats\<close>

definition record_heartbeats :: "collector_heartbeat_state list \<Rightarrow> heartbeats" where
  "record_heartbeats hbs = foldl (\<lambda>m h. snd (record_collector_heartbeat m h)) [] hbs"

definition latest_heartbeat :: "canonical \<Rightarrow> collector_heartbeat_state list \<Rightarrow> collector_heartbeat_state option" where
  "latest_heartbeat src hbs =
     (let own = filter (\<lambda>h. chs_source h = src) hbs in
      if own = [] then None
      else Some (last (filter (\<lambda>h. chs_timestamp h = Max (chs_timestamp ` set own)) own)))"

lemma latest_heartbeat_props:
  assumes "latest_heartbeat src hbs = Some h"
  shows "chs_timestamp h = Max (chs_timestamp ` set (filter (\<lambda>h. chs_source h = src) hbs))" and "chs_source h = src"
proof -
  let ?own = "filter (\<lambda>h. chs_source h = src) hbs"
  let ?best = "filter (\<lambda>h. chs_timestamp h = Max (chs_timestamp ` set ?own)) ?own"
  have own: "?own \<noteq> []" using assms by (auto simp: latest_heartbeat_def Let_def split: if_splits)
  then have "Max (chs_timestamp ` set ?own) \<in> chs_timestamp ` set ?own"
    by (intro Max_in) (auto simp del: set_filter)
  then have "?best \<noteq> []" by (auto simp: filter_empty_conv)
  then have "last ?best \<in> set ?best" by (rule last_in_set)
  moreover have "h = last ?best" using assms own by (simp add: latest_heartbeat_def Let_def del: filter_filter)
  ultimately show "chs_timestamp h = Max (chs_timestamp ` set ?own)" "chs_source h = src" by auto
qed

lemma latest_heartbeat_none: "latest_heartbeat src hbs = None \<longleftrightarrow> filter (\<lambda>h. chs_source h = src) hbs = []"
  by (simp add: latest_heartbeat_def Let_def)

lemma latest_heartbeat_snoc:
  "latest_heartbeat src (hbs @ [h]) =
     (if chs_source h \<noteq> src then latest_heartbeat src hbs
      else case latest_heartbeat src hbs of
          None \<Rightarrow> Some h
        | Some g \<Rightarrow> if chs_timestamp h < chs_timestamp g then Some g else Some h)"
proof (cases "chs_source h = src")
  case True
  let ?own = "filter (\<lambda>h. chs_source h = src) hbs"
  show ?thesis
  proof (cases "latest_heartbeat src hbs")
    case None
    with True show ?thesis by (simp add: latest_heartbeat_none) (simp add: latest_heartbeat_def)
  next
    case (Some g)
    then have own: "?own \<noteq> []" by (metis latest_heartbeat_none option.distinct(1))
    have fin: "finite (chs_timestamp ` set ?own)" "chs_timestamp ` set ?own \<noteq> {}" using own by (auto simp del: set_filter)
    have g: "chs_timestamp g = Max (chs_timestamp ` set ?own)" by (rule latest_heartbeat_props [OF Some])
    have last: "g = last (filter (\<lambda>x. chs_timestamp x = chs_timestamp g) ?own)"
      using Some own g by (simp add: latest_heartbeat_def Let_def del: filter_filter)
    have Max: "Max (chs_timestamp ` set (?own @ [h])) = max (chs_timestamp h) (chs_timestamp g)"
      using fin by (simp add: g Max_insert del: set_filter)
    have app: "filter (\<lambda>h. chs_source h = src) (hbs @ [h]) = ?own @ [h]" using True by simp
    have eq: "latest_heartbeat src (hbs @ [h]) =
        Some (last (filter (\<lambda>x. chs_timestamp x = max (chs_timestamp h) (chs_timestamp g)) (?own @ [h])))"
      unfolding latest_heartbeat_def Let_def app Max using own by simp
    show ?thesis
    proof (cases "chs_timestamp h < chs_timestamp g")
      case True
      with Some eq last \<open>chs_source h = src\<close> show ?thesis by (simp add: max_def del: filter_filter)
    next
      case False
      with Some eq \<open>chs_source h = src\<close> show ?thesis by (simp add: max_def del: filter_filter)
    qed
  qed
qed (simp add: latest_heartbeat_def)

text \<open>
  C30. Whatever the order in which heartbeats arrive, the store holds for every collector the heartbeat with the
  latest timestamp, the last to arrive among several with the same one, and for no other collector anything.
\<close>

theorem store_holds_latest_heartbeat: "map_of (record_heartbeats hbs) src = latest_heartbeat src hbs"
proof (induction hbs rule: rev_induct)
  case (snoc h hbs)
  have IH: "map_of (record_heartbeats hbs) (chs_source h) = latest_heartbeat (chs_source h) hbs \<or> chs_source h \<noteq> src"
    using snoc by blast
  show ?case
    using snoc IH by (auto simp: record_heartbeats_def record_collector_heartbeat_def latest_heartbeat_snoc js_map split: option.splits)
qed (simp add: record_heartbeats_def latest_heartbeat_def)

subsection \<open>Consumer lag\<close>

text \<open>
  C31. Keeping track of the lag never stops a batch: whatever the broker reports and whether or not the database
  takes the update, the call returns; the gauge of the partition is set to the number of messages behind the last
  one of the batch, which is never negative, and nothing of Redis changes.
\<close>

theorem consumer_lag_never_fails:
  "\<exists>s'. trends_update_consumer_lag env b ms s = (Inr (), s') \<and> ts_redis s' = ts_redis s \<and>
     (if ms = [] then s' = s
      else om_get (- 1) (tm_consumer_lag (th_metrics (ts_health s'))) (bc_partition b) =
        max 0 (trends_to_big_int (bc_high_watermark b) (trends_to_big_int (m_position (last ms)) 0 + 1) -
               (trends_to_big_int (m_position (last ms)) 0 + 1)))"
  by (auto simp: trends_update_consumer_lag_def eff_defs t_on_health_def t_now_def on_ext_def t_set_consumer_lag_def
      t_increment_error_def on_metrics_def js_map om_get_def Let_def max_def split: prod.splits sum.splits if_splits)

subsection \<open>At least once\<close>

text \<open>
  The service as a client of Kafka: the world holds a record of the calls to the broker, to which the payload of a
  batch appends. Reading the clock and writing a row of the lag table are no such calls.
\<close>

locale trends_client = kafka_payload payload "\<lambda>s. sent (ts_ext s)"
  for payload :: "(('r, 'x) trends_state, trends_error, 'b) each_batch_payload" and sent :: "'x \<Rightarrow> client_call list" +
  fixes env :: "('r, 'x, 'b) trends_env"
  assumes clock_sent: "sent (snd (sv_now (te_services env) x)) = sent x"
    and lag_sent: "sent (snd (sv_upsert_lag (te_services env) u x)) = sent x"
begin

definition unsent :: "('r, 'x, 'a) teff \<Rightarrow> bool" where
  "unsent f \<longleftrightarrow> (\<forall>s. sent (ts_ext (snd (f s))) = sent (ts_ext s))"

lemma unsent_basic:
  "unsent (eff_ret a)" "unsent (eff_throw e)" "unsent (t_on_health g)" "unsent (on_redis q)" "unsent (t_now env)"
  "unsent (on_ext (sv_upsert_lag (te_services env) u))"
  using clock_sent lag_sent
  by (auto simp: unsent_def eff_ret_def eff_throw_def t_on_health_def eff_upd_def on_redis_def t_now_def on_ext_def
      split: prod.split) (metis snd_conv)+

lemma unsent_bind: "unsent m \<Longrightarrow> (\<And>a. unsent (k a)) \<Longrightarrow> unsent (eff_bind m k)"
  unfolding unsent_def eff_bind_def by (auto split: prod.split sum.split) (metis snd_conv)+

lemma unsent_catch: "unsent m \<Longrightarrow> (\<And>e. unsent (h e)) \<Longrightarrow> unsent (eff_catch m h)"
  unfolding unsent_def eff_catch_def by (auto split: prod.split sum.split) (metis snd_conv)+

lemma unsent_quiet: "unsent f \<Longrightarrow> made.quiet f"
  unfolding unsent_def made.quiet_def by (metis append_Nil2 empty_set empty_subsetI)

lemma unsent_on_message: "unsent (raw_event_on_message env mc ev)"
  unfolding raw_event_on_message_def apply_prepared_event_def Let_def
  by (auto intro!: unsent_bind unsent_catch unsent_basic)

lemma unsent_parse_error: "unsent on_parse_error"
  unfolding on_parse_error_def by (rule unsent_basic)

lemma unsent_lag: "unsent (trends_update_consumer_lag env b ms)"
proof (cases "ms = []")
  case False
  have diag: "unsent (\<lambda>s. f s s)" if "\<And>s. unsent (f s)" for f :: "('r, 'x) trends_state \<Rightarrow> ('r, 'x, unit) teff"
    using that by (simp add: unsent_def)
  have upd: "unsent (eff_upd (\<lambda>s. s\<lparr>ts_lag_write_timestamps := g s\<rparr>))" for g
    by (simp add: unsent_def eff_upd_def)
  show ?thesis
    unfolding trends_update_consumer_lag_def Let_def if_not_P [OF False]
    by (rule unsent_bind, rule unsent_basic(3), rule diag) (auto intro!: unsent_bind unsent_catch unsent_basic upd)
qed (simp add: trends_update_consumer_lag_def unsent_basic)

end

sublocale trends_client \<subseteq> raw: message_handler "create_batch_context payload" "\<lambda>s. sent (ts_ext s)"
  "raw_event_message_strategy env" None
proof unfold_locales
  show "made.quiet (handle_message (raw_event_message_strategy env) (create_batch_context payload) m)" for m
    using unsent_quiet [OF unsent_on_message] unsent_quiet [OF unsent_parse_error]
    by (auto simp: handle_message_def raw_event_message_strategy_def run_message_callback_def Let_def
        split: option.split sum.split)
  show "made.quiet (run_message_callback None)" by (simp add: run_message_callback_def made.quiet_ret)
qed

sublocale trends_client \<subseteq> hb: message_handler "create_batch_context payload" "\<lambda>s. sent (ts_ext s)"
  "collector_heartbeat_message_strategy env" None
proof unfold_locales
  show "made.quiet (handle_message (collector_heartbeat_message_strategy env) (create_batch_context payload) m)" for m
    using unsent_quiet [OF unsent_basic(3)] unsent_quiet [OF unsent_parse_error]
    by (auto simp: handle_message_def collector_heartbeat_message_strategy_def run_message_callback_def Let_def
        split: option.split sum.split)
qed (simp add: run_message_callback_def made.quiet_ret)

text \<open>How many messages of a batch the strategy of its topic has handled without an error.\<close>

definition trends_handled ::
  "('r, 'x, 'b) trends_env \<Rightarrow> (('r, 'x) trends_state, trends_error, 'b) each_batch_payload \<Rightarrow> ('r, 'x) trends_state \<Rightarrow> nat" where
  "trends_handled env payload s =
     (let b = create_batch_context payload; ms = to_pipeline_messages payload in
      if ebp_topic payload = tc_topic_collector_heartbeat (te_config env)
      then handled_count (collector_heartbeat_message_strategy env) loop_heartbeat_interval_messages b ms 0 s
      else handled_count (raw_event_message_strategy env) loop_heartbeat_interval_messages b ms 0 s)"

text \<open>What the broker gets to see of a batch, whichever the topic of its strategy.\<close>

lemma create_batch_strategies_cases:
  assumes "create_batch_strategies env = Inr strategies" and "map_of strategies topic = Some p"
  obtains raw hb where
    "create_message_batch_strategy (trends_batch_options (raw_event_message_strategy env)) = Inr raw"
    "create_message_batch_strategy (trends_batch_options (collector_heartbeat_message_strategy env)) = Inr hb"
    "p = (if topic = tc_topic_collector_heartbeat (te_config env) then hb else raw_event_process_batch env raw)"
  using assms by (auto simp: create_batch_strategies_def ebind_def js_map split: sum.splits if_splits)

context trends_client
begin

lemma raw_event_batch_log:
  fixes raw :: "(('r, 'x) trends_state, trends_error, 'b) batch_processor"
  defines "b \<equiv> create_batch_context payload"
  shows "sent (ts_ext (snd (raw_event_process_batch env raw b ms s))) = sent (ts_ext (snd (raw b ms s))) \<and>
    (isl (fst (raw b ms s)) \<longrightarrow> isl (fst (raw_event_process_batch env raw b ms s)))"
proof -
  have "unsent (bc_is_active b)" unfolding unsent_def b_def using made.active_log by blast
  then have u: "unsent (eff_bind (bc_is_active b) (\<lambda>active. if \<not> active then eff_ret () else trends_update_consumer_lag env b ms))"
    by (intro unsent_bind) (auto simp: unsent_lag unsent_basic)
  show ?thesis
    using u [unfolded unsent_def, rule_format, of "snd (raw b ms s)"]
    by (auto simp: raw_event_process_batch_def eff_bind_def [of "raw _ _"] split: prod.split sum.split)
qed

lemma batch_acknowledged:
  assumes "create_batch_strategies env = Inr strategies" and "map_of strategies (ebp_topic payload) = Some p"
    and "bc_is_active (create_batch_context payload) s = (Inr True, s1)"
  shows "\<exists>t u. sent (ts_ext (snd (each_batch (StrategyMap strategies) payload s))) = sent (ts_ext s) @ t @ u \<and>
      acked t = take (trends_handled env payload s1) (map km_offset (ebp_messages payload)) \<and> Committed \<notin> set t \<and>
      (u = [] \<and> isl (fst (each_batch (StrategyMap strategies) payload s)) \<or> (\<exists>v. u = Committed # v \<and> set v \<subseteq> {Beat}))"
proof -
  let ?b = "create_batch_context payload" and ?ms = "to_pipeline_messages payload"
  obtain raw hb where
    raw: "create_message_batch_strategy (trends_batch_options (raw_event_message_strategy env)) = Inr raw"
    and hb: "create_message_batch_strategy (trends_batch_options (collector_heartbeat_message_strategy env)) = Inr hb"
    and p: "p = (if ebp_topic payload = tc_topic_collector_heartbeat (te_config env) then hb else raw_event_process_batch env raw)"
    using create_batch_strategies_cases [OF assms(1,2)] by blast
  have offsets: "map m_position (take n ?ms) = take n (map km_offset (ebp_messages payload))" for n
    by (simp add: to_pipeline_messages_def take_map comp_def)
  have run: "each_batch (StrategyMap strategies) payload = p ?b ?ms"
    using assms(2) by (simp add: each_batch_def)
  have r: "message_handler ?b (\<lambda>s. sent (ts_ext s)) (bo_strategy (trends_batch_options (raw_event_message_strategy env)))
      (bo_on_batch_completed (trends_batch_options (raw_event_message_strategy env)))"
    "message_handler ?b (\<lambda>s. sent (ts_ext s)) (bo_strategy (trends_batch_options (collector_heartbeat_message_strategy env)))
      (bo_on_batch_completed (trends_batch_options (collector_heartbeat_message_strategy env)))"
    unfolding trends_batch_options_def
    by (simp_all add: raw.message_handler_axioms hb.message_handler_axioms)
  show ?thesis
  proof (cases "ebp_topic payload = tc_topic_collector_heartbeat (te_config env)")
    case True
    then have "each_batch (StrategyMap strategies) payload = hb ?b ?ms" using run p by simp
    with batch_acknowledges_handled [OF r(2) hb _ assms(3), of ?ms] True show ?thesis
      by (simp add: trends_batch_options_def trends_handled_def Let_def offsets)
  next
    case False
    then have e: "each_batch (StrategyMap strategies) payload = raw_event_process_batch env raw ?b ?ms" using run p by simp
    from batch_acknowledges_handled [OF r(1) raw _ assms(3), of ?ms] obtain t u where
      "sent (ts_ext (snd (raw ?b ?ms s))) = sent (ts_ext s) @ t @ u"
      "acked t = take (trends_handled env payload s1) (map km_offset (ebp_messages payload))" "Committed \<notin> set t"
      "u = [] \<and> isl (fst (raw ?b ?ms s)) \<or> (\<exists>v. u = Committed # v \<and> set v \<subseteq> {Beat})"
      using False by (auto simp: trends_batch_options_def trends_handled_def Let_def offsets)
    then show ?thesis unfolding e using raw_event_batch_log [of raw ?ms s] by (intro exI [of _ t] exI [of _ u]) auto
  qed
qed

end

text \<open>
  C10. At least once: whatever the broker, Redis, the database and the messages do, a batch of the trends service
  that is active acknowledges exactly the messages its strategy has handled without an error, a prefix of the batch
  and in its order. It commits once and only after that, followed by heart beats at most; a batch that returns
  without an error has committed. This covers the strategy of raw events with its update of the lag and that of
  collector heartbeats; what is relied on of the Kafka client is \<open>kafka_payload\<close>, and that the clock and the lag
  table are not the broker.
\<close>

theorem trends_batch_acknowledged:
  assumes "trends_client payload sent env" and "create_batch_strategies env = Inr strategies"
    and "map_of strategies (ebp_topic payload) = Some p"
    and "bc_is_active (create_batch_context payload) s = (Inr True, s1)"
  shows "\<exists>t u. sent (ts_ext (snd (each_batch (StrategyMap strategies) payload s))) = sent (ts_ext s) @ t @ u \<and>
      acked t = take (trends_handled env payload s1) (map km_offset (ebp_messages payload)) \<and> Committed \<notin> set t \<and>
      (u = [] \<and> isl (fst (each_batch (StrategyMap strategies) payload s)) \<or> (\<exists>v. u = Committed # v \<and> set v \<subseteq> {Beat}))"
  by (rule trends_client.batch_acknowledged [OF assms])

subsection \<open>The metrics stay consistent\<close>

definition metrics_kept :: "('r, 'x, 'a) teff \<Rightarrow> bool" where
  "metrics_kept f \<longleftrightarrow> (\<forall>s. trends_metrics_ok (th_metrics (ts_health s)) \<longrightarrow> trends_metrics_ok (th_metrics (ts_health (snd (f s)))))"

named_theorems metrics_intro \<open>operations that keep the metrics consistent\<close>

lemma metrics_kept_basic [metrics_intro]:
  "metrics_kept (eff_ret a)" "metrics_kept (eff_throw e)" "metrics_kept (t_now env)" "metrics_kept (on_ext g)"
  "metrics_kept (on_redis q)"
  by (auto simp: metrics_kept_def eff_ret_def eff_throw_def t_now_def on_ext_def on_redis_def split: prod.split)

lemma metrics_kept_bind [metrics_intro]: "metrics_kept m \<Longrightarrow> (\<And>a. metrics_kept (k a)) \<Longrightarrow> metrics_kept (eff_bind m k)"
  unfolding metrics_kept_def eff_bind_def by (auto split: prod.split sum.split)

lemma metrics_kept_catch [metrics_intro]: "metrics_kept m \<Longrightarrow> (\<And>e. metrics_kept (h e)) \<Longrightarrow> metrics_kept (eff_catch m h)"
  unfolding metrics_kept_def eff_catch_def by (auto split: prod.split sum.split)

lemma metrics_kept_if [metrics_intro]: "metrics_kept f \<Longrightarrow> metrics_kept g \<Longrightarrow> metrics_kept (if c then f else g)"
  by simp

lemma metrics_kept_upd [metrics_intro]:
  "(\<And>h. trends_metrics_ok (th_metrics h) \<Longrightarrow> trends_metrics_ok (th_metrics (f h))) \<Longrightarrow> metrics_kept (t_on_health f)"
  by (simp add: metrics_kept_def t_on_health_def eff_upd_def)

lemma metrics_ok_counters [simp]:
  "trends_metrics_ok m \<Longrightarrow> trends_metrics_ok (m\<lparr>tm_events_processed := a\<rparr>)"
  "trends_metrics_ok m \<Longrightarrow> trends_metrics_ok (m\<lparr>tm_duplicates_skipped := a\<rparr>)"
  "trends_metrics_ok m \<Longrightarrow> trends_metrics_ok (m\<lparr>tm_snapshot_published := b\<rparr>)"
  "trends_metrics_ok m \<Longrightarrow> trends_metrics_ok (m\<lparr>tm_errors := c\<rparr>)"
  "trends_metrics_ok m \<Longrightarrow> trends_metrics_ok (m\<lparr>tm_consumer_lag := d\<rparr>)"
  by (simp_all add: trends_metrics_ok_def)

lemma health_updates_ok [simp]:
  assumes "trends_metrics_ok (th_metrics h)"
  shows "trends_metrics_ok (th_metrics (t_increment_events_processed n h))"
    and "trends_metrics_ok (th_metrics (t_increment_duplicates_skipped n h))"
    and "trends_metrics_ok (th_metrics (t_increment_snapshot_published w n h))"
    and "trends_metrics_ok (th_metrics (t_increment_error e n h))"
    and "trends_metrics_ok (th_metrics (t_set_consumer_lag p lag h))"
    and "trends_metrics_ok (th_metrics (t_clear_topic_metrics w h))"
    and "trends_metrics_ok (th_metrics (t_set_topic_metrics t w v sc h))"
    and "trends_metrics_ok (th_metrics (t_observe_snapshot_duration w d h))"
    and "trends_metrics_ok (th_metrics (t_observe_baseline_compute_duration d h))"
proof -
  note upds = t_increment_events_processed_def t_increment_duplicates_skipped_def t_increment_snapshot_published_def
    t_increment_error_def t_set_consumer_lag_def on_metrics_def
  show "trends_metrics_ok (th_metrics (t_increment_events_processed n h))"
    "trends_metrics_ok (th_metrics (t_increment_duplicates_skipped n h))"
    "trends_metrics_ok (th_metrics (t_increment_snapshot_published w n h))"
    "trends_metrics_ok (th_metrics (t_increment_error e n h))"
    "trends_metrics_ok (th_metrics (t_set_consumer_lag p lag h))"
    using assms by (simp_all add: upds)
  show "trends_metrics_ok (th_metrics (t_clear_topic_metrics w h))"
    "trends_metrics_ok (th_metrics (t_set_topic_metrics t w v sc h))"
    using assms by (auto simp: t_clear_topic_metrics_def t_set_topic_metrics_def on_metrics_def trends_metrics_ok_def twm_clear_def
        twm_set_def get_set_window_topic get_clear_window_topic)
  show "trends_metrics_ok (th_metrics (t_observe_baseline_compute_duration d h))"
    using assms by (simp add: t_observe_baseline_compute_duration_def on_metrics_def trends_metrics_ok_def)
  obtain h1 h2 where hs: "tm_snapshot_duration (th_metrics h) = [(W15m, h1), (W60m, h2)]"
    using assms by (auto simp: trends_metrics_ok_def map_eq_Cons_conv)
  show "trends_metrics_ok (th_metrics (t_observe_snapshot_duration w d h))"
    using assms by (cases w) (auto simp: t_observe_snapshot_duration_def on_metrics_def trends_metrics_ok_def hs om_get_def)
qed

lemma metrics_kept_redis_flag [metrics_intro]:
  "metrics_kept (t_on_health (\<lambda>h. h\<lparr>th_redis_healthy := b\<rparr>))" "metrics_kept (t_on_health (\<lambda>h. h\<lparr>th_postgres_healthy := b\<rparr>))"
  "metrics_kept (t_on_health (\<lambda>h. h\<lparr>th_last_event_at := e\<rparr>))"
  "metrics_kept (t_on_health (\<lambda>h. h\<lparr>th_collector_heartbeats := snd (record_collector_heartbeat (th_collector_heartbeats h) hb)\<rparr>))"
  by (rule metrics_intro; simp)+

lemma raw_event_on_message_kept: "metrics_kept (raw_event_on_message env mc ev)"
  unfolding raw_event_on_message_def Let_def apply_prepared_event_def
  by (intro metrics_intro) simp_all

lemma lag_kept: "metrics_kept (trends_update_consumer_lag env b ms)"
  by (auto simp: metrics_kept_def trends_update_consumer_lag_def eff_defs t_on_health_def t_now_def on_ext_def Let_def
      split: prod.splits sum.splits if_splits)

lemma handle_message_kept:
  assumes "\<And>mc m. metrics_kept (ms_on_message st mc m)"
    and "\<And>mc f. ms_on_empty_value st = Some f \<Longrightarrow> metrics_kept (f mc)"
    and "\<And>mc e f. ms_on_deserialize_failure st = Some f \<Longrightarrow> metrics_kept (f mc e)"
  shows "metrics_kept (handle_message st b m)"
  using assms metrics_kept_basic(1)
  by (auto simp: handle_message_def Let_def run_message_callback_def split: option.split sum.split)

text \<open>The calls of a batch leave the metrics of the service alone.\<close>

definition batch_keeps_metrics :: "(('r, 'x) trends_state, trends_error) batch_context \<Rightarrow> bool" where
  "batch_keeps_metrics b \<longleftrightarrow> metrics_kept (bc_is_active b) \<and> metrics_kept (bc_keep_alive b) \<and> metrics_kept (bc_commit b) \<and>
     (\<forall>p. metrics_kept (eff_upd (bc_acknowledge b p)))"

lemma handle_messages_kept:
  assumes "batch_keeps_metrics b" and "\<And>m. metrics_kept (handle_message st b m)"
  shows "metrics_kept (handle_messages st interval ack b ms n)"
proof (induction ms arbitrary: n)
  case Nil
  then show ?case by (simp add: metrics_intro)
next
  case (Cons m ms)
  show ?case unfolding handle_messages.simps acknowledge_message_def report_progress_def
    using assms Cons by (intro metrics_intro) (auto simp: batch_keeps_metrics_def)
qed

lemma batch_strategy_kept:
  assumes "create_message_batch_strategy (trends_batch_options st) = Inr p" and "batch_keeps_metrics b"
    and "\<And>m. metrics_kept (handle_message st b m)"
  shows "metrics_kept (p b ms)"
proof -
  have "p b ms = eff_bind (bc_is_active b) (\<lambda>active. if \<not> active then eff_ret ()
      else eff_bind (handle_messages st 50 True b ms 0) (finish_batch None b))"
    using assms(1) by (auto simp: create_message_batch_strategy_def trends_batch_options_def Let_def assert_positive_integer_def
        ebind_def loop_heartbeat_interval_messages_def split: if_splits cong: if_cong)
  then show ?thesis
    using assms(2) handle_messages_kept [OF assms(2,3)] unfolding finish_batch_def run_message_callback_def
    by (auto intro!: metrics_intro simp: batch_keeps_metrics_def)
qed

text \<open>
  The metrics of the service keep their type: whichever topic a batch belongs to and whatever its messages
  hold, after the batch every histogram still counts each observation once, and a window has a volume for exactly the
  topics that have a score. (A batch writes neither; the snapshots below do.)
\<close>

theorem batches_keep_metrics_ok:
  assumes "create_batch_strategies env = Inr strategies" and "map_of strategies topic = Some p"
    and "batch_keeps_metrics b" and "trends_metrics_ok (th_metrics (ts_health s))"
  shows "trends_metrics_ok (th_metrics (ts_health (snd (p b ms s))))"
proof -
  have on_parse_error: "metrics_kept on_parse_error"
    unfolding on_parse_error_def by (intro metrics_intro) simp
  obtain raw hb where raw: "create_message_batch_strategy (trends_batch_options (raw_event_message_strategy env)) = Inr raw"
    and hb: "create_message_batch_strategy (trends_batch_options (collector_heartbeat_message_strategy env)) = Inr hb"
    and p: "p = hb \<or> p = raw_event_process_batch env raw"
    using assms(1,2) by (auto simp: create_batch_strategies_def ebind_def js_map split: sum.splits if_splits)
  have "metrics_kept (raw b ms)"
    by (rule batch_strategy_kept [OF raw assms(3)], rule handle_message_kept)
      (auto simp: raw_event_message_strategy_def on_parse_error raw_event_on_message_kept)
  moreover have "metrics_kept (hb b ms)"
    by (rule batch_strategy_kept [OF hb assms(3)], rule handle_message_kept)
      (auto simp: collector_heartbeat_message_strategy_def on_parse_error metrics_kept_redis_flag)
  ultimately have "metrics_kept (p b ms)"
    using p assms(3) lag_kept unfolding raw_event_process_batch_def batch_keeps_metrics_def
    by (auto intro!: metrics_intro)
  with assms(4) show ?thesis by (simp add: metrics_kept_def)
qed

definition demo_services :: "int trends_services" where
  "demo_services = \<lparr>sv_now = (\<lambda>t. (t, t + 1)), sv_upsert_lag = (\<lambda>_ t. (Inr (), t)), sv_publish = (\<lambda>_ _ _ t. (Inr (), t)),
     sv_create_snapshot = (\<lambda>_ _ _ t. (Inr (), t))\<rparr>"

definition demo_config :: trends_config where
  "demo_config = \<lparr>tc_windows = [W15m, W60m], tc_max_evidence_per_topic = 5, tc_max_tracked_event_age_ms = 86400000,
     tc_consumer_lag_update_interval_ms = 60000, tc_kafka_consumer_group = ''trends'', tc_topic_raw_events = ''raw'',
     tc_topic_collector_heartbeat = ''heartbeat'', tc_topic_trends_snapshots = ''snapshots'', tc_top_n_topics = 1\<rparr>"

definition demo_env :: "(mem_redis, int, json) trends_env" where
  "demo_env = \<lparr>te_config = demo_config, te_services = demo_services, te_redis = mem_commands,
     te_first_write_error = (\<lambda>_. None), te_allowlist_topics = [''ai'', ''chips''], te_filter_tracked_tags = (\<lambda>ts. ts),
     te_url_api = sample_api,
     te_parsers = \<lparr>date_value = (\<lambda>_. Some 0), json_meta = (\<lambda>_. None)\<rparr>, te_decode_raw = (\<lambda>_. None), te_decode_json = Some\<rparr>"

definition demo_state :: "(mem_redis, int) trends_state" where
  "demo_state = \<lparr>ts_health = create_trends_health 0, ts_lag_write_timestamps = [], ts_snapshot_in_flight = False,
     ts_redis = empty_redis, ts_ext = 1000\<rparr>"

definition demo_batch :: "((mem_redis, int) trends_state, trends_error) batch_context" where
  "demo_batch = \<lparr>bc_topic = ''raw'', bc_partition = 0, bc_high_watermark = ''9'', bc_is_active = eff_ret True,
     bc_keep_alive = eff_ret (), bc_acknowledge = (\<lambda>_ s. s), bc_commit = eff_ret (), bc_pause = (\<lambda>s. (id, s))\<rparr>"

lemma demo_metrics_ok: "trends_metrics_ok (th_metrics (ts_health demo_state))"
  by (simp add: demo_state_def create_trends_health_def create_trends_metrics_def trends_metrics_ok_def get_window_topic_metric_def)

theorem batches_keep_metrics_ok_witness:
  "\<exists>strategies p. create_batch_strategies demo_env = Inr strategies \<and> map_of strategies ''raw'' = Some p \<and>
     trends_metrics_ok (th_metrics (ts_health (snd (p demo_batch
       [\<lparr>m_key = None, m_value = Some JNull, m_position = ''4'', m_timestamp = ''0''\<rparr>] demo_state))))"
proof -
  obtain strategies p where st: "create_batch_strategies demo_env = Inr strategies" "map_of strategies ''raw'' = Some p"
    by (simp add: create_batch_strategies_def create_message_batch_strategy_def trends_batch_options_def assert_positive_integer_def
        loop_heartbeat_interval_messages_def demo_env_def demo_config_def Let_def js_map)
  have "batch_keeps_metrics demo_batch"
    by (simp add: batch_keeps_metrics_def demo_batch_def metrics_intro) (simp add: metrics_kept_def eff_upd_def)
  with st demo_metrics_ok batches_keep_metrics_ok [of demo_env strategies "''raw''" p demo_batch demo_state
      "[\<lparr>m_key = None, m_value = Some JNull, m_position = ''4'', m_timestamp = ''0''\<rparr>]"]
  show ?thesis by blast
qed

text \<open>A service whose outer world is the record of its calls to the broker.\<close>

definition recording_env :: "(mem_redis, client_call list, json) trends_env" where
  "recording_env = \<lparr>te_config = demo_config,
     te_services = \<lparr>sv_now = (\<lambda>x. (1000, x)), sv_upsert_lag = (\<lambda>_ x. (Inr (), x)), sv_publish = (\<lambda>_ _ _ x. (Inr (), x)),
       sv_create_snapshot = (\<lambda>_ _ _ x. (Inr (), x))\<rparr>, te_redis = mem_commands,
     te_first_write_error = (\<lambda>_. None), te_allowlist_topics = [''ai'', ''chips''], te_filter_tracked_tags = (\<lambda>ts. ts),
     te_url_api = sample_api,
     te_parsers = \<lparr>date_value = (\<lambda>_. Some 0), json_meta = (\<lambda>_. None)\<rparr>, te_decode_raw = (\<lambda>_. None), te_decode_json = Some\<rparr>"

definition recording_state :: "(mem_redis, client_call list) trends_state" where
  "recording_state = \<lparr>ts_health = create_trends_health 0, ts_lag_write_timestamps = [], ts_snapshot_in_flight = False,
     ts_redis = empty_redis, ts_ext = []\<rparr>"

definition trends_recording_payload ::
  "string \<Rightarrow> json kafka_message list \<Rightarrow> ((mem_redis, client_call list) trends_state, trends_error, json) each_batch_payload" where
  "trends_recording_payload topic ms =
     \<lparr>ebp_topic = topic, ebp_partition = 0, ebp_high_watermark = ''9'', ebp_messages = ms,
      ebp_is_running = (\<lambda>s. (True, s)), ebp_is_stale = (\<lambda>s. (False, s)),
      ebp_heartbeat = eff_upd (\<lambda>s. s\<lparr>ts_ext := ts_ext s @ [Beat]\<rparr>),
      ebp_resolve_offset = (\<lambda>p s. s\<lparr>ts_ext := ts_ext s @ [Acked p]\<rparr>),
      ebp_commit_offsets_if_necessary = eff_upd (\<lambda>s. s\<lparr>ts_ext := ts_ext s @ [Committed]\<rparr>), ebp_pause = (\<lambda>s. (id, s))\<rparr>"

interpretation recorded: trends_client "trends_recording_payload topic ms" id recording_env
  by unfold_locales (simp_all add: trends_recording_payload_def recording_env_def eff_upd_def)

theorem trends_batch_acknowledged_witness:
  "\<exists>strategies t u. create_batch_strategies recording_env = Inr strategies \<and>
     ts_ext (snd (each_batch (StrategyMap strategies) (trends_recording_payload ''raw''
       [\<lparr>km_key = None, km_value = Some JNull, km_offset = ''4'', km_timestamp = ''0''\<rparr>,
        \<lparr>km_key = None, km_value = None, km_offset = ''5'', km_timestamp = ''0''\<rparr>]) recording_state)) = t @ u \<and>
     acked t = [''4'', ''5'']"
proof -
  let ?p = "trends_recording_payload ''raw''
       [\<lparr>km_key = None, km_value = Some JNull, km_offset = ''4'', km_timestamp = ''0''\<rparr>,
        \<lparr>km_key = None, km_value = None, km_offset = ''5'', km_timestamp = ''0''\<rparr>]"
  obtain strategies p where st: "create_batch_strategies recording_env = Inr strategies" "map_of strategies ''raw'' = Some p"
    by (simp add: create_batch_strategies_def create_message_batch_strategy_def trends_batch_options_def assert_positive_integer_def
        loop_heartbeat_interval_messages_def recording_env_def demo_config_def Let_def js_map)
  have st2: "map_of strategies (ebp_topic ?p) = Some p" using st(2) by (simp add: trends_recording_payload_def)
  have active: "bc_is_active (create_batch_context ?p) recording_state = (Inr True, recording_state)"
    by (simp add: create_batch_context_def trends_recording_payload_def)
  have "trends_handled recording_env ?p recording_state = 2"
    by (simp add: trends_handled_def recording_env_def demo_config_def trends_recording_payload_def create_batch_context_def
        to_pipeline_messages_def loop_heartbeat_interval_messages_def raw_event_message_strategy_def handle_message_def
        report_progress_def run_message_callback_def message_context_of_def deserialize_trend_event_def deserialize_raw_event_def
        on_parse_error_def t_on_health_def eff_ret_def eff_upd_def Let_def)
  then have "take (trends_handled recording_env ?p recording_state) (map km_offset (ebp_messages ?p)) = [''4'', ''5'']"
    by (simp add: trends_recording_payload_def)
  moreover have "id (ts_ext recording_state) = []" by (simp add: recording_state_def)
  moreover obtain t u where
    "id (ts_ext (snd (each_batch (StrategyMap strategies) ?p recording_state))) = id (ts_ext recording_state) @ t @ u"
    "acked t = take (trends_handled recording_env ?p recording_state) (map km_offset (ebp_messages ?p))"
    using trends_batch_acknowledged [OF recorded.trends_client_axioms st(1) st2 active] by (elim exE conjE) (rule that)
  ultimately have "ts_ext (snd (each_batch (StrategyMap strategies) ?p recording_state)) = t @ u \<and> acked t = [''4'', ''5'']"
    by (metis append_Nil id_apply)
  with st(1) show ?thesis by blast
qed

end
