(* ===== verification/TrendSnapshot.thy ===== *)
theory TrendSnapshot
  imports Trends
begin

section \<open>Snapshots of the trends (apps/trends/src/snapshot.ts, index.ts)\<close>

text \<open>
  At an interval the counters of every topic of the allowlist are read, compared with the previous
  window and the baseline, ranked, published, stored and written back as the previous counts.
  \<open>localeCompare\<close> is a parameter. The replies of a pipeline are taken as they come: a command that
  failed has no value, and the pipeline itself does not fail.
\<close>

definition topic_metric_limit :: nat where
  "topic_metric_limit = 30"

definition day_names :: "string list" where
  "day_names = [''sun'', ''mon'', ''tue'', ''wed'', ''thu'', ''fri'', ''sat'']"

definition map_window_to_proto :: "trend_window \<Rightarrow> int" where
  "map_window_to_proto w = (case w of W15m \<Rightarrow> 1 | W60m \<Rightarrow> 2)"

definition parse_count :: "read_reply \<Rightarrow> int" where
  "parse_count v = (case v of Text s \<Rightarrow> default 0 (parse_int10 s) | _ \<Rightarrow> 0)"

definition get_day_of_week_key :: "int \<Rightarrow> string" where
  "get_day_of_week_key t = day_names ! get_utc_day t"

definition compute_acceleration :: "int \<Rightarrow> int \<Rightarrow> rat" where
  "compute_acceleration volume prev_volume =
     (if prev_volume \<le> 0 then (if volume > 0 then 1 else 0)
      else of_int (volume - prev_volume) / of_int prev_volume)"

definition compute_score :: "int \<Rightarrow> rat \<Rightarrow> rat" where
  "compute_score volume acceleration = of_int volume + max 0 (acceleration * of_int volume)"

record topic_snapshot_metric =
  sm_topic :: string
  sm_window :: trend_window
  sm_volume :: int
  sm_prev_volume :: int
  sm_acceleration :: rat
  sm_baseline_volume :: int
  sm_baseline_delta :: rat
  sm_score :: rat
  sm_evidence_event_ids :: "string list"

definition to_trend_metric_wire :: "topic_snapshot_metric \<Rightarrow> string \<Rightarrow> json" where
  "to_trend_metric_wire m generated_at_iso =
     JObj
      [(''topic'', JStr (sm_topic m)),
       (''window'', JNum (of_int (map_window_to_proto (sm_window m)))),
       (''window_end'', JStr generated_at_iso),
       (''volume'', JNum (of_int (sm_volume m))),
       (''prev_volume'', JNum (of_int (sm_prev_volume m))),
       (''acceleration'', JNum (sm_acceleration m)),
       (''baseline_volume'', JNum (of_int (sm_baseline_volume m))),
       (''baseline_delta'', JNum (sm_baseline_delta m)),
       (''score'', JNum (sm_score m)),
       (''evidence'', JObj [(''top_urls'', JArr []), (''top_event_ids'', JArr (map JStr (sm_evidence_event_ids m)))])]"

subsection \<open>Metrics of a window\<close>

definition read_commands :: "trend_window \<Rightarrow> string \<Rightarrow> string \<Rightarrow> int \<Rightarrow> string \<Rightarrow> read_command list" where
  "read_commands w bucket day max_evidence topic =
     [GetKey (get_counter_key w topic bucket), GetKey (get_previous_counter_key w topic),
      GetKey (''baseline:'' @ window_name w @ '':'' @ topic @ '':'' @ day),
      RevRange (get_evidence_key w topic) 0 (max_evidence - 1)]"

definition pipeline_exec :: "'r redis_commands \<Rightarrow> read_command list \<Rightarrow> 'r \<Rightarrow> read_reply list option \<times> 'r" where
  "pipeline_exec rc cs r =
     (if r_exec_null rc r then (None, r_tick rc r)
      else (case r_link rc r of
          LinkOk \<Rightarrow> (Some (map (\<lambda>c. r_read rc c r) cs), r_tick rc r)
        | _ \<Rightarrow> (Some (map (\<lambda>_. CommandError) cs), r_tick rc r)))"

definition metric_of_replies :: "trend_window \<Rightarrow> string \<Rightarrow> read_reply \<Rightarrow> read_reply \<Rightarrow> read_reply \<Rightarrow> read_reply \<Rightarrow> topic_snapshot_metric" where
  "metric_of_replies w topic current_raw previous_raw baseline_raw evidence_raw =
     (let volume = parse_count current_raw; prev_volume = parse_count previous_raw;
          baseline_volume = parse_count baseline_raw;
          baseline_delta = (if baseline_volume > 0 then of_int (volume - baseline_volume) / of_int baseline_volume else 0);
          acceleration = compute_acceleration volume prev_volume
      in \<lparr>sm_topic = topic, sm_window = w, sm_volume = volume, sm_prev_volume = prev_volume,
          sm_acceleration = acceleration, sm_baseline_volume = baseline_volume, sm_baseline_delta = baseline_delta,
          sm_score = compute_score volume acceleration,
          sm_evidence_event_ids = (case evidence_raw of Members ms \<Rightarrow> ms | _ \<Rightarrow> [])\<rparr>)"

fun metrics_of_replies :: "trend_window \<Rightarrow> string list \<Rightarrow> read_reply list \<Rightarrow> topic_snapshot_metric list" where
  "metrics_of_replies w (t # ts) (a # b # c # d # rs) = metric_of_replies w t a b c d # metrics_of_replies w ts rs"
| "metrics_of_replies w _ _ = []"

definition compute_window_metrics ::
  "'r redis_commands \<Rightarrow> string list \<Rightarrow> trend_window \<Rightarrow> int \<Rightarrow> int \<Rightarrow>
   ('r, trend_error, topic_snapshot_metric list \<times> (string, int) omap) eff" where
  "compute_window_metrics rc topics w bucket_time max_evidence r =
     (case pipeline_exec rc (concat (map (read_commands w (to_iso_string bucket_time) (get_day_of_week_key bucket_time) max_evidence) topics)) r of
        (None, r') \<Rightarrow> (Inl PipelineNull, r')
      | (Some replies, r') \<Rightarrow>
          let metrics = metrics_of_replies w topics replies in
          (Inr (metrics, foldl (\<lambda>m x. om_set m (sm_topic x) (sm_volume x)) [] metrics), r'))"

definition metric_cmp :: "(string \<Rightarrow> string \<Rightarrow> int) \<Rightarrow> topic_snapshot_metric \<Rightarrow> topic_snapshot_metric \<Rightarrow> rat" where
  "metric_cmp lc l r = (if sm_score r \<noteq> sm_score l then sm_score r - sm_score l else of_int (lc (sm_topic l) (sm_topic r)))"

subsection \<open>Publishing\<close>

record published_window_snapshot =
  ps_window :: trend_window
  ps_generated_at :: int
  ps_top_metrics :: "topic_snapshot_metric list"

definition seconds_since :: "('r, 'x, 'b) trends_env \<Rightarrow> int \<Rightarrow> ('r, 'x, rat) teff" where
  "seconds_since env start = eff_bind (t_now env) (\<lambda>t. eff_ret (of_int (t - start) / 1000))"

definition gauge_metrics :: "topic_snapshot_metric list \<Rightarrow> trend_window \<Rightarrow> trends_health \<Rightarrow> trends_health" where
  "gauge_metrics ms w h =
     foldl (\<lambda>h m. t_set_topic_metrics (sm_topic m) w (of_int (sm_volume m)) (sm_score m) h)
       (t_clear_topic_metrics w h) (take topic_metric_limit ms)"

definition publish_window_snapshot ::
  "(string \<Rightarrow> string \<Rightarrow> int) \<Rightarrow> ('r, 'x, 'b) trends_env \<Rightarrow> trend_window \<Rightarrow> ('r, 'x, published_window_snapshot) teff" where
  "publish_window_snapshot lc env w =
     (let cfg = te_config env in
      eff_bind (t_now env) (\<lambda>start_time.
      eff_bind (t_now env) (\<lambda>generated_at.
      let generated_at_iso = to_iso_string generated_at; bucket_time = bucket_ms generated_at w in
      eff_bind (t_now env) (\<lambda>baseline_start.
      eff_bind (on_redis (compute_window_metrics (te_redis env) (te_allowlist_topics env) w bucket_time
          (tc_max_evidence_per_topic cfg))) (\<lambda>(metrics, counts_by_topic).
      eff_bind (seconds_since env baseline_start) (\<lambda>d.
      eff_bind (t_on_health (t_observe_baseline_compute_duration d)) (\<lambda>_.
      let top_metrics = take (nat (tc_top_n_topics cfg)) (js_sort (metric_cmp lc) metrics);
          snapshot = JObj
            [(''generated_at'', JStr generated_at_iso), (''window'', JNum (of_int (map_window_to_proto w))),
             (''topics'', JArr (map (\<lambda>m. to_trend_metric_wire m generated_at_iso) top_metrics))] in
      eff_bind (t_on_health (gauge_metrics top_metrics w)) (\<lambda>_.
      eff_bind (on_ext (sv_publish (te_services env) (tc_topic_trends_snapshots cfg)
          (window_name w @ '':'' @ generated_at_iso) snapshot)) (\<lambda>_.
      eff_bind (on_ext (sv_create_snapshot (te_services env) generated_at w snapshot)) (\<lambda>_.
      eff_bind (on_redis (write_previous_window_counts (te_redis env) (te_first_write_error env) w counts_by_topic)) (\<lambda>_.
      eff_bind (t_on_health (t_increment_snapshot_published w 1)) (\<lambda>_.
      eff_bind (seconds_since env start_time) (\<lambda>d2.
      eff_bind (t_on_health (t_observe_snapshot_duration w d2)) (\<lambda>_.
      eff_ret \<lparr>ps_window = w, ps_generated_at = generated_at, ps_top_metrics = top_metrics\<rparr>))))))))))))))"

fun publish_windows ::
  "(string \<Rightarrow> string \<Rightarrow> int) \<Rightarrow> ('r, 'x, 'b) trends_env \<Rightarrow> trend_window list \<Rightarrow> ('r, 'x, published_window_snapshot list) teff" where
  "publish_windows lc env [] = eff_ret []"
| "publish_windows lc env (w # ws) =
     eff_bind (publish_window_snapshot lc env w) (\<lambda>p.
     eff_bind (publish_windows lc env ws) (\<lambda>ps. eff_ret (p # ps)))"

definition publish_snapshots ::
  "(string \<Rightarrow> string \<Rightarrow> int) \<Rightarrow> ('r, 'x, 'b) trends_env \<Rightarrow> ('r, 'x, published_window_snapshot list) teff" where
  "publish_snapshots lc env = publish_windows lc env (tc_windows (te_config env))"

text \<open>One turn of the loop; \<open>finally\<close> always releases the flag.\<close>

definition run_snapshot :: "(string \<Rightarrow> string \<Rightarrow> int) \<Rightarrow> ('r, 'x, 'b) trends_env \<Rightarrow> ('r, 'x, unit) teff" where
  "run_snapshot lc env s =
     (if ts_snapshot_in_flight s then (Inr (), s)
      else
        (case publish_snapshots lc env (s\<lparr>ts_snapshot_in_flight := True\<rparr>) of
           (Inr _, s') \<Rightarrow> (Inr (), s'\<lparr>ts_snapshot_in_flight := False\<rparr>)
         | (Inl _, s') \<Rightarrow>
             (Inr (), s'\<lparr>ts_health := t_increment_error ''snapshot_error'' 1 (ts_health s'), ts_snapshot_in_flight := False\<rparr>)))"

subsection \<open>Properties\<close>

lemma compute_score_bounds: "0 \<le> v \<Longrightarrow> of_int v \<le> compute_score v a"
  by (simp add: compute_score_def)

text \<open>
  The score of a topic is its volume as long as it does not grow; a growing topic gains its volume times
  its relative growth. For a fixed previous volume the score never decreases when the volume grows.
\<close>

theorem score_grows_with_volume:
  assumes "0 \<le> prev" and "0 \<le> v" and "v \<le> v'"
  shows "compute_score v (compute_acceleration v prev) \<le> compute_score v' (compute_acceleration v' prev) \<and>
    of_int v \<le> compute_score v (compute_acceleration v prev) \<and>
    (if v \<le> prev then compute_score v (compute_acceleration v prev) = of_int v
     else compute_score v (compute_acceleration v prev) =
       (if prev = 0 then 2 * of_int v else of_int v * (of_int v / of_int prev)))"
proof -
  have score: "compute_score u (compute_acceleration u prev) =
      (if u \<le> prev then of_int u else if prev = 0 then 2 * of_int u else of_int u * (of_int u / of_int prev))"
    if "0 \<le> u" for u
  proof -
    consider "prev = 0" | "0 < prev" using assms(1) by linarith
    then show ?thesis
    proof cases
      case 1
      then show ?thesis using that by (simp add: compute_score_def compute_acceleration_def)
    next
      case 2
      then have a: "compute_acceleration u prev = (of_int u - of_int prev) / of_int prev"
        by (simp add: compute_acceleration_def)
      show ?thesis
      proof (cases "u \<le> prev")
        case True
        then have "(of_int u - of_int prev) / of_int prev * of_int u \<le> (0::rat)"
          using 2 that by (intro mult_nonpos_nonneg divide_nonpos_nonneg) auto
        with True show ?thesis by (simp add: compute_score_def a)
      next
        case False
        then have "0 \<le> (of_int u - of_int prev) / of_int prev * (of_int u :: rat)"
          using 2 that by (intro mult_nonneg_nonneg divide_nonneg_nonneg) auto
        with False 2 show ?thesis by (simp add: compute_score_def a field_simps)
      qed
    qed
  qed
  have mono: "compute_score v (compute_acceleration v prev) \<le> compute_score v' (compute_acceleration v' prev)"
  proof -
    have "of_int v' \<le> of_int v' * (of_int v' / of_int prev :: rat)" if "prev < v'" "prev \<noteq> 0"
    proof -
      have "(1::rat) \<le> of_int v' / of_int prev" using that assms by simp
      then have "of_int v' * 1 \<le> of_int v' * (of_int v' / of_int prev :: rat)"
        using assms by (intro mult_left_mono) auto
      then show ?thesis by simp
    qed
    moreover have "of_int v * (of_int v / of_int prev) \<le> of_int v' * (of_int v' / of_int prev :: rat)"
      using assms by (intro mult_mono divide_right_mono) auto
    ultimately show ?thesis using assms by (auto simp: score intro: order_trans [of _ "of_int v'"])
  qed
  have val: "if v \<le> prev then compute_score v (compute_acceleration v prev) = of_int v
     else compute_score v (compute_acceleration v prev) =
       (if prev = 0 then 2 * of_int v else of_int v * (of_int v / of_int prev))"
    by (simp add: score assms)
  show ?thesis by (intro conjI mono compute_score_bounds assms val)
qed

theorem score_grows_with_volume_witness:
  "compute_score 2 (compute_acceleration 2 4) \<le> compute_score 8 (compute_acceleration 8 4)"
  using score_grows_with_volume [of 4 2 8] by simp

subsection \<open>Reading and writing back\<close>

lemma metrics_of_replies_map:
  "metrics_of_replies w ts (map f (concat (map (read_commands w b d n) ts))) =
     map (\<lambda>t. metric_of_replies w t (f (GetKey (get_counter_key w t b))) (f (GetKey (get_previous_counter_key w t)))
       (f (GetKey (''baseline:'' @ window_name w @ '':'' @ t @ '':'' @ d))) (f (RevRange (get_evidence_key w t) 0 (n - 1)))) ts"
  by (induction ts) (simp_all add: read_commands_def)

lemma metric_of_replies_sel [simp]:
  "sm_topic (metric_of_replies w t a b c d) = t" "sm_volume (metric_of_replies w t a b c d) = parse_count a"
  "sm_prev_volume (metric_of_replies w t a b c d) = parse_count b"
  "sm_score (metric_of_replies w t a b c d) = compute_score (parse_count a) (compute_acceleration (parse_count a) (parse_count b))"
  by (simp_all add: metric_of_replies_def Let_def)

lemma counts_of_metrics:
  "distinct (map sm_topic ms) \<Longrightarrow>
   foldl (\<lambda>m x. om_set m (sm_topic x) (sm_volume x)) [] ms = map (\<lambda>m. (sm_topic m, sm_volume m)) ms"
  using foldl_om_set_fresh [of sm_topic ms "[]" sm_volume] by simp

text \<open>
  C32. A read that fails is taken for a count of zero: when the commands of the pipeline fail, the metrics
  are computed all the same, with a volume, a previous volume and a score of zero and no evidence for every topic.
\<close>

theorem failed_reads_count_as_zero:
  assumes "r_link rc r \<noteq> LinkOk" and "\<not> r_exec_null rc r"
  shows "\<exists>ms counts. fst (compute_window_metrics rc topics w t n r) = Inr (ms, counts) \<and> map sm_topic ms = topics \<and>
    list_all (\<lambda>m. sm_volume m = 0 \<and> sm_prev_volume m = 0 \<and> sm_score m = 0 \<and> sm_evidence_event_ids m = []) ms"
proof -
  have "pipeline_exec rc cs r = (Some (map (\<lambda>_. CommandError) cs), r_tick rc r)" for cs
    using assms by (cases "r_link rc r") (simp_all add: pipeline_exec_def)
  then show ?thesis
    by (simp add: compute_window_metrics_def metrics_of_replies_map Let_def list_all_iff o_def metric_of_replies_def
        parse_count_def compute_score_def compute_acceleration_def)
qed

definition offline_commands :: "mem_redis redis_commands" where
  "offline_commands = mem_commands\<lparr>r_link := (\<lambda>_. LinkLost ''closed'')\<rparr>"

theorem failed_reads_count_as_zero_witness:
  "\<exists>ms counts. fst (compute_window_metrics offline_commands [''ai''] W15m 0 5
      (empty_redis\<lparr>m_strings := (\<lambda>_. Some ''7'')\<rparr>)) = Inr (ms, counts) \<and> map sm_topic ms = [''ai''] \<and> list_all (\<lambda>m. sm_volume m = 0) ms"
  using failed_reads_count_as_zero [of offline_commands "empty_redis\<lparr>m_strings := (\<lambda>_. Some ''7'')\<rparr>" "[''ai'']" W15m 0 5]
  by (auto simp: offline_commands_def mem_commands_def list_all_iff)

text \<open>What a snapshot relies on beyond the script: a number that was written is the one that is read.\<close>

locale snapshot_redis = window_redis rc ok members number scores
  for rc :: "'r redis_commands" and ok members number scores +
  assumes get: "parse_count (r_read rc (GetKey k) r) = number r k"
    and set_number: "number (r_set rc k (int_str i) r) = (number r)(k := i)"
begin

lemma write_counts_number:
  "distinct (map fst counts) \<Longrightarrow>
   number (foldl (\<lambda>r (topic, i). r_expire rc (get_previous_counter_key w topic) ttl
     (r_set rc (get_previous_counter_key w topic) (int_str i) r)) r counts) k =
   (case map_of (map (\<lambda>(t, i). (get_previous_counter_key w t, i)) counts) k of Some i \<Rightarrow> i | None \<Rightarrow> number r k)"
proof (induction counts arbitrary: r)
  case (Cons c counts)
  obtain t i where c: "c = (t, i)" by fastforce
  have "map_of (map (\<lambda>(t, i). (get_previous_counter_key w t, i)) counts) (get_previous_counter_key w t) = None"
    using Cons.prems by (force simp: c map_of_eq_None_iff get_previous_counter_key_def)
  with Cons show ?case by (auto simp: c expire set_number split: option.split)
qed simp

end

interpretation mem_snapshot: snapshot_redis mem_commands mem_redis_ok mem_members mem_number mem_scores
  by unfold_locales (auto simp: mem_commands_def parse_count_def mem_number_def default_def parse_int10_int_str split: option.split)

text \<open>
  Once a snapshot of a window has written its counts back, the next snapshot of that window compares
  every topic with exactly the volume that this one published, also when both fall into the same bucket: the
  previous counts are those of the last snapshot, not of the window before as the specification has it.
\<close>

theorem next_snapshot_compares_with_this:
  assumes "snapshot_redis rc ok members number scores" and "distinct topics"
    and "compute_window_metrics rc topics w t n r = (Inr (ms, counts), r1)"
    and "r_link rc r2 = LinkOk" and "write_previous_window_counts rc first_error w counts r2 = (Inr (), r3)"
    and "r_link rc r3 = LinkOk" and "compute_window_metrics rc topics w t' n' r3 = (Inr (ms', counts'), r4)"
  shows "map sm_topic ms' = map sm_topic ms \<and> map sm_prev_volume ms' = map sm_volume ms"
proof -
  have topics: "map sm_topic ms = topics"
  proof -
    show ?thesis using assms(3)
      by (cases "r_exec_null rc r")
        (auto simp: compute_window_metrics_def pipeline_exec_def metrics_of_replies_map Let_def o_def split: redis_link.splits)
  qed
  have counts: "counts = map (\<lambda>m. (sm_topic m, sm_volume m)) ms"
    using assms(2,3) topics counts_of_metrics [of ms]
    by (auto simp: compute_window_metrics_def Let_def split: prod.splits option.splits)
  have r3: "number r3 k = (case map_of (map (\<lambda>(t, i). (get_previous_counter_key w t, i)) counts) k of Some i \<Rightarrow> i | None \<Rightarrow> number r2 k)" for k
  proof -
    have "distinct (map fst counts)" using assms(2) topics by (simp add: counts o_def)
    then show ?thesis
      using assms(4,5) snapshot_redis.write_counts_number [OF assms(1)] window_redis.tick [OF snapshot_redis.axioms(1) [OF assms(1)]]
      by (auto simp: write_previous_window_counts_def Let_def split: if_splits option.splits)
  qed
  have prev: "number r3 (get_previous_counter_key w (sm_topic m)) = sm_volume m" if "m \<in> set ms" for m
  proof -
    have "map_of (map (\<lambda>(t, i). (get_previous_counter_key w t, i)) counts) (get_previous_counter_key w (sm_topic m)) = Some (sm_volume m)"
      using that assms(2) topics by (intro map_of_is_SomeI)
        (auto simp: counts o_def distinct_map inj_on_def get_previous_counter_key_def image_iff)
    then show ?thesis by (simp add: r3)
  qed
  have "map sm_topic ms' = topics \<and> map sm_prev_volume ms' = map (\<lambda>t. number r3 (get_previous_counter_key w t)) topics"
    using assms(6,7) by (auto simp: compute_window_metrics_def pipeline_exec_def Let_def o_def
        snapshot_redis.get [OF assms(1)] split: if_splits) (simp add: metrics_of_replies_map o_def snapshot_redis.get [OF assms(1)])+
  moreover have "map (\<lambda>t. number r3 (get_previous_counter_key w t)) topics = map sm_volume ms"
    unfolding topics [symmetric] using prev by simp
  ultimately show ?thesis by (simp add: topics)
qed

theorem next_snapshot_compares_with_this_witness:
  "\<exists>ms r1 r3 ms' r4 c c'. compute_window_metrics mem_commands [''ai''] W15m 0 5 empty_redis = (Inr (ms, c), r1) \<and>
     write_previous_window_counts mem_commands (\<lambda>_. None) W15m c r1 = (Inr (), r3) \<and>
     compute_window_metrics mem_commands [''ai''] W15m 900000 5 r3 = (Inr (ms', c'), r4) \<and>
     map sm_prev_volume ms' = map sm_volume ms"
proof -
  have link: "r_link mem_commands r = LinkOk" "\<not> r_exec_null mem_commands r" for r by (simp_all add: mem_commands_def)
  obtain ms c r1 where a: "compute_window_metrics mem_commands [''ai''] W15m 0 5 empty_redis = (Inr (ms, c), r1)"
    by (simp add: compute_window_metrics_def pipeline_exec_def link Let_def)
  obtain r3 where b: "write_previous_window_counts mem_commands (\<lambda>_. None) W15m c r1 = (Inr (), r3)"
    by (simp add: write_previous_window_counts_def link Let_def)
  obtain ms' c' r4 where d: "compute_window_metrics mem_commands [''ai''] W15m 900000 5 r3 = (Inr (ms', c'), r4)"
    by (simp add: compute_window_metrics_def pipeline_exec_def link Let_def)
  have "map sm_prev_volume ms' = map sm_volume ms"
    using next_snapshot_compares_with_this [OF mem_snapshot.snapshot_redis_axioms _ a link(1) b link(1) d] by simp
  with a b d show ?thesis by blast
qed

subsection \<open>What is published\<close>








text \<open>What the gauges of a window show after a snapshot.\<close>

lemma gauges_after:
  "get_window_topic_metric (topic_volume_by_window (tm_topic_metrics (th_metrics
      (foldl (\<lambda>h m. t_set_topic_metrics (sm_topic m) w (of_int (sm_volume m)) (sm_score m) h) h ms)))) t w =
   (case map_of (rev (map (\<lambda>m. (sm_topic m, of_int (sm_volume m)))  ms)) t of Some v \<Rightarrow> Some v
    | None \<Rightarrow> get_window_topic_metric (topic_volume_by_window (tm_topic_metrics (th_metrics h))) t w)"
proof (induction ms arbitrary: h)
  case (Cons m ms)
  then show ?case
    by (auto simp: t_set_topic_metrics_def on_metrics_def twm_set_def get_set_window_topic map_add_def split: option.splits)
qed simp















text \<open>
  A turn of the snapshot loop does not fail when something fails in it: the failure is counted, and the flag is
  back where it was before the turn. A turn is one step here, so two turns never overlap.
\<close>

theorem run_snapshot_returns:
  "\<exists>s'. run_snapshot lc env s = (Inr (), s') \<and> ts_snapshot_in_flight s' = ts_snapshot_in_flight s \<and>
     (if ts_snapshot_in_flight s then s' = s
      else case fst (publish_snapshots lc env (s\<lparr>ts_snapshot_in_flight := True\<rparr>)) of
          Inr _ \<Rightarrow> ts_health s' = ts_health (snd (publish_snapshots lc env (s\<lparr>ts_snapshot_in_flight := True\<rparr>)))
        | Inl _ \<Rightarrow> ts_health s' = t_increment_error ''snapshot_error'' 1
            (ts_health (snd (publish_snapshots lc env (s\<lparr>ts_snapshot_in_flight := True\<rparr>)))))"
  by (auto simp: run_snapshot_def split: prod.splits sum.splits)


end
