(* ===== verification/UrlSafety.thy ===== *)
theory UrlSafety
  imports Hydration "HOL-Library.Word"
begin

section \<open>Which URLs may be fetched or cited (packages/shared/src/runtime/url.ts)\<close>

text \<open>
  A URL is safe when it is an HTTP URL whose host is neither local nor in a private address range; its
  canonical form has no fragment, no default port and one trailing slash less. The briefing handoff
  carries a copy of the same functions. \<open>isIP\<close> of the standard library is written out; the URL
  parser is the parameter it is for the hydration of events.
\<close>

subsection \<open>Addresses\<close>

definition normalize_hostname :: "string \<Rightarrow> string" where
  "normalize_hostname h =
     (let normalized = to_lower (trim h) in
      if starts_with normalized ''['' \<and> ends_with normalized '']'' then butlast (tl normalized) else normalized)"

definition ipv4_octet :: "string \<Rightarrow> bool" where
  "ipv4_octet s \<longleftrightarrow> s \<noteq> [] \<and> length s \<le> 3 \<and> list_all is_digit s \<and> digits_value s \<le> 255 \<and> (length s > 1 \<longrightarrow> hd s \<noteq> CHR ''0'')"

definition is_ipv4 :: "string \<Rightarrow> bool" where
  "is_ipv4 s \<longleftrightarrow> (let parts = split_at (\<lambda>c. c = CHR ''.'') s in length parts = 4 \<and> list_all ipv4_octet parts)"

definition hex_char :: "char \<Rightarrow> bool" where
  "hex_char c \<longleftrightarrow> (let n = (of_char c :: nat) in 48 \<le> n \<and> n \<le> 57 \<or> 65 \<le> n \<and> n \<le> 70 \<or> 97 \<le> n \<and> n \<le> 102)"

definition hextet :: "string \<Rightarrow> bool" where
  "hextet s \<longleftrightarrow> s \<noteq> [] \<and> length s \<le> 4 \<and> list_all hex_char s"

text \<open>How many of the eight groups a list of parts fills; an IPv4 address at the end fills two.\<close>

fun hextets :: "string list \<Rightarrow> nat option" where
  "hextets [] = Some 0"
| "hextets [s] = (if hextet s then Some 1 else if is_ipv4 s then Some 2 else None)"
| "hextets (s # t # ts) = (if hextet s then map_option Suc (hextets (t # ts)) else None)"

fun cut_double_colon :: "string \<Rightarrow> (string \<times> string) option" where
  "cut_double_colon (c # d # s) =
     (if c = CHR '':'' \<and> d = CHR '':'' then Some ([], s) else map_option (\<lambda>(a, b). (c # a, b)) (cut_double_colon (d # s)))"
| "cut_double_colon _ = None"

definition groups :: "string \<Rightarrow> string list" where
  "groups s = (if s = [] then [] else split_at (\<lambda>c. c = CHR '':'') s)"

definition zone_char :: "char \<Rightarrow> bool" where
  "zone_char c \<longleftrightarrow> (let n = (of_char c :: nat) in
     48 \<le> n \<and> n \<le> 57 \<or> 65 \<le> n \<and> n \<le> 90 \<or> 97 \<le> n \<and> n \<le> 122 \<or> c \<in> {CHR ''-'', CHR ''.'', CHR '':''})"

definition is_ipv6 :: "string \<Rightarrow> bool" where
  "is_ipv6 s \<longleftrightarrow>
     (let body = takeWhile (\<lambda>c. c \<noteq> CHR 0x25) s; zone = dropWhile (\<lambda>c. c \<noteq> CHR 0x25) s in
      (zone = [] \<or> (tl zone \<noteq> [] \<and> list_all zone_char (tl zone))) \<and>
      (case cut_double_colon body of
         None \<Rightarrow> hextets (groups body) = Some 8
       | Some (a, b) \<Rightarrow>
           (case (if list_all hextet (groups a) then Some (length (groups a)) else None, hextets (groups b)) of
              (Some m, Some n) \<Rightarrow> m + n \<le> 7
            | _ \<Rightarrow> False)))"

definition is_ip :: "string \<Rightarrow> nat" where
  "is_ip s = (if is_ipv4 s then 4 else if is_ipv6 s then 6 else 0)"

definition is_private_or_loopback_ipv4 :: "string \<Rightarrow> bool" where
  "is_private_or_loopback_ipv4 h =
     (let octets = map parse_int10 (split_at (\<lambda>c. c = CHR ''.'') h) in
      case octets of
        [Some a, Some b, Some c, Some d] \<Rightarrow>
          list_all (\<lambda>n. 0 \<le> n \<and> n \<le> 255) [a, b, c, d] \<and>
          (a = 10 \<or> a = 127 \<or> a = 169 \<and> b = 254 \<or> a = 172 \<and> 16 \<le> b \<and> b \<le> 31 \<or> a = 192 \<and> b = 168)
      | _ \<Rightarrow> False)"

definition link_local_re :: re where
  "link_local_re = ci (cats [Bol, lit ''fe'', Cls (\<lambda>c. c \<in> set ''89ab''), rep_between 0 2 (Cls hex_char), Eol])"

definition is_private_or_loopback_ipv6 :: "string \<Rightarrow> bool" where
  "is_private_or_loopback_ipv6 h \<longleftrightarrow>
     starts_with h ''::'' \<or> starts_with h ''fc'' \<or> starts_with h ''fd'' \<or>
     re_test link_local_re (hd (split_at (\<lambda>c. c = CHR '':'') h))"

definition is_disallowed_hostname :: "string \<Rightarrow> bool" where
  "is_disallowed_hostname h =
     (let normalized = normalize_hostname h in
      if normalized = ''localhost'' \<or> ends_with normalized ''.localhost'' \<or> normalized = ''0.0.0.0'' then True
      else if is_ip normalized = 4 then is_private_or_loopback_ipv4 normalized
      else if is_ip normalized = 6 then is_private_or_loopback_ipv6 normalized
      else False)"

subsection \<open>URLs\<close>

definition parse_http_url :: "url_api \<Rightarrow> string \<Rightarrow> url option" where
  "parse_http_url api v =
     (case url_parse api v of
        None \<Rightarrow> None
      | Some u \<Rightarrow> if protocol u \<noteq> ''http:'' \<and> protocol u \<noteq> ''https:'' then None else Some u)"

text \<open>The setter ignores a host with a colon that is not in brackets.\<close>

definition assign_hostname :: "string \<Rightarrow> url \<Rightarrow> url" where
  "assign_hostname h u = (if CHR '':'' \<in> set h \<and> \<not> starts_with h ''['' then u else set_hostname h u)"

definition normal_http_url :: "url \<Rightarrow> url" where
  "normal_http_url u =
     (let u = u\<lparr>fragment := None\<rparr>;
          u = assign_hostname (normalize_hostname (hostname u)) u;
          u = (if protocol u = ''http:'' \<and> port u = ''80'' \<or> protocol u = ''https:'' \<and> port u = ''443'' then u\<lparr>port := []\<rparr> else u)
      in if length (pathname u) > 1 \<and> ends_with (pathname u) ''/'' then set_pathname (butlast (pathname u)) u else u)"

definition normalize_http_url :: "url \<Rightarrow> string" where
  "normalize_http_url u = url_to_string (normal_http_url u)"

definition has_disallowed_host :: "bool \<Rightarrow> url \<Rightarrow> bool" where
  "has_disallowed_host allow_private_hosts u \<longleftrightarrow> \<not> allow_private_hosts \<and> is_disallowed_hostname (hostname u)"

definition canonicalize_http_url :: "url_api \<Rightarrow> bool \<Rightarrow> string \<Rightarrow> string option" where
  "canonicalize_http_url api allow_private_hosts v =
     (let trimmed = trim v in
      if length trimmed = 0 then None
      else (case parse_http_url api trimmed of
          None \<Rightarrow> None
        | Some u \<Rightarrow> if has_disallowed_host allow_private_hosts u then None else Some (normalize_http_url u)))"

definition is_allowed_fetch_url :: "url_api \<Rightarrow> bool \<Rightarrow> string \<Rightarrow> bool" where
  "is_allowed_fetch_url api allow_private_hosts v \<longleftrightarrow>
     (case parse_http_url api v of None \<Rightarrow> False | Some u \<Rightarrow> \<not> has_disallowed_host allow_private_hosts u)"

lemma is_ip_examples:
  "is_ip ''127.0.0.1'' = 4" "is_ip ''1.2.3'' = 0" "is_ip ''01.2.3.4'' = 0" "is_ip ''256.1.1.1'' = 0"
  "is_ip ''::'' = 6" "is_ip ''::1'' = 6" "is_ip ''1::'' = 6" "is_ip ''1:2:3:4:5:6:7::'' = 6" "is_ip ''1:2:3:4:5:6:7:8'' = 6"
  "is_ip ''1::2::3'' = 0" "is_ip '':::'' = 0" "is_ip ''::ffff:10.0.0.1'' = 6" "is_ip ''1:2:3:4:5:6:7:8:9'' = 0"
  "is_ip ''fe80::1%eth0'' = 6" "is_ip ''12345::'' = 0" "is_ip ''1:2'' = 0" "is_ip [] = 0" "is_ip ''::10.0.0.1:1'' = 0"
  by code_simp+

subsection \<open>The private ranges\<close>

lemma trim_id: "s \<noteq> [] \<Longrightarrow> \<not> is_ws (hd s) \<Longrightarrow> \<not> is_ws (last s) \<Longrightarrow> trim s = s"
  using dropWhile_eq_self_iff [of is_ws s] dropWhile_eq_self_iff [of is_ws "rev s"]
  by (simp add: trim_def trim_start_def trim_end_def hd_rev)

text \<open>An address as a word, and the networks the code means, as prefixes of given lengths.\<close>

definition dotted :: "nat \<Rightarrow> nat \<Rightarrow> nat \<Rightarrow> nat \<Rightarrow> string" where
  "dotted a b c d = join ''.'' [nat_str a, nat_str b, nat_str c, nat_str d]"

definition ipv4_word :: "nat \<Rightarrow> nat \<Rightarrow> nat \<Rightarrow> nat \<Rightarrow> 32 word" where
  "ipv4_word a b c d = word_of_nat (((a * 256 + b) * 256 + c) * 256 + d)"

definition in_network :: "32 word \<Rightarrow> 32 word \<times> nat \<Rightarrow> bool" where
  "in_network w = (\<lambda>(net, n). drop_bit (32 - n) w = drop_bit (32 - n) net)"

definition private_networks :: "(32 word \<times> nat) list" where
  "private_networks =
     [(ipv4_word 10 0 0 0, 8), (ipv4_word 127 0 0 0, 8), (ipv4_word 169 254 0 0, 16), (ipv4_word 172 16 0 0, 12),
      (ipv4_word 192 168 0 0, 16)]"

lemma octet_str:
  assumes "n < 256"
  shows "ipv4_octet (nat_str n)"
proof -
  have neq: "char_of (48 + k) \<noteq> CHR ''0''" if "0 < k" "k < 10" for k :: nat
  proof
    assume "char_of (48 + k) = CHR ''0''"
    then have "(of_char (char_of (48 + k) :: char) :: nat) = of_char (CHR ''0'')" by simp
    then show False using that by (simp add: of_char_of)
  qed
  have "length (nat_str n) \<le> 3 \<and> (length (nat_str n) > 1 \<longrightarrow> hd (nat_str n) \<noteq> CHR ''0'')"
  proof -
    consider "n < 10" | "10 \<le> n" "n < 100" | "100 \<le> n" by linarith
    then show ?thesis
    proof cases
      case 2
      then have "n div 10 < 10" "0 < n div 10" by auto
      with 2 neq [of "n div 10"] show ?thesis by (simp add: nat_str.simps [of n] nat_str.simps [of "n div 10"])
    next
      case 3
      then have "\<not> n div 10 < 10" "n div 10 div 10 < 10" "0 < n div 10 div 10" using assms by auto
      with 3 neq [of "n div 10 div 10"] show ?thesis
        by (simp add: nat_str.simps [of n] nat_str.simps [of "n div 10"] nat_str.simps [of "n div 10 div 10"])
    qed (simp add: nat_str.simps [of n])
  qed
  with assms nat_str_digits [of n] show ?thesis by (auto simp: ipv4_octet_def)
qed

lemma digit_not_dot: "is_digit c \<Longrightarrow> c \<noteq> CHR ''.'' \<and> c \<noteq> CHR ''['' \<and> \<not> is_ws c \<and> lower_char c = c"
  by (auto simp: is_digit_def is_ws_def lower_char_def Let_def)

lemma split_at_join:
  assumes "list_all (\<lambda>w. \<not> list_ex p w) ws" and "ws \<noteq> []" and "p c"
  shows "split_at p (join [c] ws) = ws"
proof -
  have word: "split_at p (w @ s) = (case split_at p s of [] \<Rightarrow> [w] | v # vs \<Rightarrow> (w @ v) # vs)"
    if "\<not> list_ex p w" for w s
  proof -
    have ne: "split_at p s \<noteq> []" by (cases s) (simp_all split: list.split)
    show ?thesis using that by (induction w) (use ne in \<open>auto split: list.splits\<close>)
  qed
  from assms show ?thesis
  proof (induction ws rule: induct_list012)
    case (2 s)
    then show ?case using word [of s "[]"] by simp
  next
    case (3 s t ts)
    then show ?case using word [of s "c # join [c] (t # ts)"] by simp
  qed simp
qed

lemma split_dotted: "split_at (\<lambda>c. c = CHR ''.'') (dotted a b c d) = [nat_str a, nat_str b, nat_str c, nat_str d]"
proof -
  have "\<not> list_ex (\<lambda>c. c = CHR ''.'') (nat_str n)" for n
    using nat_str_digits [of n] digit_not_dot by (auto simp: list_all_iff list_ex_iff)
  then show ?thesis unfolding dotted_def by (intro split_at_join) auto
qed

lemma ends_with_last: "ends_with s p \<Longrightarrow> p \<noteq> [] \<Longrightarrow> last s = last p"
  unfolding ends_with_def starts_with_def by (metis hd_rev hd_take length_greater_0_conv rev_is_Nil_conv)

lemma dotted_address:
  assumes "a < 256" "b < 256" "c < 256" "d < 256"
  shows "normalize_hostname (dotted a b c d) = dotted a b c d" and "is_ip (dotted a b c d) = 4"
    and "is_private_or_loopback_ipv4 (dotted a b c d) \<longleftrightarrow>
      a = 10 \<or> a = 127 \<or> a = 169 \<and> b = 254 \<or> a = 172 \<and> 16 \<le> b \<and> b \<le> 31 \<or> a = 192 \<and> b = 168"
    and "dotted a b c d \<noteq> ''localhost''" and "\<not> ends_with (dotted a b c d) ''.localhost''"
    and "dotted a b c d = ''0.0.0.0'' \<longleftrightarrow> a = 0 \<and> b = 0 \<and> c = 0 \<and> d = 0"
proof -
  let ?h = "dotted a b c d"
  have chars: "is_digit x \<or> x = CHR ''.''" if "x \<in> set ?h" for x
    using that nat_str_digits by (auto simp: dotted_def list_all_iff)
  have head: "?h \<noteq> []" "is_digit (hd ?h)" "is_digit (last ?h)"
    using nat_str_digits [of a] nat_str_digits [of d] by (auto simp: dotted_def list_all_iff)
  have dot: "lower_char (CHR ''.'') = CHR ''.''" by code_simp
  have low: "to_lower ?h = ?h"
    unfolding to_lower_def using chars digit_not_dot dot by (intro map_idI) metis
  have trim: "trim ?h = ?h"
    using head digit_not_dot by (intro trim_id) auto
  show "normalize_hostname ?h = ?h"
    using low trim head digit_not_dot by (auto simp: normalize_hostname_def Let_def starts_with_def neq_Nil_conv)
  show "is_ip ?h = 4"
    by (simp add: is_ip_def is_ipv4_def split_dotted octet_str assms)
  show "is_private_or_loopback_ipv4 ?h \<longleftrightarrow>
      a = 10 \<or> a = 127 \<or> a = 169 \<and> b = 254 \<or> a = 172 \<and> 16 \<le> b \<and> b \<le> 31 \<or> a = 192 \<and> b = 168"
    using assms parse_int10_int_str [of "int a"] parse_int10_int_str [of "int b"] parse_int10_int_str [of "int c"]
      parse_int10_int_str [of "int d"]
    by (simp add: is_private_or_loopback_ipv4_def split_dotted int_str_def)
  show "?h \<noteq> ''localhost''" using chars [of "CHR ''l''"] by (auto simp: is_digit_def Let_def)
  show "\<not> ends_with ?h ''.localhost''"
    using head ends_with_last [of ?h "''.localhost''"] by (auto simp: is_digit_def Let_def)
  show "?h = ''0.0.0.0'' \<longleftrightarrow> a = 0 \<and> b = 0 \<and> c = 0 \<and> d = 0"
  proof
    assume "?h = ''0.0.0.0''"
    then have "[nat_str a, nat_str b, nat_str c, nat_str d] = split_at (\<lambda>c. c = CHR ''.'') ''0.0.0.0''"
      by (simp add: split_dotted [symmetric])
    then have "nat_str n = ''0''" if "n \<in> {a, b, c, d}" for n using that by auto
    moreover have "n = 0" if "nat_str n = ''0''" for n
      using nat_str_digits [of n] that by (simp add: digits_value_def)
    ultimately show "a = 0 \<and> b = 0 \<and> c = 0 \<and> d = 0" by blast
  next
    have "dotted 0 0 0 0 = ''0.0.0.0''" by code_simp
    then show "a = 0 \<and> b = 0 \<and> c = 0 \<and> d = 0 \<Longrightarrow> ?h = ''0.0.0.0''" by simp
  qed
qed

lemma unat_word_of_nat_32: "m < 2 ^ 32 \<Longrightarrow> unat (word_of_nat m :: 32 word) = m"
  by (simp add: unsigned_of_nat take_bit_nat_eq_self)

lemma drop_bit_word_of_nat: "m < 2 ^ 32 \<Longrightarrow> unat (drop_bit n (word_of_nat m :: 32 word)) = m div 2 ^ n"
  using unat_word_of_nat_32 [of m] by (simp only: unat_drop_bit_eq) (simp only: drop_bit_eq_div)

lemma in_network_iff:
  assumes "a < 256" "b < 256" "c < 256" "d < 256" "p < 256" "q < 256"
  shows "in_network (ipv4_word a b c d) (ipv4_word p q 0 0, n) \<longleftrightarrow>
    (((a * 256 + b) * 256 + c) * 256 + d) div 2 ^ (32 - n) = ((p * 256 + q) * 256 * 256) div 2 ^ (32 - n)"
proof -
  have "((a * 256 + b) * 256 + c) * 256 + d < 2 ^ 32" "((p * 256 + q) * 256 + 0) * 256 + 0 < (2::nat) ^ 32"
    using assms by simp_all
  then show ?thesis
    unfolding in_network_def ipv4_word_def case_prod_conv word_unat_eq_iff by (simp only: drop_bit_word_of_nat add_0_right)
qed

lemma digit_eq:
  fixes x y :: nat
  assumes "y < n" "y' < n"
  shows "x * n + y = x' * n + y' \<longleftrightarrow> x = x' \<and> y = y'"
proof
  assume "x * n + y = x' * n + y'"
  then have "(x * n + y) div n = (x' * n + y') div n" "(x * n + y) mod n = (x' * n + y') mod n" by simp_all
  then show "x = x' \<and> y = y'" using assms by simp
qed simp

lemma prefixes:
  fixes a b c d :: nat
  assumes "b < 256" "c < 256" "d < 256"
  shows "(((a * 256 + b) * 256 + c) * 256 + d) div 65536 = a * 256 + b"
    and "(((a * 256 + b) * 256 + c) * 256 + d) div 1048576 = a * 16 + b div 16"
    and "(((a * 256 + b) * 256 + c) * 256 + d) div 16777216 = a"
proof -
  have byte: "(x * 256 + y) div 256 = x" if "y < 256" for x y :: nat using that by simp
  have "(((a * 256 + b) * 256 + c) * 256 + d) div 65536 = (((a * 256 + b) * 256 + c) * 256 + d) div 256 div 256"
    by (simp only: div_mult2_eq [symmetric]) simp
  also have "\<dots> = a * 256 + b" by (simp only: byte assms)
  finally show p16: "(((a * 256 + b) * 256 + c) * 256 + d) div 65536 = a * 256 + b" .
  have "(((a * 256 + b) * 256 + c) * 256 + d) div 65536 div 16 = a * 16 + b div 16" unfolding p16 by presburger
  then show "(((a * 256 + b) * 256 + c) * 256 + d) div 1048576 = a * 16 + b div 16" by (simp only: div_mult2_eq [symmetric]) simp
  have "(((a * 256 + b) * 256 + c) * 256 + d) div 65536 div 256 = a" unfolding p16 by (rule byte [OF assms(1)])
  then show "(((a * 256 + b) * 256 + c) * 256 + d) div 16777216 = a" by (simp only: div_mult2_eq [symmetric]) simp
qed

text \<open>The check of a host that is a dotted address, in terms of the networks.\<close>

lemma disallowed_dotted:
  assumes "a < 256" and "b < 256" and "c < 256" and "d < 256"
  shows "is_disallowed_hostname (dotted a b c d) \<longleftrightarrow>
    list_ex (in_network (ipv4_word a b c d)) private_networks \<or> ipv4_word a b c d = 0"
proof -
  note h = dotted_address [OF assms]
  have word: "((a * 256 + b) * 256 + c) * 256 + d < 2 ^ 32" using assms by simp
  obtain x where x: "x = ((a * 256 + b) * 256 + c) * 256 + d" by blast
  have net: "in_network (ipv4_word a b c d) (ipv4_word p q 0 0, n) \<longleftrightarrow>
      x div 2 ^ (32 - n) = ((p * 256 + q) * 256 * 256) div 2 ^ (32 - n)"
    if "p < 256" "q < 256" for p q n
    unfolding x using assms that by (intro in_network_iff)
  have div: "x div 65536 = a * 256 + b" "x div 1048576 = a * 16 + b div 16" "x div 16777216 = a"
    unfolding x by (rule prefixes [OF assms(2-4)])+
  have nets: "list_ex (in_network (ipv4_word a b c d)) private_networks \<longleftrightarrow>
      a = 10 \<or> a = 127 \<or> a * 256 + b = 169 * 256 + 254 \<or> a * 16 + b div 16 = 172 * 16 + 1 \<or> a * 256 + b = 192 * 256 + 168"
    unfolding private_networks_def list_ex_Cons_iff list_ex_Nil_iff by (simp add: net div)
  moreover have "a * 256 + b = 169 * 256 + 254 \<longleftrightarrow> a = 169 \<and> b = 254" "a * 256 + b = 192 * 256 + 168 \<longleftrightarrow> a = 192 \<and> b = 168"
    using assms(2) by (intro digit_eq; simp)+
  moreover have "a * 16 + b div 16 = 172 * 16 + 1 \<longleftrightarrow> a = 172 \<and> b div 16 = 1"
    using assms(2) by (intro digit_eq) auto
  moreover have "b div 16 = 1 \<longleftrightarrow> 16 \<le> b \<and> b \<le> 31" by presburger
  ultimately have nets: "list_ex (in_network (ipv4_word a b c d)) private_networks \<longleftrightarrow>
      a = 10 \<or> a = 127 \<or> a = 169 \<and> b = 254 \<or> a = 172 \<and> 16 \<le> b \<and> b \<le> 31 \<or> a = 192 \<and> b = 168"
    by blast
  have zero: "ipv4_word a b c d = 0 \<longleftrightarrow> a = 0 \<and> b = 0 \<and> c = 0 \<and> d = 0"
    unfolding ipv4_word_def word_unat_eq_iff unat_word_of_nat_32 [OF word] by simp
  show ?thesis
    unfolding nets zero is_disallowed_hostname_def using h by (auto simp: Let_def)
qed

text \<open>
  C17. An HTTP URL with a dotted IPv4 address as its host may be fetched exactly when the address, read as a
  32-bit number, lies in none of the networks 10/8, 127/8, 169.254/16, 172.16/12 and 192.168/16 and is not zero; and
  what may be fetched is exactly what has a canonical form. This is for \<open>allowPrivateHosts\<close> not set, the default.
\<close>

theorem private_networks_blocked:
  assumes "url_parse api v = Some u" and "protocol u \<in> {''http:'', ''https:''}" and "hostname u = dotted a b c d"
    and "a < 256" and "b < 256" and "c < 256" and "d < 256" and "v \<noteq> []" and "trim v = v"
  shows "(is_allowed_fetch_url api False v \<longleftrightarrow> canonicalize_http_url api False v \<noteq> None) \<and>
    (is_allowed_fetch_url api False v \<longleftrightarrow>
       \<not> list_ex (in_network (ipv4_word a b c d)) private_networks \<and> ipv4_word a b c d \<noteq> 0)"
proof -
  have blocked: "is_disallowed_hostname (hostname u) \<longleftrightarrow>
      list_ex (in_network (ipv4_word a b c d)) private_networks \<or> ipv4_word a b c d = 0"
    unfolding assms(3) by (rule disallowed_dotted [OF assms(4-7)])
  show ?thesis
    using assms(1,2,8,9) blocked by (auto simp: is_allowed_fetch_url_def canonicalize_http_url_def parse_http_url_def has_disallowed_host_def)
qed

definition metadata_url :: url where
  "metadata_url = \<lparr>protocol = ''http:'', credentials = [], hostname = ''169.254.169.254'', port = [], pathname = ''/latest'',
     query = None, fragment = None\<rparr>"

theorem private_networks_blocked_witness:
  "\<not> is_allowed_fetch_url (sample_api\<lparr>url_parse := (\<lambda>_. Some metadata_url)\<rparr>) False ''http://169.254.169.254/latest''"
proof -
  have host: "hostname metadata_url = dotted 169 254 169 254" by code_simp
  have v: "trim ''http://169.254.169.254/latest'' = ''http://169.254.169.254/latest''" by code_simp
  let ?api = "sample_api\<lparr>url_parse := (\<lambda>_. Some metadata_url)\<rparr>"
  have "protocol metadata_url = ''http:''" by (simp add: metadata_url_def)
  then have "is_allowed_fetch_url ?api False ''http://169.254.169.254/latest'' \<longleftrightarrow>
      \<not> list_ex (in_network (ipv4_word 169 254 169 254)) private_networks \<and> ipv4_word 169 254 169 254 \<noteq> 0"
    by (intro conjunct2 [OF private_networks_blocked [OF _ _ host]]) (simp_all add: v)
  moreover have "in_network (ipv4_word 169 254 169 254) (ipv4_word 169 254 0 0, 16)"
    using prefixes(1) [of 254 169 254 169] by (subst in_network_iff) simp_all
  ultimately show ?thesis by (simp add: private_networks_def)
qed

text \<open>
  Only one trailing slash is removed, so a canonical URL that is made canonical again may change: where the code
  canonicalises twice, it compares different texts.
\<close>

lemma normal_http_url_again:
  "pathname (normal_http_url (metadata_url\<lparr>pathname := ''/a//''\<rparr>)) = ''/a/''"
  "pathname (normal_http_url (normal_http_url (metadata_url\<lparr>pathname := ''/a//''\<rparr>))) = ''/a''"
  by code_simp+

end
