(* ===== verification/Handoff.thy ===== *)
theory Handoff
  imports UrlSafety JsDate
begin

section \<open>The briefing handoff (packages/pipeline/src/briefing-handoff.ts)\<close>

text \<open>
  What a brief may be written about is handed over as evidence: its URL is made canonical, its title and
  excerpt are cleaned of control characters and mark-up, instruction markers are removed in one pass, and
  suspicious texts are reported. A request is the list of topics with their evidence; its payload is what goes over the wire.

  The functions on host names and URLs are those of \<open>UrlSafety\<close>; the file has its own copy of them.
\<close>

subsection \<open>Limits and patterns\<close>

definition title_max_length :: nat where
  "title_max_length = 200"

definition brief_evidence_excerpt_max_length :: nat where
  "brief_evidence_excerpt_max_length = 2000"

definition target_total_evidence_excerpt_chars :: nat where
  "target_total_evidence_excerpt_chars = 10000"

definition min_evidence_excerpt_length :: nat where
  "min_evidence_excerpt_length = 160"

definition excerpt_control_char :: "char \<Rightarrow> bool" where
  "excerpt_control_char c \<longleftrightarrow> (let n = (of_char c :: nat) in n \<le> 8 \<or> n = 11 \<or> n = 12 \<or> 14 \<le> n \<and> n \<le> 31 \<or> n = 127)"

definition title_control_char :: "char \<Rightarrow> bool" where
  "title_control_char c \<longleftrightarrow> (let n = (of_char c :: nat) in n \<le> 31 \<or> n = 127)"

definition instruction_marker_re :: re where
  "instruction_marker_re =
     ci (alts [lit ''[inst]'', lit ''[/inst]'', lit ''[system]'', lit ''<<sys>>'', lit ''<</sys>>'', lit ''</sys>>''])"

text \<open>The text of a pattern is what is reported.\<close>

definition re_source :: "string list \<Rightarrow> string" where
  "re_source parts = join [CHR 0x5C] parts"

definition suspicious_content_patterns :: "(re \<times> string) list" where
  "suspicious_content_patterns =
     [(ci (cats [lit ''ignore'', ws_plus, opt (cats [lit ''all'', ws_plus]), alts [lit ''previous'', lit ''prior'', lit ''above''],
         ws_plus, lit ''instructions'']), re_source [''ignore'', ''s+(all'', ''s+)?(previous|prior|above)'', ''s+instructions'']),
      (ci (cats [lit ''you'', ws_plus, lit ''are'', ws_plus, opt (cats [lit ''now'', ws_plus]), lit ''a'', ws_plus,
         alts [lit ''different'', lit ''new'']]), re_source [''you'', ''s+are'', ''s+(now'', ''s+)?a'', ''s+(different|new)'']),
      (ci (lit ''[inst]''), re_source [[], ''[INST'', '']'']),
      (ci (lit ''<<sys>>''), ''<<SYS>>''),
      (ci (cats [lit ''system'', Star (Cls is_ws), lit '':'', Star (Cls is_ws), LineEnd]), re_source [''system'', ''s*:'', ''s*$''])]"

definition long_blank_re :: re where
  "long_blank_re = cats [Cls is_ws, Cls is_ws, Cls is_ws, Star (Cls is_ws)]"

subsection \<open>Texts\<close>

definition escape_char :: "char \<Rightarrow> string" where
  "escape_char c = (if c = CHR ''<'' then ''&lt;'' else if c = CHR ''>'' then ''&gt;'' else [c])"

text \<open>\<open>replace(/</g, ..).replace(/>/g, ..)\<close>: neither replacement contains the other character.\<close>

definition escape_markup :: "string \<Rightarrow> string" where
  "escape_markup s = concat (map escape_char s)"

definition remove_markers :: "string \<Rightarrow> string" where
  "remove_markers s = re_replace_g instruction_marker_re (\<lambda>_. []) s"

definition normalize_brief_evidence_title :: "string option \<Rightarrow> string option" where
  "normalize_brief_evidence_title v =
     (case normalize_optional_string v of
        None \<Rightarrow> None
      | Some trimmed \<Rightarrow>
          let sanitized = trim (remove_markers (escape_markup (take title_max_length
            (filter (\<lambda>c. \<not> title_control_char c) trimmed)))) in
          if length sanitized = 0 then Some ''[No title]'' else Some sanitized)"

definition normalize_brief_evidence_excerpt :: "string option \<Rightarrow> nat \<Rightarrow> string option" where
  "normalize_brief_evidence_excerpt v max_length =
     (case normalize_optional_string v of
        None \<Rightarrow> None
      | Some trimmed \<Rightarrow>
          let sanitized = trim (remove_markers (escape_markup (take max_length
            (re_replace_g long_blank_re (\<lambda>_. ''  '') (filter (\<lambda>c. \<not> excerpt_control_char c) trimmed))))) in
          if length sanitized = 0 then Some ''[Content removed]'' else Some sanitized)"

definition detect_suspicious_brief_evidence_pattern :: "string option \<Rightarrow> string option \<Rightarrow> string option" where
  "detect_suspicious_brief_evidence_pattern ttl excerpt =
     (let s = trim (join [CHR 0x0A] [default [] ttl, default [] excerpt]) in
      if length s = 0 then None
      else map_option snd (find (\<lambda>(r, _). re_test r s) suspicious_content_patterns))"

subsection \<open>Evidence\<close>

datatype date_input = DateObject "int option" | DateText string

datatype handoff_error = EvidenceError event_error | InvalidRequestedAt

definition parse_optional_date_value :: "'m parsers \<Rightarrow> date_input option \<Rightarrow> string \<Rightarrow> handoff_error + int option" where
  "parse_optional_date_value ps v fld =
     (case v of
        None \<Rightarrow> Inr None
      | Some (DateObject d) \<Rightarrow> Inr d
      | Some (DateText s) \<Rightarrow>
          if s = [] then Inr None
          else (case normalize_optional_string (Some s) of
              None \<Rightarrow> Inr None
            | Some trimmed \<Rightarrow> map_sum EvidenceError Some (parse_date ps trimmed fld)))"

definition canonicalize_brief_evidence_url :: "url_api \<Rightarrow> string \<Rightarrow> string option" where
  "canonicalize_brief_evidence_url api v =
     (case normalize_optional_string (Some v) of
        None \<Rightarrow> None
      | Some trimmed \<Rightarrow> (case parse_http_url api trimmed of
            None \<Rightarrow> None
          | Some u \<Rightarrow> if is_disallowed_hostname (hostname u) then None else Some (normalize_http_url u)))"

text \<open>The loop skips missing and empty values and values without a canonical form.\<close>

definition dedupe_canonical_brief_evidence_urls :: "url_api \<Rightarrow> string option list \<Rightarrow> string list" where
  "dedupe_canonical_brief_evidence_urls api vs =
     foldl (\<lambda>unique v.
       if \<not> truthy v then unique
       else (case canonicalize_brief_evidence_url api (the v) of
           None \<Rightarrow> unique
         | Some canonical \<Rightarrow> if canonical = [] then unique else set_add unique canonical)) [] vs"

record brief_evidence_record =
  be_event_id :: string
  be_source :: canonical
  be_url :: "string option"
  be_title :: "string option"
  be_published_at :: "int option"
  be_fetched_at :: "int option"
  be_text_excerpt :: "string option"
  be_suspicious_pattern :: "string option"

record brief_evidence_input =
  bi_event_id :: string
  bi_source :: source_value
  bi_url :: "string option"
  bi_title :: "string option"
  bi_published_at :: "date_input option"
  bi_fetched_at :: "date_input option"
  bi_text_excerpt :: "string option"
  bi_suspicious_pattern :: "string option"

definition build_brief_evidence_record ::
  "'m parsers \<Rightarrow> url_api \<Rightarrow> brief_evidence_input \<Rightarrow> nat option \<Rightarrow> handoff_error + brief_evidence_record" where
  "build_brief_evidence_record ps api inp excerpt_max_length =
     (let suspicious = (case bi_suspicious_pattern inp of
            Some p \<Rightarrow> Some p
          | None \<Rightarrow> detect_suspicious_brief_evidence_pattern (bi_title inp) (bi_text_excerpt inp)) in
      ebind (map_sum (\<lambda>e. EvidenceError (BadSource e)) id (parse_canonical_source (bi_source inp))) (\<lambda>src.
      ebind (parse_optional_date_value ps (bi_published_at inp) ''published_at'') (\<lambda>published.
      ebind (parse_optional_date_value ps (bi_fetched_at inp) ''fetched_at'') (\<lambda>fetched.
      Inr \<lparr>be_event_id = trim (bi_event_id inp), be_source = src,
        be_url = (if truthy (bi_url inp) then canonicalize_brief_evidence_url api (the (bi_url inp)) else None),
        be_title = normalize_brief_evidence_title (bi_title inp), be_published_at = published, be_fetched_at = fetched,
        be_text_excerpt = normalize_brief_evidence_excerpt (bi_text_excerpt inp)
          (default brief_evidence_excerpt_max_length excerpt_max_length),
        be_suspicious_pattern = suspicious\<rparr>))))"

record collected_content_input =
  cc_event_id :: string
  cc_source :: source_value
  cc_url :: "string option"
  cc_title :: "string option"
  cc_published_at :: "date_input option"
  cc_fetched_at :: "date_input option"
  cc_text :: "string option"

definition build_brief_evidence_record_from_collected_content ::
  "'m parsers \<Rightarrow> url_api \<Rightarrow> collected_content_input \<Rightarrow> nat option \<Rightarrow> handoff_error + brief_evidence_record" where
  "build_brief_evidence_record_from_collected_content ps api inp excerpt_max_length =
     build_brief_evidence_record ps api
       \<lparr>bi_event_id = cc_event_id inp, bi_source = cc_source inp, bi_url = cc_url inp, bi_title = cc_title inp,
        bi_published_at = cc_published_at inp, bi_fetched_at = cc_fetched_at inp, bi_text_excerpt = cc_text inp,
        bi_suspicious_pattern = None\<rparr> excerpt_max_length"

subsection \<open>Requests\<close>

text \<open>A window or a type that was read from a message may be an inherited member of the look-up table.\<close>

record summary_metric =
  mt_topic :: string
  mt_window :: "int looked_up"
  mt_score :: rat
  mt_volume :: rat
  mt_acceleration :: rat

record 'e summary_topic =
  st_topic :: string
  st_metrics :: "summary_metric list"
  st_evidence :: "'e list"

record summary_budget =
  sb_daily_budget_usd :: "rat option"
  sb_max_topics :: "int option"
  sb_max_evidence_per_topic :: "int option"
  sb_max_output_tokens :: "int option"

record summary_query =
  sq_lookback_days :: "int option"
  sq_topic_globs :: "string list option"
  sq_max_events_per_topic :: "int option"
  sq_evidence_strategy :: "string option"

record 'd summary_report =
  sp_timezone :: "string option"
  sp_start_at :: "'d option"
  sp_end_at :: "'d option"

record summary_request_input =
  sr_request_id :: string
  sr_requested_at :: date_input
  sr_type :: "string looked_up"
  sr_windows :: "int looked_up list"
  sr_topics :: "brief_evidence_input summary_topic list"
  sr_budget :: "summary_budget option"
  sr_query :: "summary_query option"
  sr_report :: "date_input summary_report option"

record evidence_payload =
  ep_event_id :: string
  ep_source :: canonical
  ep_url :: string
  ep_title :: string
  ep_published_at :: string
  ep_fetched_at :: string
  ep_text_excerpt :: string

record summary_request_payload =
  pl_request_id :: string
  pl_requested_at :: string
  pl_type :: "string looked_up"
  pl_windows :: "int looked_up list"
  pl_topics :: "evidence_payload summary_topic list"
  pl_budget :: "summary_budget option"
  pl_query :: "summary_query option"
  pl_report :: "string summary_report option"

record suspicious_notice =
  sn_topic :: string
  sn_event_id :: string
  sn_pattern :: string

definition count_evidence_items :: "brief_evidence_input summary_topic list \<Rightarrow> nat" where
  "count_evidence_items ts = foldl (\<lambda>n t. n + length (st_evidence t)) 0 ts"

definition resolve_brief_evidence_excerpt_max_length :: "brief_evidence_input summary_topic list \<Rightarrow> nat" where
  "resolve_brief_evidence_excerpt_max_length ts =
     (let evidence_count = count_evidence_items ts in
      if evidence_count = 0 then brief_evidence_excerpt_max_length
      else max min_evidence_excerpt_length
        (min brief_evidence_excerpt_max_length (target_total_evidence_excerpt_chars div evidence_count)))"

text \<open>The callback for suspicious evidence appends to the state.\<close>

type_synonym 'a heff = "(suspicious_notice list, handoff_error, 'a) eff"

definition map_evidence_to_payload ::
  "'m parsers \<Rightarrow> url_api \<Rightarrow> string \<Rightarrow> nat \<Rightarrow> brief_evidence_input \<Rightarrow> evidence_payload heff" where
  "map_evidence_to_payload ps api topic excerpt_max_length ev =
     eff_bind (eff_of (build_brief_evidence_record ps api ev (Some excerpt_max_length))) (\<lambda>r.
     let suspicious = (case be_suspicious_pattern r of
           Some p \<Rightarrow> Some p
         | None \<Rightarrow> detect_suspicious_brief_evidence_pattern (bi_title ev) (bi_text_excerpt ev)) in
     eff_bind (if truthy suspicious
         then eff_upd (\<lambda>ns. ns @ [\<lparr>sn_topic = topic, sn_event_id = be_event_id r, sn_pattern = the suspicious\<rparr>])
         else eff_ret ()) (\<lambda>_.
     eff_ret \<lparr>ep_event_id = be_event_id r, ep_source = be_source r, ep_url = default [] (be_url r),
       ep_title = default [] (be_title r), ep_published_at = (case be_published_at r of Some t \<Rightarrow> to_iso_string t | None \<Rightarrow> []),
       ep_fetched_at = (case be_fetched_at r of Some t \<Rightarrow> to_iso_string t | None \<Rightarrow> []),
       ep_text_excerpt = default [] (be_text_excerpt r)\<rparr>))"

definition optional_iso_string :: "'m parsers \<Rightarrow> date_input option \<Rightarrow> string \<Rightarrow> handoff_error + string option" where
  "optional_iso_string ps v fld = map_sum id (map_option to_iso_string) (parse_optional_date_value ps v fld)"

definition topic_payload ::
  "'m parsers \<Rightarrow> url_api \<Rightarrow> nat \<Rightarrow> brief_evidence_input summary_topic \<Rightarrow> evidence_payload summary_topic heff" where
  "topic_payload ps api excerpt_max_length t =
     eff_bind (eff_map (map_evidence_to_payload ps api (st_topic t) excerpt_max_length) (st_evidence t)) (\<lambda>evs.
     eff_ret \<lparr>st_topic = st_topic t, st_metrics = st_metrics t, st_evidence = evs\<rparr>)"

definition report_payload :: "'m parsers \<Rightarrow> date_input summary_report \<Rightarrow> string summary_report heff" where
  "report_payload ps r =
     eff_bind (eff_of (optional_iso_string ps (sp_start_at r) ''report.start_at'')) (\<lambda>start_at.
     eff_bind (eff_of (optional_iso_string ps (sp_end_at r) ''report.end_at'')) (\<lambda>end_at.
     eff_ret \<lparr>sp_timezone = sp_timezone r, sp_start_at = start_at, sp_end_at = end_at\<rparr>))"

definition build_summary_request_payload ::
  "'m parsers \<Rightarrow> url_api \<Rightarrow> summary_request_input \<Rightarrow> summary_request_payload heff" where
  "build_summary_request_payload ps api rq =
     (let excerpt_max_length = resolve_brief_evidence_excerpt_max_length (sr_topics rq) in
      eff_bind (eff_of (parse_optional_date_value ps (Some (sr_requested_at rq)) ''requested_at'')) (\<lambda>requested_at.
      eff_bind (eff_of (case requested_at of None \<Rightarrow> Inl InvalidRequestedAt | Some t \<Rightarrow> Inr t)) (\<lambda>t.
      eff_bind (eff_map (topic_payload ps api excerpt_max_length) (sr_topics rq)) (\<lambda>topics.
      eff_bind (case sr_report rq of None \<Rightarrow> eff_ret None | Some r \<Rightarrow> eff_bind (report_payload ps r) (\<lambda>p. eff_ret (Some p))) (\<lambda>report.
      eff_ret \<lparr>pl_request_id = sr_request_id rq, pl_requested_at = to_iso_string t, pl_type = sr_type rq,
        pl_windows = sr_windows rq, pl_topics = topics, pl_budget = sr_budget rq, pl_query = sr_query rq,
        pl_report = report\<rparr>)))))"

subsection \<open>Jobs\<close>

datatype job_type = DailyJob | ThresholdJob

definition job_type_name :: "job_type \<Rightarrow> string" where
  "job_type_name t = (case t of DailyJob \<Rightarrow> ''daily'' | ThresholdJob \<Rightarrow> ''threshold'')"

datatype llm_provider = InternalLlm | HttpLlm | CodexLlm

record briefing_job_input =
  ji_request :: summary_request_input
  ji_type :: job_type
  ji_llm_provider :: "llm_provider option"

record briefing_job_payload =
  jp_payload :: summary_request_payload
  jp_type :: job_type
  jp_llm_provider :: "llm_provider option"

text \<open>
  An empty text is dropped, and a report of which nothing is left; a topic is copied member by member.
\<close>

definition drop_empty :: "string option \<Rightarrow> string option" where
  "drop_empty v = (if truthy v then v else None)"

definition clone_summary_request_topics :: "evidence_payload summary_topic list \<Rightarrow> evidence_payload summary_topic list" where
  "clone_summary_request_topics ts = map (\<lambda>t.
     \<lparr>st_topic = st_topic t, st_metrics = map (\<lambda>m. \<lparr>mt_topic = mt_topic m, mt_window = mt_window m, mt_score = mt_score m,
        mt_volume = mt_volume m, mt_acceleration = mt_acceleration m\<rparr>) (st_metrics t),
      st_evidence = map (\<lambda>e. \<lparr>ep_event_id = ep_event_id e, ep_source = ep_source e, ep_url = ep_url e, ep_title = ep_title e,
        ep_published_at = ep_published_at e, ep_fetched_at = ep_fetched_at e, ep_text_excerpt = ep_text_excerpt e\<rparr>) (st_evidence t)\<rparr>) ts"

definition job_report :: "string summary_report option \<Rightarrow> string summary_report option" where
  "job_report report =
     (case report of
        None \<Rightarrow> None
      | Some r \<Rightarrow>
          let kept = \<lparr>sp_timezone = drop_empty (sp_timezone r), sp_start_at = drop_empty (sp_start_at r),
                sp_end_at = drop_empty (sp_end_at r)\<rparr> in
          if kept = \<lparr>sp_timezone = None, sp_start_at = None, sp_end_at = None\<rparr> then None else Some kept)"

definition create_briefing_job_payload ::
  "'m parsers \<Rightarrow> url_api \<Rightarrow> briefing_job_input \<Rightarrow> briefing_job_payload heff" where
  "create_briefing_job_payload ps api inp =
     eff_bind (build_summary_request_payload ps api ((ji_request inp)\<lparr>sr_type := Own (job_type_name (ji_type inp))\<rparr>)) (\<lambda>p.
     eff_ret \<lparr>jp_payload = p\<lparr>pl_topics := clone_summary_request_topics (pl_topics p), pl_report := job_report (pl_report p)\<rparr>,
       jp_type = ji_type inp, jp_llm_provider = ji_llm_provider inp\<rparr>)"

subsection \<open>Cleaned texts\<close>

lemma subseq_remove_markers: "subseq (remove_markers s) s"
  by (simp add: remove_markers_def re_replace_g_def subseq_replace_all [OF refl])

lemma set_subseq: "subseq xs ys \<Longrightarrow> set xs \<subseteq> set ys"
  by (auto elim: list_emb_set)

lemma set_trim: "set (trim s) \<subseteq> set s"
proof -
  have d: "set (dropWhile is_ws xs) \<subseteq> set xs" for xs by (auto dest: set_dropWhileD)
  have "set (trim s) = set (dropWhile is_ws (rev (dropWhile is_ws s)))"
    by (simp only: trim_def trim_end_def trim_start_def set_rev)
  also have "\<dots> \<subseteq> set (rev (dropWhile is_ws s))" by (rule d)
  also have "\<dots> \<subseteq> set s" using d [of s] by simp
  finally show ?thesis .
qed

text \<open>
  A text is clean when it has no mark-up and no control character, is trimmed, and is not empty. It may still hold
  instruction markers (\<open>markers_survive\<close>).
\<close>

definition clean_text :: "(char \<Rightarrow> bool) \<Rightarrow> string \<Rightarrow> bool" where
  "clean_text control s \<longleftrightarrow> s \<noteq> [] \<and> trim s = s \<and> CHR ''<'' \<notin> set s \<and> CHR ''>'' \<notin> set s \<and> \<not> list_ex control s"

lemma escape_markup_chars:
  "c \<in> set (escape_markup s) \<Longrightarrow> c \<noteq> CHR ''<'' \<and> c \<noteq> CHR ''>'' \<and> (c \<in> set s \<or> c \<in> set ''&lgt;'')"
  by (auto simp: escape_markup_def escape_char_def split: if_splits)

lemma length_escape_markup: "length (escape_markup s) \<le> 4 * length s"
  by (induction s) (auto simp: escape_markup_def escape_char_def)

lemma sanitized_clean:
  assumes "t = trim (remove_markers (escape_markup s))" and "t \<noteq> []"
    and "\<And>c. c \<in> set s \<Longrightarrow> \<not> control c" and "\<not> list_ex control ''&lgt;''"
  shows "clean_text control t" and "length t \<le> 4 * length s"
proof -
  have sub: "set t \<subseteq> set (escape_markup s)"
    using assms(1) set_trim [of "remove_markers (escape_markup s)"] set_subseq [OF subseq_remove_markers] by blast
  have "\<not> control c" "c \<noteq> CHR ''<''" "c \<noteq> CHR ''>''" if "c \<in> set t" for c
    using escape_markup_chars [of c s] sub that assms(3,4) by (auto simp: list_ex_iff)
  with assms(1,2) show "clean_text control t" by (auto simp: clean_text_def list_ex_iff)
  have "length t \<le> length (remove_markers (escape_markup s))" by (simp add: assms(1) length_trim)
  also have "\<dots> \<le> length (escape_markup s)" using subseq_remove_markers by (rule list_emb_length)
  finally show "length t \<le> 4 * length s" using length_escape_markup [of s] by simp
qed

lemma title_clean:
  assumes "normalize_brief_evidence_title v = Some t"
  shows "clean_text title_control_char t \<and> length t \<le> 800"
proof -
  have lit: "clean_text title_control_char ''[No title]''" by code_simp
  have esc: "\<not> list_ex title_control_char ''&lgt;''" by code_simp
  obtain s where s: "s = take title_max_length (filter (\<lambda>c. \<not> title_control_char c) (the (normalize_optional_string v)))" by blast
  have "\<not> title_control_char c" if "c \<in> set s" for c
    using that set_take_subset [of title_max_length] unfolding s by fastforce
  moreover have "length s \<le> 200" by (simp add: s title_max_length_def)
  moreover have "t = trim (remove_markers (escape_markup s)) \<and> t \<noteq> [] \<or> t = ''[No title]''"
    using assms unfolding s normalize_brief_evidence_title_def by (simp add: Let_def split: option.splits if_splits)
  ultimately show ?thesis
    using sanitized_clean [OF _ _ _ esc, of t s] lit by auto
qed

lemma excerpt_clean:
  assumes "normalize_brief_evidence_excerpt v n = Some t"
  shows "clean_text excerpt_control_char t \<and> length t \<le> max 17 (4 * n)"
proof -
  have lit: "clean_text excerpt_control_char ''[Content removed]''" by code_simp
  have esc: "\<not> list_ex excerpt_control_char ''&lgt;''" by code_simp
  obtain w where w: "w = filter (\<lambda>c. \<not> excerpt_control_char c) (the (normalize_optional_string v))" by blast
  obtain s where s: "s = take n (re_replace_g long_blank_re (\<lambda>_. ''  '') w)" by blast
  have "set (re_replace_g long_blank_re (\<lambda>_. ''  '') w) \<subseteq> set w \<union> {CHR '' ''}"
    unfolding re_replace_g_def by (rule set_replace_all) auto
  moreover have "\<not> excerpt_control_char (CHR '' '')" by code_simp
  ultimately have "\<not> excerpt_control_char c" if "c \<in> set s" for c
    using that set_take_subset [of n "re_replace_g long_blank_re (\<lambda>_. ''  '') w"] unfolding s w by auto
  moreover have "length s \<le> n" by (simp add: s)
  moreover have "t = trim (remove_markers (escape_markup s)) \<and> t \<noteq> [] \<or> t = ''[Content removed]''"
    using assms unfolding s w normalize_brief_evidence_excerpt_def by (simp add: Let_def split: option.splits if_splits)
  ultimately show ?thesis
    using sanitized_clean [OF _ _ _ esc, of t s] lit by auto
qed

subsection \<open>The length of excerpts\<close>

lemma count_evidence_items_sum: "count_evidence_items ts = sum_list (map (\<lambda>t. length (st_evidence t)) ts)"
proof -
  have "foldl (\<lambda>n t. n + length (st_evidence t)) k ts = k + sum_list (map (\<lambda>t. length (st_evidence t)) ts)" for k
    by (induction ts arbitrary: k) simp_all
  then show ?thesis by (simp add: count_evidence_items_def)
qed

text \<open>
  The length at which the excerpts of a request are cut is between 160 and 2000; up to 62 pieces of evidence share
  at most 10000 characters, more than 9938 of them unless each already has its 2000, and more than 62 get 160 each.
  The excerpts themselves may be shorter, and longer because mark-up is escaped after the cut.
\<close>

theorem excerpt_length_shares:
  "let n = count_evidence_items ts; l = resolve_brief_evidence_excerpt_max_length ts in
   160 \<le> l \<and> l \<le> 2000 \<and>
   (if n \<le> 62 then n * l \<le> 10000 \<and> (9938 < n * l \<or> l = 2000) else l = 160)"
proof -
  let ?n = "count_evidence_items ts"
  have div: "?n * (10000 div ?n) \<le> 10000" "10000 < ?n * (10000 div ?n) + ?n" if "0 < ?n"
    using that mult_div_mod_eq [of ?n 10000] mod_less_divisor [OF that, of 10000] by linarith+
  have big: "10000 div ?n < 160" if "62 < ?n" using that by (simp add: div_less_iff_less_mult)
  have small: "160 \<le> 10000 div ?n" if "0 < ?n" "?n \<le> 62" using that by (simp add: less_eq_div_iff_mult_less_eq)
  show ?thesis
  proof (cases "62 < ?n")
    case True
    with big show ?thesis
      by (simp add: resolve_brief_evidence_excerpt_max_length_def Let_def brief_evidence_excerpt_max_length_def
          min_evidence_excerpt_length_def target_total_evidence_excerpt_chars_def)
  next
    case False
    then show ?thesis using small div
      by (cases "2000 \<le> 10000 div ?n")
        (auto simp: resolve_brief_evidence_excerpt_max_length_def Let_def brief_evidence_excerpt_max_length_def
          min_evidence_excerpt_length_def target_total_evidence_excerpt_chars_def min_def max_def less_eq_div_iff_mult_less_eq)
  qed
qed

subsection \<open>Payloads\<close>

text \<open>
  What becomes of a text that is at most \<open>n\<close> characters long in the payload: nothing of a blank one, a clean and
  bounded text of any other, and the trimmed text itself if there is nothing in it to clean: no control character,
  no mark-up, no opening bracket and no three blanks in a row.
\<close>

fun long_blank :: "string \<Rightarrow> bool" where
  "long_blank (a # b # c # s) \<longleftrightarrow> is_ws a \<and> is_ws b \<and> is_ws c \<or> long_blank (b # c # s)"
| "long_blank _ \<longleftrightarrow> False"

definition plain_text :: "(char \<Rightarrow> bool) \<Rightarrow> string \<Rightarrow> bool" where
  "plain_text control s \<longleftrightarrow> list_all (\<lambda>c. \<not> control c \<and> c \<notin> set ''<>['') s \<and> \<not> long_blank s"

definition handed_text :: "(char \<Rightarrow> bool) \<Rightarrow> nat \<Rightarrow> string option \<Rightarrow> string \<Rightarrow> bool" where
  "handed_text control n v t \<longleftrightarrow>
     (let s = trim (default [] v) in
      if s = [] then t = []
      else clean_text control t \<and> length t \<le> 4 * n \<and> (plain_text control s \<and> length s \<le> n \<longrightarrow> t = s))"

text \<open>
  A host that is not private: neither \<open>localhost\<close> nor below it, and no dotted address in a private network
  (\<^const>\<open>private_networks\<close>). A URL is handed over in normal form if it can be parsed and its host is let through;
  IPv6 addresses are judged by the check of the code alone.
\<close>

definition public_host :: "string \<Rightarrow> bool" where
  "public_host h \<longleftrightarrow> normalize_hostname h \<noteq> ''localhost'' \<and> \<not> ends_with (normalize_hostname h) ''.localhost'' \<and>
     (\<forall>a b c d. a < 256 \<and> b < 256 \<and> c < 256 \<and> d < 256 \<and> h = dotted a b c d \<longrightarrow>
       \<not> list_ex (in_network (ipv4_word a b c d)) private_networks \<and> ipv4_word a b c d \<noteq> 0)"

definition handed_url :: "url_api \<Rightarrow> string option \<Rightarrow> string \<Rightarrow> bool" where
  "handed_url api v t \<longleftrightarrow>
     (let s = trim (default [] v) in
      if s = [] then t = []
      else (case parse_http_url api s of
          None \<Rightarrow> t = []
        | Some u \<Rightarrow> if is_disallowed_hostname (hostname u) then t = [] else t = normalize_http_url u \<and> public_host (hostname u)))"

definition iso_of :: "handoff_error + int option \<Rightarrow> string" where
  "iso_of d = (case d of Inr (Some t) \<Rightarrow> to_iso_string t | _ \<Rightarrow> [])"

text \<open>What a piece of evidence becomes.\<close>

definition evidence_handed :: "'m parsers \<Rightarrow> url_api \<Rightarrow> nat \<Rightarrow> brief_evidence_input \<Rightarrow> evidence_payload \<Rightarrow> bool" where
  "evidence_handed ps api l ev e \<longleftrightarrow>
     ep_event_id e = trim (bi_event_id ev) \<and> Inr (ep_source e) = parse_canonical_source (bi_source ev) \<and>
     handed_url api (bi_url ev) (ep_url e) \<and>
     handed_text title_control_char 200 (bi_title ev) (ep_title e) \<and>
     handed_text excerpt_control_char l (bi_text_excerpt ev) (ep_text_excerpt e) \<and>
     ep_published_at e = iso_of (parse_optional_date_value ps (bi_published_at ev) ''published_at'') \<and>
     ep_fetched_at e = iso_of (parse_optional_date_value ps (bi_fetched_at ev) ''fetched_at'')"

text \<open>When it is reported.\<close>

definition suspicion :: "brief_evidence_input \<Rightarrow> string option" where
  "suspicion ev = (case bi_suspicious_pattern ev of
       Some p \<Rightarrow> Some p | None \<Rightarrow> detect_suspicious_brief_evidence_pattern (bi_title ev) (bi_text_excerpt ev))"

definition notices :: "string \<Rightarrow> brief_evidence_input \<Rightarrow> suspicious_notice list" where
  "notices topic ev = (if truthy (suspicion ev)
     then [\<lparr>sn_topic = topic, sn_event_id = trim (bi_event_id ev), sn_pattern = the (suspicion ev)\<rparr>] else [])"

lemma build_record_safe:
  assumes "build_brief_evidence_record ps api ev (Some l) = Inr r" and "160 \<le> l"
  shows "trim (be_event_id r) = be_event_id r" and "be_event_id r = trim (bi_event_id ev)" and "be_suspicious_pattern r = suspicion ev"
    and "be_url r = Some v \<Longrightarrow> \<exists>w u. parse_http_url api w = Some u \<and> \<not> is_disallowed_hostname (hostname u) \<and> v = normalize_http_url u"
    and "be_title r = Some t \<Longrightarrow> clean_text title_control_char t \<and> length t \<le> 800"
    and "be_text_excerpt r = Some t \<Longrightarrow> clean_text excerpt_control_char t \<and> length t \<le> 4 * l"
proof -
  have r: "be_event_id r = trim (bi_event_id ev)" "be_suspicious_pattern r = suspicion ev"
    "be_url r = (if truthy (bi_url ev) then canonicalize_brief_evidence_url api (the (bi_url ev)) else None)"
    "be_title r = normalize_brief_evidence_title (bi_title ev)"
    "be_text_excerpt r = normalize_brief_evidence_excerpt (bi_text_excerpt ev) l"
    using assms(1) by (auto simp: build_brief_evidence_record_def suspicion_def Let_def default_def)
  show "trim (be_event_id r) = be_event_id r" "be_event_id r = trim (bi_event_id ev)" "be_suspicious_pattern r = suspicion ev"
    by (simp_all add: r)
  show "\<exists>w u. parse_http_url api w = Some u \<and> \<not> is_disallowed_hostname (hostname u) \<and> v = normalize_http_url u"
    if "be_url r = Some v"
    using that by (auto simp: r canonicalize_brief_evidence_url_def split: if_splits option.splits)
  show "clean_text title_control_char t \<and> length t \<le> 800" if "be_title r = Some t"
    using that title_clean by (simp add: r)
  show "clean_text excerpt_control_char t \<and> length t \<le> 4 * l" if "be_text_excerpt r = Some t"
    using that excerpt_clean [of "bi_text_excerpt ev" l t] assms(2) by (simp add: r)
qed

lemma lower_char_bracket: "lower_char c = CHR ''['' \<Longrightarrow> c = CHR ''[''" "lower_char c = CHR ''<'' \<Longrightarrow> c = CHR ''<''"
proof -
  have "lower_char c = c \<or> 96 < (of_char (lower_char c) :: nat)"
    by (auto simp: lower_char_def Let_def of_char_of)
  then show "lower_char c = CHR ''['' \<Longrightarrow> c = CHR ''[''" "lower_char c = CHR ''<'' \<Longrightarrow> c = CHR ''<''" by auto
qed

lemma no_marker: "CHR ''['' \<notin> set s \<Longrightarrow> CHR ''<'' \<notin> set s \<Longrightarrow> remove_markers s = s"
proof -
  have m: "\<exists>c t. snd p = c # t \<and> (c = CHR ''['' \<or> c = CHR ''<'')" if "matches instruction_marker_re p q" for p q
    using that unfolding instruction_marker_re_def
    by (auto simp: matches_alt_iff matches_cat_iff dest: lower_char_bracket)
  assume "CHR ''['' \<notin> set s" "CHR ''<'' \<notin> set s"
  with m have "\<not> re_test instruction_marker_re s" unfolding re_test_iff by fastforce
  then show ?thesis by (simp add: remove_markers_def re_replace_g_no_match)
qed

lemma long_blank_append: "long_blank v \<Longrightarrow> long_blank (u @ v)"
proof (induction u)
  case (Cons x u)
  then show ?case by (cases "u @ v" rule: long_blank.cases) auto
qed simp

lemma no_long_blank: "\<not> long_blank s \<Longrightarrow> \<not> re_test long_blank_re s"
proof
  assume "\<not> long_blank s" "re_test long_blank_re s"
  then obtain u v q b where s: "s = u @ v" "matches long_blank_re (b, v) q" unfolding re_test_iff by blast
  then have "long_blank v" by (auto simp: long_blank_re_def matches_cat_iff)
  with \<open>\<not> long_blank s\<close> s(1) long_blank_append show False by blast
qed

lemma plain_kept:
  assumes "plain_text control s" and "trim s = s"
  shows "filter (\<lambda>c. \<not> control c) s = s" and "re_replace_g long_blank_re f s = s" and "trim (remove_markers (escape_markup s)) = s"
proof -
  have chars: "\<not> control c" "c \<noteq> CHR ''<''" "c \<noteq> CHR ''>''" "c \<noteq> CHR ''[''" if "c \<in> set s" for c
    using assms(1) that by (auto simp: plain_text_def list_all_iff)
  then show "filter (\<lambda>c. \<not> control c) s = s" by simp
  show "re_replace_g long_blank_re f s = s"
    using assms(1) by (simp add: plain_text_def re_replace_g_no_match no_long_blank)
  have "escape_markup t = t" if "set t \<subseteq> set s" for t
    using that chars by (induction t) (auto simp: escape_markup_def escape_char_def)
  then have "escape_markup s = s" by blast
  moreover have "remove_markers s = s" using chars by (intro no_marker) blast+
  ultimately show "trim (remove_markers (escape_markup s)) = s" using assms(2) by simp
qed

lemma title_handed: "handed_text title_control_char 200 v (default [] (normalize_brief_evidence_title v))"
proof (cases "normalize_brief_evidence_title v")
  case None
  then have "trim (default [] v) = []"
    by (auto simp: normalize_brief_evidence_title_def normalize_optional_string_def default_def Let_def trim_Nil
        split: option.splits if_splits)
  with None show ?thesis by (simp add: handed_text_def default_def Let_def)
next
  case (Some t)
  then have s: "trim (default [] v) \<noteq> []" "normalize_optional_string v = Some (trim (default [] v))"
    by (auto simp: normalize_brief_evidence_title_def normalize_optional_string_def default_def Let_def split: option.splits if_splits)
  have "t = trim (default [] v)" if "plain_text title_control_char (trim (default [] v))" "length (trim (default [] v)) \<le> 200"
    using Some s that plain_kept [OF that(1) trim_trim]
    by (simp add: normalize_brief_evidence_title_def title_max_length_def Let_def)
  with Some s title_clean [OF Some] show ?thesis by (simp add: handed_text_def default_def Let_def)
qed

lemma excerpt_handed:
  assumes "160 \<le> l"
  shows "handed_text excerpt_control_char l v (default [] (normalize_brief_evidence_excerpt v l))"
proof (cases "normalize_brief_evidence_excerpt v l")
  case None
  then have "trim (default [] v) = []"
    by (auto simp: normalize_brief_evidence_excerpt_def normalize_optional_string_def default_def Let_def trim_Nil
        split: option.splits if_splits)
  with None show ?thesis by (simp add: handed_text_def default_def Let_def)
next
  case (Some t)
  then have s: "trim (default [] v) \<noteq> []" "normalize_optional_string v = Some (trim (default [] v))"
    by (auto simp: normalize_brief_evidence_excerpt_def normalize_optional_string_def default_def Let_def split: option.splits if_splits)
  have "t = trim (default [] v)" if "plain_text excerpt_control_char (trim (default [] v))" "length (trim (default [] v)) \<le> l"
    using Some s that plain_kept [OF that(1) trim_trim]
    by (simp add: normalize_brief_evidence_excerpt_def Let_def)
  with Some s excerpt_clean [OF Some] assms show ?thesis by (simp add: handed_text_def default_def Let_def)
qed

lemma allowed_public: "\<not> is_disallowed_hostname h \<Longrightarrow> public_host h"
proof -
  assume a: "\<not> is_disallowed_hostname h"
  then have "normalize_hostname h \<noteq> ''localhost'' \<and> \<not> ends_with (normalize_hostname h) ''.localhost''"
    by (auto simp: is_disallowed_hostname_def Let_def split: if_splits)
  with a disallowed_dotted show ?thesis unfolding public_host_def by blast
qed

lemma url_handed:
  "handed_url api v (default [] (if truthy v then canonicalize_brief_evidence_url api (the v) else None))"
  by (auto simp: handed_url_def canonicalize_brief_evidence_url_def normalize_optional_string_def truthy_def default_def Let_def
      allowed_public trim_Nil split: option.splits)

lemma map_evidence_handed:
  assumes "map_evidence_to_payload ps api topic l ev s = (Inr e, s')" and "160 \<le> l"
  shows "evidence_handed ps api l ev e \<and> s' = s @ notices topic ev"
proof -
  obtain r where r: "build_brief_evidence_record ps api ev (Some l) = Inr r"
    using assms(1) by (auto simp: map_evidence_to_payload_def eff_bind_Inr_iff eff_of_def)
  have sus: "(case be_suspicious_pattern r of
         Some p \<Rightarrow> Some p
       | None \<Rightarrow> detect_suspicious_brief_evidence_pattern (bi_title ev) (bi_text_excerpt ev)) = suspicion ev"
    using build_record_safe(3) [OF r assms(2)] by (auto simp: suspicion_def split: option.splits)
  have ms: "Inr y = map_sum f id x \<longleftrightarrow> x = Inr y" "map_sum f id x = Inr y \<longleftrightarrow> x = Inr y"
    for f :: "source_error \<Rightarrow> handoff_error" and x and y :: canonical
    by (cases x; auto)+
  from r have parts: "be_event_id r = trim (bi_event_id ev)" "Inr (be_source r) = parse_canonical_source (bi_source ev)"
    "be_url r = (if truthy (bi_url ev) then canonicalize_brief_evidence_url api (the (bi_url ev)) else None)"
    "be_title r = normalize_brief_evidence_title (bi_title ev)"
    "be_text_excerpt r = normalize_brief_evidence_excerpt (bi_text_excerpt ev) l"
    "Inr (be_published_at r) = parse_optional_date_value ps (bi_published_at ev) ''published_at''"
    "Inr (be_fetched_at r) = parse_optional_date_value ps (bi_fetched_at ev) ''fetched_at''"
    by (auto simp: build_brief_evidence_record_def Let_def default_def ms)
  have e: "e = \<lparr>ep_event_id = be_event_id r, ep_source = be_source r, ep_url = default [] (be_url r),
       ep_title = default [] (be_title r), ep_published_at = (case be_published_at r of Some t \<Rightarrow> to_iso_string t | None \<Rightarrow> []),
       ep_fetched_at = (case be_fetched_at r of Some t \<Rightarrow> to_iso_string t | None \<Rightarrow> []),
       ep_text_excerpt = default [] (be_text_excerpt r)\<rparr>" and s': "s' = s @ notices topic ev"
    using assms(1) r sus parts(1)
    by (auto simp: map_evidence_to_payload_def eff_bind_Inr_iff eff_of_def eff_ret_def eff_upd_def Let_def notices_def split: if_splits)
  have iso: "iso_of (Inr d) = (case d of Some t \<Rightarrow> to_iso_string t | None \<Rightarrow> [])" for d by (simp add: iso_of_def split: option.split)
  show ?thesis unfolding evidence_handed_def e
    by (simp add: parts(1,2) parts(3-5) parts(6,7) [symmetric] iso s' title_handed excerpt_handed [OF assms(2)]
        url_handed [of api "bi_url ev", simplified])
qed

lemma resolve_at_least_160: "160 \<le> resolve_brief_evidence_excerpt_max_length ts"
  by (simp add: resolve_brief_evidence_excerpt_max_length_def Let_def brief_evidence_excerpt_max_length_def
      min_evidence_excerpt_length_def)

definition topic_handed ::
  "'m parsers \<Rightarrow> url_api \<Rightarrow> nat \<Rightarrow> brief_evidence_input summary_topic \<Rightarrow> evidence_payload summary_topic \<Rightarrow> bool" where
  "topic_handed ps api l t p \<longleftrightarrow> st_topic p = st_topic t \<and> st_metrics p = st_metrics t \<and>
     list_all2 (evidence_handed ps api l) (st_evidence t) (st_evidence p)"

lemma topic_payload_handed:
  assumes "topic_payload ps api l t s = (Inr p, s')" and "160 \<le> l"
  shows "topic_handed ps api l t p \<and> s' = s @ concat (map (notices (st_topic t)) (st_evidence t))"
proof -
  obtain evs where evs: "eff_map (map_evidence_to_payload ps api (st_topic t) l) (st_evidence t) s = (Inr evs, s')"
    and p: "st_topic p = st_topic t" "st_metrics p = st_metrics t" "st_evidence p = evs"
    using assms(1) by (auto simp: topic_payload_def eff_bind_Inr_iff eff_ret_def)
  have "list_all2 (evidence_handed ps api l) (st_evidence t) evs \<and> s' = s @ concat (map (notices (st_topic t)) (st_evidence t))"
    by (intro eff_map_Inr [OF _ evs]) (rule map_evidence_handed [OF _ assms(2)])
  then show ?thesis by (simp add: p topic_handed_def)
qed

text \<open>
  C15. A payload that is handed over has the topics of the request in order, with their metrics and all their
  evidence, piece by piece: the trimmed id, the canonical source and the two times; the normal form of the URL when
  it can be parsed and the check lets its host through, which is then not in a private network, and no URL otherwise;
  a clean title and excerpt of bounded length for each that is not blank, unchanged where there is nothing to clean
  or cut. Exactly the suspicious pieces of evidence have been reported, in order. Instruction markers may survive
  (\<open>markers_survive\<close>).
\<close>

theorem payload_is_safe:
  assumes "build_summary_request_payload ps api rq ns = (Inr p, ns')"
  shows "list_all2 (topic_handed ps api (resolve_brief_evidence_excerpt_max_length (sr_topics rq))) (sr_topics rq) (pl_topics p) \<and>
    pl_request_id p = sr_request_id rq \<and> pl_type p = sr_type rq \<and> pl_windows p = sr_windows rq \<and>
    pl_budget p = sr_budget rq \<and> pl_query p = sr_query rq \<and>
    ns' = ns @ concat (map (\<lambda>t. concat (map (notices (st_topic t)) (st_evidence t))) (sr_topics rq))"
proof -
  let ?l = "resolve_brief_evidence_excerpt_max_length (sr_topics rq)"
  have topics: "eff_map (topic_payload ps api ?l) (sr_topics rq) ns = (Inr (pl_topics p), ns')"
    and copied: "pl_request_id p = sr_request_id rq \<and> pl_type p = sr_type rq \<and> pl_windows p = sr_windows rq \<and>
      pl_budget p = sr_budget rq \<and> pl_query p = sr_query rq"
    using assms by (auto simp: build_summary_request_payload_def eff_bind_Inr_iff eff_of_def eff_ret_def Let_def report_payload_def
        split: option.splits)
  have "list_all2 (topic_handed ps api ?l) (sr_topics rq) (pl_topics p) \<and>
      ns' = ns @ concat (map (\<lambda>t. concat (map (notices (st_topic t)) (st_evidence t))) (sr_topics rq))"
    by (intro eff_map_Inr [OF _ topics] topic_payload_handed) (auto simp: resolve_at_least_160)
  with copied show ?thesis by blast
qed

subsection \<open>When a payload is refused\<close>

definition date_ok :: "'m parsers \<Rightarrow> date_input option \<Rightarrow> bool" where
  "date_ok ps v \<longleftrightarrow> (case v of Some (DateText s) \<Rightarrow> trim s = [] \<or> date_value ps (trim s) \<noteq> None | _ \<Rightarrow> True)"

definition evidence_input_ok :: "'m parsers \<Rightarrow> brief_evidence_input \<Rightarrow> bool" where
  "evidence_input_ok ps ev \<longleftrightarrow> \<not> isl (parse_canonical_source (bi_source ev)) \<and> date_ok ps (bi_published_at ev) \<and>
     date_ok ps (bi_fetched_at ev)"

definition requested_at_ok :: "'m parsers \<Rightarrow> date_input \<Rightarrow> bool" where
  "requested_at_ok ps v \<longleftrightarrow> (case v of DateObject d \<Rightarrow> d \<noteq> None | DateText s \<Rightarrow> trim s \<noteq> [] \<and> date_value ps (trim s) \<noteq> None)"

lemma date_ok_iff: "\<not> isl (parse_optional_date_value ps v fld) \<longleftrightarrow> date_ok ps v"
  by (auto simp: parse_optional_date_value_def date_ok_def normalize_optional_string_def parse_date_def Let_def
      split: option.splits date_input.splits)

lemma requested_at_ok_iff:
  "(\<exists>t. parse_optional_date_value ps (Some v) fld = Inr (Some t)) \<longleftrightarrow> requested_at_ok ps v"
  by (auto simp: parse_optional_date_value_def requested_at_ok_def normalize_optional_string_def parse_date_def Let_def
      split: option.splits date_input.splits)

lemma build_refused_iff:
  "isl (fst (build_summary_request_payload ps api rq ns)) \<longleftrightarrow>
   \<not> (requested_at_ok ps (sr_requested_at rq) \<and> list_all (\<lambda>t. list_all (evidence_input_ok ps) (st_evidence t)) (sr_topics rq) \<and>
     date_ok ps (Option.bind (sr_report rq) sp_start_at) \<and> date_ok ps (Option.bind (sr_report rq) sp_end_at))"
proof -
  have built: "isl (build_brief_evidence_record ps api ev l) \<longleftrightarrow> \<not> evidence_input_ok ps ev" for ev l
    by (simp add: build_brief_evidence_record_def Let_def isl_ebind evidence_input_ok_def isl_map_sum
        date_ok_iff [of ps "bi_published_at ev" "''published_at''", symmetric] date_ok_iff [of ps "bi_fetched_at ev" "''fetched_at''", symmetric])
  have ev: "isl (fst (map_evidence_to_payload ps api tp l ev s)) \<longleftrightarrow> \<not> evidence_input_ok ps ev" for tp l ev s
    by (simp add: map_evidence_to_payload_def isl_eff_bind eff_of_def built Let_def eff_ret_def eff_upd_def)
  have topic: "isl (fst (topic_payload ps api l t s)) \<longleftrightarrow> \<not> list_all (evidence_input_ok ps) (st_evidence t)" for l t s
    by (simp add: topic_payload_def isl_eff_bind eff_ret_def isl_eff_map [OF ev])
  have report: "isl (fst (report_payload ps r s)) \<longleftrightarrow> \<not> (date_ok ps (sp_start_at r) \<and> date_ok ps (sp_end_at r))" for r s
    by (auto simp: report_payload_def isl_eff_bind eff_ret_def eff_of_def optional_iso_string_def isl_map_sum
        date_ok_iff [of ps "sp_start_at r" "''report.start_at''", symmetric] date_ok_iff [of ps "sp_end_at r" "''report.end_at''", symmetric])
  have none: "date_ok ps None" by (simp add: date_ok_def)
  show ?thesis
    by (cases "parse_optional_date_value ps (Some (sr_requested_at rq)) ''requested_at''"; cases "sr_report rq")
      (auto simp: build_summary_request_payload_def isl_eff_bind eff_of_def Let_def isl_eff_map [OF topic] report none
        requested_at_ok_iff [of ps "sr_requested_at rq" "''requested_at''", symmetric] eff_ret_def split: option.splits)
qed

text \<open>
  C16. A payload is refused exactly when the time of the request is missing or unreadable, a piece of evidence has
  an unknown source or an unreadable date, or a bound of the report is unreadable.
\<close>

theorem payload_refused_iff:
  "isl (fst (build_summary_request_payload ps api rq ns)) \<longleftrightarrow>
   \<not> (requested_at_ok ps (sr_requested_at rq) \<and> list_all (\<lambda>t. list_all (evidence_input_ok ps) (st_evidence t)) (sr_topics rq) \<and>
     date_ok ps (Option.bind (sr_report rq) sp_start_at) \<and> date_ok ps (Option.bind (sr_report rq) sp_end_at))"
  by (rule build_refused_iff)

subsection \<open>Examples\<close>

definition demo_parsers :: "json_object parsers" where
  "demo_parsers = \<lparr>date_value = (\<lambda>s. if s = ''2024-06-01T00:00:00.000Z'' then Some 1717200000000 else None), json_meta = (\<lambda>_. None)\<rparr>"

definition demo_request :: summary_request_input where
  "demo_request = \<lparr>sr_request_id = ''r1'', sr_requested_at = DateText ''2024-06-01T00:00:00.000Z'', sr_type = Own ''daily'', sr_windows = [Own 1],
     sr_topics = [\<lparr>st_topic = ''ai'', st_metrics = [],
       st_evidence = [\<lparr>bi_event_id = ''e1'', bi_source = SourceString ''rss'', bi_url = None,
         bi_title = Some ''<b>'', bi_published_at = None, bi_fetched_at = None,
         bi_text_excerpt = None, bi_suspicious_pattern = Some ''flagged''\<rparr>]\<rparr>],
     sr_budget = None, sr_query = None, sr_report = None\<rparr>"

theorem payload_is_safe_witness:
  "\<exists>p. build_summary_request_payload demo_parsers sample_api demo_request [] =
       (Inr p, [\<lparr>sn_topic = ''ai'', sn_event_id = ''e1'', sn_pattern = ''flagged''\<rparr>]) \<and>
     list_all2 (topic_handed demo_parsers sample_api 2000) (sr_topics demo_request) (pl_topics p)"
proof -
  have reported: "concat (map (\<lambda>t. concat (map (notices (st_topic t)) (st_evidence t))) (sr_topics demo_request)) =
      [\<lparr>sn_topic = ''ai'', sn_event_id = ''e1'', sn_pattern = ''flagged''\<rparr>]"
    by code_simp
  have len: "resolve_brief_evidence_excerpt_max_length (sr_topics demo_request) = 2000"
    by (simp add: demo_request_def resolve_brief_evidence_excerpt_max_length_def count_evidence_items_def Let_def
        brief_evidence_excerpt_max_length_def min_evidence_excerpt_length_def target_total_evidence_excerpt_chars_def)
  have "requested_at_ok demo_parsers (sr_requested_at demo_request)" "date_ok demo_parsers None"
      "list_all (\<lambda>t. list_all (evidence_input_ok demo_parsers) (st_evidence t)) (sr_topics demo_request)" by code_simp+
  then have "\<not> isl (fst (build_summary_request_payload demo_parsers sample_api demo_request []))"
    by (simp add: build_refused_iff demo_request_def)
  then obtain p ns' where p: "build_summary_request_payload demo_parsers sample_api demo_request [] = (Inr p, ns')"
    by (metis prod.collapse sum.collapse(2))
  from payload_is_safe [OF p] p show ?thesis by (simp add: reported len)
qed

text \<open>
  A marker inside a marker survives the single pass that removes them, and the markers with angle brackets are never
  found, because the brackets are escaped before.
\<close>

lemma markers_survive:
  "remove_markers ''[IN[INST]ST]'' = ''[INST]''"
  by code_simp

end
