(* ===== verification/BriefRequest.thy ===== *)
theory BriefRequest
  imports Handoff TopicGlob
begin

section \<open>Requests for a brief (apps/brief/src/deserialize.ts, types.ts)\<close>

text \<open>
  The parser of a request message. Parameters: \<open>JSON.parse\<close> with the schema, whose result is the record
  \<open>summary_request_wire\<close>; \<open>new Date(text)\<close> (in \<open>parsers\<close>); the URL parser; and whether the runtime knows a time
  zone. A look-up in an object literal also finds what the literal inherits, so a window, a type, a strategy or
  a provider may be the name of a member of \<open>Object.prototype\<close>.
\<close>

subsection \<open>The message\<close>

datatype number_or_string = Number int | Text string

record wire_metric =
  wm_topic :: "string option"
  wm_window :: "number_or_string option"
  wm_score :: "rat option"
  wm_volume :: "rat option"
  wm_acceleration :: "rat option"

record wire_evidence =
  wv_event_id :: "string option"
  wv_source :: "number_or_string option"
  wv_url :: "string option"
  wv_title :: "string option"
  wv_published_at :: "string option"
  wv_fetched_at :: "string option"
  wv_text_excerpt :: "string option"

record wire_topic =
  wt_topic :: string
  wt_metrics :: "wire_metric list option"
  wt_evidence :: "wire_evidence list option"

record wire_query =
  wq_lookback_days :: "number_or_string option"
  wq_topic_globs :: "string list option"
  wq_max_events_per_topic :: "number_or_string option"
  wq_evidence_strategy :: "string option"

record summary_request_wire =
  wr_request_id :: string
  wr_requested_at :: string
  wr_type :: number_or_string
  wr_windows :: "number_or_string list option"
  wr_topics :: "wire_topic list option"
  wr_budget :: "summary_budget option"
  wr_query :: "wire_query option"
  wr_report :: "string summary_report option"
  wr_llm_provider :: "string option"

record trend_snapshot_wire =
  wn_generated_at :: string
  wn_window :: number_or_string

text \<open>The schema also asks that texts are not empty, a budget not negative and limits positive.\<close>

fun number_or_text :: "number_or_string \<Rightarrow> bool" where
  "number_or_text (Number n) = True"
| "number_or_text (Text s) \<longleftrightarrow> s \<noteq> []"

definition given :: "('a \<Rightarrow> bool) \<Rightarrow> 'a option \<Rightarrow> bool" where
  "given P v \<longleftrightarrow> (case v of None \<Rightarrow> True | Some x \<Rightarrow> P x)"

definition wire_topic_ok :: "wire_topic \<Rightarrow> bool" where
  "wire_topic_ok t \<longleftrightarrow> wt_topic t \<noteq> [] \<and>
     given (list_all (\<lambda>m. given (\<lambda>s. s \<noteq> []) (wm_topic m))) (wt_metrics t) \<and>
     given (list_all (\<lambda>e. given (\<lambda>s. s \<noteq> []) (wv_event_id e) \<and> given number_or_text (wv_source e))) (wt_evidence t)"

definition summary_request_wire_ok :: "summary_request_wire \<Rightarrow> bool" where
  "summary_request_wire_ok w \<longleftrightarrow>
     wr_request_id w \<noteq> [] \<and> wr_requested_at w \<noteq> [] \<and> number_or_text (wr_type w) \<and> given (list_all wire_topic_ok) (wr_topics w) \<and>
     given (\<lambda>b. given (\<lambda>x. 0 \<le> x) (sb_daily_budget_usd b) \<and> given (\<lambda>n. 0 < n) (sb_max_topics b) \<and>
       given (\<lambda>n. 0 < n) (sb_max_evidence_per_topic b) \<and> given (\<lambda>n. 0 < n) (sb_max_output_tokens b)) (wr_budget w) \<and>
     given (\<lambda>q. given number_or_text (wq_lookback_days q) \<and> given (list_all (\<lambda>g. g \<noteq> [])) (wq_topic_globs q) \<and>
       given number_or_text (wq_max_events_per_topic q)) (wr_query w) \<and>
     given (\<lambda>r. given (\<lambda>s. s \<noteq> []) (sp_timezone r)) (wr_report w)"

subsection \<open>The parsed request\<close>

record parsed_query =
  pq_lookback_days :: "int option"
  pq_topic_globs :: "string list option"
  pq_max_events_per_topic :: "int option"
  pq_evidence_strategy :: "string option"

record parsed_summary_request =
  rq_request_id :: string
  rq_requested_at :: int
  rq_type :: "string looked_up"
  rq_windows :: "int looked_up list"
  rq_budget :: "summary_budget option"
  rq_query :: "parsed_query option"
  rq_report :: "int summary_report option"
  rq_topics :: "brief_evidence_record summary_topic list"
  rq_llm_provider :: "string option"
  rq_coverage_warnings :: "string list option"

record 'snapshot parsed_trend_snapshot =
  ts_generated_at :: int
  ts_window :: "int looked_up"
  ts_snapshot :: 'snapshot

datatype request_error =
    InvalidJson
  | SchemaError
  | InvalidDateField string string
  | UnsupportedWindow number_or_string
  | MissingEvidenceSource
  | EvidenceSourceError source_error
  | EvidenceRecordError handoff_error
  | InvalidPositiveInteger string number_or_string
  | GlobError glob_error
  | UnsupportedStrategy string
  | UnsupportedProvider string
  | InvalidTimezone string
  | UnsupportedType number_or_string
  | InvalidReportBounds

subsection \<open>Parsers of the parts\<close>

definition supported_trend_windows :: "int set" where
  "supported_trend_windows = {1, 2, 3}"

definition trend_window_aliases :: "(string \<times> int) list" where
  "trend_window_aliases = [(''trend_window_15m'', 1), (''trend_window_60m'', 2), (''trend_window_24h'', 3)]"

definition summary_request_type_enums :: "(int \<times> string) list" where
  "summary_request_type_enums = [(1, ''daily''), (2, ''threshold'')]"

definition summary_request_type_aliases :: "(string \<times> string) list" where
  "summary_request_type_aliases =
     [(''summary_request_type_daily'', ''daily''), (''daily'', ''daily''),
      (''summary_request_type_threshold'', ''threshold''), (''threshold'', ''threshold'')]"

definition supported_evidence_strategies :: "(string \<times> unit) list" where
  "supported_evidence_strategies = [(''diversity'', ()), (''recency'', ()), (''engagement'', ())]"

definition supported_llm_providers :: "(string \<times> unit) list" where
  "supported_llm_providers = [(''internal'', ()), (''http'', ()), (''codex-cli'', ())]"

definition parse_requested_at :: "'m parsers \<Rightarrow> string \<Rightarrow> request_error + int" where
  "parse_requested_at ps value =
     (case date_value ps value of None \<Rightarrow> Inl (InvalidDateField ''requested_at'' value) | Some t \<Rightarrow> Inr t)"

definition parse_trend_window :: "number_or_string \<Rightarrow> request_error + int looked_up" where
  "parse_trend_window value =
     (case value of
        Number n \<Rightarrow> if n \<in> supported_trend_windows then Inr (Own n) else Inl (UnsupportedWindow value)
      | Text s \<Rightarrow>
          (let normalized = to_lower (trim s) in
           case obj_get trend_window_aliases normalized of
             Some w \<Rightarrow> Inr w
           | None \<Rightarrow> (case parse_int10 normalized of
                 Some n \<Rightarrow> if int_str n = normalized \<and> n \<in> supported_trend_windows then Inr (Own n)
                   else Inl (UnsupportedWindow value)
               | None \<Rightarrow> Inl (UnsupportedWindow value))))"

definition parse_optional_date :: "'m parsers \<Rightarrow> string option \<Rightarrow> string \<Rightarrow> request_error + int option" where
  "parse_optional_date ps value fld =
     (case value of
        None \<Rightarrow> Inr None
      | Some v \<Rightarrow>
          if length (trim v) = 0 then Inr None
          else (case date_value ps v of None \<Rightarrow> Inl (InvalidDateField fld v) | Some t \<Rightarrow> Inr (Some t)))"

definition parse_evidence_source :: "number_or_string option \<Rightarrow> request_error + canonical" where
  "parse_evidence_source value =
     (case value of
        None \<Rightarrow> Inl MissingEvidenceSource
      | Some (Number n) \<Rightarrow> map_sum EvidenceSourceError id (parse_canonical_source (SourceNumber n))
      | Some (Text s) \<Rightarrow> map_sum EvidenceSourceError id (parse_canonical_source (SourceString s)))"

text \<open>From this value on, \<open>parseInt\<close> answers \<open>Infinity\<close>, which is no integer.\<close>

definition infinite_from :: int where
  "infinite_from = 2 ^ 1024 - 2 ^ 970"

definition parse_optional_positive_integer ::
  "number_or_string option \<Rightarrow> string \<Rightarrow> request_error + int option" where
  "parse_optional_positive_integer value field_name =
     (case value of
        None \<Rightarrow> Inr None
      | Some v \<Rightarrow>
          let parsed = (case v of
              Number n \<Rightarrow> Some n
            | Text s \<Rightarrow> (let normalized = trim s in
                if normalized \<noteq> [] \<and> list_all is_digit normalized \<and> digits_value normalized < infinite_from
                then Some (digits_value normalized) else None)) in
          (case parsed of
             Some n \<Rightarrow> if n \<le> 0 then Inl (InvalidPositiveInteger field_name v) else Inr (Some n)
           | None \<Rightarrow> Inl (InvalidPositiveInteger field_name v)))"

definition parse_evidence_strategy :: "string option \<Rightarrow> request_error + string" where
  "parse_evidence_strategy value =
     (if \<not> truthy value then Inr ''diversity''
      else let normalized = to_lower (trim (the value)) in
        if obj_get supported_evidence_strategies normalized \<noteq> None then Inr normalized
        else Inl (UnsupportedStrategy (the value)))"

definition parse_llm_provider :: "string option \<Rightarrow> request_error + string option" where
  "parse_llm_provider value =
     (if \<not> truthy value then Inr None
      else let normalized = to_lower (trim (the value)) in
        if length normalized = 0 then Inr None
        else if obj_get supported_llm_providers normalized \<noteq> None then Inr (Some normalized)
        else Inl (UnsupportedProvider (the value)))"

definition parse_optional_timezone :: "(string \<Rightarrow> bool) \<Rightarrow> string option \<Rightarrow> request_error + string option" where
  "parse_optional_timezone tz_known value =
     (case value of
        None \<Rightarrow> Inr None
      | Some v \<Rightarrow>
          if length (trim v) = 0 then Inr None
          else if tz_known (trim v) then Inr (Some (trim v))
          else Inl (InvalidTimezone v))"

definition parse_summary_request_type :: "number_or_string \<Rightarrow> request_error + string looked_up" where
  "parse_summary_request_type value =
     (case value of
        Number n \<Rightarrow> (case map_of summary_request_type_enums n of
            Some t \<Rightarrow> Inr (Own t) | None \<Rightarrow> Inl (UnsupportedType value))
      | Text s \<Rightarrow> (case obj_get summary_request_type_aliases (to_lower (trim s)) of
            Some t \<Rightarrow> Inr t | None \<Rightarrow> Inl (UnsupportedType value)))"

subsection \<open>The request\<close>

definition source_value_of :: "canonical \<Rightarrow> source_value" where
  "source_value_of c = (case c of Canonical s \<Rightarrow> SourceString (source_key s) | Inherited k \<Rightarrow> SourceMember k)"

definition parse_wire_evidence :: "'m parsers \<Rightarrow> url_api \<Rightarrow> wire_evidence \<Rightarrow> request_error + brief_evidence_record" where
  "parse_wire_evidence ps api ev =
     ebind (parse_evidence_source (wv_source ev)) (\<lambda>src.
     ebind (parse_optional_date ps (wv_published_at ev) ''published_at'') (\<lambda>published.
     ebind (parse_optional_date ps (wv_fetched_at ev) ''fetched_at'') (\<lambda>fetched.
     map_sum EvidenceRecordError id (build_brief_evidence_record ps api
       \<lparr>bi_event_id = (case wv_event_id ev of Some i \<Rightarrow> trim i | None \<Rightarrow> []), bi_source = source_value_of src,
        bi_url = wv_url ev, bi_title = wv_title ev,
        bi_published_at = map_option (\<lambda>t. DateObject (Some t)) published,
        bi_fetched_at = map_option (\<lambda>t. DateObject (Some t)) fetched,
        bi_text_excerpt = wv_text_excerpt ev, bi_suspicious_pattern = None\<rparr> None))))"

definition parse_wire_metric :: "string \<Rightarrow> wire_metric \<Rightarrow> request_error + summary_metric" where
  "parse_wire_metric parsed_topic m =
     ebind (case wm_window m of Some w \<Rightarrow> parse_trend_window w | None \<Rightarrow> Inr (Own 0)) (\<lambda>w.
     Inr \<lparr>mt_topic = (case wm_topic m of Some t \<Rightarrow> if trim t \<noteq> [] then trim t else parsed_topic | None \<Rightarrow> parsed_topic),
       mt_window = w, mt_score = default 0 (wm_score m), mt_volume = default 0 (wm_volume m),
       mt_acceleration = default 0 (wm_acceleration m)\<rparr>)"

definition parse_wire_topic ::
  "'m parsers \<Rightarrow> url_api \<Rightarrow> wire_topic \<Rightarrow> request_error + brief_evidence_record summary_topic" where
  "parse_wire_topic ps api t =
     (let parsed_topic = trim (wt_topic t) in
      ebind (map_error (parse_wire_metric parsed_topic) (default [] (wt_metrics t))) (\<lambda>ms.
      ebind (map_error (parse_wire_evidence ps api) (default [] (wt_evidence t))) (\<lambda>evs.
      Inr \<lparr>st_topic = parsed_topic, st_metrics = ms, st_evidence = evs\<rparr>)))"

definition parse_wire_query :: "wire_query \<Rightarrow> request_error + parsed_query" where
  "parse_wire_query q =
     ebind (parse_optional_positive_integer (wq_lookback_days q) ''query.lookback_days'') (\<lambda>days.
     ebind (map_sum GlobError id (normalize_topic_globs (wq_topic_globs q))) (\<lambda>gs.
     ebind (parse_optional_positive_integer (wq_max_events_per_topic q) ''query.max_events_per_topic'') (\<lambda>max_events.
     ebind (parse_evidence_strategy (wq_evidence_strategy q)) (\<lambda>strategy.
     Inr \<lparr>pq_lookback_days = days, pq_topic_globs = gs, pq_max_events_per_topic = max_events,
       pq_evidence_strategy = Some strategy\<rparr>))))"

text \<open>The hints of the report, which are read before the rest of the request.\<close>

definition parse_report_hints ::
  "(string \<Rightarrow> bool) \<Rightarrow> 'm parsers \<Rightarrow> string summary_report option \<Rightarrow> request_error + int summary_report option" where
  "parse_report_hints tz_known ps report =
     ebind (parse_optional_timezone tz_known (Option.bind report sp_timezone)) (\<lambda>tz.
     ebind (parse_optional_date ps (Option.bind report sp_start_at) ''report.start_at'') (\<lambda>start_at.
     ebind (parse_optional_date ps (Option.bind report sp_end_at) ''report.end_at'') (\<lambda>end_at.
     if start_at \<noteq> None \<and> end_at \<noteq> None \<and> the start_at > the end_at then Inl InvalidReportBounds
     else Inr (if report \<noteq> None \<and> (tz \<noteq> None \<or> start_at \<noteq> None \<or> end_at \<noteq> None)
       then Some \<lparr>sp_timezone = tz, sp_start_at = start_at, sp_end_at = end_at\<rparr> else None))))"

definition request_of_wire ::
  "(string \<Rightarrow> bool) \<Rightarrow> 'm parsers \<Rightarrow> url_api \<Rightarrow> summary_request_wire \<Rightarrow> request_error + parsed_summary_request" where
  "request_of_wire tz_known ps api w =
     ebind (parse_report_hints tz_known ps (wr_report w)) (\<lambda>report.
     ebind (parse_requested_at ps (wr_requested_at w)) (\<lambda>requested_at.
     ebind (parse_summary_request_type (wr_type w)) (\<lambda>type.
     ebind (map_error parse_trend_window (default [] (wr_windows w))) (\<lambda>windows.
     ebind (case wr_query w of None \<Rightarrow> Inr None | Some q \<Rightarrow> map_sum id Some (parse_wire_query q)) (\<lambda>qry.
     ebind (parse_llm_provider (wr_llm_provider w)) (\<lambda>provider.
     ebind (map_error (parse_wire_topic ps api) (default [] (wr_topics w))) (\<lambda>topics.
     Inr \<lparr>rq_request_id = wr_request_id w, rq_requested_at = requested_at, rq_type = type, rq_windows = windows,
       rq_budget = wr_budget w, rq_query = qry, rq_report = report, rq_topics = topics, rq_llm_provider = provider,
       rq_coverage_warnings = None\<rparr>)))))))"

text \<open>The decoder answers \<open>None\<close> for no JSON, and nothing of the value when the schema rejects it.\<close>

definition deserialize_summary_request ::
  "('b \<Rightarrow> summary_request_wire option option) \<Rightarrow> (string \<Rightarrow> bool) \<Rightarrow> 'm parsers \<Rightarrow> url_api \<Rightarrow> 'b \<Rightarrow>
   request_error + parsed_summary_request" where
  "deserialize_summary_request decode tz_known ps api message =
     (case decode message of
        None \<Rightarrow> Inl InvalidJson
      | Some None \<Rightarrow> Inl SchemaError
      | Some (Some w) \<Rightarrow> request_of_wire tz_known ps api w)"

definition deserialize_trend_snapshot ::
  "('b \<Rightarrow> ('snapshot \<times> trend_snapshot_wire option) option) \<Rightarrow> 'm parsers \<Rightarrow> 'b \<Rightarrow>
   request_error + 'snapshot parsed_trend_snapshot" where
  "deserialize_trend_snapshot decode ps message =
     (case decode message of
        None \<Rightarrow> Inl InvalidJson
      | Some (_, None) \<Rightarrow> Inl SchemaError
      | Some (decoded, Some w) \<Rightarrow>
          ebind (parse_requested_at ps (wn_generated_at w)) (\<lambda>t.
          ebind (parse_trend_window (wn_window w)) (\<lambda>win.
          Inr \<lparr>ts_generated_at = t, ts_window = win, ts_snapshot = decoded\<rparr>)))"

subsection \<open>The copy that is executed\<close>

text \<open>A date that is missing stays missing; the copy of a date is the date.\<close>

definition clone_date :: "int option \<Rightarrow> int option" where
  "clone_date value = (case value of None \<Rightarrow> None | Some t \<Rightarrow> Some t)"

definition clone_summary_evidence :: "brief_evidence_record \<Rightarrow> brief_evidence_record" where
  "clone_summary_evidence ev = ev\<lparr>be_published_at := clone_date (be_published_at ev), be_fetched_at := clone_date (be_fetched_at ev)\<rparr>"

definition clone_summary_topic :: "brief_evidence_record summary_topic \<Rightarrow> brief_evidence_record summary_topic" where
  "clone_summary_topic t =
     \<lparr>st_topic = st_topic t, st_metrics = map id (st_metrics t), st_evidence = map clone_summary_evidence (st_evidence t)\<rparr>"

definition create_brief_orchestration_request :: "parsed_summary_request \<Rightarrow> parsed_summary_request" where
  "create_brief_orchestration_request r =
     \<lparr>rq_request_id = rq_request_id r, rq_requested_at = rq_requested_at r, rq_type = rq_type r, rq_windows = rq_windows r,
      rq_budget = rq_budget r, rq_query = rq_query r,
      rq_report = (case rq_report r of None \<Rightarrow> None
        | Some p \<Rightarrow> Some \<lparr>sp_timezone = sp_timezone p, sp_start_at = clone_date (sp_start_at p), sp_end_at = clone_date (sp_end_at p)\<rparr>),
      rq_topics = map clone_summary_topic (rq_topics r), rq_llm_provider = rq_llm_provider r,
      rq_coverage_warnings = rq_coverage_warnings r\<rparr>"

subsection \<open>What a parsed request satisfies\<close>

text \<open>A looked-up value is one of the table or one of the two inherited members whose names are in lower case.\<close>

definition table_value :: "'a set \<Rightarrow> 'a looked_up \<Rightarrow> bool" where
  "table_value values v \<longleftrightarrow> (case v of Own w \<Rightarrow> w \<in> values | InheritedMember k \<Rightarrow> k \<in> {''constructor'', ''__proto__''})"

definition record_safe :: "url_api \<Rightarrow> brief_evidence_record \<Rightarrow> bool" where
  "record_safe api r \<longleftrightarrow>
     trim (be_event_id r) = be_event_id r \<and> be_source r \<in> range Canonical \<and>
     (case be_url r of None \<Rightarrow> True
      | Some v \<Rightarrow> \<exists>w u. parse_http_url api w = Some u \<and> \<not> is_disallowed_hostname (hostname u) \<and> v = normalize_http_url u) \<and>
     (case be_title r of None \<Rightarrow> True | Some t \<Rightarrow> clean_text title_control_char t \<and> length t \<le> 800) \<and>
     (case be_text_excerpt r of None \<Rightarrow> True | Some t \<Rightarrow> clean_text excerpt_control_char t \<and> length t \<le> 8000)"

definition query_ok :: "parsed_query \<Rightarrow> bool" where
  "query_ok q \<longleftrightarrow>
     (case pq_lookback_days q of None \<Rightarrow> True | Some n \<Rightarrow> 0 < n) \<and>
     (case pq_max_events_per_topic q of None \<Rightarrow> True | Some n \<Rightarrow> 0 < n) \<and>
     (case pq_topic_globs q of None \<Rightarrow> True | Some gs \<Rightarrow> gs \<noteq> [] \<and> distinct gs \<and> list_all (\<lambda>g. validate_topic_glob g = Inr g) gs) \<and>
     pq_evidence_strategy q \<in> Some ` {''diversity'', ''recency'', ''engagement'', ''constructor'', ''__proto__''}"

definition report_ok :: "int summary_report \<Rightarrow> bool" where
  "report_ok p \<longleftrightarrow> p \<noteq> \<lparr>sp_timezone = None, sp_start_at = None, sp_end_at = None\<rparr> \<and>
     (case (sp_start_at p, sp_end_at p) of (Some a, Some b) \<Rightarrow> a \<le> b | _ \<Rightarrow> True)"

definition request_ok :: "url_api \<Rightarrow> parsed_summary_request \<Rightarrow> bool" where
  "request_ok api r \<longleftrightarrow>
     list_all (table_value {1, 2, 3}) (rq_windows r) \<and>
     table_value {''daily'', ''threshold''} (rq_type r) \<and>
     rq_llm_provider r \<in> {None} \<union> Some ` {''internal'', ''http'', ''codex-cli'', ''constructor'', ''__proto__''} \<and>
     (case rq_query r of None \<Rightarrow> True | Some q \<Rightarrow> query_ok q) \<and>
     (case rq_report r of None \<Rightarrow> True | Some p \<Rightarrow> report_ok p) \<and>
     list_all (\<lambda>t. trim (st_topic t) = st_topic t \<and>
       list_all (\<lambda>m. table_value {0, 1, 2, 3} (mt_window m)) (st_metrics t) \<and> list_all (record_safe api) (st_evidence t)) (rq_topics r)"

lemma map_sum_Inr: "map_sum f g x = Inr y \<longleftrightarrow> (\<exists>z. x = Inr z \<and> y = g z)"
  by (cases x) auto

lemma lower_prototype_key: "to_lower s \<in> set object_prototype_keys \<Longrightarrow> to_lower s \<in> {''constructor'', ''__proto__''}"
proof -
  assume a: "to_lower s \<in> set object_prototype_keys"
  have "filter (\<lambda>k. to_lower k = k) object_prototype_keys = [''constructor'', ''__proto__'']" by code_simp
  moreover have "to_lower s \<in> set (filter (\<lambda>k. to_lower k = k) object_prototype_keys)" using a by simp
  ultimately show ?thesis by simp
qed

lemma obj_get_lower:
  assumes "obj_get m (to_lower s) = Some v"
  shows "table_value (snd ` set m) v"
proof -
  have "x \<in> snd ` set m" if "map_of m (to_lower s) = Some x" for x using map_of_SomeD [OF that] by (metis image_eqI snd_conv)
  then show ?thesis
    using assms lower_prototype_key [of s]
    by (cases "map_of m (to_lower s)"; cases v) (simp_all add: obj_get_def table_value_def split: if_splits)
qed

lemma obj_has_lower:
  assumes "obj_get m (to_lower s) \<noteq> None"
  shows "to_lower s \<in> fst ` set m \<union> {''constructor'', ''__proto__''}"
proof -
  have "to_lower s \<in> fst ` set m" if "map_of m (to_lower s) = Some x" for x using map_of_SomeD [OF that] by (metis image_eqI fst_conv)
  with assms lower_prototype_key [of s] show ?thesis by (auto simp: obj_get_def split: option.splits if_splits)
qed

lemma parse_trend_window_ok:
  assumes "parse_trend_window v = Inr w"
  shows "table_value {1, 2, 3} w"
proof -
  have "snd ` set trend_window_aliases = {1, 2, 3}" by (auto simp: trend_window_aliases_def)
  then have "table_value {1, 2, 3} w'" if "obj_get trend_window_aliases (to_lower s) = Some w'" for s w'
    using obj_get_lower [OF that] by simp
  moreover have "table_value {1, 2, 3} (Own n)" if "n \<in> supported_trend_windows" for n
    using that by (simp add: table_value_def supported_trend_windows_def)
  ultimately show ?thesis
    using assms by (auto simp: parse_trend_window_def Let_def split: number_or_string.splits if_splits option.splits)
qed

lemma parse_summary_request_type_ok:
  assumes "parse_summary_request_type v = Inr t"
  shows "table_value {''daily'', ''threshold''} t"
proof -
  have "snd ` set summary_request_type_aliases = {''daily'', ''threshold''}" by (auto simp: summary_request_type_aliases_def)
  then have "table_value {''daily'', ''threshold''} t'" if "obj_get summary_request_type_aliases (to_lower s) = Some t'" for s t'
    using obj_get_lower [OF that] by simp
  with assms show ?thesis
    by (auto simp: parse_summary_request_type_def summary_request_type_enums_def table_value_def
        split: number_or_string.splits if_splits option.splits)
qed

lemma parse_llm_provider_ok:
  assumes "parse_llm_provider v = Inr p"
  shows "p \<in> {None} \<union> Some ` {''internal'', ''http'', ''codex-cli'', ''constructor'', ''__proto__''}"
proof -
  have "fst ` set supported_llm_providers = {''internal'', ''http'', ''codex-cli''}" by (auto simp: supported_llm_providers_def)
  with assms obj_has_lower [of supported_llm_providers "trim (the v)"] show ?thesis
    by (auto simp: parse_llm_provider_def Let_def split: if_splits)
qed

lemma parse_evidence_strategy_ok:
  assumes "parse_evidence_strategy v = Inr p"
  shows "p \<in> {''diversity'', ''recency'', ''engagement'', ''constructor'', ''__proto__''}"
proof -
  have "fst ` set supported_evidence_strategies = {''diversity'', ''recency'', ''engagement''}"
    by (auto simp: supported_evidence_strategies_def)
  with assms obj_has_lower [of supported_evidence_strategies "trim (the v)"] show ?thesis
    by (auto simp: parse_evidence_strategy_def Let_def split: if_splits)
qed

lemma parse_optional_positive_integer_ok:
  "parse_optional_positive_integer v f = Inr r \<Longrightarrow> case r of None \<Rightarrow> True | Some n \<Rightarrow> 0 < n"
  by (auto simp: parse_optional_positive_integer_def Let_def split: option.splits if_splits)

lemma validate_topic_glob_again: "validate_topic_glob g = Inr n \<Longrightarrow> validate_topic_glob n = Inr n"
  by (auto simp: validate_topic_glob_def Let_def split: if_splits)

lemma validate_all_ok:
  "validate_all seen gs = Inr ns \<Longrightarrow> distinct ns \<and> set ns \<inter> seen = {} \<and> list_all (\<lambda>g. validate_topic_glob g = Inr g) ns \<and>
     (gs \<noteq> [] \<longrightarrow> ns \<noteq> [] \<or> seen \<noteq> {})"
proof (induction seen gs arbitrary: ns rule: validate_all.induct)
  case (2 seen g gs)
  obtain n where n: "validate_topic_glob g = Inr n" using 2(3) by (auto split: sum.splits)
  show ?case
  proof (cases "n \<in> seen")
    case True
    with 2 n show ?thesis by auto
  next
    case False
    with 2(3) n obtain ms where "validate_all (insert n seen) gs = Inr ms" "ns = n # ms" by (cases "validate_all (insert n seen) gs") auto
    with 2(2) [OF n False] validate_topic_glob_again [OF n] False show ?thesis by auto
  qed
qed simp

lemma normalize_topic_globs_ok:
  assumes "normalize_topic_globs gs = Inr r"
  shows "case r of None \<Rightarrow> True | Some gs \<Rightarrow> gs \<noteq> [] \<and> distinct gs \<and> list_all (\<lambda>g. validate_topic_glob g = Inr g) gs"
  using assms by (auto simp: normalize_topic_globs_def map_sum_Inr split: option.splits if_splits dest!: validate_all_ok)

lemma parse_wire_query_ok: "parse_wire_query q = Inr p \<Longrightarrow> query_ok p"
  by (auto simp: parse_wire_query_def query_ok_def map_sum_Inr dest: parse_evidence_strategy_ok
      dest!: parse_optional_positive_integer_ok normalize_topic_globs_ok)

lemma parse_report_hints_ok: "parse_report_hints tz ps r = Inr (Some p) \<Longrightarrow> report_ok p"
  by (auto simp: parse_report_hints_def report_ok_def split: if_splits option.splits)

lemma parse_source_key: "parse_canonical_source (SourceString (source_key s)) = Inr (Canonical s)"
proof -
  have "list_all (\<lambda>s. parse_canonical_source (SourceString (source_key s)) = Inr (Canonical s)) all_sources" by code_simp
  then show ?thesis by (simp add: list_all_iff)
qed

lemma parse_source_again:
  "parse_canonical_source (source_value_of c) = Inr d \<longleftrightarrow> d = c \<and> c \<in> range Canonical"
  by (cases c) (auto simp: source_value_of_def parse_source_key, simp_all add: parse_canonical_source_def)

lemma map_error_all: "map_error f xs = Inr ys \<Longrightarrow> (\<And>x y. f x = Inr y \<Longrightarrow> P y) \<Longrightarrow> list_all P ys"
  by (auto simp: map_error_Inr list_all2_conv_all_nth list_all_length)

lemma build_record_ok:
  assumes "build_brief_evidence_record ps api ev None = Inr r" and "bi_source ev = source_value_of c"
  shows "record_safe api r"
proof -
  have built: "build_brief_evidence_record ps api ev (Some 2000) = Inr r"
    using assms(1) by (simp add: build_brief_evidence_record_def default_def brief_evidence_excerpt_max_length_def)
  have "be_source r \<in> range Canonical"
    using assms by (auto simp: build_brief_evidence_record_def map_sum_Inr parse_source_again Let_def)
  with build_record_safe [OF built] show ?thesis
    unfolding record_safe_def by (auto split: option.splits)
qed

lemma parse_wire_topic_ok:
  assumes "parse_wire_topic ps api w = Inr t"
  shows "trim (st_topic t) = st_topic t \<and>
    list_all (\<lambda>m. table_value {0, 1, 2, 3} (mt_window m)) (st_metrics t) \<and> list_all (record_safe api) (st_evidence t)"
proof -
  have metric: "table_value {0, 1, 2, 3} (mt_window m)" if "parse_wire_metric tp wm = Inr m" for tp wm m
    using that parse_trend_window_ok
    by (fastforce simp: parse_wire_metric_def table_value_def split: option.splits looked_up.splits)
  have ev: "record_safe api r" if "parse_wire_evidence ps api e = Inr r" for e r
    using that by (auto simp: parse_wire_evidence_def map_sum_Inr intro: build_record_ok)
  show ?thesis
    using assms by (auto simp: parse_wire_topic_def Let_def dest: map_error_all [OF _ metric] map_error_all [OF _ ev])
qed

text \<open>
  C21. A request that is accepted has only supported windows, a supported type, provider and strategy, positive
  numbers, valid and distinct globs, a report with a hint and in order, trimmed topics and, for evidence, records with
  a canonical source and clean texts and URLs that pass the host check; the exceptions are the two inherited members.
\<close>

theorem accepted_request_ok:
  assumes "deserialize_summary_request decode tz_known ps api message = Inr r"
  shows "request_ok api r"
proof -
  obtain w where w: "request_of_wire tz_known ps api w = Inr r"
    using assms by (auto simp: deserialize_summary_request_def split: option.splits)
  from w have "list_all (table_value {1, 2, 3}) (rq_windows r)" "table_value {''daily'', ''threshold''} (rq_type r)"
    by (auto simp: request_of_wire_def intro: map_error_all parse_trend_window_ok parse_summary_request_type_ok)
  moreover from w have "rq_llm_provider r \<in> {None} \<union> Some ` {''internal'', ''http'', ''codex-cli'', ''constructor'', ''__proto__''}"
    by (simp only: request_of_wire_def ebind_Inr) (elim exE conjE, drule parse_llm_provider_ok, auto)
  moreover from w have "case rq_query r of None \<Rightarrow> True | Some q \<Rightarrow> query_ok q"
    by (auto simp: request_of_wire_def map_sum_Inr dest: parse_wire_query_ok split: option.splits)
  moreover from w have "case rq_report r of None \<Rightarrow> True | Some p \<Rightarrow> report_ok p"
    by (auto simp: request_of_wire_def dest: parse_report_hints_ok split: option.splits)
  moreover from w have "list_all (\<lambda>t. trim (st_topic t) = st_topic t \<and>
       list_all (\<lambda>m. table_value {0, 1, 2, 3} (mt_window m)) (st_metrics t) \<and> list_all (record_safe api) (st_evidence t)) (rq_topics r)"
    by (simp only: request_of_wire_def ebind_Inr) (elim exE conjE, drule map_error_all [OF _ parse_wire_topic_ok], assumption, auto)
  ultimately show ?thesis unfolding request_ok_def by blast
qed

definition demo_wire :: summary_request_wire where
  "demo_wire = \<lparr>wr_request_id = ''r1'', wr_requested_at = ''2024-06-01T00:00:00.000Z'', wr_type = Text '' Daily'',
     wr_windows = Some [Number 3, Text ''trend_window_15m'', Text ''2''],
     wr_topics = Some [\<lparr>wt_topic = '' ai '', wt_metrics = None,
       wt_evidence = Some [\<lparr>wv_event_id = Some ''e1'', wv_source = Some (Text ''RSS''), wv_url = None, wv_title = None,
         wv_published_at = None, wv_fetched_at = Some ''  '', wv_text_excerpt = None\<rparr>]\<rparr>],
     wr_budget = None,
     wr_query = Some \<lparr>wq_lookback_days = Some (Text '' 14 ''), wq_topic_globs = Some [''ai*'', '' ai*''],
       wq_max_events_per_topic = None, wq_evidence_strategy = None\<rparr>,
     wr_report = Some \<lparr>sp_timezone = Some [], sp_start_at = None, sp_end_at = None\<rparr>, wr_llm_provider = Some ''HTTP''\<rparr>"

definition demo_parsed :: parsed_summary_request where
  "demo_parsed = \<lparr>rq_request_id = ''r1'', rq_requested_at = 1717200000000, rq_type = Own ''daily'',
     rq_windows = [Own 3, Own 1, Own 2], rq_budget = None,
     rq_query = Some \<lparr>pq_lookback_days = Some 14, pq_topic_globs = Some [''ai*''], pq_max_events_per_topic = None,
       pq_evidence_strategy = Some ''diversity''\<rparr>,
     rq_report = None,
     rq_topics = [\<lparr>st_topic = ''ai'', st_metrics = [],
       st_evidence = [\<lparr>be_event_id = ''e1'', be_source = Canonical Rss, be_url = None, be_title = None,
         be_published_at = None, be_fetched_at = None, be_text_excerpt = None, be_suspicious_pattern = None\<rparr>]\<rparr>],
     rq_llm_provider = Some ''http'', rq_coverage_warnings = None\<rparr>"

lemma demo_wire_parsed: "request_of_wire (\<lambda>_. True) demo_parsers sample_api demo_wire = Inr demo_parsed"
proof -
  have days: "parse_optional_positive_integer (Some (Text '' 14 '')) f = Inr (Some 14)" for f
    by (simp add: parse_optional_positive_integer_def trim_def trim_start_def trim_end_def is_ws_def is_digit_def
        digits_value_def infinite_from_def Let_def)
  have absent: "parse_optional_positive_integer None f = Inr None" for f by (simp add: parse_optional_positive_integer_def)
  have strategy: "parse_evidence_strategy None = Inr ''diversity''" by code_simp
  have "normalize_topic_globs (Some [''ai*'', '' ai*'']) = Inr (Some [''ai*''])" by code_simp
  then have qry: "parse_wire_query (the (wr_query demo_wire)) = Inr (the (rq_query demo_parsed))"
    by (simp add: parse_wire_query_def demo_wire_def demo_parsed_def days strategy absent ebind_def)
  have "parse_report_hints (\<lambda>_. True) demo_parsers (wr_report demo_wire) = Inr None"
    "parse_requested_at demo_parsers (wr_requested_at demo_wire) = Inr 1717200000000"
    "parse_summary_request_type (wr_type demo_wire) = Inr (Own ''daily'')"
    "map_error parse_trend_window (default [] (wr_windows demo_wire)) = Inr [Own 3, Own 1, Own 2]"
    "parse_llm_provider (wr_llm_provider demo_wire) = Inr (Some ''http'')"
    "map_error (parse_wire_topic demo_parsers sample_api) (default [] (wr_topics demo_wire)) = Inr (rq_topics demo_parsed)"
    by code_simp+
  moreover have "wr_query demo_wire = Some (the (wr_query demo_wire))" by (simp add: demo_wire_def)
  ultimately show ?thesis using qry by (simp add: request_of_wire_def ebind_def) (simp add: demo_wire_def demo_parsed_def)
qed

theorem accepted_request_ok_witness: "request_ok sample_api demo_parsed"
  by (rule accepted_request_ok [of "\<lambda>_. Some (Some demo_wire)" "\<lambda>_. True" demo_parsers _ "()"])
    (simp add: deserialize_summary_request_def demo_wire_parsed)

text \<open>The type and the window of a request may be an inherited member, the strategy and the provider its name.\<close>

lemma inherited_members_accepted:
  "parse_summary_request_type (Text ''Constructor'') = Inr (InheritedMember ''constructor'')"
  "parse_trend_window (Text ''Constructor'') = Inr (InheritedMember ''constructor'')"
  "parse_evidence_strategy (Some ''Constructor'') = Inr ''constructor''"
  "parse_llm_provider (Some ''Constructor'') = Inr (Some ''constructor'')"
  by code_simp+

end
