(* ===== verification/EvidenceScoring.thy ===== *)
theory EvidenceScoring
  imports BriefRequest Selection
begin

section \<open>Evidence scoring (apps/brief/src/evidence-scoring.ts, internal-highlight-strategy.ts)\<close>

text \<open>
  The score of a piece of evidence, the best pieces of a topic with not too many of one source, and the highlight
  that is built from them without a language model. The URL parser is a parameter; the compiled topic matchers come
  from the cache of the evidence selection, which is the state of the effects here.
\<close>

subsection \<open>Texts\<close>

definition date_only_title_re :: re where
  "date_only_title_re =
     ci (cats [Bol, alts [Cat (lit ''jan'') (opt (lit ''uary'')), Cat (lit ''feb'') (opt (lit ''ruary'')),
         Cat (lit ''mar'') (opt (lit ''ch'')), Cat (lit ''apr'') (opt (lit ''il'')), lit ''may'', Cat (lit ''jun'') (opt (lit ''e'')),
         Cat (lit ''jul'') (opt (lit ''y'')), Cat (lit ''aug'') (opt (lit ''ust'')),
         Cat (lit ''sep'') (opt (Cat (lit ''t'') (opt (lit ''ember'')))), Cat (lit ''oct'') (opt (lit ''ober'')),
         Cat (lit ''nov'') (opt (lit ''ember'')), Cat (lit ''dec'') (opt (lit ''ember''))],
       ws_plus, rep_between 1 2 (Cls digit), lit '','', ws_plus, rep_between 4 4 (Cls digit), Eol])"

definition generic_evidence_snippet_patterns :: "re list" where
  "generic_evidence_snippet_patterns =
     map (\<lambda>s. ci (Cat Bol (lit s)))
       [''the following release notes cover'', ''for a comprehensive list'', ''you can also see and filter all release notes'',
        ''get the latest updates on azure'', ''subscribe to notifications to stay informed'', ''skip to main content'',
        ''overview guides reference samples resources'', ''welcome to '', ''reading time:'', ''table of contents''] @
     [ci (cats [Bol, lit ''transcript'', Eol])]"

definition normalize_whitespace :: "string \<Rightarrow> string" where
  "normalize_whitespace s = trim (collapse_ws s)"

definition truncate_text :: "string \<Rightarrow> nat \<Rightarrow> string" where
  "truncate_text s max_chars =
     (if length s \<le> max_chars then s else trim_end (take (max_chars - 1) s) @ [CHR 0x85])"

definition normalize_topic_key :: "string \<Rightarrow> string" where
  "normalize_topic_key topic = to_lower (trim topic)"

definition normalize_text_fingerprint :: "string \<Rightarrow> string" where
  "normalize_text_fingerprint s = to_lower (collapse_ws (trim s))"

definition sentence_end :: "char \<Rightarrow> bool" where
  "sentence_end c \<longleftrightarrow> c \<in> {CHR ''.'', CHR ''!'', CHR ''?''}"

definition ensure_sentence_ending :: "string \<Rightarrow> string" where
  "ensure_sentence_ending s =
     (let trimmed = trim s in
      if length trimmed = 0 then trimmed else if sentence_end (last trimmed) then trimmed else trimmed @ ''.'')"

definition is_generic_snippet :: "string \<Rightarrow> bool" where
  "is_generic_snippet s \<longleftrightarrow> list_ex (\<lambda>r. re_test r s) generic_evidence_snippet_patterns"

definition is_low_signal_title :: "string \<Rightarrow> bool" where
  "is_low_signal_title s \<longleftrightarrow>
     (let n = normalize_whitespace s in
      if n = [] then True
      else if re_test date_only_title_re n then True
      else if length n < 12 then True
      else is_generic_snippet n)"

text \<open>
  \<open>split(/(?<=[.!?])\\s+/)\<close>; a text that is split has no line break left, so the other separator of the code,
  a line break, is never found.
\<close>

function split_sentences :: "string \<Rightarrow> string \<Rightarrow> string list" where
  "split_sentences acc [] = [rev acc]"
| "split_sentences acc (c # s) =
     (if is_ws c \<and> acc \<noteq> [] \<and> sentence_end (hd acc) then rev acc # split_sentences [] (dropWhile is_ws s)
      else split_sentences (c # acc) s)"
  by pat_completeness auto
termination
  by (relation "measure (\<lambda>(_, s). length s)") (auto simp: le_imp_less_Suc length_dropWhile_le)

definition extract_first_meaningful_sentence :: "string \<Rightarrow> nat \<Rightarrow> string option" where
  "extract_first_meaningful_sentence s max_chars =
     (let n = normalize_whitespace s in
      if n = [] then None
      else (case filter (\<lambda>c. \<not> is_generic_snippet c) (filter (\<lambda>c. 24 \<le> length c) (map trim (split_sentences [] n))) of
          [] \<Rightarrow> None
        | c # _ \<Rightarrow> Some (truncate_text c max_chars)))"

subsection \<open>Signal categories\<close>

datatype signal_category = Security | Reliability | LifecycleChange | Governance | Cost | Feature

record signal_category_strategy =
  sc_category :: signal_category
  sc_pattern :: re
  sc_why_it_matters :: string
  sc_suggested_action :: string

definition word_alternatives :: "re list \<Rightarrow> re" where
  "word_alternatives rs = ci (cats [Wb, alts rs, Wb])"

definition signal_category_strategies :: "signal_category_strategy list" where
  "signal_category_strategies =
     [\<lparr>sc_category = Security,
       sc_pattern = word_alternatives (map lit [''cve-'', ''vulnerability'', ''security'', ''privilege escalation'', ''exploit'',
         ''patch'', ''xss'', ''rce'', ''authn'', ''authz'', ''jwt'', ''oidc'', ''iam'']),
       sc_why_it_matters = ''Security-related changes may require immediate remediation to reduce exposure.'',
       sc_suggested_action = ''Prioritize patch validation and configuration audits for affected services.''\<rparr>,
      \<lparr>sc_category = Reliability,
       sc_pattern = word_alternatives ([lit ''outage'', lit ''incident'', lit ''degradation'', lit ''latency'',
         Cat (lit ''error rate'') (opt (lit ''s'')), lit ''unavailable'', lit ''downtime'',
         Cat (lit ''fail'') (Alt (lit ''ed'') (lit ''ure'')), lit ''partition'', lit ''control plane'']),
       sc_why_it_matters = ''Reliability and incident signals can impact SLOs if dependency failure paths are untested.'',
       sc_suggested_action = ''Run failover and alert drills for impacted dependency paths.''\<rparr>,
      \<lparr>sc_category = LifecycleChange,
       sc_pattern = word_alternatives ([Cat (lit ''deprecat'') (alts [lit ''e'', lit ''ed'', lit ''ion'']), lit ''sunset'',
         lit ''end of support'', lit ''eol'', lit ''removed support'', lit ''no longer supported'', lit ''upgrade required'']),
       sc_why_it_matters = ''Lifecycle/deprecation updates can break runtimes and automation if upgrades are delayed.'',
       sc_suggested_action = ''Inventory impacted runtimes/services and stage upgrades before enforcement dates.''\<rparr>,
      \<lparr>sc_category = Governance,
       sc_pattern = word_alternatives (map lit [''policy'', ''organization policy'', ''compliance'', ''governance'', ''trust policy'',
         ''permission'', ''identity provider'']),
       sc_why_it_matters = ''Identity and policy shifts can block deploys unless controls and trust policies are updated.'',
       sc_suggested_action = ''Review IAM/trust policy baselines and update policy-as-code checks.''\<rparr>,
      \<lparr>sc_category = Cost,
       sc_pattern = word_alternatives ([lit ''pricing'', lit ''cost'', lit ''finops'',
         cats [lit ''optimi'', Cls (\<lambda>c. c \<in> {CHR ''s'', CHR ''z''}), lit ''e''], lit ''idle'', lit ''throughput'',
         lit ''latency reduction'', lit ''ttlb'', lit ''storage tier'', lit ''ssd'']),
       sc_why_it_matters = ''Cost and performance changes can materially alter spend and latency assumptions.'',
       sc_suggested_action = ''Benchmark cost/latency impact in non-production before broad rollout.''\<rparr>,
      \<lparr>sc_category = Feature,
       sc_pattern = word_alternatives (map lit [''generally available'', ''ga'', ''public preview'', ''preview'', ''launched'',
         ''now available'', ''release update'', ''added support'']),
       sc_why_it_matters = ''New GA/preview capabilities may reduce custom platform work once validated.'',
       sc_suggested_action = ''Pilot new capabilities in non-production with clear rollback criteria.''\<rparr>]"

definition collect_narratives :: "signal_category list \<Rightarrow> (signal_category_strategy \<Rightarrow> string) \<Rightarrow> string list" where
  "collect_narratives categories selector =
     map selector (filter (\<lambda>s. sc_category s \<in> set categories) signal_category_strategies)"

definition detect_signal_categories :: "string \<Rightarrow> signal_category list" where
  "detect_signal_categories value =
     (let n = normalize_whitespace value in
      map sc_category (filter (\<lambda>s. re_test (sc_pattern s) n) signal_category_strategies))"

definition build_internal_why_it_matters :: "string \<Rightarrow> signal_category list \<Rightarrow> string" where
  "build_internal_why_it_matters topic categories =
     (let narratives = collect_narratives categories sc_why_it_matters in
      if length narratives = 0
      then ''Recent '' @ topic @ '' updates include concrete platform changes that may affect near-term delivery plans.''
      else join '' '' (take 2 narratives))"

definition build_internal_suggested_action :: "signal_category list \<Rightarrow> string" where
  "build_internal_suggested_action categories =
     (let narratives = collect_narratives categories sc_suggested_action in
      if length narratives = 0 then ''Review cited changes, assign owners, and schedule validation work this week.''
      else join '' '' (take 2 narratives))"

subsection \<open>Preferred hosts\<close>

definition preferred_cloud_host_rules :: "(string \<times> string list) list" where
  "preferred_cloud_host_rules =
     [(''aws.'', [''aws.amazon.com'', ''docs.aws.amazon.com'']),
      (''cloud.gcp'', [''cloud.google.com'', ''docs.cloud.google.com'', ''status.cloud.google.com'']),
      (''cloud.azure'', [''azure.microsoft.com'', ''learn.microsoft.com'']),
      (''cloud.terraform'', [''hashicorp.com'', ''terraform.io'', ''aws.amazon.com'', ''cloud.google.com'', ''azure.microsoft.com''])]"

definition resolve_preferred_cloud_host_rule :: "string \<Rightarrow> (string \<times> string list) option" where
  "resolve_preferred_cloud_host_rule topic =
     find (\<lambda>r. starts_with (normalize_topic_key topic) (fst r)) preferred_cloud_host_rules"

definition hostname_matches_any_suffix :: "string \<Rightarrow> string list \<Rightarrow> bool" where
  "hostname_matches_any_suffix host sfs \<longleftrightarrow> list_ex (ends_with host) sfs"

definition is_preferred_cloud_host :: "string \<Rightarrow> string option \<Rightarrow> bool" where
  "is_preferred_cloud_host topic host \<longleftrightarrow>
     (if \<not> truthy host then False
      else (case resolve_preferred_cloud_host_rule topic of
          None \<Rightarrow> False
        | Some r \<Rightarrow> hostname_matches_any_suffix (the host) (snd r)))"

definition has_preferred_cloud_host_rule :: "string \<Rightarrow> bool" where
  "has_preferred_cloud_host_rule topic \<longleftrightarrow> resolve_preferred_cloud_host_rule topic \<noteq> None"

definition get_evidence_recency_ms :: "brief_evidence_record \<Rightarrow> int" where
  "get_evidence_recency_ms ev =
     (case be_published_at ev of Some t \<Rightarrow> t | None \<Rightarrow> default 0 (be_fetched_at ev))"

definition get_evidence_hostname :: "url_api \<Rightarrow> string option \<Rightarrow> string option" where
  "get_evidence_hostname api v =
     (if \<not> truthy v then None else map_option (\<lambda>u. to_lower (hostname u)) (url_parse api (the v)))"

subsection \<open>Insights\<close>

record evidence_insight =
  ei_summary :: string
  ei_citation :: "string option"
  ei_categories :: "signal_category list"
  ei_score :: int
  ei_recency_ms :: int
  ei_source :: canonical

text \<open>The text of an insight; a text that stays empty means no insight.\<close>

definition insight_summary :: "url_api \<Rightarrow> string \<Rightarrow> string option \<Rightarrow> string option \<Rightarrow> string" where
  "insight_summary api ttl excerpt_sentence v =
     (if \<not> is_low_signal_title ttl then
        (let summary = truncate_text ttl 140 in
         case excerpt_sentence of
           None \<Rightarrow> summary
         | Some x \<Rightarrow>
             let title_fp = normalize_text_fingerprint summary; excerpt_fp = normalize_text_fingerprint x in
             if x \<noteq> [] \<and> length excerpt_fp > 0 \<and> \<not> str_includes excerpt_fp title_fp
             then truncate_text (summary @ '' '' @ [CHR 0x97] @ '' '' @ x) 220 else summary)
      else if truthy excerpt_sentence then the excerpt_sentence
      else (let host = get_evidence_hostname api v in
            if truthy host then ''Update reported by '' @ the host else []))"

definition insight_score :: "string \<Rightarrow> string \<Rightarrow> string option \<Rightarrow> signal_category list \<Rightarrow> bool \<Rightarrow> nat \<Rightarrow> int option \<Rightarrow> int" where
  "insight_score topic ttl excerpt_sentence categories preferred_host topic_term_matches published =
     (if is_low_signal_title ttl then - 2 else 3) + (if truthy excerpt_sentence then 2 else 0) + int (length categories) +
     (if preferred_host then 4 else 0) + int (min topic_term_matches 2) +
     (if topic_term_matches = 0 \<and> \<not> preferred_host then - 4 else 0) +
     (if has_preferred_cloud_host_rule topic \<and> \<not> preferred_host then - 2 else 0) +
     (if published \<noteq> None then 1 else 0)"

definition build_evidence_insight ::
  "url_api \<Rightarrow> string \<Rightarrow> brief_evidence_record \<Rightarrow> (matcher_cache, js_fault, evidence_insight option) eff" where
  "build_evidence_insight api topic ev =
     (let ttl = normalize_whitespace (default [] (be_title ev));
          excerpt_sentence = extract_first_meaningful_sentence (default [] (be_text_excerpt ev)) 170;
          citation = (if truthy (be_url ev)
            then (case dedupe_canonical_brief_evidence_urls api [be_url ev] of [] \<Rightarrow> None | c # _ \<Rightarrow> Some c) else None);
          summary = insight_summary api ttl excerpt_sentence (be_url ev) in
      if summary = [] then eff_ret None
      else
        let categories = detect_signal_categories (join '' '' [ttl, default [] (be_text_excerpt ev), default [] (be_url ev)]);
            preferred_host = is_preferred_cloud_host topic (get_evidence_hostname api (be_url ev)) in
        eff_bind (count_topic_relevance_term_matches topic
            (ttl @ '' '' @ default [] (be_text_excerpt ev) @ '' '' @ default [] (be_url ev)) 1) (\<lambda>topic_term_matches.
        eff_ret (Some \<lparr>ei_summary = summary, ei_citation = citation, ei_categories = categories,
          ei_score = insight_score topic ttl excerpt_sentence categories preferred_host topic_term_matches (be_published_at ev),
          ei_recency_ms = get_evidence_recency_ms ev, ei_source = be_source ev\<rparr>)))"

definition max_items_per_source :: nat where
  "max_items_per_source = 2"

text \<open>
  The first loop: what is selected, how often each source has been taken, what is put off; it ends when enough are
  selected. The second loop fills up.
\<close>

fun select_diverse ::
  "nat \<Rightarrow> evidence_insight list \<Rightarrow> (canonical, nat) omap \<Rightarrow> evidence_insight list \<Rightarrow> evidence_insight list \<Rightarrow>
   evidence_insight list \<times> evidence_insight list" where
  "select_diverse limit selected source_counts deferred [] = (selected, deferred)"
| "select_diverse limit selected source_counts deferred (x # xs) =
     (if length selected \<ge> limit then (selected, deferred)
      else
        let count = om_get 0 source_counts (ei_source x) in
        if count < max_items_per_source
        then select_diverse limit (selected @ [x]) (om_set source_counts (ei_source x) (count + 1)) deferred xs
        else select_diverse limit selected source_counts (deferred @ [x]) xs)"

fun fill_up :: "nat \<Rightarrow> evidence_insight list \<Rightarrow> evidence_insight list \<Rightarrow> evidence_insight list" where
  "fill_up limit selected [] = selected"
| "fill_up limit selected (x # xs) = (if length selected \<ge> limit then selected else fill_up limit (selected @ [x]) xs)"

definition apply_source_diversity :: "evidence_insight list \<Rightarrow> nat \<Rightarrow> evidence_insight list" where
  "apply_source_diversity xs limit =
     (case select_diverse limit [] [] [] xs of (selected, deferred) \<Rightarrow> fill_up limit selected deferred)"

definition insight_cmp :: "evidence_insight \<Rightarrow> evidence_insight \<Rightarrow> int" where
  "insight_cmp l r =
     (if ei_score r \<noteq> ei_score l then ei_score r - ei_score l else ei_recency_ms r - ei_recency_ms l)"

definition collect_top_evidence_insights ::
  "url_api \<Rightarrow> brief_evidence_record summary_topic \<Rightarrow> nat \<Rightarrow> (matcher_cache, js_fault, evidence_insight list) eff" where
  "collect_top_evidence_insights api topic limit =
     eff_bind (eff_map (build_evidence_insight api (st_topic topic)) (st_evidence topic)) (\<lambda>built.
     eff_ret (apply_source_diversity
       (dedup_by (\<lambda>x. normalize_text_fingerprint (ei_summary x)) {} (js_sort insight_cmp (List.map_filter id built))) limit))"

subsection \<open>The highlight without a model\<close>

record normalized_highlight =
  nh_topic :: string
  nh_what_happened :: string
  nh_why_it_matters :: string
  nh_suggested_action :: string
  nh_citations :: "string list"

definition build_internal_highlight ::
  "url_api \<Rightarrow> brief_evidence_record summary_topic \<Rightarrow> (matcher_cache, js_fault, normalized_highlight) eff" where
  "build_internal_highlight api topic =
     (let fallback_citations = dedupe_canonical_brief_evidence_urls api (map be_url (st_evidence topic)) in
      eff_bind (collect_top_evidence_insights api topic 2) (\<lambda>insights.
      let citations = dedupe_canonical_brief_evidence_urls api (filter truthy (map ei_citation insights));
          categories = js_set (concat (map ei_categories insights));
          what_happened = (if length insights > 0 then ensure_sentence_ending (join ''; '' (map ei_summary insights))
            else ''Recent updates were detected for '' @ st_topic topic @ ''.'')
      in eff_ret \<lparr>nh_topic = st_topic topic, nh_what_happened = what_happened,
           nh_why_it_matters = build_internal_why_it_matters (st_topic topic) categories,
           nh_suggested_action = build_internal_suggested_action categories,
           nh_citations = (if length citations > 0 then citations else fallback_citations)\<rparr>))"

subsection \<open>Diversity\<close>

text \<open>
  A piece is early when at most one piece of its source comes before it. The reference: the early pieces in order,
  then the others in order, cut off at the limit.
\<close>

definition of_source :: "canonical \<Rightarrow> evidence_insight list \<Rightarrow> nat" where
  "of_source c xs = length (filter (\<lambda>x. ei_source x = c) xs)"

definition is_early :: "evidence_insight list \<Rightarrow> nat \<Rightarrow> bool" where
  "is_early xs i \<longleftrightarrow> of_source (ei_source (xs ! i)) (take i xs) < 2"

definition pick :: "(nat \<Rightarrow> bool) \<Rightarrow> 'a list \<Rightarrow> 'a list" where
  "pick P xs = map ((!) xs) (filter P [0..<length xs])"

lemma pick_snoc:
  assumes "\<And>i. i < length xs \<Longrightarrow> P' i = P i"
  shows "pick P' (xs @ [x]) = pick P xs @ (if P' (length xs) then [x] else [])"
proof -
  have "filter P' [0..<length xs] = filter P [0..<length xs]" using assms by (intro filter_cong) auto
  moreover have "map ((!) (xs @ [x])) (filter P [0..<length xs]) = map ((!) xs) (filter P [0..<length xs])"
    by (intro map_cong) (auto simp: nth_append)
  ultimately show ?thesis by (simp add: pick_def)
qed

lemma is_early_snoc: "i < length xs \<Longrightarrow> is_early (xs @ [x]) i = is_early xs i"
  by (simp add: is_early_def nth_append)

lemma is_early_last: "is_early (xs @ [x]) (length xs) \<longleftrightarrow> of_source (ei_source x) xs < 2"
  by (simp add: is_early_def)

lemmas pick_early_snoc = pick_snoc [where P' = "is_early (xs @ [x])" and P = "is_early xs" and xs = xs and x = x for xs x, OF is_early_snoc]
lemmas pick_late_snoc = pick_snoc [where P' = "\<lambda>i. \<not> is_early (xs @ [x]) i" and P = "\<lambda>i. \<not> is_early xs i" and xs = xs and x = x for xs x,
    OF arg_cong [OF is_early_snoc]]

lemma of_source_early: "of_source c (pick (is_early xs) xs) = min 2 (of_source c xs)"
proof (induction xs rule: rev_induct)
  case (snoc x xs)
  have step: "of_source c (ys @ zs) = of_source c ys + of_source c zs" for ys zs by (simp add: of_source_def)
  show ?case using snoc.IH
    by (cases "ei_source x = c")
      (auto simp: pick_early_snoc is_early_last step, simp_all add: of_source_def)
qed (simp add: of_source_def pick_def)

lemma length_pick: "length (pick P xs) + length (pick (\<lambda>i. \<not> P i) xs) = length xs"
  using sum_length_filter_compl [of P "[0..<length xs]"] by (simp add: pick_def)

lemma mset_pick: "mset (pick P xs) + mset (pick (\<lambda>i. \<not> P i) xs) = mset xs"
proof -
  have "mset (filter P [0..<length xs]) + mset (filter (\<lambda>i. \<not> P i) [0..<length xs]) = mset [0..<length xs]"
    by (metis mset_filter multiset_partition)
  then have "image_mset ((!) xs) (mset (filter P [0..<length xs]) + mset (filter (\<lambda>i. \<not> P i) [0..<length xs])) = mset (map ((!) xs) [0..<length xs])"
    by simp
  then show ?thesis by (simp add: pick_def map_nth del: mset_filter mset_upt)
qed

lemma fill_up_eq: "fill_up limit s ds = s @ take (limit - length s) ds"
  by (induction ds arbitrary: s) (auto simp: take_Cons')

lemma pick_early_prefix: "\<exists>zs. pick (is_early (xs @ ys)) (xs @ ys) = pick (is_early xs) xs @ zs"
proof (induction ys rule: rev_induct)
  case (snoc y ys)
  then show ?case using pick_early_snoc [of "xs @ ys" y] by auto
qed simp

lemma select_diverse_eq:
  assumes "length (pick (is_early ps) ps) \<le> limit"
    and "\<And>c. om_get 0 counts c = of_source c (pick (is_early ps) ps)"
    and "select_diverse limit (pick (is_early ps) ps) counts (pick (\<lambda>i. \<not> is_early ps i) ps) xs = (s, d)"
  shows "fill_up limit s d = take limit (pick (is_early (ps @ xs)) (ps @ xs) @ pick (\<lambda>i. \<not> is_early (ps @ xs) i) (ps @ xs))"
  using assms
proof (induction xs arbitrary: ps counts)
  case Nil
  then show ?case by (auto simp: fill_up_eq)
next
  case (Cons x xs)
  let ?e = "pick (is_early ps) ps"
  show ?case
  proof (cases "limit \<le> length ?e")
    case True
    obtain zs where "pick (is_early (ps @ x # xs)) (ps @ x # xs) = ?e @ zs" using pick_early_prefix by blast
    with True Cons.prems show ?thesis by (simp add: fill_up_eq)
  next
    case False
    have early: "is_early (ps @ [x]) (length ps) \<longleftrightarrow> om_get 0 counts (ei_source x) < max_items_per_source"
      using Cons.prems(2) [of "ei_source x"] of_source_early [of "ei_source x" ps]
      by (auto simp: is_early_last max_items_per_source_def)
    show ?thesis
    proof (cases "om_get 0 counts (ei_source x) < max_items_per_source")
      case True
      have "om_get 0 (om_set counts (ei_source x) (om_get 0 counts (ei_source x) + 1)) c = of_source c (?e @ [x])" for c
        using Cons.prems(2) by (auto simp: om_get_om_set of_source_def)
      then show ?thesis
        using Cons.IH [of "ps @ [x]" "om_set counts (ei_source x) (om_get 0 counts (ei_source x) + 1)"] Cons.prems(3) True early False
        by (simp add: pick_early_snoc pick_late_snoc Let_def)
    next
      case no: False
      then show ?thesis
        using Cons.IH [of "ps @ [x]" counts] Cons.prems early False
        by (simp add: pick_early_snoc pick_late_snoc Let_def)
    qed
  qed
qed

text \<open>
  The pieces that are selected are, up to the limit, the first two of every source in order and then the others
  in order: as many as the limit or as there are, none twice, and never a third of a source while one of the first two
  of another is left out.
\<close>

theorem source_diversity:
  "let early = pick (is_early xs) xs; late = pick (\<lambda>i. \<not> is_early xs i) xs; r = apply_source_diversity xs limit in
   r = take limit (early @ late) \<and> length r = min limit (length xs) \<and> mset r \<subseteq># mset xs \<and>
   mset early + mset late = mset xs \<and> of_source c early = min 2 (of_source c xs)"
proof -
  let ?e = "pick (is_early xs) xs" and ?l = "pick (\<lambda>i. \<not> is_early xs i) xs"
  obtain s d where sd: "select_diverse limit [] [] [] xs = (s, d)" by fastforce
  have nil: "pick P [] = []" for P :: "nat \<Rightarrow> bool" by (simp add: pick_def)
  have "fill_up limit s d = take limit (?e @ ?l)"
    using select_diverse_eq [of "[]" limit "[]" xs s d] sd by (simp add: nil om_get_def of_source_def)
  then have r: "apply_source_diversity xs limit = take limit (?e @ ?l)" by (simp add: apply_source_diversity_def sd)
  have "mset (take limit (?e @ ?l)) \<subseteq># mset (?e @ ?l)"
    by (metis append_take_drop_id mset_append mset_subset_eq_add_left)
  then have "mset (take limit (?e @ ?l)) \<subseteq># mset xs" using mset_pick [of "is_early xs" xs] by simp
  then show ?thesis
    using r length_pick [of "is_early xs" xs] mset_pick [of "is_early xs" xs] of_source_early [of c xs]
    by (simp add: Let_def)
qed

end
