(* ===== verification/Grounding.thy ===== *)
theory Grounding
  imports EvidenceScoring
begin

section \<open>Grounding (apps/brief/src/grounding-facade.ts, grounding-enforcement.ts, processing-errors.ts)\<close>

text \<open>
  Citations and URLs in the notes must come from the evidence of the request; highlights without such a citation are
  dropped, highlights of one topic merged. The URL parser is a parameter. A set of URLs is the list of its members in
  the order of insertion.
\<close>

subsection \<open>Errors\<close>

datatype brief_error =
    LlmGenerationError string
  | NonRetryableProcessingError string string
  | FaultError js_fault
  | HandoffFailed handoff_error
  | ServiceError string

definition to_grounding_error :: "string \<Rightarrow> brief_error" where
  "to_grounding_error msg = NonRetryableProcessingError msg ''grounding_error''"

definition to_no_coverage_error :: "string \<Rightarrow> brief_error" where
  "to_no_coverage_error msg = NonRetryableProcessingError msg ''no_coverage''"

definition classify_retryable_failure_code :: "string \<Rightarrow> string" where
  "classify_retryable_failure_code msg =
     (let m = to_lower msg in
      if str_includes m ''timeout'' \<or> str_includes m ''timed out'' \<or> str_includes m ''etimedout'' \<or> str_includes m ''abort''
      then ''timeout'' else ''llm_error'')"

subsection \<open>The facade\<close>

text \<open>\<open>/https?:\\/\\/[^\\s<>"'`]+/g\<close> and \<open>/[),.;!?]+$/g\<close>.\<close>

definition notes_url_re :: re where
  "notes_url_re = cats [lit ''http'', opt (lit ''s''), lit ''://'',
     plus_re (Cls (\<lambda>c. \<not> is_ws c \<and> c \<notin> {CHR ''<'', CHR ''>'', CHR 0x22, CHR 0x27, CHR 0x60}))]"

definition strip_trailing_punctuation :: "string \<Rightarrow> string" where
  "strip_trailing_punctuation s =
     rev (dropWhile (\<lambda>c. c \<in> set ''),.;!?'') (rev s))"

definition extract_canonical_urls_from_text :: "url_api \<Rightarrow> string \<Rightarrow> string list" where
  "extract_canonical_urls_from_text api text =
     (case re_match_g notes_url_re text of
        [] \<Rightarrow> []
      | ms \<Rightarrow> dedupe_canonical_brief_evidence_urls api (map (Some \<circ> strip_trailing_punctuation) ms))"

definition create_evidence_url_set :: "url_api \<Rightarrow> parsed_summary_request \<Rightarrow> string list" where
  "create_evidence_url_set api rq =
     js_set (dedupe_canonical_brief_evidence_urls api (concat (map (\<lambda>t. map be_url (st_evidence t)) (rq_topics rq))))"

definition filter_grounded_citations :: "url_api \<Rightarrow> string list \<Rightarrow> string list \<Rightarrow> string list" where
  "filter_grounded_citations api citations evidence_urls =
     filter (\<lambda>c. c \<in> set evidence_urls) (dedupe_canonical_brief_evidence_urls api (map Some citations))"

definition enforce_grounded_notes ::
  "url_api \<Rightarrow> parsed_summary_request \<Rightarrow> string \<Rightarrow> (string \<Rightarrow> brief_error) \<Rightarrow> brief_error + string" where
  "enforce_grounded_notes api rq text create_error =
     (let note_urls = extract_canonical_urls_from_text api text in
      if length note_urls = 0 then Inr text
      else
        let evidence_urls = create_evidence_url_set api rq in
        if length evidence_urls = 0 then Inl (create_error ''No evidence URLs were provided in the summary request'')
        else
          let ungrounded = filter (\<lambda>u. u \<notin> set evidence_urls) note_urls in
          if length ungrounded > 0
          then Inl (create_error (''Brief notes contained ungrounded URL citations: '' @ join '', '' (take 3 ungrounded)))
          else Inr text)"

subsection \<open>Scopes\<close>

record topic_evidence_scope =
  sc_canonical_topic :: string
  sc_normalized_topic :: string
  sc_top_level_group :: string
  sc_evidence_urls :: "string list"

definition build_topic_evidence_scopes ::
  "url_api \<Rightarrow> parsed_summary_request \<Rightarrow> (string, topic_evidence_scope) omap" where
  "build_topic_evidence_scopes api rq =
     foldl (\<lambda>scopes t.
       let canonical_topic = trim (st_topic t); topic_key = normalize_topic_key canonical_topic in
       om_set scopes topic_key
         \<lparr>sc_canonical_topic = canonical_topic, sc_normalized_topic = topic_key,
          sc_top_level_group = get_top_level_topic_group topic_key,
          sc_evidence_urls = js_set (dedupe_canonical_brief_evidence_urls api (map be_url (st_evidence t)))\<rparr>) [] (rq_topics rq)"

definition count_scope_citation_overlap :: "topic_evidence_scope \<Rightarrow> string list \<Rightarrow> nat" where
  "count_scope_citation_overlap sc citations =
     foldl (\<lambda>n c. n + (if c \<in> set (sc_evidence_urls sc) then 1 else 0)) 0 citations"

text \<open>The loop over the scopes: the best one so far, its overlap, and whether it is of the same group.\<close>

definition better_scope ::
  "string \<Rightarrow> string list \<Rightarrow> topic_evidence_scope option \<times> nat \<times> bool \<Rightarrow> topic_evidence_scope \<Rightarrow>
   topic_evidence_scope option \<times> nat \<times> bool" where
  "better_scope requested_group citations best sc =
     (case best of (best_scope, best_overlap, best_same) \<Rightarrow>
      let overlap = count_scope_citation_overlap sc citations in
      if overlap \<le> 0 then best
      else
        let same = (length requested_group > 0 \<and> sc_top_level_group sc = requested_group) in
        if overlap > best_overlap \<or> overlap = best_overlap \<and> same \<and> \<not> best_same
        then (Some sc, overlap, same) else best)"

definition resolve_grounded_topic_scope ::
  "(string, topic_evidence_scope) omap \<Rightarrow> string \<Rightarrow> string list \<Rightarrow> topic_evidence_scope option" where
  "resolve_grounded_topic_scope scopes requested_topic_key citations =
     (let searched = fst (foldl (better_scope (get_top_level_topic_group requested_topic_key) citations) (None, 0, False) (map snd scopes)) in
      case map_of scopes requested_topic_key of
        Some declared \<Rightarrow> if count_scope_citation_overlap declared citations > 0 then Some declared else searched
      | None \<Rightarrow> searched)"

subsection \<open>Merging\<close>

text \<open>The loop keeps the merged texts and the fingerprints it has seen.\<close>

definition merge_narrative_fields :: "string list \<Rightarrow> string" where
  "merge_narrative_fields vs =
     join '' '' (fst (foldl (\<lambda>(merged, seen) v.
       let trimmed = trim v; fp = normalize_text_fingerprint trimmed in
       if trimmed = [] then (merged, seen)
       else if fp \<in> set seen then (merged, seen)
       else (merged @ [ensure_sentence_ending trimmed], seen @ [fp])) ([], []) vs))"

definition merge_step ::
  "url_api \<Rightarrow> normalized_highlight list \<times> (string, nat) omap \<Rightarrow> normalized_highlight \<Rightarrow>
   normalized_highlight list \<times> (string, nat) omap" where
  "merge_step api acc h =
     (case acc of (merged, index_by_topic) \<Rightarrow>
      let topic_key = normalize_topic_key (nh_topic h) in
      case map_of index_by_topic topic_key of
        None \<Rightarrow>
          (merged @ [h\<lparr>nh_citations := dedupe_canonical_brief_evidence_urls api (map Some (nh_citations h))\<rparr>],
           om_set index_by_topic topic_key (length merged))
      | Some i \<Rightarrow>
          let ex = merged ! i in
          (merged[i := \<lparr>nh_topic = nh_topic ex,
             nh_what_happened = merge_narrative_fields [nh_what_happened ex, nh_what_happened h],
             nh_why_it_matters = merge_narrative_fields [nh_why_it_matters ex, nh_why_it_matters h],
             nh_suggested_action = merge_narrative_fields [nh_suggested_action ex, nh_suggested_action h],
             nh_citations = dedupe_canonical_brief_evidence_urls api (map Some (nh_citations ex @ nh_citations h))\<rparr>],
           index_by_topic))"

definition merge_highlights_by_topic :: "url_api \<Rightarrow> normalized_highlight list \<Rightarrow> normalized_highlight list" where
  "merge_highlights_by_topic api hs = fst (foldl (merge_step api) ([], []) hs)"

subsection \<open>Enforcement\<close>

definition ground_highlight ::
  "url_api \<Rightarrow> string list \<Rightarrow> (string, topic_evidence_scope) omap \<Rightarrow> normalized_highlight \<Rightarrow> normalized_highlight option" where
  "ground_highlight api evidence_urls scopes h =
     (let globally = filter_grounded_citations api (nh_citations h) evidence_urls in
      if length globally = 0 then None
      else (case resolve_grounded_topic_scope scopes (normalize_topic_key (nh_topic h)) globally of
          None \<Rightarrow> None
        | Some sc \<Rightarrow>
            let scoped = filter (\<lambda>c. c \<in> set (sc_evidence_urls sc)) globally in
            if length scoped = 0 then None
            else Some (h\<lparr>nh_topic := sc_canonical_topic sc, nh_citations := scoped\<rparr>)))"

definition enforce_grounded_highlights ::
  "url_api \<Rightarrow> parsed_summary_request \<Rightarrow> normalized_highlight list \<Rightarrow> brief_error + normalized_highlight list" where
  "enforce_grounded_highlights api rq hs =
     (let evidence_urls = create_evidence_url_set api rq; scopes = build_topic_evidence_scopes api rq in
      if length evidence_urls = 0
      then Inl (to_grounding_error ''No evidence URLs were provided in the summary request'')
      else
        let grounded = filter (\<lambda>h. length (nh_citations h) > 0) (List.map_filter (ground_highlight api evidence_urls scopes) hs);
            merged = merge_highlights_by_topic api grounded in
        if length merged = 0
        then Inl (to_grounding_error ''Brief generation produced no grounded highlights with valid evidence citations'')
        else Inr merged)"

definition normalize_llm_highlight :: "url_api \<Rightarrow> normalized_highlight \<Rightarrow> normalized_highlight" where
  "normalize_llm_highlight api h =
     \<lparr>nh_topic = trim (nh_topic h), nh_what_happened = trim (nh_what_happened h),
      nh_why_it_matters = trim (nh_why_it_matters h), nh_suggested_action = trim (nh_suggested_action h),
      nh_citations = dedupe_canonical_brief_evidence_urls api (map Some (nh_citations h))\<rparr>"

subsection \<open>Canonical lists\<close>

lemma dedupe_canonical:
  "set (dedupe_canonical_brief_evidence_urls api vs) =
     {c. c \<noteq> [] \<and> (\<exists>v \<in> set vs. truthy v \<and> canonicalize_brief_evidence_url api (the v) = Some c)} \<and>
   distinct (dedupe_canonical_brief_evidence_urls api vs)"
proof (induction vs rule: rev_induct)
  case (snoc v vs)
  then show ?case
    by (auto simp: dedupe_canonical_brief_evidence_urls_def set_add_def split: option.splits)
qed (simp add: dedupe_canonical_brief_evidence_urls_def)

lemmas set_dedupe_canonical = dedupe_canonical [THEN conjunct1]
lemmas distinct_dedupe_canonical [simp] = dedupe_canonical [THEN conjunct2]

definition stable_url :: "url_api \<Rightarrow> string \<Rightarrow> bool" where
  "stable_url api u \<longleftrightarrow> canonicalize_brief_evidence_url api u = Some u"

lemma stable_not_empty: "stable_url api u \<Longrightarrow> u \<noteq> []"
  by (auto simp: stable_url_def canonicalize_brief_evidence_url_def normalize_optional_string_def Let_def)

lemma dedupe_stable:
  assumes "list_all (stable_url api) us"
  shows "set (dedupe_canonical_brief_evidence_urls api (map Some us)) = set us"
  using assms stable_not_empty unfolding set_dedupe_canonical
  by (fastforce simp: list_all_iff stable_url_def truthy_def)

subsection \<open>Merging keeps topics apart and citations together\<close>

abbreviation topic_key_of :: "normalized_highlight \<Rightarrow> string" where
  "topic_key_of h \<equiv> normalize_topic_key (nh_topic h)"

definition merge_ok :: "url_api \<Rightarrow> normalized_highlight list \<Rightarrow> normalized_highlight list \<times> (string, nat) omap \<Rightarrow> bool" where
  "merge_ok api hs acc \<longleftrightarrow>
     distinct (map topic_key_of (fst acc)) \<and>
     (\<forall>k i. map_of (snd acc) k = Some i \<longleftrightarrow> i < length (fst acc) \<and> topic_key_of (fst acc ! i) = k) \<and>
     topic_key_of ` set (fst acc) = topic_key_of ` set hs \<and>
     (\<forall>m \<in> set (fst acc). (\<exists>h \<in> set hs. nh_topic h = nh_topic m) \<and> distinct (nh_citations m) \<and>
        set (nh_citations m) = (\<Union>h \<in> {h \<in> set hs. topic_key_of h = topic_key_of m}. set (nh_citations h)))"

lemma merge_step_ok:
  assumes "merge_ok api hs acc" and "list_all (\<lambda>h. list_all (stable_url api) (nh_citations h)) (hs @ [h])"
  shows "merge_ok api (hs @ [h]) (merge_step api acc h)"
proof -
  obtain merged idx where acc: "acc = (merged, idx)" by fastforce
  let ?k = "topic_key_of h"
  note ok = assms(1) [unfolded acc merge_ok_def fst_conv snd_conv]
  have keys: "map_of idx k = Some i \<longleftrightarrow> i < length merged \<and> topic_key_of (merged ! i) = k" for k i using ok by blast
  have cites: "set (dedupe_canonical_brief_evidence_urls api (map Some (nh_citations h))) = set (nh_citations h)"
    using assms(2) by (intro dedupe_stable) simp
  show ?thesis
  proof (cases "map_of idx ?k")
    case None
    have fresh: "?k \<notin> topic_key_of ` set merged"
    proof
      assume "?k \<in> topic_key_of ` set merged"
      then obtain m where m: "m \<in> set merged" "topic_key_of m = ?k" by (metis imageE)
      then obtain i where "i < length merged" "topic_key_of (merged ! i) = ?k" by (metis in_set_conv_nth)
      then have "map_of idx ?k = Some i" using keys by blast
      with None show False by simp
    qed
    have other: "topic_key_of (merged ! i) \<noteq> ?k" if "i < length merged" for i
      using that fresh by (metis imageI nth_mem)
    have fresh_hs: "?k \<notin> topic_key_of ` set hs" using fresh ok by simp
    let ?m = "h\<lparr>nh_citations := dedupe_canonical_brief_evidence_urls api (map Some (nh_citations h))\<rparr>"
    have step: "merge_step api acc h = (merged @ [?m], om_set idx ?k (length merged))"
      using None by (simp add: acc merge_step_def Let_def)
    have keys': "map_of (om_set idx ?k (length merged)) k = Some i \<longleftrightarrow>
        i < length (merged @ [?m]) \<and> topic_key_of ((merged @ [?m]) ! i) = k" for k i
      using keys other by (auto simp: map_of_om_set nth_append less_Suc_eq)
    have group: "{h' \<in> set (hs @ [h]). topic_key_of h' = topic_key_of m} = {h' \<in> set hs. topic_key_of h' = topic_key_of m}"
      if "m \<in> set merged" for m
      using that fresh by auto
    have group_h: "{h' \<in> set (hs @ [h]). topic_key_of h' = ?k} = {h}"
    proof -
      have "topic_key_of x \<noteq> ?k" if "x \<in> set hs" for x using that fresh_hs by (metis imageI)
      then show ?thesis by auto
    qed
    define P where "P m \<longleftrightarrow> (\<exists>h' \<in> set (hs @ [h]). nh_topic h' = nh_topic m) \<and> distinct (nh_citations m) \<and>
        set (nh_citations m) = (\<Union>h' \<in> {h' \<in> set (hs @ [h]). topic_key_of h' = topic_key_of m}. set (nh_citations h'))" for m
    have "P m" if "m \<in> set merged" for m
      using ok that unfolding P_def group [OF that] by auto
    moreover have "P ?m" using group_h by (simp add: P_def cites)
    ultimately have all: "\<forall>m \<in> set (merged @ [?m]). P m" by simp
    have "distinct (map topic_key_of (merged @ [?m]))" "topic_key_of ` set (merged @ [?m]) = topic_key_of ` set (hs @ [h])"
      using ok fresh by auto
    then show ?thesis
      unfolding merge_ok_def step fst_conv snd_conv using keys' all [unfolded P_def] by blast
  next
    case (Some i)
    then have i: "i < length merged" "topic_key_of (merged ! i) = ?k" using keys by auto
    let ?m = "\<lparr>nh_topic = nh_topic (merged ! i),
             nh_what_happened = merge_narrative_fields [nh_what_happened (merged ! i), nh_what_happened h],
             nh_why_it_matters = merge_narrative_fields [nh_why_it_matters (merged ! i), nh_why_it_matters h],
             nh_suggested_action = merge_narrative_fields [nh_suggested_action (merged ! i), nh_suggested_action h],
             nh_citations = dedupe_canonical_brief_evidence_urls api (map Some (nh_citations (merged ! i) @ nh_citations h))\<rparr>"
    have mi: "merged ! i \<in> set merged" using i(1) by simp
    have step: "merge_step api acc h = (merged[i := ?m], idx)" using Some by (simp add: acc merge_step_def Let_def)
    have same: "map topic_key_of (merged[i := ?m]) = map topic_key_of merged"
      using i by (simp add: map_update) (metis i(2) length_map list_update_id nth_map)
    have old: "set (nh_citations (merged ! i)) = (\<Union>h' \<in> {h' \<in> set hs. topic_key_of h' = ?k}. set (nh_citations h'))"
      using ok mi i(2) by auto
    then have "list_all (stable_url api) (nh_citations (merged ! i) @ nh_citations h)"
      using assms(2) by (auto simp: list_all_iff)
    from dedupe_stable [OF this] old
    have new: "set (nh_citations ?m) = (\<Union>h' \<in> {h' \<in> set (hs @ [h]). topic_key_of h' = ?k}. set (nh_citations h'))" by auto
    have keys': "map_of idx k = Some j \<longleftrightarrow> j < length (merged[i := ?m]) \<and> topic_key_of (merged[i := ?m] ! j) = k" for k j
      using keys i by (simp add: nth_list_update)
    have "topic_key_of ` set (merged[i := ?m]) = topic_key_of ` set merged" by (metis same set_map)
    moreover have "?k \<in> topic_key_of ` set merged" using i mi by (metis imageI)
    moreover have "(\<exists>h' \<in> set (hs @ [h]). nh_topic h' = nh_topic m) \<and> distinct (nh_citations m) \<and>
        set (nh_citations m) = (\<Union>h' \<in> {h' \<in> set (hs @ [h]). topic_key_of h' = topic_key_of m}. set (nh_citations h'))"
      if "m \<in> set (merged[i := ?m])" for m
    proof -
      from that obtain j where j: "j < length merged" "m = merged[i := ?m] ! j" by (auto simp: in_set_conv_nth)
      show ?thesis
      proof (cases "j = i")
        case True
        then have m: "m = ?m" using j by simp
        then have "topic_key_of m = ?k" using i by simp
        moreover have "\<exists>h' \<in> set (hs @ [h]). nh_topic h' = nh_topic m" using ok mi m by auto
        ultimately show ?thesis using new m by simp
      next
        case False
        then have m: "m = merged ! j" "m \<in> set merged" using j by auto
        have "distinct (map topic_key_of merged)" using ok by blast
        then have "topic_key_of m \<noteq> ?k" using False m(1) j(1) i by (metis distinct_conv_nth length_map nth_map)
        with ok m(2) show ?thesis by auto
      qed
    qed
    moreover have "distinct (map topic_key_of (merged[i := ?m]))" using ok unfolding same by blast
    ultimately show ?thesis
      using keys' ok unfolding merge_ok_def step fst_conv snd_conv by auto
  qed
qed

lemma merge_highlights_ok:
  assumes "list_all (\<lambda>h. list_all (stable_url api) (nh_citations h)) hs"
  shows "merge_ok api hs (foldl (merge_step api) ([], []) hs)"
  using assms
proof (induction hs rule: rev_induct)
  case Nil
  then show ?case by (simp add: merge_ok_def)
next
  case (snoc h hs)
  then show ?case using merge_step_ok [of api hs _ h] by simp
qed

subsection \<open>Scopes come from the request\<close>

definition topic_urls :: "url_api \<Rightarrow> brief_evidence_record summary_topic \<Rightarrow> string list" where
  "topic_urls api t = dedupe_canonical_brief_evidence_urls api (map be_url (st_evidence t))"

definition scope_of :: "url_api \<Rightarrow> brief_evidence_record summary_topic \<Rightarrow> topic_evidence_scope" where
  "scope_of api t =
     \<lparr>sc_canonical_topic = trim (st_topic t), sc_normalized_topic = normalize_topic_key (trim (st_topic t)),
      sc_top_level_group = get_top_level_topic_group (normalize_topic_key (trim (st_topic t))), sc_evidence_urls = topic_urls api t\<rparr>"

lemma normalize_topic_key_trim [simp]: "normalize_topic_key (trim s) = normalize_topic_key s"
  by (simp add: normalize_topic_key_def)

lemma build_scopes_eq:
  "build_topic_evidence_scopes api rq = foldl (\<lambda>m t. om_set m (normalize_topic_key (st_topic t)) (scope_of api t)) [] (rq_topics rq)"
  by (simp add: build_topic_evidence_scopes_def scope_of_def topic_urls_def Let_def)

lemma scopes_fold:
  "om_ok (foldl (\<lambda>m t. om_set m (normalize_topic_key (st_topic t)) (scope_of api t)) [] ts) \<and>
   (\<forall>k sc. map_of (foldl (\<lambda>m t. om_set m (normalize_topic_key (st_topic t)) (scope_of api t)) [] ts) k = Some sc \<longrightarrow>
      (\<exists>t \<in> set ts. k = normalize_topic_key (st_topic t) \<and> sc = scope_of api t)) \<and>
   (distinct (map (normalize_topic_key \<circ> st_topic) ts) \<longrightarrow>
      (\<forall>t \<in> set ts. map_of (foldl (\<lambda>m t. om_set m (normalize_topic_key (st_topic t)) (scope_of api t)) [] ts)
         (normalize_topic_key (st_topic t)) = Some (scope_of api t)))"
proof (induction ts rule: rev_induct)
  case (snoc t ts)
  then show ?case by (auto simp: map_of_om_set image_iff)
qed simp

lemma scope_in_request:
  assumes "map_of (build_topic_evidence_scopes api rq) k = Some sc"
  shows "\<exists>t \<in> set (rq_topics rq). k = normalize_topic_key (st_topic t) \<and> sc = scope_of api t"
  using assms scopes_fold [of api "rq_topics rq"] unfolding build_scopes_eq by blast

lemma scope_of_topic:
  assumes "distinct (map (normalize_topic_key \<circ> st_topic) (rq_topics rq))" and "t \<in> set (rq_topics rq)"
  shows "map_of (build_topic_evidence_scopes api rq) (normalize_topic_key (st_topic t)) = Some (scope_of api t)"
  using assms scopes_fold [of api "rq_topics rq"] unfolding build_scopes_eq by blast

lemma overlap_pos: "count_scope_citation_overlap sc cs > 0 \<longleftrightarrow> (\<exists>c \<in> set cs. c \<in> set (sc_evidence_urls sc))"
proof -
  have "foldl (\<lambda>n c. n + (if c \<in> set (sc_evidence_urls sc) then 1 else 0)) k cs = k + length (filter (\<lambda>c. c \<in> set (sc_evidence_urls sc)) cs)" for k
    by (induction cs arbitrary: k) auto
  then show ?thesis by (simp add: count_scope_citation_overlap_def filter_empty_conv)
qed

definition best_scope :: "string list \<Rightarrow> topic_evidence_scope list \<Rightarrow> topic_evidence_scope option \<times> nat \<times> bool \<Rightarrow> bool" where
  "best_scope cs scs best \<longleftrightarrow>
     (case fst best of
        None \<Rightarrow> fst (snd best) = 0 \<and> list_all (\<lambda>sc. count_scope_citation_overlap sc cs = 0) scs
      | Some sc \<Rightarrow> sc \<in> set scs \<and> fst (snd best) = count_scope_citation_overlap sc cs \<and> fst (snd best) > 0)"

lemma better_scope_best: "best_scope cs scs best \<Longrightarrow> best_scope cs (scs @ [sc]) (better_scope g cs best sc)"
  by (cases best) (auto simp: best_scope_def better_scope_def Let_def split: option.splits)

lemma best_scope_fold: "best_scope cs scs (foldl (better_scope g cs) (None, 0, False) scs)"
proof (induction scs rule: rev_induct)
  case Nil
  then show ?case by (simp add: best_scope_def)
next
  case (snoc sc scs)
  then show ?case by (simp add: better_scope_best)
qed

lemma resolve_scope:
  assumes "om_ok scopes"
  shows "(case resolve_grounded_topic_scope scopes k cs of
       None \<Rightarrow> \<forall>k' sc. map_of scopes k' = Some sc \<longrightarrow> set cs \<inter> set (sc_evidence_urls sc) = {}
     | Some sc \<Rightarrow> (\<exists>k'. map_of scopes k' = Some sc) \<and> set cs \<inter> set (sc_evidence_urls sc) \<noteq> {})"
proof -
  have mem: "sc \<in> set (map snd scopes) \<longleftrightarrow> (\<exists>k'. map_of scopes k' = Some sc)" for sc
    using assms by (metis (no_types, lifting) image_iff list.set_map map_of_SomeD map_of_is_SomeI prod.collapse snd_conv)
  have pos: "count_scope_citation_overlap sc cs > 0 \<longleftrightarrow> set cs \<inter> set (sc_evidence_urls sc) \<noteq> {}" for sc
    using overlap_pos by blast
  define best where "best = fst (foldl (better_scope (get_top_level_topic_group k) cs) (None, 0, False) (map snd scopes))"
  have b: "case best of
        None \<Rightarrow> \<forall>sc \<in> set (map snd scopes). \<not> count_scope_citation_overlap sc cs > 0
      | Some sc \<Rightarrow> sc \<in> set (map snd scopes) \<and> count_scope_citation_overlap sc cs > 0"
    using best_scope_fold [of cs "map snd scopes" "get_top_level_topic_group k"]
    unfolding best_def best_scope_def list_all_iff by (auto split: option.splits)
  have r: "resolve_grounded_topic_scope scopes k cs =
      (case map_of scopes k of
         Some declared \<Rightarrow> if count_scope_citation_overlap declared cs > 0 then Some declared else best
       | None \<Rightarrow> best)"
    unfolding resolve_grounded_topic_scope_def best_def [symmetric] by (simp add: Let_def)
  show ?thesis
  proof (cases "resolve_grounded_topic_scope scopes k cs")
    case None
    then have nb: "best = None" using r by (auto split: option.splits if_splits)
    have none: "\<not> count_scope_citation_overlap sc cs > 0" if "sc \<in> set (map snd scopes)" for sc
      using b that unfolding nb option.case by blast
    have "set cs \<inter> set (sc_evidence_urls sc) = {}" if "map_of scopes k' = Some sc" for k' sc
    proof -
      have "sc \<in> set (map snd scopes)" using mem [of sc] that by blast
      then show ?thesis using none pos by blast
    qed
    with None show ?thesis by simp
  next
    case (Some sc)
    then have "best = Some sc \<or> map_of scopes k = Some sc \<and> count_scope_citation_overlap sc cs > 0"
      using r by (auto split: option.splits if_splits)
    moreover have "(\<exists>k'. map_of scopes k' = Some sc) \<and> count_scope_citation_overlap sc cs > 0" if "best = Some sc"
      using b mem [of sc] unfolding that option.case by blast
    ultimately have "(\<exists>k'. map_of scopes k' = Some sc) \<and> count_scope_citation_overlap sc cs > 0" by blast
    with Some pos show ?thesis by simp
  qed
qed

subsection \<open>Grounded highlights\<close>

lemma set_evidence_urls: "set (create_evidence_url_set api rq) = (\<Union>t \<in> set (rq_topics rq). set (topic_urls api t))"
  by (auto simp: create_evidence_url_set_def topic_urls_def set_dedupe_canonical)

lemma om_ok_scopes: "om_ok (build_topic_evidence_scopes api rq)"
  using scopes_fold [of api "rq_topics rq"] unfolding build_scopes_eq by blast

lemma ground_highlight_scope:
  assumes "ground_highlight api E (build_topic_evidence_scopes api rq) h = Some h'"
  shows "\<exists>t \<in> set (rq_topics rq). map_of (build_topic_evidence_scopes api rq) (topic_key_of h') = Some (scope_of api t) \<and>
    nh_topic h' = trim (st_topic t) \<and> nh_citations h' \<noteq> [] \<and> set (nh_citations h') \<subseteq> set (topic_urls api t)"
proof -
  let ?cs = "filter_grounded_citations api (nh_citations h) E"
  obtain sc where sc: "resolve_grounded_topic_scope (build_topic_evidence_scopes api rq) (topic_key_of h) ?cs = Some sc"
    and h': "filter (\<lambda>c. c \<in> set (sc_evidence_urls sc)) ?cs \<noteq> []"
      "h' = h\<lparr>nh_topic := sc_canonical_topic sc, nh_citations := filter (\<lambda>c. c \<in> set (sc_evidence_urls sc)) ?cs\<rparr>"
    using assms by (auto simp: ground_highlight_def Let_def split: option.splits if_splits)
  obtain k where k: "map_of (build_topic_evidence_scopes api rq) k = Some sc"
    using resolve_scope [OF om_ok_scopes, of api rq ?cs "topic_key_of h"] sc by auto
  from scope_in_request [OF k] obtain t where t: "t \<in> set (rq_topics rq)" "k = normalize_topic_key (st_topic t)" "sc = scope_of api t"
    by blast
  show ?thesis
    using t k h' by (intro bexI [of _ t]) (auto simp: scope_of_def)
qed

lemma map_filter_set: "set (List.map_filter f xs) = {y. \<exists>x \<in> set xs. f x = Some y}"
  by (force simp: List.map_filter_def)

lemma enforced_merge:
  assumes "list_all (stable_url api) (create_evidence_url_set api rq)"
    and "hs' = filter (\<lambda>h. length (nh_citations h) > 0)
      (List.map_filter (ground_highlight api (create_evidence_url_set api rq) (build_topic_evidence_scopes api rq)) hs)"
  shows "merge_ok api hs' (foldl (merge_step api) ([], []) hs')"
proof (rule merge_highlights_ok)
  have "set (nh_citations h) \<subseteq> set (create_evidence_url_set api rq)" if "h \<in> set hs'" for h
  proof -
    from that obtain h0 where "ground_highlight api (create_evidence_url_set api rq) (build_topic_evidence_scopes api rq) h0 = Some h"
      unfolding assms(2) set_filter map_filter_set by blast
    from ground_highlight_scope [OF this] show ?thesis unfolding set_evidence_urls by blast
  qed
  with assms(1) show "list_all (\<lambda>h. list_all (stable_url api) (nh_citations h)) hs'"
    unfolding list_all_iff by blast
qed

text \<open>What is promised about the highlights of a request.\<close>

definition grounded_highlights :: "url_api \<Rightarrow> parsed_summary_request \<Rightarrow> normalized_highlight list \<Rightarrow> bool" where
  "grounded_highlights api rq out \<longleftrightarrow>
     out \<noteq> [] \<and> distinct (map (\<lambda>h. normalize_topic_key (nh_topic h)) out) \<and>
     list_all (\<lambda>h. nh_citations h \<noteq> [] \<and> distinct (nh_citations h) \<and>
       list_ex (\<lambda>t. nh_topic h = trim (st_topic t) \<and>
         set (nh_citations h) \<subseteq> set (dedupe_canonical_brief_evidence_urls api (map be_url (st_evidence t)))) (rq_topics rq)) out"

lemma enforced_highlights_grounded:
  assumes "enforce_grounded_highlights api rq hs = Inr out"
    and "list_all (stable_url api) (create_evidence_url_set api rq)"
  shows "grounded_highlights api rq out"
proof -
  let ?E = "create_evidence_url_set api rq" and ?S = "build_topic_evidence_scopes api rq"
  define hs' where "hs' = filter (\<lambda>h. length (nh_citations h) > 0) (List.map_filter (ground_highlight api ?E ?S) hs)"
  have out: "out \<noteq> []" "out = fst (foldl (merge_step api) ([], []) hs')"
    using assms(1) by (auto simp: enforce_grounded_highlights_def merge_highlights_by_topic_def Let_def hs'_def split: if_splits)
  note ok = enforced_merge [OF assms(2) hs'_def, unfolded merge_ok_def, folded out(2)]
  have scope: "\<exists>t \<in> set (rq_topics rq). map_of ?S (topic_key_of h) = Some (scope_of api t) \<and> nh_topic h = trim (st_topic t) \<and>
      nh_citations h \<noteq> [] \<and> set (nh_citations h) \<subseteq> set (topic_urls api t)" if h: "h \<in> set hs'" for h
  proof -
    from h obtain h0 where "ground_highlight api ?E ?S h0 = Some h"
      unfolding hs'_def set_filter map_filter_set by blast
    then show ?thesis by (rule ground_highlight_scope)
  qed
  have "nh_citations m \<noteq> [] \<and> distinct (nh_citations m) \<and>
      (\<exists>t \<in> set (rq_topics rq). nh_topic m = trim (st_topic t) \<and> set (nh_citations m) \<subseteq> set (topic_urls api t))"
    if m: "m \<in> set out" for m
  proof -
    let ?G = "{h \<in> set hs'. topic_key_of h = topic_key_of m}"
    from ok m obtain h where h: "h \<in> ?G" "nh_topic h = nh_topic m" by force
    have cites: "distinct (nh_citations m)" "set (nh_citations m) = (\<Union>h \<in> ?G. set (nh_citations h))" using ok m by auto
    from scope [of h] h obtain t where t: "t \<in> set (rq_topics rq)" "map_of ?S (topic_key_of m) = Some (scope_of api t)"
        "nh_topic m = trim (st_topic t)" "nh_citations h \<noteq> []" by auto
    have "set (nh_citations h') \<subseteq> set (topic_urls api t)" if "h' \<in> ?G" for h'
    proof -
      from that scope [of h'] obtain t' where "map_of ?S (topic_key_of m) = Some (scope_of api t')"
        "set (nh_citations h') \<subseteq> set (topic_urls api t')" by auto
      with t(2) show ?thesis by (simp add: scope_of_def)
    qed
    moreover have "set (nh_citations m) \<noteq> {}" using cites(2) h(1) t(4) by auto
    ultimately show ?thesis using cites t(1,3) by auto
  qed
  moreover have "distinct (map (\<lambda>h. normalize_topic_key (nh_topic h)) out)" using ok by blast
  ultimately show ?thesis
    using out(1) unfolding grounded_highlights_def topic_urls_def list_all_iff list_ex_iff by blast
qed

text \<open>
  C5. When canonicalising a URL of the evidence again does not change it, the highlights that are let through are one
  or more, one for each topic, each under the name of a topic of the request and with at least one citation, none
  twice, all of them URLs of the evidence of that very topic.
\<close>

theorem citations_are_grounded:
  assumes "enforce_grounded_highlights api rq hs = Inr out"
    and "list_all (stable_url api) (create_evidence_url_set api rq)"
  shows "out \<noteq> [] \<and> distinct (map (\<lambda>h. normalize_topic_key (nh_topic h)) out) \<and>
    list_all (\<lambda>h. nh_citations h \<noteq> [] \<and> distinct (nh_citations h) \<and>
      list_ex (\<lambda>t. nh_topic h = trim (st_topic t) \<and>
        set (nh_citations h) \<subseteq> set (dedupe_canonical_brief_evidence_urls api (map be_url (st_evidence t)))) (rq_topics rq)) out"
  by (rule enforced_highlights_grounded [OF assms, unfolded grounded_highlights_def])

text \<open>
  When the topics of the request differ in more than case, the highlights are refused exactly when none of them
  has a citation whose canonical form is a URL of the evidence.
\<close>

theorem highlights_refused_iff:
  assumes "distinct (map (normalize_topic_key \<circ> st_topic) (rq_topics rq))"
    and "list_all (stable_url api) (create_evidence_url_set api rq)"
  shows "isl (enforce_grounded_highlights api rq hs) \<longleftrightarrow>
    \<not> list_ex (\<lambda>h. filter_grounded_citations api (nh_citations h) (create_evidence_url_set api rq) \<noteq> []) hs"
proof -
  let ?E = "create_evidence_url_set api rq" and ?S = "build_topic_evidence_scopes api rq"
  define hs' where "hs' = filter (\<lambda>h. length (nh_citations h) > 0) (List.map_filter (ground_highlight api ?E ?S) hs)"
  have some: "ground_highlight api ?E ?S h = None \<longleftrightarrow> filter_grounded_citations api (nh_citations h) ?E = []" for h
  proof
    assume none: "ground_highlight api ?E ?S h = None"
    show "filter_grounded_citations api (nh_citations h) ?E = []"
    proof (rule ccontr)
      let ?cs = "filter_grounded_citations api (nh_citations h) ?E"
      assume ne: "?cs \<noteq> []"
      then obtain c where c: "c \<in> set ?cs" by (meson list.set_sel(1))
      then have "c \<in> set ?E" by (simp add: filter_grounded_citations_def)
      then obtain t where "t \<in> set (rq_topics rq)" "c \<in> set (topic_urls api t)" unfolding set_evidence_urls by blast
      with scope_of_topic [OF assms(1)] have "\<exists>k sc. map_of ?S k = Some sc \<and> c \<in> set (sc_evidence_urls sc)"
        by (fastforce simp: scope_of_def)
      with c have "resolve_grounded_topic_scope ?S (topic_key_of h) ?cs \<noteq> None"
        using resolve_scope [OF om_ok_scopes, of api rq ?cs "topic_key_of h"] by (auto split: option.splits)
      then obtain sc where sc: "resolve_grounded_topic_scope ?S (topic_key_of h) ?cs = Some sc" by blast
      then have "filter (\<lambda>c. c \<in> set (sc_evidence_urls sc)) ?cs \<noteq> []"
        using resolve_scope [OF om_ok_scopes, of api rq ?cs "topic_key_of h"] by (auto simp: filter_empty_conv)
      with ne sc none show False by (simp add: ground_highlight_def Let_def)
    qed
  qed (simp add: ground_highlight_def Let_def)
  have "hs' = [] \<longleftrightarrow> \<not> list_ex (\<lambda>h. filter_grounded_citations api (nh_citations h) ?E \<noteq> []) hs"
  proof -
    have "h' \<in> set hs' \<longleftrightarrow> (\<exists>h \<in> set hs. ground_highlight api ?E ?S h = Some h')" for h'
      using ground_highlight_scope [of api ?E rq _ h'] unfolding hs'_def set_filter map_filter_set by auto
    then have "hs' = [] \<longleftrightarrow> (\<forall>h \<in> set hs. ground_highlight api ?E ?S h = None)"
      by (metis (no_types, lifting) length_greater_0_conv length_pos_if_in_set list.set_intros(1) neq_Nil_conv not_None_eq)
    then show ?thesis by (simp add: some list_ex_iff)
  qed
  moreover have "fst (foldl (merge_step api) ([], []) hs') = [] \<longleftrightarrow> hs' = []"
    using enforced_merge [OF assms(2) hs'_def] by (auto simp: merge_ok_def)
  moreover have "filter_grounded_citations api cs [] = []" for cs by (simp add: filter_grounded_citations_def)
  moreover have "isl (enforce_grounded_highlights api rq hs) \<longleftrightarrow> ?E = [] \<or> fst (foldl (merge_step api) ([], []) hs') = []"
    by (simp add: enforce_grounded_highlights_def merge_highlights_by_topic_def Let_def hs'_def)
  ultimately show ?thesis by (auto simp: list_ex_iff)
qed

text \<open>The notes are let through unchanged, exactly when every URL in them that has a canonical form is of the evidence.\<close>

lemma notes_refused_iff:
  "isl (enforce_grounded_notes api rq body err) \<longleftrightarrow>
     \<not> set (extract_canonical_urls_from_text api body) \<subseteq> set (create_evidence_url_set api rq)"
  by (auto simp: enforce_grounded_notes_def Let_def filter_empty_conv)

lemma extract_urls_eq:
  "extract_canonical_urls_from_text api body =
     dedupe_canonical_brief_evidence_urls api (map (Some \<circ> strip_trailing_punctuation) (re_match_g notes_url_re body))"
  by (cases "re_match_g notes_url_re body")
    (simp_all add: extract_canonical_urls_from_text_def, simp add: dedupe_canonical_brief_evidence_urls_def)

definition grounded_notes :: "url_api \<Rightarrow> parsed_summary_request \<Rightarrow> string \<Rightarrow> bool" where
  "grounded_notes api rq body \<longleftrightarrow>
     list_all (\<lambda>u. case canonicalize_brief_evidence_url api (strip_trailing_punctuation u) of
       None \<Rightarrow> True
     | Some c \<Rightarrow> c \<in> set (create_evidence_url_set api rq)) (re_match_g notes_url_re body)"

lemma enforced_notes_grounded:
  assumes "enforce_grounded_notes api rq body err = Inr out"
  shows "out = body \<and> grounded_notes api rq body"
proof -
  have sub: "set (extract_canonical_urls_from_text api body) \<subseteq> set (create_evidence_url_set api rq)"
    using assms notes_refused_iff [of api rq body err] by simp
  have "c \<in> set (extract_canonical_urls_from_text api body)"
    if u: "u \<in> set (re_match_g notes_url_re body)" and c: "canonicalize_brief_evidence_url api (strip_trailing_punctuation u) = Some c" for u c
  proof -
    have "c \<noteq> []" "strip_trailing_punctuation u \<noteq> []"
      using c by (auto simp: canonicalize_brief_evidence_url_def normalize_optional_string_def normalize_http_url_def
          url_to_string_def Let_def split: option.splits if_splits)
    then show ?thesis
      using u c by (auto simp: extract_urls_eq set_dedupe_canonical truthy_def)
  qed
  with sub show ?thesis
    using assms by (auto simp: grounded_notes_def list_all_iff enforce_grounded_notes_def Let_def split: option.splits if_splits)
qed

text \<open>
  Notes that are let through are unchanged, and every URL found in them, without the punctuation behind it, is a
  URL of the evidence or one that has no canonical form.
\<close>

theorem notes_are_grounded:
  assumes "enforce_grounded_notes api rq body err = Inr out"
  shows "out = body \<and> list_all (\<lambda>u. case canonicalize_brief_evidence_url api (strip_trailing_punctuation u) of
       None \<Rightarrow> True
     | Some c \<Rightarrow> c \<in> set (create_evidence_url_set api rq)) (re_match_g notes_url_re body)"
  by (rule enforced_notes_grounded [OF assms, unfolded grounded_notes_def])

subsection \<open>Examples\<close>

text \<open>A parser that knows three texts.\<close>

definition public_url :: url where
  "public_url = \<lparr>protocol = ''https:'', credentials = [], hostname = ''example.org'', port = [], pathname = ''/a'',
     query = None, fragment = None\<rparr>"

definition demo_api :: url_api where
  "demo_api = sample_api\<lparr>url_parse := (\<lambda>s. if s = ''https://example.org/a'' then Some public_url
     else if s = ''https://example.org/a/'' then Some (public_url\<lparr>pathname := ''/a/''\<rparr>)
     else if s = ''http://10.0.0.1/x'' then Some (metadata_url\<lparr>hostname := ''10.0.0.1'', pathname := ''/x''\<rparr>) else None)\<rparr>"

definition demo_grounding_request :: parsed_summary_request where
  "demo_grounding_request = demo_parsed\<lparr>rq_topics := [\<lparr>st_topic = ''AI '', st_metrics = [],
       st_evidence = [\<lparr>be_event_id = ''e1'', be_source = Canonical Rss, be_url = Some ''https://example.org/a/'', be_title = None,
         be_published_at = None, be_fetched_at = None, be_text_excerpt = None, be_suspicious_pattern = None\<rparr>]\<rparr>]\<rparr>"

definition demo_highlight :: "string \<Rightarrow> normalized_highlight" where
  "demo_highlight c = \<lparr>nh_topic = ''ml'', nh_what_happened = ''x'', nh_why_it_matters = ''y'', nh_suggested_action = ''z'', nh_citations = [c]\<rparr>"

lemma demo_urls:
  "create_evidence_url_set demo_api demo_grounding_request = [''https://example.org/a'']"
  "stable_url demo_api ''https://example.org/a''"
  by code_simp+

theorem citations_are_grounded_witness:
  "enforce_grounded_highlights demo_api demo_grounding_request [demo_highlight ''https://example.org/a/''] =
     Inr [(demo_highlight ''https://example.org/a'')\<lparr>nh_topic := ''AI''\<rparr>] \<and>
   list_all (\<lambda>h. nh_citations h \<noteq> []) [(demo_highlight ''https://example.org/a'')\<lparr>nh_topic := ''AI''\<rparr>]"
proof -
  have *: "enforce_grounded_highlights demo_api demo_grounding_request [demo_highlight ''https://example.org/a/''] =
     Inr [(demo_highlight ''https://example.org/a'')\<lparr>nh_topic := ''AI''\<rparr>]" by code_simp
  have "list_all (stable_url demo_api) (create_evidence_url_set demo_api demo_grounding_request)" by (simp add: demo_urls)
  from citations_are_grounded [OF * this] * show ?thesis by simp
qed

theorem highlights_refused_iff_witness:
  "isl (enforce_grounded_highlights demo_api demo_grounding_request [demo_highlight ''https://example.com/'']) \<and>
   \<not> isl (enforce_grounded_highlights demo_api demo_grounding_request [demo_highlight ''https://example.org/a''])"
proof -
  have d: "distinct (map (normalize_topic_key \<circ> st_topic) (rq_topics demo_grounding_request))"
    by (simp add: demo_grounding_request_def)
  have st: "list_all (stable_url demo_api) (create_evidence_url_set demo_api demo_grounding_request)" by (simp add: demo_urls)
  have "filter_grounded_citations demo_api [''https://example.com/''] [''https://example.org/a''] = []"
    "filter_grounded_citations demo_api [''https://example.org/a''] [''https://example.org/a''] = [''https://example.org/a'']" by code_simp+
  then show ?thesis by (simp add: highlights_refused_iff [OF d st] demo_urls demo_highlight_def)
qed

theorem notes_are_grounded_witness:
  "list_all (\<lambda>u. case canonicalize_brief_evidence_url demo_api (strip_trailing_punctuation u) of None \<Rightarrow> True
     | Some c \<Rightarrow> c \<in> set (create_evidence_url_set demo_api demo_grounding_request)) (re_match_g notes_url_re ''https://example.org/a.'')"
proof -
  have "enforce_grounded_notes demo_api demo_grounding_request ''https://example.org/a.'' to_grounding_error = Inr ''https://example.org/a.''" by code_simp
  from notes_are_grounded [OF this] show ?thesis by simp
qed

text \<open>A URL of a private host has no canonical form, so it stays in the notes although no evidence has it.\<close>

lemma private_url_in_notes:
  "enforce_grounded_notes demo_api demo_grounding_request ''http://10.0.0.1/x'' err = Inr ''http://10.0.0.1/x''"
proof -
  have "extract_canonical_urls_from_text demo_api ''http://10.0.0.1/x'' = []" by code_simp
  then show ?thesis by (simp add: enforce_grounded_notes_def)
qed

text \<open>
  Where canonicalising again shortens a URL, the citation that is let through is no longer a URL of the evidence: the
  evidence here is known as \<open>https://example.org/a/\<close>, the form the citation has had in between.
\<close>

definition slashes_api :: url_api where
  "slashes_api = demo_api\<lparr>url_parse := (\<lambda>s. if s = ''https://example.org/a//'' then Some (public_url\<lparr>pathname := ''/a//''\<rparr>)
     else url_parse demo_api s)\<rparr>"

definition slashes_request :: parsed_summary_request where
  "slashes_request = demo_grounding_request\<lparr>rq_topics := map (\<lambda>t. t\<lparr>st_evidence := map (be_url_update (\<lambda>_. Some ''https://example.org/a//''))
     (st_evidence t)\<rparr>) (rq_topics demo_grounding_request)\<rparr>"

lemma citation_leaves_evidence:
  "map nh_citations (projr (enforce_grounded_highlights slashes_api slashes_request [demo_highlight ''https://example.org/a//'']))
     = [[''https://example.org/a'']]"
  "create_evidence_url_set slashes_api slashes_request = [''https://example.org/a/'']"
  by code_simp+

end
