(* ===== verification/BriefHealth.thy ===== *)
theory BriefHealth
  imports Health
begin

section \<open>Metrics and health of the brief service (apps/brief/src/health.ts)\<close>

text \<open>
  The counters and histograms of a generation, the flags of the three dependencies and the text format. The clock
  and the printing of a number are arguments; the HTTP server is not modelled.
\<close>

datatype generation_status = GenSuccess | GenFailure | GenSkipped

definition generation_statuses :: "generation_status list" where
  "generation_statuses = [GenSuccess, GenFailure, GenSkipped]"

fun generation_name :: "generation_status \<Rightarrow> string" where
  "generation_name GenSuccess = ''success''"
| "generation_name GenFailure = ''failure''"
| "generation_name GenSkipped = ''skipped''"

datatype token_direction = InputTokens | OutputTokens

definition token_directions :: "token_direction list" where
  "token_directions = [InputTokens, OutputTokens]"

fun direction_name :: "token_direction \<Rightarrow> string" where
  "direction_name InputTokens = ''input''"
| "direction_name OutputTokens = ''output''"

definition llm_duration_buckets_seconds :: "rat list" where
  "llm_duration_buckets_seconds = [1, 5, 10, 30, 60, 120, 300]"

record brief_metrics =
  bm_generation :: "(generation_status, nat) omap"
  bm_generation_duration :: histogram_state
  bm_duplicates_skipped :: nat
  bm_budget_remaining_usd :: rat
  bm_budget_exceeded :: nat
  bm_suspicious_content :: nat
  bm_llm_tokens :: "(token_direction, nat) omap"
  bm_llm_cost_usd_total :: rat
  bm_highlights_count :: histogram_state
  bm_citations_count :: histogram_state
  bm_errors :: "(string, nat) omap"

record brief_health =
  bh_start_time :: int
  bh_kafka_healthy :: bool
  bh_postgres_healthy :: bool
  bh_redis_healthy :: bool
  bh_metrics :: brief_metrics

definition brief_create_health_context :: "int \<Rightarrow> rat \<Rightarrow> brief_health" where
  "brief_create_health_context now initial_budget_usd =
     \<lparr>bh_start_time = now, bh_kafka_healthy = False, bh_postgres_healthy = False, bh_redis_healthy = False,
      bh_metrics = \<lparr>bm_generation = [], bm_generation_duration = create_histogram llm_duration_buckets_seconds,
        bm_duplicates_skipped = 0, bm_budget_remaining_usd = initial_budget_usd, bm_budget_exceeded = 0,
        bm_suspicious_content = 0, bm_llm_tokens = [], bm_llm_cost_usd_total = 0,
        bm_highlights_count = create_histogram count_buckets, bm_citations_count = create_histogram count_buckets,
        bm_errors = []\<rparr>\<rparr>"

definition brief_upd :: "(brief_metrics \<Rightarrow> brief_metrics) \<Rightarrow> brief_health \<Rightarrow> brief_health" where
  "brief_upd f c = c\<lparr>bh_metrics := f (bh_metrics c)\<rparr>"

definition add_count :: "'k \<Rightarrow> nat \<Rightarrow> ('k, nat) omap \<Rightarrow> ('k, nat) omap" where
  "add_count k n m = om_set m k (om_get 0 m k + n)"

definition increment_generation :: "generation_status \<Rightarrow> brief_health \<Rightarrow> brief_health" where
  "increment_generation st = brief_upd (\<lambda>m. m\<lparr>bm_generation := add_count st 1 (bm_generation m)\<rparr>)"

definition observe_generation_duration :: "rat \<Rightarrow> brief_health \<Rightarrow> brief_health" where
  "observe_generation_duration v =
     brief_upd (\<lambda>m. m\<lparr>bm_generation_duration := observe_histogram (bm_generation_duration m) v\<rparr>)"

definition increment_duplicates_skipped :: "brief_health \<Rightarrow> brief_health" where
  "increment_duplicates_skipped = brief_upd (\<lambda>m. m\<lparr>bm_duplicates_skipped := bm_duplicates_skipped m + 1\<rparr>)"

definition set_budget_remaining_usd :: "rat \<Rightarrow> brief_health \<Rightarrow> brief_health" where
  "set_budget_remaining_usd v = brief_upd (\<lambda>m. m\<lparr>bm_budget_remaining_usd := v\<rparr>)"

definition increment_budget_exceeded :: "brief_health \<Rightarrow> brief_health" where
  "increment_budget_exceeded = brief_upd (\<lambda>m. m\<lparr>bm_budget_exceeded := bm_budget_exceeded m + 1\<rparr>)"

definition increment_suspicious_content :: "brief_health \<Rightarrow> brief_health" where
  "increment_suspicious_content = brief_upd (\<lambda>m. m\<lparr>bm_suspicious_content := bm_suspicious_content m + 1\<rparr>)"

definition increment_llm_tokens :: "token_direction \<Rightarrow> nat \<Rightarrow> brief_health \<Rightarrow> brief_health" where
  "increment_llm_tokens d n = brief_upd (\<lambda>m. m\<lparr>bm_llm_tokens := add_count d n (bm_llm_tokens m)\<rparr>)"

definition increment_llm_cost_usd :: "rat \<Rightarrow> brief_health \<Rightarrow> brief_health" where
  "increment_llm_cost_usd v = brief_upd (\<lambda>m. m\<lparr>bm_llm_cost_usd_total := bm_llm_cost_usd_total m + v\<rparr>)"

definition observe_highlights_count :: "nat \<Rightarrow> brief_health \<Rightarrow> brief_health" where
  "observe_highlights_count n = brief_upd (\<lambda>m. m\<lparr>bm_highlights_count := observe_histogram (bm_highlights_count m) (of_nat n)\<rparr>)"

definition observe_citations_count :: "nat \<Rightarrow> brief_health \<Rightarrow> brief_health" where
  "observe_citations_count n = brief_upd (\<lambda>m. m\<lparr>bm_citations_count := observe_histogram (bm_citations_count m) (of_nat n)\<rparr>)"

definition brief_increment_error :: "string \<Rightarrow> brief_health \<Rightarrow> brief_health" where
  "brief_increment_error error_type = brief_upd (\<lambda>m. m\<lparr>bm_errors := add_count error_type 1 (bm_errors m)\<rparr>)"

record brief_health_status =
  bs_healthy :: bool
  bs_kafka_ok :: bool
  bs_postgres_ok :: bool
  bs_redis_ok :: bool
  bs_uptime_seconds :: int

definition brief_is_ready :: "brief_health \<Rightarrow> bool" where
  "brief_is_ready ctx \<longleftrightarrow> bh_kafka_healthy ctx \<and> bh_postgres_healthy ctx \<and> bh_redis_healthy ctx"

definition brief_get_health_status :: "int \<Rightarrow> brief_health \<Rightarrow> brief_health_status" where
  "brief_get_health_status now ctx =
     \<lparr>bs_healthy = (bh_kafka_healthy ctx \<and> bh_postgres_healthy ctx \<and> bh_redis_healthy ctx),
      bs_kafka_ok = bh_kafka_healthy ctx, bs_postgres_ok = bh_postgres_healthy ctx, bs_redis_ok = bh_redis_healthy ctx,
      bs_uptime_seconds = (now - bh_start_time ctx) div 1000\<rparr>"

definition metric_header :: "string \<Rightarrow> string \<Rightarrow> string \<Rightarrow> string list" where
  "metric_header name help kind = [''# HELP '' @ name @ '' '' @ help, ''# TYPE '' @ name @ '' '' @ kind]"

definition brief_format_metrics :: "(rat \<Rightarrow> string) \<Rightarrow> int \<Rightarrow> brief_health \<Rightarrow> string" where
  "brief_format_metrics num_str now ctx =
     (let m = bh_metrics ctx;
          labelled = (\<lambda>name label v n. name @ ''{'' @ label @ ''='' @ [CHR 0x22] @ v @ [CHR 0x22] @ ''} '' @ nat_str n);
          ls = metric_header ''ri_brief_generation_total'' ''Brief generation attempts by status'' ''counter'' @
               map (\<lambda>st. labelled ''ri_brief_generation_total'' ''status'' (generation_name st) (om_get 0 (bm_generation m) st))
                 generation_statuses @
               format_histogram num_str ''ri_brief_generation_duration_seconds'' ''Brief generation duration in seconds''
                 (bm_generation_duration m) [] True @
               metric_header ''ri_brief_duplicates_skipped_total'' ''Duplicate summary requests skipped'' ''counter'' @
               [''ri_brief_duplicates_skipped_total '' @ nat_str (bm_duplicates_skipped m)] @
               metric_header ''ri_brief_budget_remaining_usd'' ''Remaining daily budget in USD'' ''gauge'' @
               [''ri_brief_budget_remaining_usd '' @ num_str (bm_budget_remaining_usd m)] @
               metric_header ''ri_brief_budget_exceeded_total'' ''Summary requests skipped due to budget'' ''counter'' @
               [''ri_brief_budget_exceeded_total '' @ nat_str (bm_budget_exceeded m)] @
               metric_header ''ri_brief_suspicious_content_total'' ''Evidence excerpts flagged as prompt-like'' ''counter'' @
               [''ri_brief_suspicious_content_total '' @ nat_str (bm_suspicious_content m)] @
               metric_header ''ri_brief_llm_tokens_total'' ''LLM tokens by direction'' ''counter'' @
               map (\<lambda>d. labelled ''ri_brief_llm_tokens_total'' ''direction'' (direction_name d) (om_get 0 (bm_llm_tokens m) d))
                 token_directions @
               metric_header ''ri_brief_llm_cost_usd_total'' ''Estimated LLM cost in USD'' ''counter'' @
               [''ri_brief_llm_cost_usd_total '' @ num_str (bm_llm_cost_usd_total m)] @
               format_histogram num_str ''ri_brief_highlights_count'' ''Highlights per generated brief'' (bm_highlights_count m) [] True @
               format_histogram num_str ''ri_brief_citations_count'' ''Citations per generated brief'' (bm_citations_count m) [] True @
               metric_header ''ri_brief_errors_total'' ''Errors by category'' ''counter'' @
               map (\<lambda>(k, n). labelled ''ri_brief_errors_total'' ''error_type'' (quote_metric_label_value k) n) (bm_errors m) @
               metric_header ''ri_brief_up'' ''1 when service dependencies are healthy'' ''gauge'' @
               [''ri_brief_up '' @ (if bs_healthy (brief_get_health_status now ctx) then ''1'' else ''0'')]
      in join [CHR 0x0A] ls @ [CHR 0x0A])"

lemma om_get_add_count [simp]: "om_get 0 (add_count k n m) k' = (if k' = k then om_get 0 m k + n else om_get 0 m k')"
  by (simp add: add_count_def om_get_om_set)

lemma ready_iff_healthy: "brief_is_ready ctx \<longleftrightarrow> bs_healthy (brief_get_health_status now ctx)"
  by (simp add: brief_is_ready_def brief_get_health_status_def)

end
