(* ===== verification/Generation.thy ===== *)
theory Generation
  imports Grounding BriefHealth
begin

section \<open>Generating a brief (apps/brief/src/llm/generation-facade.ts, result-payload-adapter.ts)\<close>

text \<open>
  The three ways to make a brief: rules without a model, a model behind HTTP, a model behind a command line tool; and
  what is done with the answer of a model before it becomes a result. Parameters: the two models, the printer of JSON,
  the formatter of dates, the schema of an answer (whose first issue is reported) and the URL parser. The state holds
  the metrics, the cache of compiled topic matchers and the outside world.
\<close>

subsection \<open>Results\<close>

record brief_meta =
  mta_provider :: string
  mta_model :: string
  mta_input_tokens :: nat
  mta_output_tokens :: nat
  mta_estimated_cost_usd :: rat

record brief_body =
  bb_brief_id :: string
  bb_generated_at :: string
  bb_window :: int
  bb_title :: string
  bb_highlights :: "normalized_highlight list"
  bb_notes :: string
  bb_meta :: brief_meta

record brief_failure =
  bf_error_code :: string
  bf_error_message :: string
  bf_retryable :: bool

record brief_result_payload =
  rp_request_id :: string
  rp_produced_at :: string
  rp_brief :: "brief_body option"
  rp_failure :: "brief_failure option"

definition build_failure_brief_result_payload :: "string \<Rightarrow> int \<Rightarrow> string \<Rightarrow> string \<Rightarrow> bool \<Rightarrow> brief_result_payload" where
  "build_failure_brief_result_payload request_id produced_at code msg retryable =
     \<lparr>rp_request_id = request_id, rp_produced_at = to_iso_string produced_at, rp_brief = None,
      rp_failure = Some \<lparr>bf_error_code = code, bf_error_message = msg, bf_retryable = retryable\<rparr>\<rparr>"

record result_metrics =
  rm_highlights_count :: nat
  rm_citations_count :: nat
  rm_input_tokens :: nat
  rm_output_tokens :: nat
  rm_cost_usd :: rat

record success_result =
  sr_payload :: brief_result_payload
  sr_metrics :: result_metrics

subsection \<open>Costs and tokens\<close>

text \<open>\<open>Number(value.toFixed(n))\<close>: the nearest multiple, the one further from zero in the middle.\<close>

definition to_fixed :: "nat \<Rightarrow> rat \<Rightarrow> rat" where
  "to_fixed n x = (let m = of_int \<lfloor>\<bar>x\<bar> * 10 ^ n + 1 / 2\<rfloor> / 10 ^ n in if x < 0 then - m else m)"

definition estimate_token_count :: "string \<Rightarrow> nat" where
  "estimate_token_count s = max 1 ((length s + 3) div 4)"

definition estimate_request_cost_usd :: "parsed_summary_request \<Rightarrow> rat" where
  "estimate_request_cost_usd rq =
     (let evidence_count = foldl (\<lambda>n t. n + length (st_evidence t)) 0 (rq_topics rq) in
      to_fixed 4 (1 / 100 + of_nat (length (rq_topics rq)) * (2 / 1000) + of_nat evidence_count * (5 / 10000)))"

text \<open>Amounts are finite.\<close>

definition normalize_usd :: "rat \<Rightarrow> rat" where
  "normalize_usd x = (if x \<le> 0 then 0 else to_fixed 6 x)"

definition normalize_usd_delta :: "rat \<Rightarrow> rat" where
  "normalize_usd_delta x = (let rounded = to_fixed 6 x in if rounded = 0 then 0 else rounded)"

subsection \<open>State\<close>

record 'w brief_state =
  bst_health :: brief_health
  bst_matchers :: matcher_cache
  bst_world :: 'w

type_synonym ('w, 'a) beff = "('w brief_state, brief_error, 'a) eff"

definition upd_health :: "(brief_health \<Rightarrow> brief_health) \<Rightarrow> ('w, unit) beff" where
  "upd_health f = eff_upd (\<lambda>s. s\<lparr>bst_health := f (bst_health s)\<rparr>)"

definition on_world :: "('w, 'e, 'a) eff \<Rightarrow> ('w brief_state, 'e, 'a) eff" where
  "on_world m s = (case m (bst_world s) of (x, w) \<Rightarrow> (x, s\<lparr>bst_world := w\<rparr>))"

definition on_matchers :: "(matcher_cache, js_fault, 'a) eff \<Rightarrow> ('w, 'a) beff" where
  "on_matchers m s = (case m (bst_matchers s) of (x, c) \<Rightarrow> (map_sum FaultError id x, s\<lparr>bst_matchers := c\<rparr>))"

text \<open>What the code uses of its surroundings; an issue of the schema is a path and a message.\<close>

type_synonym schema_issue = "string list \<times> string"

record llm_meta =
  lm_provider :: "string option"
  lm_model :: "string option"
  lm_estimated_cost_usd :: "rat option"

record llm_response =
  lr_title :: string
  lr_highlights :: "normalized_highlight list"
  lr_notes :: "string option"
  lr_usage :: "(nat \<times> nat) option"
  lr_meta :: "llm_meta option"

record http_response =
  ht_ok :: bool
  ht_status :: nat
  ht_text :: "string + string"
  ht_json :: "string option + (schema_issue option + llm_response)"

record gen_config =
  cf_llm_provider :: string
  cf_llm_codex_model :: string
  cf_llm_daily_budget_usd :: rat

record 'w gen_env =
  ge_api :: url_api
  ge_config :: gen_config
  ge_fetch :: "summary_request_payload \<Rightarrow> ('w, string option, http_response) eff"
  ge_codex :: "string \<Rightarrow> ('w, string option, schema_issue option + llm_response) eff"
  ge_json_request :: "parsed_summary_request \<Rightarrow> string"
  ge_json_highlights :: "normalized_highlight list \<Rightarrow> string"
  ge_json_payload :: "summary_request_payload \<Rightarrow> string"
  ge_format_date :: "string \<Rightarrow> int \<Rightarrow> string option"

definition format_schema_issue :: "schema_issue option \<Rightarrow> string" where
  "format_schema_issue issue =
     (case issue of
        None \<Rightarrow> ''unknown validation error''
      | Some (path, msg) \<Rightarrow>
          let p = (if length path > 0 then join ''.'' path else []) in if p \<noteq> [] then p @ '': '' @ msg else msg)"

text \<open>The step before the schema: a provider or a model that is blank counts as missing.\<close>

definition optional_llm_meta_string :: "string option \<Rightarrow> string option" where
  "optional_llm_meta_string v =
     (case v of None \<Rightarrow> None | Some s \<Rightarrow> let n = trim s in if length n > 0 then Some n else None)"

definition parsed_llm_response :: "llm_response \<Rightarrow> llm_response" where
  "parsed_llm_response r = r\<lparr>lr_meta := map_option (\<lambda>m. m\<lparr>lm_provider := optional_llm_meta_string (lm_provider m),
     lm_model := optional_llm_meta_string (lm_model m)\<rparr>) (lr_meta r)\<rparr>"

subsection \<open>Shared builders\<close>

definition build_success_payload ::
  "parsed_summary_request \<Rightarrow> int \<Rightarrow> string \<Rightarrow> normalized_highlight list \<Rightarrow> string \<Rightarrow> string \<Rightarrow> string \<Rightarrow> nat \<Rightarrow> nat \<Rightarrow> rat \<Rightarrow>
   success_result" where
  "build_success_payload rq produced_at ttl hs nts provider model input_tokens output_tokens cost =
     (let win = (if rq_type rq = Own ''daily'' then 1 else 2);
          total_citations = foldl (\<lambda>n h. n + length (nh_citations h)) 0 hs in
      \<lparr>sr_payload = \<lparr>rp_request_id = rq_request_id rq, rp_produced_at = to_iso_string produced_at,
         rp_brief = Some \<lparr>bb_brief_id = ''brief:'' @ rq_request_id rq, bb_generated_at = to_iso_string produced_at,
           bb_window = win, bb_title = ttl, bb_highlights = hs, bb_notes = nts,
           bb_meta = \<lparr>mta_provider = provider, mta_model = model, mta_input_tokens = input_tokens,
             mta_output_tokens = output_tokens, mta_estimated_cost_usd = cost\<rparr>\<rparr>,
         rp_failure = None\<rparr>,
       sr_metrics = \<lparr>rm_highlights_count = length hs, rm_citations_count = total_citations,
         rm_input_tokens = input_tokens, rm_output_tokens = output_tokens, rm_cost_usd = cost\<rparr>\<rparr>)"

definition max_topics_of :: "parsed_summary_request \<Rightarrow> int option" where
  "max_topics_of rq = Option.bind (rq_budget rq) sb_max_topics"

definition resolve_highlight_limit :: "parsed_summary_request \<Rightarrow> int \<Rightarrow> int" where
  "resolve_highlight_limit rq available =
     (if rq_query rq \<noteq> None then available
      else (case max_topics_of rq of
          None \<Rightarrow> available
        | Some m \<Rightarrow> if m \<le> 0 then available else min m available))"

definition select_internal_fallback_topics ::
  "parsed_summary_request \<Rightarrow> int option \<Rightarrow> bool \<Rightarrow> brief_evidence_record summary_topic list" where
  "select_internal_fallback_topics rq preferred concise_query_mode =
     (let n = int (length (rq_topics rq));
          limit1 = resolve_highlight_limit rq n;
          limit2 = (if concise_query_mode \<and> rq_query rq \<noteq> None
            then (case max_topics_of rq of Some m \<Rightarrow> if m > 0 then min limit1 m else limit1 | None \<Rightarrow> limit1) else limit1);
          limit3 = (case preferred of Some p \<Rightarrow> if p > 0 then min limit2 p else limit2 | None \<Rightarrow> limit2)
      in take (nat (max 1 (min limit3 n))) (rq_topics rq))"

subsection \<open>Notes\<close>

definition format_report_date :: "(string \<Rightarrow> int \<Rightarrow> string option) \<Rightarrow> int option \<Rightarrow> string option \<Rightarrow> string option" where
  "format_report_date fmt value tz =
     (case value of
        None \<Rightarrow> None
      | Some t \<Rightarrow> (case fmt (default ''UTC'' tz) t of Some s \<Rightarrow> Some s | None \<Rightarrow> Some (to_iso_string t)))"

definition distinct_sentences :: "string list \<Rightarrow> nat \<Rightarrow> string \<Rightarrow> string" where
  "distinct_sentences vs limit fallback =
     (let candidates = map ensure_sentence_ending (filter (\<lambda>s. length s > 0) (map trim
            (concat (map (\<lambda>v. split_sentences [] (normalize_whitespace v)) vs))));
          deduped = js_set candidates in
      if length deduped = 0 then fallback else join '' '' (take limit deduped))"

definition notes_timeframe :: "(string \<Rightarrow> int \<Rightarrow> string option) \<Rightarrow> parsed_summary_request \<Rightarrow> string" where
  "notes_timeframe fmt rq =
     (let tz = Option.bind (rq_report rq) sp_timezone;
          start_text = format_report_date fmt (Option.bind (rq_report rq) sp_start_at) tz;
          end_at = default (rq_requested_at rq) (Option.bind (rq_report rq) sp_end_at);
          end_text = default (to_iso_string (rq_requested_at rq)) (format_report_date fmt (Some end_at) tz);
          lookback_days = Option.bind (rq_query rq) pq_lookback_days in
      case start_text of
        Some st \<Rightarrow> st @ '' through '' @ end_text
      | None \<Rightarrow> (case lookback_days of
            Some d \<Rightarrow> if d > 0 then ''the last '' @ int_str d @ '' day(s), ending '' @ end_text else ''up to '' @ end_text
          | None \<Rightarrow> ''up to '' @ end_text))"

definition derive_structured_notes ::
  "(string \<Rightarrow> int \<Rightarrow> string option) \<Rightarrow> parsed_summary_request \<Rightarrow> normalized_highlight list \<Rightarrow> string" where
  "derive_structured_notes fmt rq hs =
     (let tz = Option.bind (rq_report rq) sp_timezone;
          top_topics = map nh_topic (take 3 hs);
          top_topic_sentence = (if length top_topics > 0 then join '', '' top_topics
            else ''No dominant topics were confidently grounded'');
          landscape = (if length hs > 0
            then map (\<lambda>h. ''- **'' @ nh_topic h @ ''**: '' @ nh_why_it_matters h) (take 3 hs)
            else [''- Limited coverage: no grounded highlights were produced for this request.'']);
          risk = distinct_sentences (map nh_why_it_matters hs) 2 ''No grounded risk signals were available in this run.'';
          execution = distinct_sentences (map nh_suggested_action hs) 2
            ''No grounded execution actions were available in this run.'';
          outlook = (if length top_topics > 0
            then ''Near-term execution focus is likely to remain on '' @ top_topic_sentence @
              '' as teams operationalize the cited changes.''
            else ''Collect additional grounded evidence before setting near-term outlook assumptions.'')
      in join [CHR 0x0A]
        ([''# State of Signals and Where They're Going'', [], ''## Method and scope'',
          ''This report summarizes topic-level evidence gathered over '' @ notes_timeframe fmt rq @
            (if truthy tz then '' ('' @ the tz @ '')'' else []) @ ''.'',
          [], ''## Dominant shifts'',
          ''Current signals are clustering around '' @ top_topic_sentence @
            '', with emphasis on concrete operational and platform updates.'',
          [], ''## Topic landscape''] @ landscape @
         [[], ''## Risk and governance'', risk, [], ''## Execution and economics'', execution, [], ''## Outlook'', outlook]))"

definition append_coverage_warnings :: "string \<Rightarrow> parsed_summary_request \<Rightarrow> string" where
  "append_coverage_warnings nts rq =
     (case rq_coverage_warnings rq of
        None \<Rightarrow> nts
      | Some ws \<Rightarrow>
          if length ws = 0 then nts
          else
            let warnings_text = ''Coverage Note: '' @ join '' '' ws in
            if nts \<noteq> [] then nts @ [CHR 0x0A, CHR 0x0A] @ warnings_text else warnings_text)"

subsection \<open>Without a model\<close>

definition internal_highlights ::
  "url_api \<Rightarrow> parsed_summary_request \<Rightarrow> brief_evidence_record summary_topic list \<Rightarrow> ('w, normalized_highlight list) beff" where
  "internal_highlights api rq topics =
     eff_bind (on_matchers (eff_map (build_internal_highlight api) topics)) (\<lambda>hs.
     eff_of (enforce_grounded_highlights api rq hs))"

definition build_internal_success_result ::
  "'w gen_env \<Rightarrow> parsed_summary_request \<Rightarrow> int \<Rightarrow> rat \<Rightarrow> int option \<Rightarrow> bool \<Rightarrow> string \<Rightarrow> string \<Rightarrow> ('w, success_result) beff" where
  "build_internal_success_result env rq produced_at estimated_cost preferred concise_query_mode provider model =
     eff_bind (internal_highlights (ge_api env) rq (select_internal_fallback_topics rq preferred concise_query_mode)) (\<lambda>hs.
     let input_tokens = estimate_token_count (ge_json_request env rq);
         output_tokens = estimate_token_count (ge_json_highlights env hs) in
     eff_bind (eff_of (enforce_grounded_notes (ge_api env) rq
         (append_coverage_warnings (derive_structured_notes (ge_format_date env) rq hs) rq) to_grounding_error)) (\<lambda>nts.
     eff_ret (build_success_payload rq produced_at (''Trend Brief '' @ take 10 (to_iso_string produced_at)) hs nts
       provider model input_tokens output_tokens (normalize_usd estimated_cost))))"

subsection \<open>With a model\<close>

definition normalize_llm_meta_string :: "string option \<Rightarrow> string option" where
  "normalize_llm_meta_string v =
     (case map_option trim v of
        None \<Rightarrow> None
      | Some n \<Rightarrow>
          if n = [] then None
          else if to_lower n \<in> {''unknown'', ''n/a'', ''na'', ''none'', ''null'', ''unspecified''} then None
          else Some n)"

definition is_no_grounded_highlight_error :: "brief_error \<Rightarrow> bool" where
  "is_no_grounded_highlight_error e \<longleftrightarrow>
     (case e of
        NonRetryableProcessingError msg _ \<Rightarrow>
          msg = ''Brief generation produced no grounded highlights with valid evidence citations''
      | _ \<Rightarrow> False)"

definition is_codex_output_artifact_error :: "brief_error \<Rightarrow> bool" where
  "is_codex_output_artifact_error e \<longleftrightarrow>
     (case e of
        LlmGenerationError raw \<Rightarrow>
          let msg = to_lower raw;
              is_artifact_missing = (str_includes msg ''last-message.txt'' \<or> str_includes msg ''output file missing'') \<and>
                str_includes msg ''enoent'';
              is_temp_storage_failure =
                (str_includes msg ''enospc'' \<or> str_includes msg ''no space left on device'' \<or> str_includes msg ''eacces'' \<or>
                 str_includes msg ''permission denied'') \<and>
                (str_includes msg ''mkdtemp'' \<or> str_includes msg ''mkdir'' \<or> str_includes msg ''codex-tmp'' \<or> str_includes msg ''.tmp'')
          in str_includes msg ''codex cli request failed'' \<and> (is_artifact_missing \<or> is_temp_storage_failure)
      | _ \<Rightarrow> False)"

text \<open>The highlights of the answer, or those made without a model when none of them is grounded.\<close>

definition llm_highlights ::
  "url_api \<Rightarrow> parsed_summary_request \<Rightarrow> llm_response \<Rightarrow> ('w, normalized_highlight list \<times> bool) beff" where
  "llm_highlights api rq r =
     (let max_topics = resolve_highlight_limit rq (int (length (lr_highlights r)));
          hs = map (normalize_llm_highlight api) (take (nat max_topics) (lr_highlights r)) in
      case enforce_grounded_highlights api rq hs of
        Inr out \<Rightarrow> eff_ret (out, False)
      | Inl e \<Rightarrow>
          if \<not> is_no_grounded_highlight_error e then eff_throw e
          else eff_bind (internal_highlights api rq (select_internal_fallback_topics rq (Some (int (length hs))) True)) (\<lambda>out.
            eff_ret (out, True)))"

definition build_llm_backed_success_result ::
  "'w gen_env \<Rightarrow> parsed_summary_request \<Rightarrow> int \<Rightarrow> rat \<Rightarrow> llm_response \<Rightarrow> string \<Rightarrow> string \<Rightarrow> ('w, success_result) beff" where
  "build_llm_backed_success_result env rq produced_at estimated_cost r default_provider default_model =
     eff_bind (llm_highlights (ge_api env) rq r) (\<lambda>(hs, used_internal_fallback).
     let input_tokens = (case lr_usage r of Some u \<Rightarrow> fst u | None \<Rightarrow> estimate_token_count (ge_json_request env rq));
         output_tokens = (case lr_usage r of Some u \<Rightarrow> snd u | None \<Rightarrow> estimate_token_count (ge_json_highlights env hs));
         derived = derive_structured_notes (ge_format_date env) rq hs;
         own = default [] (map_option trim (lr_notes r));
         nts = (if used_internal_fallback then derived else if own \<noteq> [] then own else derived) in
     eff_bind (eff_of (enforce_grounded_notes (ge_api env) rq (append_coverage_warnings nts rq) to_grounding_error)) (\<lambda>nts'.
     let provider = (if used_internal_fallback then ''internal''
           else default default_provider (normalize_llm_meta_string (Option.bind (lr_meta r) lm_provider)));
         model = (if used_internal_fallback then ''rule-based-fallback-v1''
           else default default_model (normalize_llm_meta_string (Option.bind (lr_meta r) lm_model))) in
     eff_ret (build_success_payload rq produced_at (lr_title r) hs nts' provider model input_tokens output_tokens
       (normalize_usd (default estimated_cost (Option.bind (lr_meta r) lm_estimated_cost_usd))))))"

subsection \<open>Asking a model\<close>

definition evidence_input_of :: "brief_evidence_record \<Rightarrow> brief_evidence_input" where
  "evidence_input_of r =
     \<lparr>bi_event_id = be_event_id r, bi_source = source_value_of (be_source r), bi_url = be_url r, bi_title = be_title r,
      bi_published_at = map_option (\<lambda>t. DateObject (Some t)) (be_published_at r),
      bi_fetched_at = map_option (\<lambda>t. DateObject (Some t)) (be_fetched_at r),
      bi_text_excerpt = be_text_excerpt r, bi_suspicious_pattern = be_suspicious_pattern r\<rparr>"

definition request_input_of :: "parsed_summary_request \<Rightarrow> summary_request_input" where
  "request_input_of rq =
     \<lparr>sr_request_id = rq_request_id rq, sr_requested_at = DateObject (Some (rq_requested_at rq)), sr_type = rq_type rq,
      sr_windows = rq_windows rq,
      sr_topics = map (\<lambda>t. \<lparr>st_topic = st_topic t, st_metrics = st_metrics t, st_evidence = map evidence_input_of (st_evidence t)\<rparr>)
        (rq_topics rq),
      sr_budget = rq_budget rq,
      sr_query = map_option (\<lambda>q. \<lparr>sq_lookback_days = pq_lookback_days q, sq_topic_globs = pq_topic_globs q,
        sq_max_events_per_topic = pq_max_events_per_topic q, sq_evidence_strategy = pq_evidence_strategy q\<rparr>) (rq_query rq),
      sr_report = map_option (\<lambda>p. \<lparr>sp_timezone = sp_timezone p, sp_start_at = map_option (\<lambda>t. DateObject (Some t)) (sp_start_at p),
        sp_end_at = map_option (\<lambda>t. DateObject (Some t)) (sp_end_at p)\<rparr>) (rq_report rq)\<rparr>"

text \<open>The payload, with every suspicious piece of evidence counted, also when a later one makes it fail.\<close>

definition request_payload :: "url_api \<Rightarrow> parsed_summary_request \<Rightarrow> ('w, summary_request_payload) beff" where
  "request_payload api rq s =
     (case build_summary_request_payload \<lparr>date_value = (\<lambda>_. None), json_meta = (\<lambda>_. None :: unit json_meta option)\<rparr> api
         (request_input_of rq) [] of
        (x, ns) \<Rightarrow> (map_sum HandoffFailed id x,
          s\<lparr>bst_health := foldl (\<lambda>h _. increment_suspicious_content h) (bst_health s) ns\<rparr>))"

fun handoff_error_text :: "handoff_error \<Rightarrow> string" where
  "handoff_error_text InvalidRequestedAt = ''Invalid requested_at''"
| "handoff_error_text (EvidenceError (InvalidDate fld v)) = ''Invalid '' @ fld @ '': '' @ v"
| "handoff_error_text (EvidenceError (BadSource (UnsupportedEnum n))) = ''Unsupported source enum: '' @ int_str n"
| "handoff_error_text (EvidenceError (BadSource (UnsupportedValue v))) = ''Unsupported source value: '' @ v"
| "handoff_error_text (EvidenceError (BadSource (SourceNotText _))) = ''value.trim is not a function''"
| "handoff_error_text (EvidenceError _) = ''Invalid raw event''"

definition llm_error_text :: "string \<Rightarrow> string option \<Rightarrow> string" where
  "llm_error_text lead e = lead @ default ''unknown error'' e"

definition call_http_llm :: "'w gen_env \<Rightarrow> parsed_summary_request \<Rightarrow> ('w, llm_response) beff" where
  "call_http_llm env rq s =
     (case request_payload (ge_api env) rq s of
        (Inl e, s1) \<Rightarrow> (Inl (LlmGenerationError (llm_error_text ''LLM endpoint request failed: ''
            (Some (case e of HandoffFailed h \<Rightarrow> handoff_error_text h | _ \<Rightarrow> [])))), s1)
      | (Inr p, s1) \<Rightarrow>
          (case on_world (ge_fetch env p) s1 of
             (Inl e, s2) \<Rightarrow> (Inl (LlmGenerationError (llm_error_text ''LLM endpoint request failed: '' e)), s2)
           | (Inr response, s2) \<Rightarrow>
               (if \<not> ht_ok response then
                  (case ht_text response of
                     Inl e \<Rightarrow> (Inl (ServiceError e), s2)
                   | Inr _ \<Rightarrow> (Inl (LlmGenerationError (''LLM endpoint returned HTTP '' @ nat_str (ht_status response))), s2))
                else (case ht_json response of
                    Inl e \<Rightarrow> (Inl (LlmGenerationError (llm_error_text ''LLM endpoint returned invalid JSON: '' e)), s2)
                  | Inr (Inl issue) \<Rightarrow> (Inl (LlmGenerationError (''LLM endpoint response validation failed: '' @ format_schema_issue issue)), s2)
                  | Inr (Inr r) \<Rightarrow> (Inr (parsed_llm_response r), s2)))))"

text \<open>The prompt of the command line tool; the sections before the request are fixed but for the three limits.\<close>

definition max_evidence_per_topic_of :: "parsed_summary_request \<Rightarrow> int" where
  "max_evidence_per_topic_of rq =
     (case Option.bind (rq_budget rq) sb_max_evidence_per_topic of
        Some m \<Rightarrow> m
      | None \<Rightarrow> int (Max (set (map (\<lambda>t. length (st_evidence t)) (rq_topics rq) @ [0]))))"

definition codex_prompt_sections :: "parsed_summary_request \<Rightarrow> string list" where
  "codex_prompt_sections rq =
     [''You are generating a human-readable engineering intelligence brief from a structured summary request.'',
      ''Use only the evidence included in SUMMARY_REQUEST_JSON. Do not invent facts or URLs.'',
      ''Trend metrics (score, volume, acceleration) are ranking inputs only. Do not repeat these numbers in highlights.'',
      ''Do not write phrases like '' @ [CHR 0x27] @ ''<topic> reached score ...'' @ [CHR 0x27] @
        ''. Summarize concrete events from evidence (releases, incidents, CVEs, deprecations, region/feature launches, policy/pricing changes).'',
      ''Each highlight must include concrete what_happened, why_it_matters, suggested_action, and citations.'',
      ''Do not emit duplicate topics in highlights. If multiple points map to the same topic, combine them into one highlight.'',
      ''Keep output concise and practical. Limit highlights to at most '' @
        int_str (resolve_highlight_limit rq (int (length (rq_topics rq)))) @
        '' and per-topic evidence references to at most '' @ int_str (max_evidence_per_topic_of rq) @ ''.'',
      ''Target no more than '' @ int_str (default 1200 (Option.bind (rq_budget rq) sb_max_output_tokens)) @ '' tokens in total output.'',
      ''Return valid JSON only with this shape:'',
      join [CHR 0x22]
        [''{ '', ''title'', '': string, '', ''highlights'', '': [{ '', ''topic'', '': string, '', ''what_happened'', '': string, '',
         ''why_it_matters'', '': string, '', ''suggested_action'', '': string, '', ''citations'', '': string[] }], '', ''notes'',
         '': string, '', ''usage'', '': { '', ''prompt_tokens'', '': number, '', ''completion_tokens'', '': number }, '', ''meta'',
         '': { '', ''provider'', '': string, '', ''model'', '': string, '', ''estimated_cost_usd'', '': number } }''],
      ''If usage or cost are unknown, set them to 0.'',
      ''If provider or model are unknown, omit those meta fields or set them to '' @ [CHR 0x27] @ ''unknown'' @ [CHR 0x27] @
        ''. Never use empty strings.'',
      ''STANDARD NOTES FORMAT (always required): Render notes as markdown using this structure in order:'',
      ''# State of Signals and Where They're Going'', ''## Method and scope'', ''## Dominant shifts'',
      ''## Topic landscape'', ''## Risk and governance'', ''## Execution and economics'', ''## Outlook'',
      ''If notes include URLs, every URL MUST come from the evidence in SUMMARY_REQUEST_JSON.'']"

definition build_codex_cli_prompt :: "'w gen_env \<Rightarrow> parsed_summary_request \<Rightarrow> ('w, string) beff" where
  "build_codex_cli_prompt env rq =
     eff_bind (request_payload (ge_api env) rq) (\<lambda>p.
     eff_ret (join [CHR 0x0A, CHR 0x0A] (codex_prompt_sections rq @
       [''SUMMARY_REQUEST_JSON:'' @ [CHR 0x0A] @ ge_json_payload env p])))"

definition call_codex_cli_llm :: "'w gen_env \<Rightarrow> parsed_summary_request \<Rightarrow> ('w, llm_response) beff" where
  "call_codex_cli_llm env rq =
     eff_bind (build_codex_cli_prompt env rq) (\<lambda>prompt s.
       (case on_world (ge_codex env prompt) s of
          (Inl e, s') \<Rightarrow> (Inl (LlmGenerationError (llm_error_text ''Codex CLI request failed: '' e)), s')
        | (Inr (Inl issue), s') \<Rightarrow> (Inl (LlmGenerationError (''Codex CLI response validation failed: '' @ format_schema_issue issue)), s')
        | (Inr (Inr r), s') \<Rightarrow> (Inr (parsed_llm_response r), s')))"

subsection \<open>The strategies\<close>

type_synonym 'w strategy = "parsed_summary_request \<Rightarrow> int \<Rightarrow> rat \<Rightarrow> ('w, success_result) beff"

definition internal_strategy :: "'w gen_env \<Rightarrow> 'w strategy" where
  "internal_strategy env rq produced_at estimated_cost =
     build_internal_success_result env rq produced_at estimated_cost None False ''internal'' ''rule-based-v1''"

definition http_strategy :: "'w gen_env \<Rightarrow> 'w strategy" where
  "http_strategy env rq produced_at estimated_cost =
     eff_bind (call_http_llm env rq) (\<lambda>r.
     build_llm_backed_success_result env rq produced_at estimated_cost r ''http'' ''http-v1'')"

definition codex_strategy :: "'w gen_env \<Rightarrow> 'w strategy" where
  "codex_strategy env rq produced_at estimated_cost =
     eff_catch
       (eff_bind (call_codex_cli_llm env rq) (\<lambda>r.
        let m = trim (cf_llm_codex_model (ge_config env)); default_model = (if m \<noteq> [] then m else ''codex-cli'') in
        build_llm_backed_success_result env rq produced_at estimated_cost r ''codex-cli'' default_model))
       (\<lambda>e. if \<not> is_codex_output_artifact_error e then eff_throw e
         else build_internal_success_result env rq produced_at estimated_cost (max_topics_of rq) True
           ''internal'' ''rule-based-fallback-v1'')"

definition llm_provider_strategies :: "'w gen_env \<Rightarrow> (string \<times> 'w strategy) list" where
  "llm_provider_strategies env =
     [(''internal'', internal_strategy env), (''http'', http_strategy env), (''codex-cli'', codex_strategy env)]"

text \<open>An inherited member has no method \<open>build\<close>, so calling it is a fault.\<close>

definition build_success_result :: "'w gen_env \<Rightarrow> 'w strategy" where
  "build_success_result env rq produced_at estimated_cost =
     (let provider = default (cf_llm_provider (ge_config env)) (rq_llm_provider rq) in
      case obj_get (llm_provider_strategies env) provider of
        None \<Rightarrow> eff_throw (LlmGenerationError (''Unsupported LLM provider: '' @ provider))
      | Some (InheritedMember _) \<Rightarrow> eff_throw (FaultError TypeError)
      | Some (Own build) \<Rightarrow> build rq produced_at estimated_cost)"

subsection \<open>What every result satisfies\<close>

definition result_ok :: "url_api \<Rightarrow> parsed_summary_request \<Rightarrow> success_result \<Rightarrow> bool" where
  "result_ok api rq r \<longleftrightarrow>
     rp_request_id (sr_payload r) = rq_request_id rq \<and> rp_failure (sr_payload r) = None \<and>
     (case rp_brief (sr_payload r) of
        None \<Rightarrow> False
      | Some b \<Rightarrow>
          grounded_highlights api rq (bb_highlights b) \<and> grounded_notes api rq (bb_notes b) \<and>
          rm_highlights_count (sr_metrics r) = length (bb_highlights b) \<and>
          rm_citations_count (sr_metrics r) = sum_list (map (\<lambda>h. length (nh_citations h)) (bb_highlights b)) \<and>
          rm_cost_usd (sr_metrics r) = mta_estimated_cost_usd (bb_meta b) \<and> 0 \<le> rm_cost_usd (sr_metrics r))"

lemma foldl_sum: "foldl (\<lambda>n x. n + f x) k xs = k + sum_list (map f xs)" for k :: nat
  by (induction xs arbitrary: k) simp_all

lemma normalize_usd_nonneg: "0 \<le> normalize_usd x"
  by (auto simp: normalize_usd_def to_fixed_def Let_def)

lemma success_payload_ok:
  assumes "grounded_highlights api rq hs" and "grounded_notes api rq nts" and "0 \<le> cost"
  shows "result_ok api rq (build_success_payload rq t ttl hs nts provider model i o' cost)"
  using assms by (simp add: result_ok_def build_success_payload_def Let_def foldl_sum)

abbreviation evidence_stable :: "url_api \<Rightarrow> parsed_summary_request \<Rightarrow> bool" where
  "evidence_stable api rq \<equiv> list_all (stable_url api) (create_evidence_url_set api rq)"

lemma internal_highlights_grounded:
  "evidence_stable api rq \<Longrightarrow> internal_highlights api rq topics s = (Inr hs, s') \<Longrightarrow> grounded_highlights api rq hs"
  using enforced_highlights_grounded by (auto simp: internal_highlights_def eff_bind_Inr_iff eff_of_def)

lemma internal_result_ok:
  "evidence_stable (ge_api env) rq \<Longrightarrow> build_internal_success_result env rq t cost p c prov m s = (Inr r, s') \<Longrightarrow>
    result_ok (ge_api env) rq r"
  by (auto simp: build_internal_success_result_def eff_bind_Inr_iff eff_of_def eff_ret_def Let_def normalize_usd_nonneg
      intro!: success_payload_ok dest: internal_highlights_grounded enforced_notes_grounded)

lemma llm_highlights_grounded:
  "evidence_stable api rq \<Longrightarrow> llm_highlights api rq r s = (Inr (hs, f), s') \<Longrightarrow> grounded_highlights api rq hs"
  using enforced_highlights_grounded [of api rq] internal_highlights_grounded [of api rq]
  by (fastforce simp: llm_highlights_def eff_bind_Inr_iff eff_ret_def eff_throw_def Let_def split: sum.splits if_splits)

lemma llm_result_ok:
  "evidence_stable (ge_api env) rq \<Longrightarrow> build_llm_backed_success_result env rq t cost lr prov m s = (Inr r, s') \<Longrightarrow>
    result_ok (ge_api env) rq r"
  by (auto simp: build_llm_backed_success_result_def eff_bind_Inr_iff eff_of_def eff_ret_def Let_def normalize_usd_nonneg
      intro!: success_payload_ok dest: llm_highlights_grounded enforced_notes_grounded)

lemma eff_catch_Inr_iff:
  "eff_catch m h s = (Inr a, s') \<longleftrightarrow> m s = (Inr a, s') \<or> (\<exists>e s1. m s = (Inl e, s1) \<and> h e s1 = (Inr a, s'))"
  by (auto simp: eff_catch_def split: prod.splits sum.splits)

lemma build_result_ok:
  assumes stable: "list_all (stable_url (ge_api env)) (create_evidence_url_set (ge_api env) rq)"
    and "build_success_result env rq t cost s = (Inr r, s')"
  shows "result_ok (ge_api env) rq r"
proof -
  note ok = internal_result_ok [OF stable] llm_result_ok [OF stable]
  have "result_ok (ge_api env) rq r" if "internal_strategy env rq t cost s = (Inr r, s')"
    using that ok by (simp add: internal_strategy_def)
  moreover have "result_ok (ge_api env) rq r" if "http_strategy env rq t cost s = (Inr r, s')"
    using that ok by (auto simp: http_strategy_def eff_bind_Inr_iff)
  moreover have "result_ok (ge_api env) rq r" if "codex_strategy env rq t cost s = (Inr r, s')"
    using that ok by (auto simp: codex_strategy_def eff_catch_Inr_iff eff_bind_Inr_iff eff_throw_def Let_def split: if_splits)
  ultimately show ?thesis
    using assms(2) by (auto simp: build_success_result_def llm_provider_strategies_def obj_get_def eff_throw_def Let_def
        split: option.splits if_splits looked_up.splits)
qed

text \<open>
  C4. Whatever a model answers, and without one, a result that is produced is for the request, its highlights are
  grounded in the evidence of their topics, every URL in its notes is of the evidence or has no canonical form, its
  figures count what is in it and its cost is not negative; canonicalising a URL of the evidence must not change it.
\<close>

theorem generated_briefs_are_grounded:
  assumes "build_success_result env rq t cost s = (Inr r, s')"
    and "list_all (stable_url (ge_api env)) (create_evidence_url_set (ge_api env) rq)"
  shows "result_ok (ge_api env) rq r"
  by (rule build_result_ok [OF assms(2,1)])

subsection \<open>Example\<close>

definition demo_response :: llm_response where
  "demo_response = \<lparr>lr_title = ''t'', lr_highlights = [demo_highlight ''https://example.org/a/''], lr_notes = Some '' x '',
     lr_usage = Some (1, 1), lr_meta = None\<rparr>"

definition demo_env :: "'w gen_env" where
  "demo_env = \<lparr>ge_api = demo_api,
     ge_config = \<lparr>cf_llm_provider = ''internal'', cf_llm_codex_model = [], cf_llm_daily_budget_usd = 5\<rparr>,
     ge_fetch = (\<lambda>_ w. (Inr \<lparr>ht_ok = True, ht_status = 200, ht_text = Inr [], ht_json = Inr (Inr demo_response)\<rparr>, w)),
     ge_codex = (\<lambda>_ w. (Inl None, w)), ge_json_request = (\<lambda>_. []), ge_json_highlights = (\<lambda>_. []), ge_json_payload = (\<lambda>_. []),
     ge_format_date = (\<lambda>_ _. None)\<rparr>"

lemma demo_response_parsed [simp]: "parsed_llm_response demo_response = demo_response"
  by (simp add: parsed_llm_response_def demo_response_def)

lemma demo_call: "\<exists>s'. call_http_llm demo_env demo_grounding_request s = (Inr demo_response, s')"
proof -
  let ?ps = "\<lparr>date_value = (\<lambda>_. None), json_meta = (\<lambda>_. None :: unit json_meta option)\<rparr>"
  have "requested_at_ok ?ps (sr_requested_at (request_input_of demo_grounding_request))"
    "list_all (\<lambda>t. list_all (evidence_input_ok ?ps) (st_evidence t)) (sr_topics (request_input_of demo_grounding_request))"
    "sr_report (request_input_of demo_grounding_request) = None" "date_ok ?ps None"
    by code_simp+
  then have "\<not> isl (fst (build_summary_request_payload ?ps demo_api (request_input_of demo_grounding_request) []))"
    by (simp add: build_refused_iff)
  then obtain p ns where "build_summary_request_payload ?ps demo_api (request_input_of demo_grounding_request) [] = (Inr p, ns)"
    by (metis prod.collapse sum.collapse(2))
  then show ?thesis by (simp add: call_http_llm_def request_payload_def on_world_def demo_env_def)
qed

definition demo_state :: "unit brief_state" where
  "demo_state = \<lparr>bst_health = brief_create_health_context 0 5, bst_matchers = \<lparr>max_entries = 512, entries = []\<rparr>, bst_world = ()\<rparr>"

theorem generated_briefs_are_grounded_witness:
  "\<exists>r s'. build_success_result demo_env demo_grounding_request 0 1 demo_state = (Inr r, s') \<and> result_ok demo_api demo_grounding_request r"
proof -
  obtain s1 where call: "call_http_llm demo_env demo_grounding_request demo_state = (Inr demo_response, s1)" using demo_call by blast
  have api: "ge_api demo_env = demo_api" by (simp add: demo_env_def)
  have "enforce_grounded_highlights demo_api demo_grounding_request
      (map (normalize_llm_highlight demo_api) (take (nat (resolve_highlight_limit demo_grounding_request 1)) (lr_highlights demo_response))) =
     Inr [(demo_highlight ''https://example.org/a'')\<lparr>nh_topic := ''AI''\<rparr>]" by code_simp
  moreover have "length (lr_highlights demo_response) = 1" by (simp add: demo_response_def)
  ultimately have hs: "llm_highlights demo_api demo_grounding_request demo_response s1 =
      (Inr ([(demo_highlight ''https://example.org/a'')\<lparr>nh_topic := ''AI''\<rparr>], False), s1)"
    by (simp add: llm_highlights_def eff_ret_def Let_def)
  have nts: "enforce_grounded_notes demo_api demo_grounding_request (append_coverage_warnings ''x'' demo_grounding_request)
      to_grounding_error = Inr ''x''" by code_simp
  have own: "default [] (map_option trim (lr_notes demo_response)) = ''x''" by code_simp
  have "rq_llm_provider demo_grounding_request = Some ''http''" by (simp add: demo_grounding_request_def demo_parsed_def)
  then have "\<exists>r s'. build_success_result demo_env demo_grounding_request 0 1 demo_state = (Inr r, s')"
    using call hs nts own
    by (auto simp: build_success_result_def obj_get_def llm_provider_strategies_def default_def http_strategy_def
        build_llm_backed_success_result_def eff_bind_Inr_iff eff_of_def eff_ret_def api Let_def)
  then obtain r s' where r: "build_success_result demo_env demo_grounding_request 0 1 demo_state = (Inr r, s')" by blast
  have "list_all (stable_url (ge_api demo_env)) (create_evidence_url_set (ge_api demo_env) demo_grounding_request)"
    by (simp add: demo_urls api)
  from generated_briefs_are_grounded [OF r this] r show ?thesis by (auto simp: api)
qed

text \<open>The name of an inherited member passes the parser of a request and is a fault here.\<close>

lemma inherited_provider_faults:
  "rq_llm_provider rq = Some ''constructor'' \<Longrightarrow> build_success_result env rq t cost s = (Inl (FaultError TypeError), s)"
  by (simp add: build_success_result_def default_def obj_get_def llm_provider_strategies_def object_prototype_keys_def eff_throw_def)

end
