(* ===== verification/EffLogic.thy ===== *)
theory EffLogic
  imports JsBase
begin

section \<open>A logic for effects that may throw\<close>

text \<open>
  \<open>valid P m Q E\<close>: from a state with \<open>P\<close>, a run of \<open>m\<close> that returns ends in \<open>Q\<close> and one that throws ends in \<open>E\<close>.
\<close>

definition valid :: "('s \<Rightarrow> bool) \<Rightarrow> ('s, 'e, 'a) eff \<Rightarrow> ('a \<Rightarrow> 's \<Rightarrow> bool) \<Rightarrow> ('e \<Rightarrow> 's \<Rightarrow> bool) \<Rightarrow> bool" where
  "valid P m Q E \<longleftrightarrow> (\<forall>s. P s \<longrightarrow> (case m s of (Inr a, s') \<Rightarrow> Q a s' | (Inl e, s') \<Rightarrow> E e s'))"

named_theorems valid_rules \<open>rules of the logic, one for each construct\<close>

lemma validI: "(\<And>s a s'. P s \<Longrightarrow> m s = (Inr a, s') \<Longrightarrow> Q a s') \<Longrightarrow> (\<And>s e s'. P s \<Longrightarrow> m s = (Inl e, s') \<Longrightarrow> E e s') \<Longrightarrow> valid P m Q E"
  by (auto simp: valid_def split: prod.splits sum.splits)

lemma validD: "valid P m Q E \<Longrightarrow> P s \<Longrightarrow> m s = (Inr a, s') \<Longrightarrow> Q a s'"
  and validE: "valid P m Q E \<Longrightarrow> P s \<Longrightarrow> m s = (Inl e, s') \<Longrightarrow> E e s'"
  by (auto simp: valid_def)

lemma valid_weaken:
  "valid P' m Q' E' \<Longrightarrow> (\<And>s. P s \<Longrightarrow> P' s) \<Longrightarrow> (\<And>a s. Q' a s \<Longrightarrow> Q a s) \<Longrightarrow> (\<And>e s. E' e s \<Longrightarrow> E e s) \<Longrightarrow> valid P m Q E"
  by (fastforce simp: valid_def split: prod.splits sum.splits)

lemma valid_ret [valid_rules]: "(\<And>s. P s \<Longrightarrow> Q a s) \<Longrightarrow> valid P (eff_ret a) Q E"
  by (simp add: valid_def eff_ret_def)

lemma valid_throw [valid_rules]: "(\<And>s. P s \<Longrightarrow> E e s) \<Longrightarrow> valid P (eff_throw e) Q E"
  by (simp add: valid_def eff_throw_def)

lemma valid_upd [valid_rules]: "(\<And>s. P s \<Longrightarrow> Q () (f s)) \<Longrightarrow> valid P (eff_upd f) Q E"
  by (simp add: valid_def eff_upd_def)

lemma eff_bind_ret [simp]: "eff_bind (eff_ret a) k = k a"
  by (rule ext) (simp add: eff_bind_def eff_ret_def)

lemma valid_bind: "valid P m R E \<Longrightarrow> (\<And>a. valid (R a) (k a) Q E) \<Longrightarrow> valid P (eff_bind m k) Q E"
  by (fastforce simp: valid_def eff_bind_def split: prod.splits sum.splits)

lemma valid_catch: "valid P m Q F \<Longrightarrow> (\<And>e. valid (F e) (h e) Q E) \<Longrightarrow> valid P (eff_catch m h) Q E"
  by (fastforce simp: valid_def eff_catch_def split: prod.splits sum.splits)

lemma valid_pure: "(C \<Longrightarrow> valid P m Q E) \<Longrightarrow> valid (\<lambda>s. C \<and> P s) m Q E"
  by (auto simp: valid_def)

lemma valid_ex:
  assumes "\<And>x. valid (P x) m Q E"
  shows "valid (\<lambda>s. \<exists>x. P x s) m Q E"
  using validD [OF assms] validE [OF assms] by (intro validI) blast+

end
