(* ===== verification/Orchestrator.thy ===== *)
theory Orchestrator
  imports Generation Budget EffLogic
begin

section \<open>From a request to a published result (apps/brief/src/brief-orchestrator.ts, failure-handling.ts,
  result-store-facade.ts, publishing-facade.ts, postgres-health-proxy.ts, process.ts)\<close>

text \<open>
  The store of results, the publisher, the budget and the generation are services of the orchestrator
  (\<open>brief_services\<close>); the defaults of the store and the publisher are built over the calls of Prisma and Kafka, which
  are parameters (\<open>brief_backend\<close>). The variables that the error handler of \<open>execute\<close> reads after an error are
  part of the state while it runs. Logging is not modelled.
\<close>

subsection \<open>Store and publisher\<close>

datatype brief_status = StatusSuccess | StatusFailure

record stored_brief_result =
  sd_status :: brief_status
  sd_payload :: brief_result_payload

datatype persist_outcome = Created | Duplicate

datatype prisma_error = DuplicateKey | PrismaFailure string

text \<open>A row of the table has the status and the payload; the schema's test for a time and its messages
  are parameters.\<close>

record 'w brief_backend =
  bk_datetime :: "string \<Rightarrow> bool"
  bk_issue :: "string \<Rightarrow> string"
  bk_find_unique :: "string \<Rightarrow> ('w, prisma_error, stored_brief_result option) eff"
  bk_create :: "string \<Rightarrow> string \<Rightarrow> stored_brief_result \<Rightarrow> ('w, prisma_error, unit) eff"
  bk_send :: "string \<Rightarrow> string \<Rightarrow> brief_result_payload \<Rightarrow> ('w, string, unit) eff"
  bk_authorize :: "authorize_budget_input \<Rightarrow> ('w, string, brief_budget_decision) eff"
  bk_rollback :: "brief_budget_decision \<Rightarrow> ('w, string, rat) eff"
  bk_settle :: "brief_budget_decision \<Rightarrow> rat \<Rightarrow> ('w, string, rat) eff"

definition is_duplicate_key_error :: "prisma_error \<Rightarrow> bool" where
  "is_duplicate_key_error e \<longleftrightarrow> e = DuplicateKey"

fun prisma_error_text :: "prisma_error \<Rightarrow> string" where
  "prisma_error_text DuplicateKey = ''Unique constraint failed''"
| "prisma_error_text (PrismaFailure msg) = msg"

definition parse_brief_result_payload :: "(string \<Rightarrow> bool) \<Rightarrow> (string \<Rightarrow> string) \<Rightarrow> brief_result_payload \<Rightarrow> brief_error + brief_result_payload" where
  "parse_brief_result_payload datetime issue p =
     (let invalid = (\<lambda>path. Inl (ServiceError (''Persisted brief result payload is invalid at '' @ [CHR 0x27] @ path @ [CHR 0x27] @ '': '' @
            issue path))) in
      if rp_request_id p = [] then invalid ''request_id''
      else if \<not> datetime (rp_produced_at p) then invalid ''produced_at''
      else (case rp_failure p of
          None \<Rightarrow> Inr p
        | Some f \<Rightarrow>
            if bf_error_code f = [] then invalid ''failure.error_code''
            else if bf_error_message f = [] then invalid ''failure.error_message''
            else Inr p))"

definition prisma_load :: "'w brief_backend \<Rightarrow> string \<Rightarrow> ('w, stored_brief_result option) beff" where
  "prisma_load bk request_id s =
     (case on_world (bk_find_unique bk request_id) s of
        (Inl e, s') \<Rightarrow> (Inl (ServiceError (prisma_error_text e)), s')
      | (Inr None, s') \<Rightarrow> (Inr None, s')
      | (Inr (Some r), s') \<Rightarrow>
          (case parse_brief_result_payload (bk_datetime bk) (bk_issue bk) (sd_payload r) of
             Inl e \<Rightarrow> (Inl e, s')
           | Inr p \<Rightarrow> (Inr (Some \<lparr>sd_status = sd_status r, sd_payload = p\<rparr>), s')))"

definition prisma_persist :: "'w brief_backend \<Rightarrow> brief_result_payload \<Rightarrow> brief_status \<Rightarrow> ('w, persist_outcome) beff" where
  "prisma_persist bk p st s =
     (case on_world (bk_create bk (rp_request_id p) (rp_produced_at p) \<lparr>sd_status = st, sd_payload = p\<rparr>) s of
        (Inr _, s') \<Rightarrow> (Inr Created, s')
      | (Inl e, s') \<Rightarrow> if is_duplicate_key_error e then (Inr Duplicate, s') else (Inl (ServiceError (prisma_error_text e)), s'))"

text \<open>The proxy around the store: whether the last call of it has returned.\<close>

definition with_postgres_health :: "('w, 'a) beff \<Rightarrow> ('w, 'a) beff" where
  "with_postgres_health m s =
     (case m s of (x, s') \<Rightarrow> (x, s'\<lparr>bst_health := (bst_health s')\<lparr>bh_postgres_healthy := \<not> isl x\<rparr>\<rparr>))"

definition publish_result :: "'w brief_backend \<Rightarrow> string \<Rightarrow> string \<Rightarrow> brief_result_payload \<Rightarrow> ('w, unit) beff" where
  "publish_result bk topic request_id p s =
     (case on_world (bk_send bk topic request_id p) s of (x, s') \<Rightarrow> (map_sum ServiceError id x, s'))"

definition on_budget :: "('w, string, 'a) eff \<Rightarrow> ('w, 'a) beff" where
  "on_budget m s = (case on_world m s of (x, s') \<Rightarrow> (map_sum ServiceError id x, s'))"

record 'w brief_services =
  sv_load :: "string \<Rightarrow> ('w, stored_brief_result option) beff"
  sv_persist :: "brief_result_payload \<Rightarrow> brief_status \<Rightarrow> ('w, persist_outcome) beff"
  sv_publish :: "string \<Rightarrow> brief_result_payload \<Rightarrow> ('w, unit) beff"
  sv_authorize :: "authorize_budget_input \<Rightarrow> ('w, brief_budget_decision) beff"
  sv_rollback :: "brief_budget_decision \<Rightarrow> ('w, rat) beff"
  sv_settle :: "brief_budget_decision \<Rightarrow> rat \<Rightarrow> ('w, rat) beff"
  sv_build :: "'w strategy"

definition default_services :: "'w brief_backend \<Rightarrow> string \<Rightarrow> 'w gen_env \<Rightarrow> 'w brief_services" where
  "default_services bk topic env =
     \<lparr>sv_load = (\<lambda>r. with_postgres_health (prisma_load bk r)),
      sv_persist = (\<lambda>p st. with_postgres_health (prisma_persist bk p st)),
      sv_publish = publish_result bk topic,
      sv_authorize = (\<lambda>i. on_budget (bk_authorize bk i)), sv_rollback = (\<lambda>d. on_budget (bk_rollback bk d)),
      sv_settle = (\<lambda>d c. on_budget (bk_settle bk d c)), sv_build = build_success_result env\<rparr>"

lemma default_services_simps [simp]:
  "sv_load (default_services bk topic env) r = with_postgres_health (prisma_load bk r)"
  "sv_persist (default_services bk topic env) p st = with_postgres_health (prisma_persist bk p st)"
  "sv_publish (default_services bk topic env) r p = publish_result bk topic r p"
  "sv_authorize (default_services bk topic env) i = on_budget (bk_authorize bk i)"
  "sv_rollback (default_services bk topic env) d = on_budget (bk_rollback bk d)"
  "sv_build (default_services bk topic env) = build_success_result env"
  by (simp_all add: default_services_def)

subsection \<open>Failures\<close>

definition republish_persisted_result :: "'w brief_services \<Rightarrow> string \<Rightarrow> ('w, brief_status option) beff" where
  "republish_persisted_result sv request_id =
     eff_bind (sv_load sv request_id) (\<lambda>ex.
       case ex of
         None \<Rightarrow> eff_ret None
       | Some r \<Rightarrow> eff_bind (sv_publish sv request_id (sd_payload r)) (\<lambda>_. eff_ret (Some (sd_status r))))"

definition emit_failure_result ::
  "'w brief_services \<Rightarrow> string \<Rightarrow> int \<Rightarrow> string \<Rightarrow> string \<Rightarrow> bool \<Rightarrow> ('w, unit) beff" where
  "emit_failure_result sv request_id produced_at code msg retryable =
     (let p = build_failure_brief_result_payload request_id produced_at code msg retryable in
      eff_bind (sv_persist sv p StatusFailure) (\<lambda>persisted.
        if persisted = Duplicate
        then eff_bind (upd_health increment_duplicates_skipped) (\<lambda>_.
          eff_bind (republish_persisted_result sv request_id) (\<lambda>st.
          if st = None then eff_throw (ServiceError (''Unable to republish existing failure result for request '' @ request_id))
          else eff_ret ()))
        else sv_publish sv request_id p))"

definition map_non_retryable_failure_metric :: "string \<Rightarrow> string" where
  "map_non_retryable_failure_metric code = (if code = ''grounding_error'' then ''grounding_error'' else ''generation_error'')"

definition handle_non_retryable_failure :: "'w brief_services \<Rightarrow> string \<Rightarrow> int \<Rightarrow> string \<Rightarrow> string \<Rightarrow> ('w, unit) beff" where
  "handle_non_retryable_failure sv request_id produced_at msg code =
     eff_bind (upd_health (brief_increment_error (map_non_retryable_failure_metric code))) (\<lambda>_.
     eff_bind (upd_health (increment_generation GenFailure)) (\<lambda>_.
     emit_failure_result sv request_id produced_at code msg False))"

datatype handler_outcome = Handled | Rethrow

text \<open>A handler: whether it takes the error, and what it does; \<open>created\<close> is whether the result has been stored.\<close>

record 'w failure_handler =
  fh_can_handle :: "brief_error \<Rightarrow> bool \<Rightarrow> bool"
  fh_handle :: "brief_error \<Rightarrow> ('w, handler_outcome) beff"

definition summary_request_failure_handlers :: "'w brief_services \<Rightarrow> string \<Rightarrow> int \<Rightarrow> 'w failure_handler list" where
  "summary_request_failure_handlers sv request_id produced_at =
     [\<lparr>fh_can_handle = (\<lambda>e created. case e of NonRetryableProcessingError _ _ \<Rightarrow> True | _ \<Rightarrow> False),
       fh_handle = (\<lambda>e. case e of
           NonRetryableProcessingError msg code \<Rightarrow>
             eff_bind (handle_non_retryable_failure sv request_id produced_at msg code) (\<lambda>_. eff_ret Handled)
         | _ \<Rightarrow> eff_ret Rethrow)\<rparr>,
      \<lparr>fh_can_handle = (\<lambda>e created. created),
       fh_handle = (\<lambda>e. eff_bind (upd_health (brief_increment_error ''publish_error'')) (\<lambda>_. eff_ret Rethrow))\<rparr>,
      \<lparr>fh_can_handle = (\<lambda>e created. case e of LlmGenerationError _ \<Rightarrow> True | _ \<Rightarrow> False),
       fh_handle = (\<lambda>e. case e of
           LlmGenerationError msg \<Rightarrow>
             (let failure_code = classify_retryable_failure_code msg in
              eff_bind (upd_health (brief_increment_error failure_code)) (\<lambda>_.
              eff_bind (upd_health (increment_generation GenFailure)) (\<lambda>_.
              eff_bind (emit_failure_result sv request_id produced_at failure_code msg True) (\<lambda>_. eff_ret Handled))))
         | _ \<Rightarrow> eff_ret Rethrow)\<rparr>,
      \<lparr>fh_can_handle = (\<lambda>e created. True),
       fh_handle = (\<lambda>e. eff_bind (upd_health (brief_increment_error ''generation_error'')) (\<lambda>_.
         eff_bind (upd_health (increment_generation GenFailure)) (\<lambda>_. eff_ret Rethrow)))\<rparr>]"

definition handle_summary_request_failure ::
  "'w brief_services \<Rightarrow> string \<Rightarrow> int \<Rightarrow> brief_error \<Rightarrow> bool \<Rightarrow> ('w, handler_outcome) beff" where
  "handle_summary_request_failure sv request_id produced_at e created =
     (case find (\<lambda>h. fh_can_handle h e created) (summary_request_failure_handlers sv request_id produced_at) of
        None \<Rightarrow> eff_ret Rethrow
      | Some h \<Rightarrow> fh_handle h e)"

subsection \<open>The orchestrator\<close>

text \<open>The variables of \<open>execute\<close> that are still read after an error.\<close>

record execution =
  ex_budget_decision :: "brief_budget_decision option"
  ex_spent_budget_usd :: rat
  ex_persisted_created :: bool

type_synonym ('w, 'a) xeff = "('w brief_state \<times> execution, brief_error, 'a) eff"

definition run_in :: "('w, 'a) beff \<Rightarrow> ('w, 'a) xeff" where
  "run_in m = (\<lambda>(s, x). case m s of (r, s') \<Rightarrow> (r, (s', x)))"

definition assign :: "(execution \<Rightarrow> execution) \<Rightarrow> ('w, unit) xeff" where
  "assign f = eff_upd (\<lambda>(s, x). (s, f x))"

definition require_budget_decision :: "('w, brief_budget_decision) xeff" where
  "require_budget_decision = (\<lambda>(s, x). (case ex_budget_decision x of
       None \<Rightarrow> Inl (ServiceError ''Budget decision is required'') | Some d \<Rightarrow> Inr d, (s, x)))"

definition get_budget_date_key :: "int \<Rightarrow> string" where
  "get_budget_date_key t = take 10 (to_iso_string t)"

definition set_redis_healthy :: "bool \<Rightarrow> brief_health \<Rightarrow> brief_health" where
  "set_redis_healthy b h = h\<lparr>bh_redis_healthy := b\<rparr>"

definition rollback_budget_reservation :: "'w brief_services \<Rightarrow> brief_budget_decision \<Rightarrow> ('w, unit) beff" where
  "rollback_budget_reservation sv d =
     eff_bind (sv_rollback sv d) (\<lambda>spent.
     upd_health (\<lambda>h. set_budget_remaining_usd (max 0 (d_daily_budget_usd d - spent)) (set_redis_healthy True h)))"

definition emit_success_metrics :: "success_result \<Rightarrow> brief_health \<Rightarrow> brief_health" where
  "emit_success_metrics r h =
     (let m = sr_metrics r in
      observe_citations_count (rm_citations_count m) (observe_highlights_count (rm_highlights_count m)
        (increment_llm_tokens OutputTokens (rm_output_tokens m) (increment_llm_tokens InputTokens (rm_input_tokens m)
          (increment_llm_cost_usd (rm_cost_usd m) (increment_generation GenSuccess h))))))"

definition redis_error_health :: "brief_health \<Rightarrow> brief_health" where
  "redis_error_health h = brief_increment_error ''redis_error'' (set_redis_healthy False h)"

text \<open>A reported result exists already: the reservation goes back and the stored result is published.\<close>

definition answer_with_stored :: "'w brief_services \<Rightarrow> string \<Rightarrow> ('w, unit) xeff" where
  "answer_with_stored sv request_id =
     eff_bind require_budget_decision (\<lambda>d.
     eff_bind (run_in (rollback_budget_reservation sv d)) (\<lambda>_.
     eff_bind (assign (\<lambda>x. x\<lparr>ex_budget_decision := None\<rparr>)) (\<lambda>_.
     eff_bind (run_in (upd_health increment_duplicates_skipped)) (\<lambda>_.
     eff_bind (run_in (upd_health (increment_generation GenSkipped))) (\<lambda>_.
     eff_bind (run_in (republish_persisted_result sv request_id)) (\<lambda>st.
     if st = None
     then eff_throw (ServiceError (''Persisted result missing after duplicate insert for request '' @ request_id))
     else eff_ret ()))))))"

definition settle_final_cost :: "'w brief_services \<Rightarrow> rat \<Rightarrow> ('w, unit) xeff" where
  "settle_final_cost sv cost =
     eff_bind require_budget_decision (\<lambda>d.
     if normalize_usd_delta (cost - d_reserved_cost_usd d) \<noteq> 0
     then eff_catch
       (eff_bind (run_in (sv_settle sv d cost)) (\<lambda>spent.
        eff_bind (assign (\<lambda>x. x\<lparr>ex_spent_budget_usd := spent\<rparr>)) (\<lambda>_.
        run_in (upd_health (set_redis_healthy True)))))
       (\<lambda>_. run_in (upd_health redis_error_health))
     else eff_ret ())"

definition produce_result ::
  "'w brief_services \<Rightarrow> parsed_summary_request \<Rightarrow> int \<Rightarrow> rat \<Rightarrow> rat \<Rightarrow> ('w, unit) xeff" where
  "produce_result sv rq produced_at daily_budget estimated_cost =
     eff_bind (run_in (sv_build sv rq produced_at estimated_cost)) (\<lambda>r.
     eff_bind (run_in (sv_persist sv (sr_payload r) StatusSuccess)) (\<lambda>persisted.
     if persisted = Duplicate then answer_with_stored sv (rq_request_id rq)
     else
       eff_bind (assign (\<lambda>x. x\<lparr>ex_persisted_created := True\<rparr>)) (\<lambda>_.
       eff_bind (settle_final_cost sv (rm_cost_usd (sr_metrics r))) (\<lambda>_.
       eff_bind (run_in (sv_publish sv (rq_request_id rq) (sr_payload r))) (\<lambda>_.
       eff_bind (run_in (upd_health (emit_success_metrics r))) (\<lambda>_ (s, x).
         run_in (upd_health (set_budget_remaining_usd (max 0 (daily_budget - ex_spent_budget_usd x)))) (s, x)))))))"

definition after_error :: "'w brief_services \<Rightarrow> parsed_summary_request \<Rightarrow> int \<Rightarrow> brief_error \<Rightarrow> ('w, unit) xeff" where
  "after_error sv rq produced_at e = (\<lambda>(s, x).
     eff_bind
       (case ex_budget_decision x of
          Some d \<Rightarrow>
            if authorized d \<and> \<not> ex_persisted_created x
            then eff_catch
              (eff_bind (run_in (rollback_budget_reservation sv d)) (\<lambda>_. assign (\<lambda>x. x\<lparr>ex_budget_decision := None\<rparr>)))
              (\<lambda>re. eff_bind (run_in (upd_health redis_error_health)) (\<lambda>_. eff_throw re))
            else eff_ret ()
        | None \<Rightarrow> eff_ret ())
       (\<lambda>_. eff_bind (run_in (handle_summary_request_failure sv (rq_request_id rq) produced_at e (ex_persisted_created x))) (\<lambda>outcome.
         if outcome = Handled then eff_ret () else eff_throw e)) (s, x))"

definition authorize_budget :: "'w brief_services \<Rightarrow> authorize_budget_input \<Rightarrow> ('w, brief_budget_decision) beff" where
  "authorize_budget sv inp =
     eff_catch
       (eff_bind (sv_authorize sv inp) (\<lambda>d.
        eff_bind (upd_health (\<lambda>h. set_budget_remaining_usd (max 0 (ab_daily_budget_usd inp - d_spent_usd d)) (set_redis_healthy True h)))
          (\<lambda>_. eff_ret d)))
       (\<lambda>e. eff_bind (upd_health redis_error_health) (\<lambda>_. eff_throw e))"

definition execute :: "'w brief_services \<Rightarrow> gen_config \<Rightarrow> int \<Rightarrow> parsed_summary_request \<Rightarrow> ('w, unit) beff" where
  "execute sv cfg produced_at rq =
     eff_bind (eff_catch (sv_load sv (rq_request_id rq))
       (\<lambda>e. eff_bind (upd_health (brief_increment_error ''idempotency_error'')) (\<lambda>_. eff_throw e))) (\<lambda>existing.
     case existing of
       Some r \<Rightarrow>
         eff_bind (upd_health (\<lambda>h. increment_generation GenSkipped (increment_duplicates_skipped h))) (\<lambda>_.
         eff_catch (sv_publish sv (rq_request_id rq) (sd_payload r))
           (\<lambda>e. eff_bind (upd_health (brief_increment_error ''publish_error'')) (\<lambda>_. eff_throw e)))
     | None \<Rightarrow>
         let daily_budget = default (cf_llm_daily_budget_usd cfg) (Option.bind (rq_budget rq) sb_daily_budget_usd);
             estimated_cost = normalize_usd (estimate_request_cost_usd rq) in
         eff_bind (authorize_budget sv \<lparr>ab_date_key = get_budget_date_key produced_at, ab_daily_budget_usd = daily_budget,
             ab_estimated_cost_usd = estimated_cost\<rparr>) (\<lambda>d.
         if \<not> authorized d
         then eff_bind (upd_health (\<lambda>h. increment_generation GenSkipped (increment_budget_exceeded h))) (\<lambda>_.
           emit_failure_result sv (rq_request_id rq) produced_at ''budget_exceeded'' ''Daily brief budget exceeded'' False)
         else (\<lambda>s.
           case eff_catch (produce_result sv rq produced_at daily_budget estimated_cost) (after_error sv rq produced_at)
               (s, \<lparr>ex_budget_decision = Some d, ex_spent_budget_usd = d_spent_usd d, ex_persisted_created = False\<rparr>) of
             (r, (s', _)) \<Rightarrow> (r, s'))))"

text \<open>
  Giving the money back may have taken effect before it throws; on the path of a result that is stored already the
  error handler gives it back once more.
\<close>

lemma given_back_twice:
  assumes "sv_build sv rq t cost s = (Inr r, s1)" and "sv_persist sv (sr_payload r) StatusSuccess s1 = (Inr Duplicate, s2)"
    and "sv_rollback sv d s2 = (Inl e, s3)" and "sv_rollback sv d s3 = (Inr v, s4)" and "authorized d"
  shows "eff_catch (produce_result sv rq t daily cost) (after_error sv rq t)
      (s, \<lparr>ex_budget_decision = Some d, ex_spent_budget_usd = u, ex_persisted_created = False\<rparr>) =
    eff_bind (run_in (handle_summary_request_failure sv (rq_request_id rq) t e False))
      (\<lambda>outcome. if outcome = Handled then eff_ret () else eff_throw e) 
      (s4\<lparr>bst_health := set_budget_remaining_usd (max 0 (d_daily_budget_usd d - v)) (set_redis_healthy True (bst_health s4))\<rparr>,
       \<lparr>ex_budget_decision = None, ex_spent_budget_usd = u, ex_persisted_created = False\<rparr>)"
  using assms
  by (auto simp: produce_result_def answer_with_stored_def after_error_def require_budget_decision_def run_in_def
      rollback_budget_reservation_def eff_catch_def assign_def upd_health_def eff_defs split: prod.splits)

subsection \<open>Processing a request\<close>

text \<open>The resolver fills in the topics of a request that only asks a question; it is a parameter.\<close>

definition process_summary_request ::
  "'w brief_services \<Rightarrow> gen_config \<Rightarrow> (parsed_summary_request \<Rightarrow> ('w, parsed_summary_request) beff) \<Rightarrow> int \<Rightarrow>
   parsed_summary_request \<Rightarrow> ('w, unit) beff" where
  "process_summary_request sv cfg resolve produced_at rq =
     eff_bind
       (eff_catch (eff_bind (resolve rq) (\<lambda>r. eff_ret (Some r)))
         (\<lambda>e. case e of
            NonRetryableProcessingError msg code \<Rightarrow>
              eff_bind (handle_non_retryable_failure sv (rq_request_id rq) produced_at msg code) (\<lambda>_. eff_ret None)
          | _ \<Rightarrow> eff_bind (upd_health (brief_increment_error ''generation_error'')) (\<lambda>_.
              eff_bind (upd_health (increment_generation GenFailure)) (\<lambda>_. eff_throw e))))
       (\<lambda>resolved. case resolved of
          None \<Rightarrow> eff_ret ()
        | Some r \<Rightarrow> execute sv cfg produced_at (create_brief_orchestration_request r))"

subsection \<open>What the services promise\<close>

text \<open>
  The results that are stored, the messages that are published and the reservations that are known to be held, as
  functions of the world. Other workers may store and publish at any time: they store a result once and publish only
  what is stored (\<open>others\<close>).
\<close>

type_synonym results = "string \<Rightarrow> stored_brief_result option"

definition backed :: "results \<Rightarrow> string \<times> brief_result_payload \<Rightarrow> bool" where
  "backed R m \<longleftrightarrow> (\<exists>v. R (fst m) = Some v \<and> sd_payload v = snd m)"

definition others :: "results \<times> (string \<times> brief_result_payload) set \<Rightarrow> results \<times> (string \<times> brief_result_payload) set \<Rightarrow> bool" where
  "others w w' \<longleftrightarrow> fst w \<subseteq>\<^sub>m fst w' \<and> snd w \<subseteq> snd w' \<and> (\<forall>m \<in> snd w' - snd w. backed (fst w') m)"

lemma others_refl [simp]: "others w w"
  by (simp add: others_def)

lemma backed_mono: "R \<subseteq>\<^sub>m R' \<Longrightarrow> backed R m \<Longrightarrow> backed R' m"
  by (auto simp: backed_def map_le_def dom_def)

lemma others_trans: "others w w' \<Longrightarrow> others w' w'' \<Longrightarrow> others w w''"
  unfolding others_def by (meson DiffD1 DiffD2 DiffI backed_mono map_le_trans subset_iff)

definition moves :: "('w \<Rightarrow> results) \<Rightarrow> ('w \<Rightarrow> (string \<times> brief_result_payload) set) \<Rightarrow> 'w \<Rightarrow> 'w \<Rightarrow> bool" where
  "moves R M w w' \<longleftrightarrow> others (R w, M w) (R w', M w')"

lemma moves_refl [simp]: "moves R M w w"
  by (simp add: moves_def)

lemma moves_trans: "moves R M w w' \<Longrightarrow> moves R M w' w'' \<Longrightarrow> moves R M w w''"
  unfolding moves_def by (rule others_trans)

locale result_services =
  fixes sv :: "'w brief_services" and results :: "'w \<Rightarrow> results" and messages :: "'w \<Rightarrow> (string \<times> brief_result_payload) set"
    and held :: "'w \<Rightarrow> brief_budget_decision list"
  assumes load: "sv_load sv r s = (x, s') \<Longrightarrow>
      moves results messages (bst_world s) (bst_world s') \<and>
      held (bst_world s') = held (bst_world s) \<and> (\<forall>v. x = Inr (Some v) \<longrightarrow> results (bst_world s') r = Some v)"
    and persist: "sv_persist sv p st s = (y, s') \<Longrightarrow>
      moves results messages (bst_world s) (bst_world s') \<and>
      held (bst_world s') = held (bst_world s) \<and>
      (y = Inr Created \<longrightarrow> results (bst_world s') (rp_request_id p) = Some \<lparr>sd_status = st, sd_payload = p\<rparr>)"
    and publish: "sv_publish sv r p s = (z, s') \<Longrightarrow> backed (results (bst_world s)) (r, p) \<Longrightarrow>
      moves results messages (bst_world s) (bst_world s') \<and>
      held (bst_world s') = held (bst_world s) \<and> (z = Inr () \<longrightarrow> (r, p) \<in> messages (bst_world s'))"
    and authorize: "sv_authorize sv i s = (a, s') \<Longrightarrow>
      moves results messages (bst_world s) (bst_world s') \<and>
      held (bst_world s') = (case a of Inr d \<Rightarrow> if authorized d then d # held (bst_world s) else held (bst_world s)
        | Inl _ \<Rightarrow> held (bst_world s))"
    and rollback: "sv_rollback sv d s = (b, s') \<Longrightarrow>
      moves results messages (bst_world s) (bst_world s') \<and>
      held (bst_world s') = (if isl b then held (bst_world s) else remove1 d (held (bst_world s)))"
    and settle: "sv_settle sv d c s = (b, s') \<Longrightarrow>
      moves results messages (bst_world s) (bst_world s') \<and>
      held (bst_world s') = held (bst_world s)"
    and build: "sv_build sv rq t cost s = (q, s') \<Longrightarrow>
      moves results messages (bst_world s) (bst_world s') \<and>
      held (bst_world s') = held (bst_world s) \<and> (\<forall>r. q = Inr r \<longrightarrow> rp_request_id (sr_payload r) = rq_request_id rq)"
begin

text \<open>
  The assertion: since the start only what others may do has happened, the reservations held, results that are known
  to be stored, messages that are known to be published.
\<close>

definition known :: "'w \<Rightarrow> brief_budget_decision list \<Rightarrow> results \<Rightarrow> (string \<times> brief_result_payload) set \<Rightarrow> 'w brief_state \<Rightarrow> bool" where
  "known w0 h K M s \<longleftrightarrow>
     moves results messages w0 (bst_world s) \<and> held (bst_world s) = h \<and>
     K \<subseteq>\<^sub>m results (bst_world s) \<and> M \<subseteq> messages (bst_world s)"

lemma known_moves:
  assumes "known w0 h K M s" and "moves results messages (bst_world s) (bst_world s')" and "held (bst_world s') = h'"
  shows "known w0 h' K M s'"
proof -
  have "moves results messages w0 (bst_world s')" using assms(1,2) by (auto simp: known_def intro: moves_trans)
  moreover have "K \<subseteq>\<^sub>m results (bst_world s')" "M \<subseteq> messages (bst_world s')"
    using assms(1,2) by (auto simp: known_def moves_def others_def intro: map_le_trans)
  ultimately show ?thesis using assms(3) by (simp add: known_def)
qed

lemma known_held: "known w0 h K M s \<Longrightarrow> held (bst_world s) = h"
  by (simp add: known_def)

lemma known_result: "known w0 h K M s \<Longrightarrow> results (bst_world s) r = Some v \<Longrightarrow> known w0 h (K(r \<mapsto> v)) M s"
  by (auto simp: known_def map_le_def)

lemma known_sent: "known w0 h K M s \<Longrightarrow> m \<in> messages (bst_world s) \<Longrightarrow> known w0 h K (insert m M) s"
  by (auto simp: known_def)

lemma known_weaken: "known w0 h K M s \<Longrightarrow> K' \<subseteq>\<^sub>m K \<Longrightarrow> M' \<subseteq> M \<Longrightarrow> known w0 h K' M' s"
  by (auto simp: known_def dest: map_le_trans)

lemma known_world: "bst_world s' = bst_world s \<Longrightarrow> known w0 h K M s' = known w0 h K M s"
  by (simp add: known_def)

lemma valid_authorize:
  "valid (known w0 h K M) (sv_authorize sv i) (\<lambda>d. known w0 (if authorized d then d # h else h) K M) (\<lambda>_. known w0 h K M)"
  by (intro validI; frule authorize; frule known_held) (auto intro: known_moves)

lemma valid_rollback:
  "valid (known w0 h K M) (sv_rollback sv d) (\<lambda>_. known w0 (remove1 d h) K M)
     (\<lambda>e s. known w0 h K M s \<and> (\<exists>s1 s2. sv_rollback sv d s1 = (Inl e, s2)))"
  by (intro validI; frule rollback; frule known_held) (auto intro: known_moves)

lemma valid_settle: "valid (known w0 h K M) (sv_settle sv d c) (\<lambda>_. known w0 h K M) (\<lambda>_. known w0 h K M)"
  by (intro validI; frule settle; frule known_held) (auto intro: known_moves)

lemma valid_build:
  "valid (known w0 h K M) (sv_build sv rq t cost) (\<lambda>r s. rp_request_id (sr_payload r) = rq_request_id rq \<and> known w0 h K M s)
     (\<lambda>_. known w0 h K M)"
  by (intro validI; frule build; frule known_held) (auto intro: known_moves)

lemma valid_health: "valid (known w0 h K M) (upd_health f) (\<lambda>_. known w0 h K M) E"
  unfolding upd_health_def by (rule valid_upd) (simp add: known_def)

text \<open>A result is stored and published, the reservations held are \<open>h\<close>.\<close>

definition answered :: "'w \<Rightarrow> brief_budget_decision list \<Rightarrow> string \<Rightarrow> 'w brief_state \<Rightarrow> bool" where
  "answered w0 h r s \<longleftrightarrow> (\<exists>v. known w0 h [r \<mapsto> v] {(r, sd_payload v)} s)"

definition kept :: "'w \<Rightarrow> brief_budget_decision list \<Rightarrow> string \<Rightarrow> 'w brief_state \<Rightarrow> bool" where
  "kept w0 h r s \<longleftrightarrow> (\<exists>v. sd_status v = StatusSuccess \<and> known w0 h [r \<mapsto> v] {(r, sd_payload v)} s)"

lemma answeredI: "known w0 h K M s \<Longrightarrow> K r = Some v \<Longrightarrow> (r, sd_payload v) \<in> M \<Longrightarrow> answered w0 h r s"
  unfolding answered_def by (rule exI [of _ v], erule known_weaken) (auto simp: map_le_def)

lemma keptI:
  "known w0 h K M s \<Longrightarrow> K r = Some v \<Longrightarrow> sd_status v = StatusSuccess \<Longrightarrow> (r, sd_payload v) \<in> M \<Longrightarrow> kept w0 h r s"
  unfolding kept_def by (rule exI [of _ v], rule conjI, assumption, erule known_weaken) (auto simp: map_le_def)

lemma kept_answered: "kept w0 h r s \<Longrightarrow> answered w0 h r s"
  by (auto simp: kept_def answered_def)

lemma answered_kept: "answered w0 h r s \<Longrightarrow> known w0 h K M s \<Longrightarrow> K r = Some v \<Longrightarrow> sd_status v = StatusSuccess \<Longrightarrow> kept w0 h r s"
  unfolding answered_def kept_def by (force simp: known_def map_le_def)

lemma backed_known: "known w0 h [r \<mapsto> v] M s \<Longrightarrow> backed (results (bst_world s)) (r, sd_payload v)"
  unfolding backed_def by (rule exI [of _ v]) (simp add: known_def map_le_def)

lemma known_start: "known w0 h K M s \<Longrightarrow> known w0 h Map.empty {} s"
  by (erule known_weaken) auto

lemma valid_publish:
  "valid (\<lambda>s. known w0 h K M s \<and> known w0 h [r \<mapsto> v] {} s) (sv_publish sv r (sd_payload v))
     (\<lambda>_ s. known w0 h K M s \<and> known w0 h [r \<mapsto> v] {(r, sd_payload v)} s) (\<lambda>_. known w0 h K M)"
proof (rule validI)
  fix s a s' assume k: "known w0 h K M s \<and> known w0 h [r \<mapsto> v] {} s" and p: "sv_publish sv r (sd_payload v) s = (Inr a, s')"
  have b: "backed (results (bst_world s)) (r, sd_payload v)" using k backed_known by blast
  from publish [OF p b] k have "known w0 h K M s'" "known w0 h [r \<mapsto> v] {} s'" "(r, sd_payload v) \<in> messages (bst_world s')"
    by (auto dest: known_held intro: known_moves)
  then show "known w0 h K M s' \<and> known w0 h [r \<mapsto> v] {(r, sd_payload v)} s'" by (auto intro: known_sent)
next
  fix s e s' assume k: "known w0 h K M s \<and> known w0 h [r \<mapsto> v] {} s" and p: "sv_publish sv r (sd_payload v) s = (Inl e, s')"
  have b: "backed (results (bst_world s)) (r, sd_payload v)" using k backed_known by blast
  from publish [OF p b] k show "known w0 h K M s'" by (auto dest: known_held intro: known_moves)
qed

lemma valid_load:
  "valid (known w0 h K M) (sv_load sv r)
     (\<lambda>x s. known w0 h K M s \<and> (\<forall>v. x = Some v \<longrightarrow> known w0 h [r \<mapsto> v] {} s)) (\<lambda>_. known w0 h K M)"
proof (rule validI)
  fix s x s' assume k: "known w0 h K M s" and l: "sv_load sv r s = (Inr x, s')"
  from load [OF l] known_held [OF k] have k': "known w0 h K M s'" by (auto intro: known_moves [OF k])
  with load [OF l] show "known w0 h K M s' \<and> (\<forall>v. x = Some v \<longrightarrow> known w0 h [r \<mapsto> v] {} s')"
    by (auto intro: known_result known_start)
next
  fix s e s' assume k: "known w0 h K M s" and l: "sv_load sv r s = (Inl e, s')"
  from load [OF l] known_held [OF k] show "known w0 h K M s'" by (auto intro: known_moves [OF k])
qed

lemma valid_persist:
  "valid (known w0 h K M) (sv_persist sv p st)
     (\<lambda>y s. known w0 h K M s \<and> (y = Created \<longrightarrow> known w0 h [rp_request_id p \<mapsto> \<lparr>sd_status = st, sd_payload = p\<rparr>] {} s))
     (\<lambda>_. known w0 h K M)"
proof (rule validI)
  fix s y s' assume k: "known w0 h K M s" and l: "sv_persist sv p st s = (Inr y, s')"
  from persist [OF l] known_held [OF k] have k': "known w0 h K M s'" by (auto intro: known_moves [OF k])
  with persist [OF l]
  show "known w0 h K M s' \<and> (y = Created \<longrightarrow> known w0 h [rp_request_id p \<mapsto> \<lparr>sd_status = st, sd_payload = p\<rparr>] {} s')"
    by (auto intro: known_result known_start)
next
  fix s e s' assume k: "known w0 h K M s" and l: "sv_persist sv p st s = (Inl e, s')"
  from persist [OF l] known_held [OF k] show "known w0 h K M s'" by (auto intro: known_moves [OF k])
qed

lemma valid_republish:
  "valid (known w0 h K M) (republish_persisted_result sv r)
     (\<lambda>st s. known w0 h K M s \<and> (st \<noteq> None \<longrightarrow> answered w0 h r s)) (\<lambda>_. known w0 h K M)"
  unfolding republish_persisted_result_def
proof (rule valid_bind [OF valid_load])
  fix x
  show "valid (\<lambda>s. known w0 h K M s \<and> (\<forall>v. x = Some v \<longrightarrow> known w0 h [r \<mapsto> v] {} s))
      (case x of None \<Rightarrow> eff_ret None | Some v \<Rightarrow> eff_bind (sv_publish sv r (sd_payload v)) (\<lambda>_. eff_ret (Some (sd_status v))))
      (\<lambda>st s. known w0 h K M s \<and> (st \<noteq> None \<longrightarrow> answered w0 h r s)) (\<lambda>_. known w0 h K M)"
  proof (cases x)
    case None
    then show ?thesis by (auto intro: valid_ret)
  next
    case (Some v)
    have "valid (\<lambda>s. known w0 h K M s \<and> known w0 h [r \<mapsto> v] {} s)
        (eff_bind (sv_publish sv r (sd_payload v)) (\<lambda>_. eff_ret (Some (sd_status v))))
        (\<lambda>st s. known w0 h K M s \<and> (st \<noteq> None \<longrightarrow> answered w0 h r s)) (\<lambda>_. known w0 h K M)"
      by (rule valid_bind [OF valid_publish], rule valid_ret) (auto intro: answeredI)
    with Some show ?thesis by simp
  qed
qed

lemma valid_emit_failure:
  "valid (known w0 h K M) (emit_failure_result sv r t code msg retryable)
     (\<lambda>_ s. known w0 h K M s \<and> answered w0 h r s) (\<lambda>_. known w0 h K M)"
proof -
  let ?p = "build_failure_brief_result_payload r t code msg retryable"
  let ?v = "\<lparr>sd_status = StatusFailure, sd_payload = ?p\<rparr>"
  have id: "rp_request_id ?p = r" by (simp add: build_failure_brief_result_payload_def)
  have dup: "valid (known w0 h K M) (eff_bind (upd_health increment_duplicates_skipped) (\<lambda>_.
      eff_bind (republish_persisted_result sv r) (\<lambda>st. if st = None then eff_throw e else eff_ret ())))
      (\<lambda>_ s. known w0 h K M s \<and> answered w0 h r s) (\<lambda>_. known w0 h K M)" for e
    by (intro valid_bind [OF valid_health] valid_bind [OF valid_republish]) (auto intro: valid_rules)
  have new: "valid (\<lambda>s. known w0 h K M s \<and> known w0 h [r \<mapsto> ?v] {} s) (sv_publish sv r ?p)
      (\<lambda>_ s. known w0 h K M s \<and> answered w0 h r s) (\<lambda>_. known w0 h K M)"
    by (rule valid_weaken [OF valid_publish [of w0 h K M r ?v, unfolded stored_brief_result.select_convs]])
      (auto intro: answeredI [of _ _ "[r \<mapsto> ?v]" "{(r, ?p)}"])
  show ?thesis
    unfolding emit_failure_result_def Let_def
  proof (rule valid_bind [OF valid_persist])
    fix y :: persist_outcome
    show "valid (\<lambda>s. known w0 h K M s \<and> (y = Created \<longrightarrow> known w0 h [rp_request_id ?p \<mapsto> ?v] {} s))
      (if y = Duplicate then eff_bind (upd_health increment_duplicates_skipped) (\<lambda>_.
          eff_bind (republish_persisted_result sv r) (\<lambda>st.
          if st = None then eff_throw (ServiceError (''Unable to republish existing failure result for request '' @ r)) else eff_ret ()))
        else sv_publish sv r ?p)
      (\<lambda>_ s. known w0 h K M s \<and> answered w0 h r s) (\<lambda>_. known w0 h K M)"
      using dup new by (cases y) (simp_all add: id)
  qed
qed

lemma valid_non_retryable:
  "valid (known w0 h K M) (handle_non_retryable_failure sv r t msg code)
     (\<lambda>_ s. known w0 h K M s \<and> answered w0 h r s) (\<lambda>_. known w0 h K M)"
  unfolding handle_non_retryable_failure_def
  by (intro valid_bind [OF valid_health] valid_emit_failure)

lemma valid_handle_failure:
  "valid (known w0 h K M) (handle_summary_request_failure sv r t e created)
     (\<lambda>x s. known w0 h K M s \<and> (x = Handled \<longrightarrow> answered w0 h r s)) (\<lambda>_. known w0 h K M)"
proof (cases e)
  case (NonRetryableProcessingError msg code)
  then show ?thesis
    by (auto simp: handle_summary_request_failure_def summary_request_failure_handlers_def
        intro!: valid_bind [OF valid_non_retryable] valid_ret)
next
  case (LlmGenerationError msg)
  then show ?thesis
    by (auto simp: handle_summary_request_failure_def summary_request_failure_handlers_def Let_def
        intro!: valid_bind [OF valid_health] valid_bind [OF valid_emit_failure] valid_ret)
qed (auto simp: handle_summary_request_failure_def summary_request_failure_handlers_def
      intro!: valid_bind [OF valid_health] valid_ret)

text \<open>Effects inside \<open>execute\<close> leave its variables alone.\<close>

lemma valid_run_in:
  "valid P m Q E \<Longrightarrow> valid (\<lambda>(s, x). P s \<and> x = vs) (run_in m) (\<lambda>a (s, x). Q a s \<and> x = vs) (\<lambda>e (s, x). E e s \<and> x = vs)"
  by (auto simp: valid_def run_in_def split: prod.splits sum.splits)

lemma valid_run_in_all:
  assumes "valid P m Q' E'" and "\<And>s x. P2 (s, x) \<Longrightarrow> P s" and "\<And>a s x. Q' a s \<Longrightarrow> Q a (s, x)" and "\<And>e s x. E' e s \<Longrightarrow> E e (s, x)"
  shows "valid P2 (run_in m) Q E"
proof (rule validI)
  fix sx a sy assume "P2 sx" "run_in m sx = (Inr a, sy)"
  then show "Q a sy" using assms(2,3) validD [OF assms(1)] by (cases sx) (fastforce simp: run_in_def split: prod.splits)
next
  fix sx e sy assume "P2 sx" "run_in m sx = (Inl e, sy)"
  then show "E e sy" using assms(2,4) validE [OF assms(1)] by (cases sx) (fastforce simp: run_in_def split: prod.splits)
qed

lemma valid_assign: "(\<And>s x. P (s, x) \<Longrightarrow> Q () (s, f x)) \<Longrightarrow> valid P (assign f) Q E"
  by (auto simp: assign_def intro!: valid_upd)

lemma valid_require:
  "ex_budget_decision x0 = Some d \<Longrightarrow>
    valid (\<lambda>(s, x). P s \<and> x = x0) require_budget_decision (\<lambda>a (s, x). a = d \<and> P s \<and> x = x0) E"
  by (auto simp: valid_def require_budget_decision_def)

text \<open>
  After an error in \<open>produce_result\<close>: the result is stored and the reservation kept; or nothing is stored by this run
  and the reservation is held; or it has been given back.
\<close>

definition broken_off :: "'w \<Rightarrow> brief_budget_decision list \<Rightarrow> brief_budget_decision \<Rightarrow> string \<Rightarrow> 'w brief_state \<times> execution \<Rightarrow> bool" where
  "broken_off w0 h d r = (\<lambda>(s, x).
     (ex_persisted_created x \<and> ex_budget_decision x = Some d \<and> (\<exists>v. sd_status v = StatusSuccess \<and> known w0 (d # h) [r \<mapsto> v] {} s)) \<or>
     (\<not> ex_persisted_created x \<and> ex_budget_decision x = Some d \<and> known w0 (d # h) Map.empty {} s) \<or>
     (\<not> ex_persisted_created x \<and> ex_budget_decision x = None \<and> known w0 h Map.empty {} s))"

definition finished :: "'w \<Rightarrow> brief_budget_decision list \<Rightarrow> brief_budget_decision \<Rightarrow> string \<Rightarrow> 'w brief_state \<Rightarrow> bool" where
  "finished w0 h d r s \<longleftrightarrow> answered w0 h r s \<or> kept w0 (d # h) r s"

lemma valid_rollback_reservation:
  "valid (known w0 (d # h) K M) (rollback_budget_reservation sv d) (\<lambda>_. known w0 h K M)
     (\<lambda>e s. known w0 (d # h) K M s \<and> (\<exists>s1 s2. sv_rollback sv d s1 = (Inl e, s2)))"
  unfolding rollback_budget_reservation_def
  using valid_rollback [of w0 "d # h" K M d] by (intro valid_bind [OF _ valid_health]) simp_all

lemma valid_answer_with_stored:
  assumes x0: "ex_budget_decision x0 = Some d" "\<not> ex_persisted_created x0"
  shows "valid (\<lambda>(s, x). known w0 (d # h) Map.empty {} s \<and> x = x0) (answer_with_stored sv r)
    (\<lambda>_ (s, x). finished w0 h d r s) (\<lambda>_. broken_off w0 h d r)"
  unfolding answer_with_stored_def
proof (rule valid_bind [OF valid_require [OF x0(1)]])
  fix a
  let ?x1 = "x0\<lparr>ex_budget_decision := None\<rparr>"
  let ?G = "\<lambda>(s, x). known w0 h Map.empty {} s \<and> x = ?x1"
  have off: "valid ?G (run_in m) (\<lambda>a (s, x). Q a s \<and> x = ?x1) (\<lambda>_. broken_off w0 h d r)"
    if "valid (known w0 h Map.empty {}) m Q (\<lambda>_. known w0 h Map.empty {})" for m :: "('w, 'b) beff" and Q
    by (rule valid_weaken [OF valid_run_in [OF that, where vs = ?x1]]) (use x0 in \<open>auto simp: broken_off_def\<close>)
  have rest: "valid ?G (eff_bind (run_in (upd_health increment_duplicates_skipped)) (\<lambda>_.
     eff_bind (run_in (upd_health (increment_generation GenSkipped))) (\<lambda>_.
     eff_bind (run_in (republish_persisted_result sv r)) (\<lambda>st. if st = None then eff_throw e else eff_ret ()))))
     (\<lambda>_ (s, x). finished w0 h d r s) (\<lambda>_. broken_off w0 h d r)" for e
    by (rule valid_bind [OF off [OF valid_health]], rule valid_bind [OF off [OF valid_health]],
        rule valid_bind [OF off [OF valid_republish]])
      (use x0 in \<open>auto intro!: valid_ret valid_throw simp: finished_def broken_off_def\<close>)
  have giving: "valid (\<lambda>(s, x). known w0 (d # h) Map.empty {} s \<and> x = x0) (run_in (rollback_budget_reservation sv d))
     (\<lambda>_ (s, x). known w0 h Map.empty {} s \<and> x = x0) (\<lambda>_. broken_off w0 h d r)"
    by (rule valid_weaken [OF valid_run_in [OF valid_rollback_reservation, where vs = x0]])
      (use x0 in \<open>auto simp: broken_off_def\<close>)
  have "valid (\<lambda>(s, x). known w0 (d # h) Map.empty {} s \<and> x = x0) (eff_bind (run_in (rollback_budget_reservation sv d)) (\<lambda>_.
     eff_bind (assign (\<lambda>x. x\<lparr>ex_budget_decision := None\<rparr>)) (\<lambda>_.
     eff_bind (run_in (upd_health increment_duplicates_skipped)) (\<lambda>_.
     eff_bind (run_in (upd_health (increment_generation GenSkipped))) (\<lambda>_.
     eff_bind (run_in (republish_persisted_result sv r)) (\<lambda>st. if st = None then eff_throw e else eff_ret ()))))))
     (\<lambda>_ (s, x). finished w0 h d r s) (\<lambda>_. broken_off w0 h d r)" for e
    by (rule valid_bind [OF giving], rule valid_bind [OF valid_assign rest]) auto
  then show "valid (\<lambda>(s, x). a = d \<and> known w0 (d # h) Map.empty {} s \<and> x = x0)
      (eff_bind (run_in (rollback_budget_reservation sv a)) (\<lambda>_.
       eff_bind (assign (\<lambda>x. x\<lparr>ex_budget_decision := None\<rparr>)) (\<lambda>_.
       eff_bind (run_in (upd_health increment_duplicates_skipped)) (\<lambda>_.
       eff_bind (run_in (upd_health (increment_generation GenSkipped))) (\<lambda>_.
       eff_bind (run_in (republish_persisted_result sv r)) (\<lambda>st.
       if st = None then eff_throw (ServiceError (''Persisted result missing after duplicate insert for request '' @ r))
       else eff_ret ()))))))
      (\<lambda>_ (s, x). finished w0 h d r s) (\<lambda>_. broken_off w0 h d r)"
    by (cases "a = d") (simp_all add: valid_def case_prod_unfold)
qed

text \<open>Once the result is stored.\<close>

definition created_at :: "'w \<Rightarrow> brief_budget_decision list \<Rightarrow> brief_budget_decision \<Rightarrow> string \<Rightarrow> stored_brief_result \<Rightarrow>
    'w brief_state \<times> execution \<Rightarrow> bool" where
  "created_at w0 h d r v = (\<lambda>(s, x). ex_persisted_created x \<and> ex_budget_decision x = Some d \<and> known w0 (d # h) [r \<mapsto> v] {} s)"

lemma created_broken_off: "sd_status v = StatusSuccess \<Longrightarrow> created_at w0 h d r v sx \<Longrightarrow> broken_off w0 h d r sx"
  by (auto simp: created_at_def broken_off_def split: prod.splits)

lemma valid_run_created:
  assumes "valid (known w0 (d # h) [r \<mapsto> v] {}) m (\<lambda>a s. Q a s \<and> known w0 (d # h) [r \<mapsto> v] {} s) (\<lambda>e. known w0 (d # h) [r \<mapsto> v] {})"
  shows "valid (created_at w0 h d r v) (run_in m) (\<lambda>a sx. Q a (fst sx) \<and> created_at w0 h d r v sx) (\<lambda>_. created_at w0 h d r v)"
  by (rule validI) (auto simp: run_in_def created_at_def split: prod.splits dest: validD [OF assms] validE [OF assms])

lemma valid_settle_final:
  "valid (created_at w0 h d r v) (settle_final_cost sv cost) (\<lambda>_. created_at w0 h d r v) (\<lambda>_. created_at w0 h d r v)"
proof -
  have health: "valid (created_at w0 h d r v) (run_in (upd_health f)) (\<lambda>_. created_at w0 h d r v) E" for f E
    by (auto simp: valid_def run_in_def upd_health_def eff_upd_def created_at_def known_def)
  have settle: "valid (created_at w0 h d r v) (run_in (sv_settle sv d cost)) (\<lambda>_. created_at w0 h d r v) (\<lambda>_. created_at w0 h d r v)"
    by (rule valid_weaken [OF valid_run_created [of _ _ _ _ _ _ "\<lambda>_ _. True"]])
      (use valid_settle [of w0 "d # h" "[r \<mapsto> v]" "{}" d cost] in simp_all)
  have spent: "valid (created_at w0 h d r v) (assign (\<lambda>x. x\<lparr>ex_spent_budget_usd := c\<rparr>)) (\<lambda>_. created_at w0 h d r v) E" for c E
    by (rule valid_assign) (simp add: created_at_def)
  have req: "valid (created_at w0 h d r v) require_budget_decision (\<lambda>a sx. a = d \<and> created_at w0 h d r v sx) E" for E
    by (auto simp: valid_def require_budget_decision_def created_at_def)
  show ?thesis
    unfolding settle_final_cost_def
    by (rule valid_bind [OF req], rule valid_pure)
      (auto intro!: valid_catch [OF _ health] valid_bind [OF settle] valid_bind [OF spent] health valid_ret)
qed

lemma valid_produce:
  assumes "ex_budget_decision x0 = Some d" and "\<not> ex_persisted_created x0"
  shows "valid (\<lambda>(s, x). known w0 (d # h) Map.empty {} s \<and> x = x0) (produce_result sv rq t daily cost)
    (\<lambda>_ (s, x). finished w0 h d (rq_request_id rq) s) (\<lambda>_. broken_off w0 h d (rq_request_id rq))"
  unfolding produce_result_def
proof (rule valid_bind)
  let ?r = "rq_request_id rq"
  show "valid (\<lambda>(s, x). known w0 (d # h) Map.empty {} s \<and> x = x0) (run_in (sv_build sv rq t cost))
      (\<lambda>b (s, x). (rp_request_id (sr_payload b) = ?r \<and> known w0 (d # h) Map.empty {} s) \<and> x = x0) (\<lambda>_. broken_off w0 h d ?r)"
    by (rule valid_weaken [OF valid_run_in [OF valid_build, where vs = x0]]) (use assms in \<open>auto simp: broken_off_def\<close>)
  fix b :: success_result
  let ?v = "\<lparr>sd_status = StatusSuccess, sd_payload = sr_payload b\<rparr>"
  let ?P = "\<lambda>y (s, x). known w0 (d # h) Map.empty {} s \<and> (y = Created \<longrightarrow> known w0 (d # h) [?r \<mapsto> ?v] {} s) \<and> x = x0"
  have persist': "valid (\<lambda>(s, x). known w0 (d # h) Map.empty {} s \<and> x = x0) (run_in (sv_persist sv (sr_payload b) StatusSuccess))
      ?P (\<lambda>_. broken_off w0 h d ?r)" if "rp_request_id (sr_payload b) = ?r"
    by (rule valid_weaken [OF valid_run_in [OF valid_persist, where vs = x0]]) (use assms that in \<open>auto simp: broken_off_def\<close>)
  have publish': "valid (created_at w0 h d ?r ?v) (run_in (sv_publish sv ?r (sr_payload b)))
      (\<lambda>_ (s, x). kept w0 (d # h) ?r s) (\<lambda>_. broken_off w0 h d ?r)"
    by (rule valid_weaken [OF valid_run_created [of _ _ _ _ _ _ "\<lambda>_ s. known w0 (d # h) [?r \<mapsto> ?v] {(?r, sr_payload b)} s"]])
      (use valid_publish [of w0 "d # h" "[?r \<mapsto> ?v]" "{}" ?r ?v] in
        \<open>auto simp: conj_commute intro!: keptI [of _ _ "[?r \<mapsto> ?v]"] intro: created_broken_off [where v = ?v]\<close>)
  have health: "valid (\<lambda>(s, x). kept w0 (d # h) ?r s) (run_in (upd_health f)) (\<lambda>_ (s, x). kept w0 (d # h) ?r s) E" for f E
    by (auto simp: valid_def run_in_def upd_health_def eff_upd_def kept_def known_def)
  have last: "valid (\<lambda>(s, x). kept w0 (d # h) ?r s)
      (\<lambda>(s, x). run_in (upd_health (f x)) (s, x)) (\<lambda>_ (s, x). finished w0 h d ?r s) E" for f E
    by (auto simp: valid_def run_in_def upd_health_def eff_upd_def kept_def known_def finished_def)
  have settle': "valid (created_at w0 h d ?r ?v) (settle_final_cost sv c) (\<lambda>_. created_at w0 h d ?r ?v) (\<lambda>_. broken_off w0 h d ?r)" for c
    by (rule valid_weaken [OF valid_settle_final [of w0 h d ?r ?v]]) (auto intro: created_broken_off [where v = ?v])
  have assign': "valid (?P Created) (assign (\<lambda>x. x\<lparr>ex_persisted_created := True\<rparr>)) (\<lambda>_. created_at w0 h d ?r ?v) (\<lambda>_. broken_off w0 h d ?r)"
    by (rule valid_assign) (use assms in \<open>simp add: created_at_def\<close>)
  have created: "valid (?P Created)
      (eff_bind (assign (\<lambda>x. x\<lparr>ex_persisted_created := True\<rparr>)) (\<lambda>_.
       eff_bind (settle_final_cost sv (rm_cost_usd (sr_metrics b))) (\<lambda>_.
       eff_bind (run_in (sv_publish sv ?r (sr_payload b))) (\<lambda>_.
       eff_bind (run_in (upd_health (emit_success_metrics b))) (\<lambda>_ (s, x).
         run_in (upd_health (set_budget_remaining_usd (max 0 (daily - ex_spent_budget_usd x)))) (s, x))))))
      (\<lambda>_ (s, x). finished w0 h d ?r s) (\<lambda>_. broken_off w0 h d ?r)"
    by (rule valid_bind [OF assign'], rule valid_bind [OF settle'], rule valid_bind [OF publish'], rule valid_bind [OF health], rule last)
  have stored: "valid (?P Duplicate) (answer_with_stored sv ?r) (\<lambda>_ (s, x). finished w0 h d ?r s) (\<lambda>_. broken_off w0 h d ?r)"
    by (rule valid_weaken [OF valid_answer_with_stored [OF assms]]) auto
  show "valid (\<lambda>(s, x). (rp_request_id (sr_payload b) = ?r \<and> known w0 (d # h) Map.empty {} s) \<and> x = x0)
      (eff_bind (run_in (sv_persist sv (sr_payload b) StatusSuccess)) (\<lambda>persisted.
       if persisted = Duplicate then answer_with_stored sv ?r
       else eff_bind (assign (\<lambda>x. x\<lparr>ex_persisted_created := True\<rparr>)) (\<lambda>_.
         eff_bind (settle_final_cost sv (rm_cost_usd (sr_metrics b))) (\<lambda>_.
         eff_bind (run_in (sv_publish sv ?r (sr_payload b))) (\<lambda>_.
         eff_bind (run_in (upd_health (emit_success_metrics b))) (\<lambda>_ (s, x).
           run_in (upd_health (set_budget_remaining_usd (max 0 (daily - ex_spent_budget_usd x)))) (s, x)))))))
      (\<lambda>_ (s, x). finished w0 h d ?r s) (\<lambda>_. broken_off w0 h d ?r)" (is "valid ?Q ?m ?R ?E")
  proof (cases "rp_request_id (sr_payload b) = ?r")
    case True
    have "valid (\<lambda>(s, x). known w0 (d # h) Map.empty {} s \<and> x = x0) ?m ?R ?E"
    proof (rule valid_bind [OF persist' [OF True]])
      fix y :: persist_outcome
      show "valid (?P y) (if y = Duplicate then answer_with_stored sv ?r
         else eff_bind (assign (\<lambda>x. x\<lparr>ex_persisted_created := True\<rparr>)) (\<lambda>_.
           eff_bind (settle_final_cost sv (rm_cost_usd (sr_metrics b))) (\<lambda>_.
           eff_bind (run_in (sv_publish sv ?r (sr_payload b))) (\<lambda>_.
           eff_bind (run_in (upd_health (emit_success_metrics b))) (\<lambda>_ (s, x).
             run_in (upd_health (set_budget_remaining_usd (max 0 (daily - ex_spent_budget_usd x)))) (s, x)))))) ?R ?E"
        using created stored by (cases y) simp_all
    qed
    then show ?thesis by (rule valid_weaken) auto
  next
    case False
    then show ?thesis by (auto simp: valid_def)
  qed
qed

text \<open>
  After the error handler: what it throws leaves the reservation given back, or kept for a stored success, or held
  because giving it back has thrown.
\<close>

definition failed :: "'w \<Rightarrow> brief_budget_decision list \<Rightarrow> brief_budget_decision \<Rightarrow> string \<Rightarrow> brief_error \<Rightarrow> 'w brief_state \<Rightarrow> bool" where
  "failed w0 h d r e s \<longleftrightarrow> known w0 h Map.empty {} s \<or>
     (\<exists>v. sd_status v = StatusSuccess \<and> known w0 (d # h) [r \<mapsto> v] {} s) \<or>
     (known w0 (d # h) Map.empty {} s \<and> (\<exists>s1 s2. sv_rollback sv d s1 = (Inl e, s2)))"

lemma valid_vars:
  "(\<And>vs. valid (\<lambda>(s, x). P (s, x) \<and> x = vs) (m vs) Q E) \<Longrightarrow> valid P (\<lambda>(s, x). m x (s, x)) Q E"
  by (auto simp: valid_def)

lemma valid_handle_error:
  assumes "\<And>s. known w0 h' K {} s \<Longrightarrow> answered w0 h' r s \<Longrightarrow> finished w0 h d r s"
    and "\<And>e s. known w0 h' K {} s \<Longrightarrow> failed w0 h d r e s"
  shows "valid (\<lambda>(s, x). known w0 h' K {} s)
    (eff_bind (run_in (handle_summary_request_failure sv r t e c)) (\<lambda>outcome. if outcome = Handled then eff_ret () else eff_throw e))
    (\<lambda>_ (s, x). finished w0 h d r s) (\<lambda>e (s, x). failed w0 h d r e s)"
proof (rule valid_bind)
  show "valid (\<lambda>(s, x). known w0 h' K {} s) (run_in (handle_summary_request_failure sv r t e c))
      (\<lambda>a (s, x). known w0 h' K {} s \<and> (a = Handled \<longrightarrow> answered w0 h' r s)) (\<lambda>e (s, x). failed w0 h d r e s)"
    by (rule valid_run_in_all [OF valid_handle_failure]) (use assms(2) in auto)
  show "valid (\<lambda>(s, x). known w0 h' K {} s \<and> (a = Handled \<longrightarrow> answered w0 h' r s))
      (if a = Handled then eff_ret () else eff_throw e) (\<lambda>_ (s, x). finished w0 h d r s) (\<lambda>e (s, x). failed w0 h d r e s)" for a
    using assms by (auto intro!: valid_ret valid_throw)
qed

lemma valid_after_error:
  assumes "authorized d"
  shows "valid (broken_off w0 h d (rq_request_id rq)) (after_error sv rq t e)
    (\<lambda>_ (s, x). finished w0 h d (rq_request_id rq) s) (\<lambda>e (s, x). failed w0 h d (rq_request_id rq) e s)"
  unfolding after_error_def
proof (rule valid_vars)
  fix vs :: execution
  let ?r = "rq_request_id rq"
  let ?handle = "\<lambda>_. eff_bind (run_in (handle_summary_request_failure sv ?r t e (ex_persisted_created vs)))
      (\<lambda>outcome. if outcome = Handled then eff_ret () else eff_throw e)"
  let ?roll = "eff_catch
      (eff_bind (run_in (rollback_budget_reservation sv d)) (\<lambda>_. assign (\<lambda>x. x\<lparr>ex_budget_decision := None\<rparr>)))
      (\<lambda>re. eff_bind (run_in (upd_health redis_error_health)) (\<lambda>_. eff_throw re))"
  let ?m = "eff_bind (case ex_budget_decision vs of
      Some d \<Rightarrow> if authorized d \<and> \<not> ex_persisted_created vs
        then eff_catch
          (eff_bind (run_in (rollback_budget_reservation sv d)) (\<lambda>_. assign (\<lambda>x. x\<lparr>ex_budget_decision := None\<rparr>)))
          (\<lambda>re. eff_bind (run_in (upd_health redis_error_health)) (\<lambda>_. eff_throw re)) else eff_ret ()
      | None \<Rightarrow> eff_ret ()) ?handle"
  let ?Q = "\<lambda>_ (s, x). finished w0 h d ?r s" and ?E = "\<lambda>e (s, x). failed w0 h d ?r e s"
  have given: "valid (\<lambda>(s, x). known w0 h Map.empty {} s) (?handle u) ?Q ?E" for u
    by (rule valid_handle_error) (auto simp: finished_def failed_def)
  have kept: "valid (\<lambda>(s, x). known w0 (d # h) [?r \<mapsto> v] {} s) (?handle u) ?Q ?E" if "sd_status v = StatusSuccess" for v u
    by (rule valid_handle_error) (use that in \<open>auto simp: finished_def failed_def intro: answered_kept\<close>)
  have roll: "valid (\<lambda>(s, x). known w0 (d # h) Map.empty {} s) ?roll (\<lambda>_ (s, x). known w0 h Map.empty {} s) ?E"
  proof (rule valid_catch [OF valid_bind])
    show "valid (\<lambda>(s, x). known w0 (d # h) Map.empty {} s) (run_in (rollback_budget_reservation sv d))
        (\<lambda>_ (s, x). known w0 h Map.empty {} s)
        (\<lambda>e (s, x). known w0 (d # h) Map.empty {} s \<and> (\<exists>s1 s2. sv_rollback sv d s1 = (Inl e, s2)))"
      by (rule valid_run_in_all [OF valid_rollback_reservation]) auto
    show "valid (\<lambda>(s, x). known w0 h Map.empty {} s) (assign (\<lambda>x. x\<lparr>ex_budget_decision := None\<rparr>))
        (\<lambda>_ (s, x). known w0 h Map.empty {} s) E" for E
      by (rule valid_assign) simp
    show "valid (\<lambda>(s, x). known w0 (d # h) Map.empty {} s \<and> (\<exists>s1 s2. sv_rollback sv d s1 = (Inl re, s2)))
        (eff_bind (run_in (upd_health redis_error_health)) (\<lambda>_. eff_throw re)) (\<lambda>_ (s, x). known w0 h Map.empty {} s) ?E" for re
      by (auto simp: valid_def run_in_def upd_health_def eff_upd_def eff_bind_def eff_throw_def failed_def known_def)
  qed
  show "valid (\<lambda>(s, x). broken_off w0 h d ?r (s, x) \<and> x = vs) ?m ?Q ?E"
  proof (cases "ex_persisted_created vs")
    case True
    have "valid (\<lambda>sx. \<exists>v. sd_status v = StatusSuccess \<and> (case sx of (s, x) \<Rightarrow> known w0 (d # h) [?r \<mapsto> v] {} s)) (?handle ()) ?Q ?E"
      by (intro valid_ex valid_pure) (rule kept)
    then have "valid (\<lambda>(s, x). broken_off w0 h d ?r (s, x) \<and> x = vs) (?handle ()) ?Q ?E"
      by (rule valid_weaken) (use True in \<open>auto simp: broken_off_def\<close>)
    with True show ?thesis by (cases "ex_budget_decision vs") simp_all
  next
    case False
    show ?thesis
    proof (cases "ex_budget_decision vs")
      case None
      have "valid (\<lambda>(s, x). broken_off w0 h d ?r (s, x) \<and> x = vs) (?handle ()) ?Q ?E"
        by (rule valid_weaken [OF given]) (use False None in \<open>auto simp: broken_off_def\<close>)
      with None show ?thesis by simp
    next
      case (Some d')
      have "valid (\<lambda>(s, x). broken_off w0 h d ?r (s, x) \<and> x = vs) (eff_bind ?roll ?handle) ?Q ?E"
        by (rule valid_weaken [OF valid_bind [OF roll given]]) (use False Some in \<open>auto simp: broken_off_def\<close>)
      moreover have "valid (\<lambda>(s, x). broken_off w0 h d ?r (s, x) \<and> x = vs) ?m ?Q ?E" if "d' \<noteq> d"
        using that False Some by (auto simp: valid_def broken_off_def)
      ultimately show ?thesis using False Some assms by (cases "d' = d") simp_all
    qed
  qed
qed

lemma known_init: "held w = h \<Longrightarrow> bst_world s = w \<Longrightarrow> known w h Map.empty {} s"
  by (simp add: known_def)

lemma finished_answered: "answered w0 h r s \<Longrightarrow> finished w0 h d r s"
  by (simp add: finished_def)

lemma failed_known: "known w0 h Map.empty {} s \<Longrightarrow> failed w0 h d r e s"
  by (simp add: failed_def)

lemma valid_authorize_budget:
  "valid (known w0 h K M) (authorize_budget sv i) (\<lambda>d. known w0 (if authorized d then d # h else h) K M)
     (\<lambda>_. \<lambda>s. \<exists>h'. known w0 h' K M s \<and> h' = h)"
  unfolding authorize_budget_def
  by (rule valid_catch [OF valid_bind [OF valid_authorize valid_bind [OF valid_health valid_ret]]])
    (auto intro!: valid_bind [OF valid_health] valid_throw)

text \<open>The run with the reservation \<open>d\<close>.\<close>

lemma valid_reserved_run:
  assumes "authorized d" and x0: "ex_budget_decision x0 = Some d" "\<not> ex_persisted_created x0"
  shows "valid (known w0 (d # h) Map.empty {})
    (\<lambda>s. case eff_catch (produce_result sv rq t daily cost) (after_error sv rq t) (s, x0) of (r, (s', _)) \<Rightarrow> (r, s'))
    (\<lambda>_. finished w0 h d (rq_request_id rq)) (failed w0 h d (rq_request_id rq))"
proof -
  have "valid (\<lambda>(s, x). known w0 (d # h) Map.empty {} s \<and> x = x0) (eff_catch (produce_result sv rq t daily cost) (after_error sv rq t))
    (\<lambda>_ (s, x). finished w0 h d (rq_request_id rq) s) (\<lambda>e (s, x). failed w0 h d (rq_request_id rq) e s)"
    by (rule valid_catch [OF valid_produce [OF x0]], rule valid_after_error [OF assms(1)])
  then show ?thesis
    by (intro validI; clarsimp split: prod.splits) (blast dest: validD validE)+
qed

lemma valid_execute:
  "valid (known w0 h Map.empty {}) (execute sv cfg t rq)
    (\<lambda>_ s. \<exists>d. finished w0 h d (rq_request_id rq) s) (\<lambda>e s. \<exists>d. failed w0 h d (rq_request_id rq) e s)"
  unfolding execute_def
proof (rule valid_bind)
  let ?r = "rq_request_id rq"
  let ?Q = "\<lambda>_ s. \<exists>d. finished w0 h d ?r s" and ?E = "\<lambda>e s. \<exists>d. failed w0 h d ?r e s"
  show "valid (known w0 h Map.empty {}) (eff_catch (sv_load sv ?r)
       (\<lambda>e. eff_bind (upd_health (brief_increment_error ''idempotency_error'')) (\<lambda>_. eff_throw e)))
       (\<lambda>x s. known w0 h Map.empty {} s \<and> (\<forall>v. x = Some v \<longrightarrow> known w0 h [?r \<mapsto> v] {} s)) ?E"
    by (rule valid_catch [OF valid_load valid_bind [OF valid_health valid_throw]]) (auto intro: failed_known)
  have again: "valid (\<lambda>s. known w0 h Map.empty {} s \<and> known w0 h [?r \<mapsto> v] {} s)
      (eff_bind (upd_health f) (\<lambda>_. eff_catch (sv_publish sv ?r (sd_payload v)) (\<lambda>e. eff_bind (upd_health g) (\<lambda>_. eff_throw e)))) ?Q ?E" for v f g
  proof (rule valid_bind)
    show "valid (\<lambda>s. known w0 h Map.empty {} s \<and> known w0 h [?r \<mapsto> v] {} s) (upd_health f)
        (\<lambda>_ s. known w0 h Map.empty {} s \<and> known w0 h [?r \<mapsto> v] {} s) ?E"
      unfolding upd_health_def by (rule valid_upd) (simp add: known_def)
    have again': "valid (\<lambda>s. known w0 h Map.empty {} s \<and> known w0 h [?r \<mapsto> v] {} s)
        (eff_catch (sv_publish sv ?r (sd_payload v)) (\<lambda>e. eff_bind (upd_health g) (\<lambda>_. eff_throw e)))
        (\<lambda>_ s. known w0 h Map.empty {} s \<and> known w0 h [?r \<mapsto> v] {(?r, sd_payload v)} s) (\<lambda>_. known w0 h Map.empty {})"
      by (rule valid_catch [OF valid_publish valid_bind [OF valid_health valid_throw]])
    show "valid (\<lambda>s. known w0 h Map.empty {} s \<and> known w0 h [?r \<mapsto> v] {} s)
        (eff_catch (sv_publish sv ?r (sd_payload v)) (\<lambda>e. eff_bind (upd_health g) (\<lambda>_. eff_throw e))) ?Q ?E" for u :: unit
      by (rule valid_weaken [OF again']) (auto intro: failed_known intro!: exI finished_answered answeredI [of _ _ "[?r \<mapsto> v]"])
  qed
  have over: "valid (known w0 h Map.empty {}) (eff_bind (upd_health f) (\<lambda>_. emit_failure_result sv ?r t code msg b)) ?Q ?E" for f code msg b
    by (rule valid_weaken [OF valid_bind [OF valid_health valid_emit_failure]]) (auto intro: failed_known finished_answered)
  have reserved_run: "valid (known w0 (d # h) Map.empty {})
      (\<lambda>s. case eff_catch (produce_result sv rq t daily cost) (after_error sv rq t) (s, \<lparr>ex_budget_decision = Some d,
         ex_spent_budget_usd = d_spent_usd d, ex_persisted_created = False\<rparr>) of (r, (s', _)) \<Rightarrow> (r, s')) ?Q ?E"
    if "authorized d" for d daily cost
    by (rule valid_weaken [OF valid_reserved_run [OF that]]) auto
  have new: "valid (known w0 h Map.empty {}) (eff_bind (authorize_budget sv i) (\<lambda>d.
      if \<not> authorized d then eff_bind (upd_health f) (\<lambda>_. emit_failure_result sv ?r t code msg b)
      else (\<lambda>s. case eff_catch (produce_result sv rq t daily cost) (after_error sv rq t) (s, \<lparr>ex_budget_decision = Some d,
         ex_spent_budget_usd = d_spent_usd d, ex_persisted_created = False\<rparr>) of (r, (s', _)) \<Rightarrow> (r, s')))) ?Q ?E"
    for i f code msg b daily cost
  proof (rule valid_bind)
    show "valid (known w0 h Map.empty {}) (authorize_budget sv i) (\<lambda>d. known w0 (if authorized d then d # h else h) Map.empty {}) ?E"
      by (rule valid_weaken [OF valid_authorize_budget]) (auto intro: failed_known)
    show "valid (known w0 (if authorized d then d # h else h) Map.empty {})
      (if \<not> authorized d then eff_bind (upd_health f) (\<lambda>_. emit_failure_result sv ?r t code msg b)
       else (\<lambda>s. case eff_catch (produce_result sv rq t daily cost) (after_error sv rq t) (s, \<lparr>ex_budget_decision = Some d,
         ex_spent_budget_usd = d_spent_usd d, ex_persisted_created = False\<rparr>) of (r, (s', _)) \<Rightarrow> (r, s'))) ?Q ?E" for d
      using over reserved_run by (cases "authorized d") simp_all
  qed
  show "valid (\<lambda>s. known w0 h Map.empty {} s \<and> (\<forall>v. x = Some v \<longrightarrow> known w0 h [?r \<mapsto> v] {} s))
     (case x of
       Some r \<Rightarrow>
         eff_bind (upd_health (\<lambda>h. increment_generation GenSkipped (increment_duplicates_skipped h))) (\<lambda>_.
         eff_catch (sv_publish sv (rq_request_id rq) (sd_payload r))
           (\<lambda>e. eff_bind (upd_health (brief_increment_error ''publish_error'')) (\<lambda>_. eff_throw e)))
     | None \<Rightarrow>
         let daily_budget = default (cf_llm_daily_budget_usd cfg) (Option.bind (rq_budget rq) sb_daily_budget_usd);
             estimated_cost = normalize_usd (estimate_request_cost_usd rq) in
         eff_bind (authorize_budget sv \<lparr>ab_date_key = get_budget_date_key t, ab_daily_budget_usd = daily_budget,
             ab_estimated_cost_usd = estimated_cost\<rparr>) (\<lambda>d.
         if \<not> authorized d
         then eff_bind (upd_health (\<lambda>h. increment_generation GenSkipped (increment_budget_exceeded h))) (\<lambda>_.
           emit_failure_result sv (rq_request_id rq) t ''budget_exceeded'' ''Daily brief budget exceeded'' False)
         else (\<lambda>s.
           case eff_catch (produce_result sv rq t daily_budget estimated_cost) (after_error sv rq t)
               (s, \<lparr>ex_budget_decision = Some d, ex_spent_budget_usd = d_spent_usd d, ex_persisted_created = False\<rparr>) of
             (r, (s', _)) \<Rightarrow> (r, s')))) ?Q ?E" for x
    using again new by (cases x) (simp_all add: Let_def)
qed

text \<open>A resolver that only lets others move and keeps the identity of the request.\<close>

lemma valid_process:
  assumes "\<And>rq. valid (known w0 h Map.empty {}) (resolve rq)
      (\<lambda>r s. known w0 h Map.empty {} s \<and> rq_request_id r = rq_request_id rq) (\<lambda>_. known w0 h Map.empty {})"
  shows "valid (known w0 h Map.empty {}) (process_summary_request sv cfg resolve t rq)
    (\<lambda>_ s. \<exists>d. finished w0 h d (rq_request_id rq) s) (\<lambda>e s. \<exists>d. failed w0 h d (rq_request_id rq) e s)"
  unfolding process_summary_request_def
proof (rule valid_bind)
  let ?r = "rq_request_id rq"
  let ?R = "\<lambda>x s. case x of None \<Rightarrow> answered w0 h ?r s | Some r \<Rightarrow> known w0 h Map.empty {} s \<and> rq_request_id r = ?r"
  let ?E = "\<lambda>e s. \<exists>d. failed w0 h d ?r e s"
  have resolving: "valid (known w0 h Map.empty {}) (eff_bind (resolve rq) (\<lambda>r. eff_ret (Some r))) ?R (\<lambda>_. known w0 h Map.empty {})"
    by (rule valid_bind [OF assms valid_ret]) simp
  have refused: "valid (known w0 h Map.empty {}) (eff_bind (handle_non_retryable_failure sv ?r t msg code) (\<lambda>_. eff_ret None)) ?R ?E" for msg code
    by (rule valid_weaken [OF valid_bind [OF valid_non_retryable valid_ret]]) (auto intro: failed_known)
  have rethrown: "valid (known w0 h Map.empty {}) (eff_bind (upd_health f) (\<lambda>_. eff_bind (upd_health g) (\<lambda>_. eff_throw e))) ?R ?E" for f g e
    by (rule valid_bind [OF valid_health], rule valid_bind [OF valid_health], rule valid_throw) (auto intro: failed_known)
  show "valid (known w0 h Map.empty {}) (eff_catch (eff_bind (resolve rq) (\<lambda>r. eff_ret (Some r)))
         (\<lambda>e. case e of
            NonRetryableProcessingError msg code \<Rightarrow>
              eff_bind (handle_non_retryable_failure sv ?r t msg code) (\<lambda>_. eff_ret None)
          | _ \<Rightarrow> eff_bind (upd_health (brief_increment_error ''generation_error'')) (\<lambda>_.
              eff_bind (upd_health (increment_generation GenFailure)) (\<lambda>_. eff_throw e)))) ?R ?E"
    by (rule valid_catch [OF resolving]) (use refused rethrown in \<open>auto split: brief_error.split\<close>)
  fix x
  show "valid (?R x) (case x of None \<Rightarrow> eff_ret () | Some r \<Rightarrow> execute sv cfg t (create_brief_orchestration_request r))
      (\<lambda>_ s. \<exists>d. finished w0 h d ?r s) ?E"
  proof (cases x)
    case None
    then show ?thesis by (auto intro!: valid_ret finished_answered)
  next
    case (Some r)
    have id: "rq_request_id (create_brief_orchestration_request r) = rq_request_id r"
      by (simp add: create_brief_orchestration_request_def)
    have "valid (\<lambda>s. rq_request_id r = ?r \<and> known w0 h Map.empty {} s) (execute sv cfg t (create_brief_orchestration_request r))
      (\<lambda>_ s. \<exists>d. finished w0 h d ?r s) ?E"
      using valid_execute [of w0 h cfg t "create_brief_orchestration_request r"] by (intro valid_pure) (simp add: id)
    then show ?thesis by (simp add: Some conj_commute)
  qed
qed

end

end
