(* ===== verification/Platform.thy ===== *)
theory Platform
  imports Orchestrator
begin

section \<open>The brief service on its platform\<close>

text \<open>
  What the orchestrator relies on, down to the calls of Prisma, Kafka, the budget governor and the models: the laws
  of its services follow for the services the code builds (\<open>default_services\<close>), with the results the database
  stores, the messages the topic holds and the reservations of which the governor has said that they are granted and
  not that they are given back.
\<close>

lemma build_payload_request_id [simp]: "rp_request_id (sr_payload (build_success_payload rq t ttl hs nts p m i o' c)) = rq_request_id rq"
  by (simp add: build_success_payload_def Let_def)

lemma internal_request_id:
  "build_internal_success_result env rq t c p q prov m s = (Inr r, s') \<Longrightarrow> rp_request_id (sr_payload r) = rq_request_id rq"
  by (auto simp: build_internal_success_result_def eff_bind_Inr_iff eff_ret_def Let_def)

lemma llm_request_id:
  "build_llm_backed_success_result env rq t c lr prov m s = (Inr r, s') \<Longrightarrow> rp_request_id (sr_payload r) = rq_request_id rq"
  by (auto simp: build_llm_backed_success_result_def eff_bind_Inr_iff eff_ret_def Let_def)

lemma build_request_id:
  assumes "build_success_result env rq t c s = (Inr r, s')"
  shows "rp_request_id (sr_payload r) = rq_request_id rq"
proof -
  have "rp_request_id (sr_payload r) = rq_request_id rq" if "internal_strategy env rq t c s = (Inr r, s')"
    using that internal_request_id by (simp add: internal_strategy_def)
  moreover have "rp_request_id (sr_payload r) = rq_request_id rq" if "http_strategy env rq t c s = (Inr r, s')"
    using that llm_request_id by (auto simp: http_strategy_def eff_bind_Inr_iff)
  moreover have "rp_request_id (sr_payload r) = rq_request_id rq" if "codex_strategy env rq t c s = (Inr r, s')"
    using that internal_request_id llm_request_id
    by (auto simp: codex_strategy_def eff_catch_Inr_iff eff_bind_Inr_iff eff_throw_def Let_def split: if_splits)
  ultimately show ?thesis
    using assms by (auto simp: build_success_result_def llm_provider_strategies_def obj_get_def eff_throw_def Let_def
        split: option.splits if_splits looked_up.splits)
qed

lemma single_map_le: "[r \<mapsto> v] \<subseteq>\<^sub>m R \<longleftrightarrow> R r = Some v"
  by (auto simp: map_le_def)

lemma map_sum_id_Inr [simp]: "map_sum f id x = Inr a \<longleftrightarrow> x = Inr a"
  by (cases x) simp_all

locale brief_platform =
  fixes bk :: "'w brief_backend" and env :: "'w gen_env" and topic :: string
    and results :: "'w \<Rightarrow> results" and messages :: "'w \<Rightarrow> (string \<times> brief_result_payload) set"
    and held :: "'w \<Rightarrow> brief_budget_decision list"
  assumes find_unique: "bk_find_unique bk r w = (x, w') \<Longrightarrow>
      moves results messages w w' \<and> held w' = held w \<and> (\<forall>v. x = Inr (Some v) \<longrightarrow> results w' r = Some v)"
    and create: "bk_create bk r at_time v w = (y, w') \<Longrightarrow>
      moves results messages w w' \<and> held w' = held w \<and> (y = Inr () \<longrightarrow> results w' r = Some v)"
    and send: "bk_send bk topic r p w = (z, w') \<Longrightarrow> backed (results w) (r, p) \<Longrightarrow>
      moves results messages w w' \<and> held w' = held w \<and> (z = Inr () \<longrightarrow> (r, p) \<in> messages w')"
    and authorize_call: "bk_authorize bk i w = (a, w') \<Longrightarrow>
      moves results messages w w' \<and>
      held w' = (case a of Inr d \<Rightarrow> if authorized d then d # held w else held w | Inl _ \<Rightarrow> held w)"
    and rollback_call: "bk_rollback bk d w = (b, w') \<Longrightarrow>
      moves results messages w w' \<and> held w' = (if isl b then held w else remove1 d (held w))"
    and settle_call: "bk_settle bk d c w = (b, w') \<Longrightarrow> moves results messages w w' \<and> held w' = held w"
    and fetch: "ge_fetch env q w = (f, w') \<Longrightarrow> moves results messages w w' \<and> held w' = held w"
    and codex: "ge_codex env t w = (g, w') \<Longrightarrow> moves results messages w w' \<and> held w' = held w"
begin

text \<open>Effects that only let others move.\<close>

definition quiet :: "('w brief_state, 'e, 'a) eff \<Rightarrow> bool" where
  "quiet m \<longleftrightarrow> (\<forall>s. moves results messages (bst_world s) (bst_world (snd (m s))) \<and> held (bst_world (snd (m s))) = held (bst_world s))"

named_theorems quiet_rules \<open>effects that are quiet\<close>

lemma quiet_world: "(\<And>s. bst_world (snd (m s)) = bst_world s) \<Longrightarrow> quiet m"
  by (simp add: quiet_def)

lemma quiet_ret [quiet_rules]: "quiet (eff_ret a)"
  and quiet_throw [quiet_rules]: "quiet (eff_throw e)"
  and quiet_of [quiet_rules]: "quiet (eff_of v)"
  and quiet_health [quiet_rules]: "quiet (upd_health f)"
  by (auto intro!: quiet_world simp: eff_defs eff_of_def upd_health_def split: sum.splits)

lemma quiet_matchers [quiet_rules]: "quiet (on_matchers m)"
  by (rule quiet_world) (simp add: on_matchers_def split: prod.split)

lemma quiet_payload [quiet_rules]: "quiet (request_payload api rq)"
  by (rule quiet_world) (simp add: request_payload_def split: prod.split)

lemma quiet_bind [quiet_rules]: "quiet m \<Longrightarrow> (\<And>a. quiet (k a)) \<Longrightarrow> quiet (eff_bind m k)"
  unfolding quiet_def eff_bind_def by (auto split: prod.splits sum.splits) (metis moves_trans snd_conv)+

lemma quiet_catch [quiet_rules]: "quiet m \<Longrightarrow> (\<And>e. quiet (h e)) \<Longrightarrow> quiet (eff_catch m h)"
  unfolding quiet_def eff_catch_def by (auto split: prod.splits sum.splits) (metis moves_trans snd_conv)+

lemma quietI: "(\<And>s x s'. m s = (x, s') \<Longrightarrow> moves results messages (bst_world s) (bst_world s') \<and> held (bst_world s') = held (bst_world s)) \<Longrightarrow> quiet m"
  unfolding quiet_def by (metis prod.collapse)

lemma quietD: "quiet m \<Longrightarrow> m s = (x, s') \<Longrightarrow> moves results messages (bst_world s) (bst_world s') \<and> held (bst_world s') = held (bst_world s)"
  by (auto simp: quiet_def dest!: spec [of _ s])

lemma quiet_on_world: "(\<And>w x w'. m w = (x, w') \<Longrightarrow> moves results messages w w' \<and> held w' = held w) \<Longrightarrow> quiet (on_world m)"
  by (simp add: quiet_def on_world_def split: prod.split)

lemma quiet_fetch: "quiet (on_world (ge_fetch env q))"
  and quiet_codex: "quiet (on_world (ge_codex env t))"
  by (rule quiet_on_world, erule fetch codex)+

lemma quiet_then: "quiet m \<Longrightarrow> (\<And>x. quiet (k x)) \<Longrightarrow> quiet (\<lambda>s. case m s of (x, s') \<Rightarrow> k x s')"
  unfolding quiet_def by (auto split: prod.splits) (metis moves_trans snd_conv)+

lemma quiet_const: "quiet (\<lambda>s. (x, s))"
  by (rule quiet_world) simp

lemma quiet_call_http: "quiet (call_http_llm env rq)"
proof -
  have "call_http_llm env rq = (\<lambda>s. case request_payload (ge_api env) rq s of (x, s1) \<Rightarrow>
     (case x of
        Inl e \<Rightarrow> \<lambda>s1. (Inl (LlmGenerationError (llm_error_text ''LLM endpoint request failed: ''
            (Some (case e of HandoffFailed h \<Rightarrow> handoff_error_text h | _ \<Rightarrow> [])))), s1)
      | Inr p \<Rightarrow> \<lambda>s1. case on_world (ge_fetch env p) s1 of (y, s2) \<Rightarrow>
          ((case y of
             Inl e \<Rightarrow> Inl (LlmGenerationError (llm_error_text ''LLM endpoint request failed: '' e))
           | Inr response \<Rightarrow>
               if \<not> ht_ok response then
                  (case ht_text response of
                     Inl e \<Rightarrow> Inl (ServiceError e)
                   | Inr _ \<Rightarrow> Inl (LlmGenerationError (''LLM endpoint returned HTTP '' @ nat_str (ht_status response))))
                else (case ht_json response of
                    Inl e \<Rightarrow> Inl (LlmGenerationError (llm_error_text ''LLM endpoint returned invalid JSON: '' e))
                  | Inr (Inl issue) \<Rightarrow> Inl (LlmGenerationError (''LLM endpoint response validation failed: '' @ format_schema_issue issue))
                  | Inr (Inr r) \<Rightarrow> Inr (parsed_llm_response r))), s2)) s1)"
    unfolding call_http_llm_def fun_eq_iff by (simp split: prod.split sum.split)
  moreover have "quiet (case x of
        Inl e \<Rightarrow> \<lambda>s1. (a e, s1)
      | Inr p \<Rightarrow> \<lambda>s1. case on_world (ge_fetch env p) s1 of (y, s2) \<Rightarrow> (b y, s2))" for x and a :: "brief_error \<Rightarrow> brief_error + llm_response" and b
    by (cases x) (auto intro: quiet_const quiet_then [OF quiet_fetch quiet_const])
  ultimately show ?thesis by (simp add: quiet_then [OF quiet_payload])
qed

lemma quiet_call_codex: "quiet (call_codex_cli_llm env rq)"
proof -
  have "quiet (\<lambda>s. case on_world (ge_codex env prompt) s of (y, s') \<Rightarrow> (b y, s'))" for prompt and b :: "_ \<Rightarrow> brief_error + llm_response"
    by (rule quiet_then [OF quiet_codex quiet_const])
  moreover have "(\<lambda>s. case on_world (ge_codex env prompt) s of
          (Inl e, s') \<Rightarrow> (Inl (LlmGenerationError (llm_error_text ''Codex CLI request failed: '' e)), s')
        | (Inr (Inl issue), s') \<Rightarrow> (Inl (LlmGenerationError (''Codex CLI response validation failed: '' @ format_schema_issue issue)), s')
        | (Inr (Inr r), s') \<Rightarrow> (Inr (parsed_llm_response r), s')) = (\<lambda>s. case on_world (ge_codex env prompt) s of (y, s') \<Rightarrow>
      ((case y of
          Inl e \<Rightarrow> Inl (LlmGenerationError (llm_error_text ''Codex CLI request failed: '' e))
        | Inr (Inl issue) \<Rightarrow> Inl (LlmGenerationError (''Codex CLI response validation failed: '' @ format_schema_issue issue))
        | Inr (Inr r) \<Rightarrow> Inr (parsed_llm_response r)), s'))" for prompt
    by (simp add: fun_eq_iff split: prod.split sum.split)
  ultimately show ?thesis
    unfolding call_codex_cli_llm_def build_codex_cli_prompt_def by (auto intro!: quiet_rules)
qed

lemma quiet_map: "(\<And>x. quiet (f x)) \<Longrightarrow> quiet (eff_map f xs)"
  by (induction xs) (auto intro: quiet_rules)

lemma quiet_internal: "quiet (build_internal_success_result env rq t c p q prov m)"
  unfolding build_internal_success_result_def internal_highlights_def Let_def by (intro quiet_rules)

lemma quiet_llm: "quiet (build_llm_backed_success_result env rq t c lr prov m)"
  unfolding build_llm_backed_success_result_def llm_highlights_def internal_highlights_def Let_def
  by (auto intro!: quiet_rules split: sum.split)

lemma quiet_build: "quiet (build_success_result env rq t c)"
proof -
  have "quiet (internal_strategy env rq t c)" by (simp add: internal_strategy_def quiet_internal)
  moreover have "quiet (http_strategy env rq t c)"
    unfolding http_strategy_def by (intro quiet_bind quiet_call_http quiet_llm)
  moreover have "quiet (codex_strategy env rq t c)"
    unfolding codex_strategy_def Let_def by (auto intro!: quiet_catch quiet_bind quiet_call_codex quiet_llm quiet_internal quiet_throw)
  ultimately show ?thesis
    by (auto simp: build_success_result_def llm_provider_strategies_def obj_get_def Let_def quiet_throw split: option.splits looked_up.splits)
qed

lemma load_law:
  assumes "with_postgres_health (prisma_load bk r) s = (x, s')"
  shows "moves results messages (bst_world s) (bst_world s') \<and> held (bst_world s') = held (bst_world s) \<and>
    (\<forall>v. x = Inr (Some v) \<longrightarrow> results (bst_world s') r = Some v)"
proof -
  obtain y w' where y: "bk_find_unique bk r (bst_world s) = (y, w')" by fastforce
  have w: "bst_world s' = w'" using assms y
    by (auto simp: with_postgres_health_def prisma_load_def on_world_def split: sum.splits option.splits)
  have "results w' r = Some v" if "x = Inr (Some v)" for v
    using assms y that find_unique [OF y]
    by (auto simp: with_postgres_health_def prisma_load_def on_world_def parse_brief_result_payload_def Let_def
        split: sum.splits option.splits if_splits)
  with find_unique [OF y] w show ?thesis by simp
qed

lemma persist_law:
  assumes "with_postgres_health (prisma_persist bk p st) s = (y, s')"
  shows "moves results messages (bst_world s) (bst_world s') \<and> held (bst_world s') = held (bst_world s) \<and>
    (y = Inr Created \<longrightarrow> results (bst_world s') (rp_request_id p) = Some \<lparr>sd_status = st, sd_payload = p\<rparr>)"
proof -
  obtain x w' where x: "bk_create bk (rp_request_id p) (rp_produced_at p) \<lparr>sd_status = st, sd_payload = p\<rparr> (bst_world s) = (x, w')"
    by fastforce
  show ?thesis using assms create [OF x] x
    by (auto simp: with_postgres_health_def prisma_persist_def on_world_def split: sum.splits if_splits)
qed

sublocale result_services "default_services bk topic env" results messages held
proof
  show "moves results messages (bst_world s) (bst_world s') \<and> held (bst_world s') = held (bst_world s) \<and>
      (\<forall>r. q = Inr r \<longrightarrow> rp_request_id (sr_payload r) = rq_request_id rq)"
    if "sv_build (default_services bk topic env) rq t cost s = (q, s')" for rq t cost s q s'
    using that quietD [OF quiet_build, of rq t cost s q s'] build_request_id [of env rq t cost s _ s'] by (auto simp: default_services_def)
qed (auto simp: default_services_def publish_result_def on_budget_def on_world_def isl_map_sum split: prod.splits sum.splits
      dest!: load_law persist_law dest: send authorize_call rollback_call settle_call)

text \<open>What the outcome of a run says of the world.\<close>

definition ended :: "'w brief_state \<Rightarrow> string \<Rightarrow> brief_error + unit \<Rightarrow> 'w brief_state \<Rightarrow> bool" where
  "ended s r x s' \<longleftrightarrow> (\<exists>d. case x of Inr _ \<Rightarrow> finished (bst_world s) (held (bst_world s)) d r s'
    | Inl e \<Rightarrow> failed (bst_world s) (held (bst_world s)) d r e s')"

lemma execute_ended: "execute (default_services bk topic env) cfg t rq s = (x, s') \<Longrightarrow> ended s (rq_request_id rq) x s'"
  using valid_execute [of "bst_world s" "held (bst_world s)" cfg t rq] known_init [OF refl refl, of s]
  by (cases x) (auto simp: ended_def dest: validD validE)

lemma ended_answered:
  assumes "ended s r x s'"
  shows "others (results (bst_world s), messages (bst_world s)) (results (bst_world s'), messages (bst_world s')) \<and>
    (isl x \<or> (\<exists>v. results (bst_world s') r = Some v \<and> (r, sd_payload v) \<in> messages (bst_world s')))"
  using assms
  by (cases x) (auto simp: ended_def finished_def failed_def answered_def kept_def known_def moves_def single_map_le)

lemma ended_settled:
  assumes "ended s r x s'"
  shows "held (bst_world s') = held (bst_world s) \<or>
    (\<exists>d. held (bst_world s') = d # held (bst_world s) \<and>
      ((\<exists>v. results (bst_world s') r = Some v \<and> sd_status v = StatusSuccess) \<or>
       (\<exists>e s1 s2. x = Inl e \<and> sv_rollback (default_services bk topic env) d s1 = (Inl e, s2))))"
  using assms
  by (cases x) (auto simp: ended_def finished_def failed_def answered_def kept_def known_def single_map_le)

end


subsection \<open>A platform in memory\<close>

text \<open>The budget is the governor's, over its services in memory; its mirror commands run at once.\<close>

record brief_world =
  wd_rows :: results
  wd_sent :: "(string \<times> brief_result_payload) list"
  wd_budget :: budget_store
  wd_held :: "brief_budget_decision list"

definition run_budget :: "'a bprog \<Rightarrow> (brief_world, string, 'a) eff" where
  "run_budget p w =
     (case run_prog mem_services p (wd_budget w) of
        (x, ms, b) \<Rightarrow> (map_sum (\<lambda>_. ''budget'') id x, w\<lparr>wd_budget := run_mirrors mem_services ms b\<rparr>))"

definition memory_backend :: "brief_world brief_backend" where
  "memory_backend =
     \<lparr>bk_datetime = (\<lambda>_. True), bk_issue = id, bk_find_unique = (\<lambda>r w. (Inr (wd_rows w r), w)),
      bk_create = (\<lambda>r _ v w. if wd_rows w r = None then (Inr (), w\<lparr>wd_rows := (wd_rows w)(r \<mapsto> v)\<rparr>) else (Inl DuplicateKey, w)),
      bk_send = (\<lambda>_ r p w. (Inr (), w\<lparr>wd_sent := (r, p) # wd_sent w\<rparr>)),
      bk_authorize = (\<lambda>i w. case run_budget (governor_authorize i) w of
          (x, w') \<Rightarrow> (x, case x of Inr d \<Rightarrow> if authorized d then w'\<lparr>wd_held := d # wd_held w'\<rparr> else w' | Inl _ \<Rightarrow> w')),
      bk_rollback = (\<lambda>d w. case run_budget (governor_rollback d) w of
          (x, w') \<Rightarrow> (x, if isl x then w' else w'\<lparr>wd_held := remove1 d (wd_held w')\<rparr>)),
      bk_settle = (\<lambda>d c. run_budget (governor_settle d c))\<rparr>"

lemma run_budget_world:
  "run_budget p w = (x, w') \<Longrightarrow> wd_rows w' = wd_rows w \<and> wd_sent w' = wd_sent w \<and> wd_held w' = wd_held w"
  by (auto simp: run_budget_def split: prod.splits)

lemma moves_same: "R w' = R w \<Longrightarrow> M w' = M w \<Longrightarrow> moves R M w w'"
  by (simp add: moves_def)

abbreviation sent :: "brief_world \<Rightarrow> (string \<times> brief_result_payload) set" where
  "sent w \<equiv> set (wd_sent w)"

interpretation memory: brief_platform memory_backend demo_env topic wd_rows sent wd_held
proof
  show "moves wd_rows sent w w' \<and> wd_held w' = wd_held w \<and> (z = Inr () \<longrightarrow> (r, p) \<in> sent w')"
    if "bk_send memory_backend topic r p w = (z, w')" "backed (wd_rows w) (r, p)" for r p w z w'
    using that by (auto simp: memory_backend_def moves_def others_def)
  show "moves wd_rows sent w w' \<and> wd_held w' = wd_held w \<and> (y = Inr () \<longrightarrow> wd_rows w' r = Some v)"
    if "bk_create memory_backend r at_time v w = (y, w')" for r at_time v w y w'
    using that by (auto simp: memory_backend_def moves_def others_def map_le_def split: if_splits)
qed (auto simp: memory_backend_def demo_env_def intro!: moves_same split: prod.splits sum.splits if_splits dest!: run_budget_world)

definition memory_world :: brief_world where
  "memory_world = \<lparr>wd_rows = Map.empty, wd_sent = [], wd_budget = empty_store, wd_held = []\<rparr>"

definition memory_state :: "brief_world brief_state" where
  "memory_state = \<lparr>bst_health = brief_create_health_context 0 5, bst_matchers = \<lparr>max_entries = 512, entries = []\<rparr>, bst_world = memory_world\<rparr>"

definition memory_config :: gen_config where
  "memory_config = \<lparr>cf_llm_provider = ''internal'', cf_llm_codex_model = [], cf_llm_daily_budget_usd = 5\<rparr>"

text \<open>A request for a provider that does not exist: the reservation goes back and a failure is stored and published.\<close>

definition none_request :: parsed_summary_request where
  "none_request = demo_grounding_request\<lparr>rq_llm_provider := Some ''none''\<rparr>"

lemma none_cost: "normalize_usd (estimate_request_cost_usd none_request) = 1 / 80"
proof -
  have f: "\<lfloor>25001 / 2 :: rat\<rfloor> = 12500" "\<lfloor>241 / 2 :: rat\<rfloor> = 120" "\<lfloor>251 / 2 :: rat\<rfloor> = 125" by (rule floor_unique; simp)+
  have "estimate_request_cost_usd none_request = 1 / 80"
    by (simp add: estimate_request_cost_usd_def to_fixed_def none_request_def demo_grounding_request_def demo_parsed_def Let_def f)
  show ?thesis unfolding \<open>estimate_request_cost_usd none_request = 1 / 80\<close> by (simp add: normalize_usd_def to_fixed_def f)
qed

lemma none_fields: "rq_request_id none_request = ''r1''" "rq_budget none_request = None"
  by (simp_all add: none_request_def demo_grounding_request_def demo_parsed_def)

lemma none_build: "build_success_result demo_env none_request t c s = (Inl (LlmGenerationError ''Unsupported LLM provider: none''), s)"
  by (simp add: build_success_result_def obj_get_def llm_provider_strategies_def demo_env_def none_request_def default_def eff_throw_def object_prototype_keys_def)

lemma memory_authorize: "\<exists>b d. bk_authorize memory_backend \<lparr>ab_date_key = k, ab_daily_budget_usd = 5, ab_estimated_cost_usd = 1 / 80\<rparr> memory_world =
   (Inr d, memory_world\<lparr>wd_budget := b, wd_held := [d]\<rparr>) \<and> authorized d "
  by (simp add: memory_backend_def run_budget_def governor_authorize_def run_prog_map proxy_reserve_def memory_world_def mem_services_def
      budget_reservation_script_def empty_store_def to_budget_decision_def)

lemma memory_rollback: "\<exists>a w'. bk_rollback memory_backend d w = (Inr a, w') \<and> wd_held w' = remove1 d (wd_held w) \<and>
    wd_rows w' = wd_rows w \<and> wd_sent w' = wd_sent w"
  by (auto simp: memory_backend_def run_budget_def governor_rollback_def proxy_release_def pg_release_def pg_update_spent_def read_back_def
      sync_budget_cache_best_effort_def mem_services_def Let_def split: option.splits)

lemma memory_none: "wd_rows w r = None \<Longrightarrow> bk_find_unique memory_backend r w = (Inr None, w)"
  and memory_create: "wd_rows w r = None \<Longrightarrow> bk_create memory_backend r u v w = (Inr (), w\<lparr>wd_rows := (wd_rows w)(r \<mapsto> v)\<rparr>)"
  and memory_send: "bk_send memory_backend k r p w = (Inr (), w\<lparr>wd_sent := (r, p) # wd_sent w\<rparr>)"
  by (simp_all add: memory_backend_def)

lemma none_run:
  "\<exists>s'. execute (default_services memory_backend ''t'' demo_env) memory_config 0 none_request memory_state = (Inr (), s') \<and>
    wd_held (bst_world s') = [] \<and> map fst (wd_sent (bst_world s')) = [''r1'']"
proof -
  obtain b d where a: "bk_authorize memory_backend \<lparr>ab_date_key = get_budget_date_key 0, ab_daily_budget_usd = 5, ab_estimated_cost_usd = 1 / 80\<rparr> memory_world =
   (Inr d, memory_world\<lparr>wd_budget := b, wd_held := [d]\<rparr>)" "authorized d" using memory_authorize by blast
  obtain c w where r: "bk_rollback memory_backend d (memory_world\<lparr>wd_budget := b, wd_held := [d]\<rparr>) = (Inr c, w)"
      "wd_held w = []" "wd_rows w = Map.empty" "wd_sent w = []"
    using memory_rollback [of d "memory_world\<lparr>wd_budget := b, wd_held := [d]\<rparr>"] by (auto simp: memory_world_def)
  have n: "wd_rows memory_world = Map.empty" "wd_sent memory_world = []" by (simp_all add: memory_world_def)
  show ?thesis
    by (simp add: execute_def memory_config_def memory_state_def none_fields none_cost default_def n memory_none memory_create memory_send
      eff_defs with_postgres_health_def prisma_load_def on_world_def authorize_budget_def on_budget_def upd_health_def a
      produce_result_def run_in_def none_build after_error_def rollback_budget_reservation_def r handle_summary_request_failure_def
       summary_request_failure_handlers_def Let_def emit_failure_result_def prisma_persist_def build_failure_brief_result_payload_def publish_result_def assign_def)
qed

end
