(* ===== verification/QueryMode.thy ===== *)
theory QueryMode
  imports Platform Selection
begin

section \<open>Requests that query the stored events (apps/brief/src/query-mode-request-facade.ts)\<close>

text \<open>
  A request without topics: its topics are ranked from the trend snapshots of a period, and their evidence is chosen
  from the raw events of that period. The two queries of the database are parameters; they answer with rows in the
  order the code asks for. An event that is read has a URL.
\<close>

subsection \<open>Storage\<close>

record raw_event_row = raw_event_for_selection +
  rw_url :: "string option"
  rw_title :: "string option"
  rw_text :: string
  rw_topics :: "string list"

record 'w query_backend =
  qb_find_snapshots :: "int \<Rightarrow> int \<Rightarrow> ('w, string, snapshot_row list) eff"
  qb_find_events :: "string list \<Rightarrow> int \<Rightarrow> int \<Rightarrow> ('w, string, raw_event_row list) eff"

definition dedupe_trend_snapshots :: "snapshot_row list \<Rightarrow> snapshot_row list" where
  "dedupe_trend_snapshots rs = dedup_by (\<lambda>r. to_iso_string (generated_at r)) {} rs"

fun dedupe_events :: "url_api \<Rightarrow> string set \<Rightarrow> query_mode_raw_event list \<Rightarrow> query_mode_raw_event list" where
  "dedupe_events api seen [] = []"
| "dedupe_events api seen (e # es) =
     (case canonicalize_brief_evidence_url api (qm_url e) of
        None \<Rightarrow> e # dedupe_events api seen es
      | Some u \<Rightarrow>
          if u = [] then e # dedupe_events api seen es
          else let dedupe_key = source_key (sel_source e) @ '':'' @ u in
            if dedupe_key \<in> seen then dedupe_events api seen es
            else e # dedupe_events api (insert dedupe_key seen) es)"

definition dedupe_raw_events_by_source_and_canonical_url :: "url_api \<Rightarrow> query_mode_raw_event list \<Rightarrow> query_mode_raw_event list" where
  "dedupe_raw_events_by_source_and_canonical_url api es = dedupe_events api {} es"

definition event_of_row :: "raw_event_row \<Rightarrow> query_mode_raw_event option" where
  "event_of_row r =
     (case rw_url r of
        None \<Rightarrow> None
      | Some u \<Rightarrow> Some \<lparr>sel_event_id = sel_event_id r, sel_source = sel_source r, sel_published_at = sel_published_at r,
          sel_fetched_at = sel_fetched_at r, sel_engagement_score = sel_engagement_score r,
          qm_url = u, qm_title = rw_title r, qm_text = rw_text r, qm_topics = rw_topics r\<rparr>)"

definition load_trend_snapshots :: "'w query_backend \<Rightarrow> int \<Rightarrow> int \<Rightarrow> ('w, snapshot_row list) beff" where
  "load_trend_snapshots qb lookback_start requested_at =
     with_postgres_health (\<lambda>s. case on_world (qb_find_snapshots qb lookback_start requested_at) s of
       (x, s') \<Rightarrow> (map_sum ServiceError dedupe_trend_snapshots x, s'))"

definition load_raw_events :: "'w query_backend \<Rightarrow> url_api \<Rightarrow> string list \<Rightarrow> int \<Rightarrow> int \<Rightarrow> ('w, query_mode_raw_event list) beff" where
  "load_raw_events qb api topic_keys lookback_start requested_at =
     with_postgres_health (\<lambda>s. case on_world (qb_find_events qb topic_keys lookback_start requested_at) s of
       (x, s') \<Rightarrow> (map_sum ServiceError (\<lambda>rows. dedupe_raw_events_by_source_and_canonical_url api (List.map_filter event_of_row rows)) x, s'))"

subsection \<open>Parameters\<close>

record query_config =
  qc_default_lookback_days :: int
  qc_max_lookback_days :: int
  qc_max_query_events_per_topic :: int

definition is_query_mode_request :: "parsed_summary_request \<Rightarrow> bool" where
  "is_query_mode_request rq \<longleftrightarrow> length (rq_topics rq) = 0"

definition invalid_request :: "string \<Rightarrow> brief_error" where
  "invalid_request msg = NonRetryableProcessingError msg ''invalid_request''"

definition resolve_lookback_days :: "query_config \<Rightarrow> parsed_summary_request \<Rightarrow> brief_error + int" where
  "resolve_lookback_days cfg rq =
     (let lookback_days = default (qc_default_lookback_days cfg) (Option.bind (rq_query rq) pq_lookback_days) in
      if lookback_days \<le> 0 then Inl (invalid_request (''Invalid query.lookback_days: '' @ int_str lookback_days))
      else if lookback_days > qc_max_lookback_days cfg
      then Inl (invalid_request (''query.lookback_days must be <= '' @ int_str (qc_max_lookback_days cfg)))
      else Inr lookback_days)"

definition resolve_topic_globs :: "parsed_summary_request \<Rightarrow> string list" where
  "resolve_topic_globs rq =
     (case Option.bind (rq_query rq) pq_topic_globs of
        None \<Rightarrow> [''*'']
      | Some gs \<Rightarrow> if length gs = 0 then [''*''] else gs)"

definition resolve_max_topics :: "parsed_summary_request \<Rightarrow> brief_error + int" where
  "resolve_max_topics rq =
     (let max_topics = default 10 (Option.bind (rq_budget rq) sb_max_topics) in
      if max_topics \<le> 0 then Inl (invalid_request (''Invalid max_topics budget value: '' @ int_str max_topics))
      else Inr max_topics)"

definition resolve_max_events_per_topic :: "query_config \<Rightarrow> parsed_summary_request \<Rightarrow> brief_error + int" where
  "resolve_max_events_per_topic cfg rq =
     (let budget_cap = Option.bind (rq_budget rq) sb_max_evidence_per_topic;
          requested = default (default (qc_max_query_events_per_topic cfg) budget_cap)
            (Option.bind (rq_query rq) pq_max_events_per_topic) in
      if requested \<le> 0 then Inl (invalid_request (''Invalid query.max_events_per_topic: '' @ int_str requested))
      else
        let resolved = (case budget_cap of Some c \<Rightarrow> if c > 0 then min requested c else requested | None \<Rightarrow> requested) in
        Inr (max 1 (min resolved (qc_max_query_events_per_topic cfg))))"

definition resolve_evidence_strategy :: "parsed_summary_request \<Rightarrow> string" where
  "resolve_evidence_strategy rq = default ''diversity'' (Option.bind (rq_query rq) pq_evidence_strategy)"

record resolved_query_mode_parameters =
  rp_lookback_days :: int
  rp_topic_globs :: "string list"
  rp_max_topics :: int
  rp_max_events_per_topic :: int
  rp_evidence_strategy :: string
  rp_lookback_start :: int

definition resolve_query_mode_parameters :: "query_config \<Rightarrow> parsed_summary_request \<Rightarrow> brief_error + resolved_query_mode_parameters" where
  "resolve_query_mode_parameters cfg rq =
     ebind (resolve_lookback_days cfg rq) (\<lambda>lookback_days.
     ebind (resolve_max_topics rq) (\<lambda>max_topics.
     ebind (resolve_max_events_per_topic cfg rq) (\<lambda>max_events.
     Inr \<lparr>rp_lookback_days = lookback_days, rp_topic_globs = resolve_topic_globs rq, rp_max_topics = max_topics,
       rp_max_events_per_topic = max_events, rp_evidence_strategy = resolve_evidence_strategy rq,
       rp_lookback_start = rq_requested_at rq - lookback_days * 24 * 60 * 60 * 1000\<rparr>)))"

subsection \<open>Topics\<close>

fun glob_error_text :: "glob_error \<Rightarrow> string" where
  "glob_error_text GlobEmpty = ''Topic glob must not be empty''"
| "glob_error_text GlobTooLong = ''Topic glob exceeds max length ('' @ nat_str max_glob_length @ '')''"
| "glob_error_text (GlobUnsupported g) = ''Unsupported topic glob pattern: '' @ g"

record ranked_topic_selection =
  rs_ranked_topics :: "ranked_topic_score list"
  rs_selected_ranked_topics :: "ranked_topic_score list"
  rs_selected_top_level_topic_groups :: "string list"
  rs_coverage_warnings :: "string list"

definition select_ranked_topics ::
  "locale_cmp \<Rightarrow> parsed_summary_request \<Rightarrow> resolved_query_mode_parameters \<Rightarrow> topic_glob_matcher_set \<Rightarrow> snapshot_row list \<Rightarrow>
   brief_error + ranked_topic_selection" where
  "select_ranked_topics lc rq ps topic_matchers snapshots =
     (let ranked = rank_topics_from_snapshots lc snapshots (rq_requested_at rq) topic_matchers;
          top_groups = select_top_level_topic_groups lc ranked (of_int (rp_max_topics ps));
          selected = filter (\<lambda>t. get_top_level_topic_group (rk_topic t) \<in> set top_groups) ranked in
      if length selected = 0
      then Inl (to_no_coverage_error (if length snapshots = 0
          then ''No trend snapshots were found in the requested lookback window.''
          else ''No topics matched query filters in the requested lookback window.''))
      else Inr \<lparr>rs_ranked_topics = ranked, rs_selected_ranked_topics = selected, rs_selected_top_level_topic_groups = top_groups,
        rs_coverage_warnings =
          (if length snapshots = 0 then [''No trend data available for the requested lookback period.''] else [])\<rparr>)"

definition load_ranked_topics ::
  "'w query_backend \<Rightarrow> locale_cmp \<Rightarrow> parsed_summary_request \<Rightarrow> resolved_query_mode_parameters \<Rightarrow> ('w, ranked_topic_selection) beff" where
  "load_ranked_topics qb lc rq ps =
     (case create_topic_glob_matcher_set (Some (rp_topic_globs ps)) of
        Inl e \<Rightarrow> eff_throw (invalid_request (''Invalid topic glob filter: '' @ glob_error_text e))
      | Inr topic_matchers \<Rightarrow>
          eff_bind (load_trend_snapshots qb (rp_lookback_start ps) (rq_requested_at rq)) (\<lambda>snapshots.
          eff_of (select_ranked_topics lc rq ps topic_matchers snapshots)))"

subsection \<open>Evidence\<close>

text \<open>The events of each topic, and how many a topic has lost to the test of relevance.\<close>

type_synonym event_tables = "(string, query_mode_raw_event list) omap \<times> (string, nat) omap"

fun assign_events :: "string list \<Rightarrow> (query_mode_raw_event \<times> string) list \<Rightarrow> event_tables \<Rightarrow> ('w, event_tables) beff" where
  "assign_events keys [] tables = eff_ret tables"
| "assign_events keys ((ev, topic_key) # ps) (by_topic, filtered) =
     (if topic_key \<notin> set keys then assign_events keys ps (by_topic, filtered)
      else eff_bind (on_matchers (is_event_relevant_to_topic ev topic_key)) (\<lambda>relevant.
        if \<not> relevant
        then assign_events keys ps (by_topic, om_set filtered topic_key (om_get 0 filtered topic_key + 1))
        else assign_events keys ps (om_set by_topic topic_key (om_get [] by_topic topic_key @ [ev]), filtered)))"

definition collected_content_of :: "query_mode_raw_event \<Rightarrow> collected_content_input" where
  "collected_content_of e =
     \<lparr>cc_event_id = sel_event_id e, cc_source = SourceString (source_key (sel_source e)), cc_url = Some (qm_url e),
      cc_title = qm_title e, cc_published_at = map_option (\<lambda>t. DateObject (Some t)) (sel_published_at e),
      cc_fetched_at = Some (DateObject (Some (sel_fetched_at e))), cc_text = Some (qm_text e)\<rparr>"

definition evidence_of_event :: "url_api \<Rightarrow> query_mode_raw_event \<Rightarrow> brief_error + brief_evidence_record" where
  "evidence_of_event api e =
     map_sum HandoffFailed id (build_brief_evidence_record_from_collected_content
       \<lparr>date_value = (\<lambda>_. None), json_meta = (\<lambda>_. None :: unit json_meta option)\<rparr> api (collected_content_of e)
       (Some brief_evidence_excerpt_max_length))"

fun selection_error_text :: "selection_error \<Rightarrow> string" where
  "selection_error_text (UnsupportedEvidenceStrategy s) = ''Unsupported evidence strategy: '' @ s"

definition hydrate_topic ::
  "url_api \<Rightarrow> resolved_query_mode_parameters \<Rightarrow> (string, query_mode_raw_event list) omap \<Rightarrow> ranked_topic_score \<Rightarrow>
   brief_error + brief_evidence_record summary_topic" where
  "hydrate_topic api ps by_topic t =
     ebind (map_sum (\<lambda>e. ServiceError (selection_error_text e)) id
         (select_evidence (om_get [] by_topic (rk_topic t)) (rp_evidence_strategy ps) (rp_max_events_per_topic ps))) (\<lambda>selected.
     ebind (map_error (evidence_of_event api) selected) (\<lambda>evidence.
     Inr \<lparr>st_topic = rk_topic t,
       st_metrics = [\<lparr>mt_topic = rk_topic t, mt_window = Own 2, mt_score = rk_score t, mt_volume = rk_volume t,
         mt_acceleration = rk_acceleration t\<rparr>], st_evidence = evidence\<rparr>))"

record hydrated_topic_selection =
  hs_topics_with_evidence :: "brief_evidence_record summary_topic list"
  hs_hydrated_topics :: "brief_evidence_record summary_topic list"
  hs_relevance_filtered_by_topic :: "(string, nat) omap"

definition hydrate_topics ::
  "'w query_backend \<Rightarrow> url_api \<Rightarrow> parsed_summary_request \<Rightarrow> ranked_topic_score list \<Rightarrow> resolved_query_mode_parameters \<Rightarrow>
   ('w, hydrated_topic_selection) beff" where
  "hydrate_topics qb api rq selected ps =
     (let ranked_topic_keys = js_set (map rk_topic selected) in
      eff_bind (load_raw_events qb api ranked_topic_keys (rp_lookback_start ps) (rq_requested_at rq)) (\<lambda>all_events.
      eff_bind (assign_events ranked_topic_keys (concat (map (\<lambda>e. map (Pair e) (qm_topics e)) all_events)) ([], [])) (\<lambda>(by_topic, filtered).
      eff_bind (eff_of (map_error (hydrate_topic api ps by_topic) selected)) (\<lambda>hydrated.
      eff_ret \<lparr>hs_topics_with_evidence = filter (\<lambda>t. length (st_evidence t) > 0) hydrated, hs_hydrated_topics = hydrated,
        hs_relevance_filtered_by_topic = filtered\<rparr>))))"

definition count_relevance_filtered_events :: "(string, nat) omap \<Rightarrow> nat" where
  "count_relevance_filtered_events m = foldl (\<lambda>count n. count + n) 0 (map snd m)"

subsection \<open>Warnings\<close>

record coverage_warning_rule_context =
  cw_ranked_topic_count :: nat
  cw_selected_ranked_topic_count :: nat
  cw_hydrated_topic_count :: nat
  cw_topics_with_evidence_count :: nat
  cw_relevance_filtered_count :: nat
  cw_max_topics :: int

definition top_level_topic_cap_warning_rule :: "coverage_warning_rule_context \<Rightarrow> string option" where
  "top_level_topic_cap_warning_rule c =
     (if cw_selected_ranked_topic_count c \<ge> cw_ranked_topic_count c then None
      else Some (nat_str (cw_ranked_topic_count c - cw_selected_ranked_topic_count c) @
        '' subtopic(s) were excluded by top-level topic cap ('' @ int_str (cw_max_topics c) @ '').''))"

definition missing_evidence_warning_rule :: "coverage_warning_rule_context \<Rightarrow> string option" where
  "missing_evidence_warning_rule c =
     (if cw_topics_with_evidence_count c \<ge> cw_hydrated_topic_count c then None
      else Some (nat_str (cw_hydrated_topic_count c - cw_topics_with_evidence_count c) @
        '' ranked topic(s) were excluded due to missing grounded evidence.''))"

definition relevance_filter_warning_rule :: "coverage_warning_rule_context \<Rightarrow> string option" where
  "relevance_filter_warning_rule c =
     (if cw_relevance_filtered_count c \<le> 0 then None
      else Some (nat_str (cw_relevance_filtered_count c) @ '' candidate event(s) were excluded by topic relevance checks.''))"

definition coverage_warning_rules :: "(coverage_warning_rule_context \<Rightarrow> string option) list" where
  "coverage_warning_rules = [top_level_topic_cap_warning_rule, missing_evidence_warning_rule, relevance_filter_warning_rule]"

definition summarize_coverage_warnings :: "string list \<Rightarrow> coverage_warning_rule_context \<Rightarrow> string list" where
  "summarize_coverage_warnings base c =
     foldl (\<lambda>warnings rule. case rule c of Some w \<Rightarrow> if w \<noteq> [] then warnings @ [w] else warnings | None \<Rightarrow> warnings) base coverage_warning_rules"

subsection \<open>Resolving a request\<close>

definition resolve_query_mode_request ::
  "'w query_backend \<Rightarrow> query_config \<Rightarrow> locale_cmp \<Rightarrow> url_api \<Rightarrow> parsed_summary_request \<Rightarrow> ('w, parsed_summary_request) beff" where
  "resolve_query_mode_request qb cfg lc api rq =
     eff_bind (eff_of (resolve_query_mode_parameters cfg rq)) (\<lambda>ps.
     eff_bind (load_ranked_topics qb lc rq ps) (\<lambda>rs.
     eff_bind (hydrate_topics qb api rq (rs_selected_ranked_topics rs) ps) (\<lambda>hs.
     if length (hs_topics_with_evidence hs) = 0
     then eff_throw (to_no_coverage_error ''No recent activity was found for matched topics in the lookback window.'')
     else eff_ret (rq\<lparr>rq_windows := [Own 2],
       rq_query := Some \<lparr>pq_lookback_days = Some (rp_lookback_days ps), pq_topic_globs = Some (rp_topic_globs ps),
         pq_max_events_per_topic = Some (rp_max_events_per_topic ps), pq_evidence_strategy = Some (rp_evidence_strategy ps)\<rparr>,
       rq_topics := hs_topics_with_evidence hs,
       rq_coverage_warnings := Some (summarize_coverage_warnings (rs_coverage_warnings rs)
         \<lparr>cw_ranked_topic_count = length (rs_ranked_topics rs),
          cw_selected_ranked_topic_count = length (rs_selected_ranked_topics rs),
          cw_hydrated_topic_count = length (hs_hydrated_topics hs),
          cw_topics_with_evidence_count = length (hs_topics_with_evidence hs),
          cw_relevance_filtered_count = count_relevance_filtered_events (hs_relevance_filtered_by_topic hs),
          cw_max_topics = rp_max_topics ps\<rparr>)\<rparr>))))"

record 'w resolution_strategy =
  rv_can_resolve :: "parsed_summary_request \<Rightarrow> bool"
  rv_resolve :: "parsed_summary_request \<Rightarrow> ('w, parsed_summary_request) beff"

definition query_mode_request_resolution_strategies ::
  "'w query_backend \<Rightarrow> query_config \<Rightarrow> locale_cmp \<Rightarrow> url_api \<Rightarrow> 'w resolution_strategy list" where
  "query_mode_request_resolution_strategies qb cfg lc api =
     [\<lparr>rv_can_resolve = (\<lambda>rq. \<not> is_query_mode_request rq), rv_resolve = eff_ret\<rparr>,
      \<lparr>rv_can_resolve = is_query_mode_request, rv_resolve = resolve_query_mode_request qb cfg lc api\<rparr>]"

definition resolve_request ::
  "'w query_backend \<Rightarrow> query_config \<Rightarrow> locale_cmp \<Rightarrow> url_api \<Rightarrow> parsed_summary_request \<Rightarrow> ('w, parsed_summary_request) beff" where
  "resolve_request qb cfg lc api rq =
     (case find (\<lambda>st. rv_can_resolve st rq) (query_mode_request_resolution_strategies qb cfg lc api) of
        Some st \<Rightarrow> rv_resolve st rq
      | None \<Rightarrow> eff_throw (ServiceError ''No query-mode request resolution strategy matched request''))"


subsection \<open>What a resolved request asks for\<close>











subsection \<open>Example\<close>

definition demo_query_backend :: "'w query_backend" where
  "demo_query_backend =
     \<lparr>qb_find_snapshots = (\<lambda>_ _ w. (Inr [sample_row], w)),
      qb_find_events = (\<lambda>_ _ _ w. (Inr [\<lparr>sel_event_id = ''e1'', sel_source = Rss, sel_published_at = None, sel_fetched_at = 0,
        sel_engagement_score = None, rw_url = Some ''https://example.org/a'', rw_title = None, rw_text = [], rw_topics = [''ai'']\<rparr>], w))\<rparr>"


definition demo_query_config :: query_config where
  "demo_query_config = \<lparr>qc_default_lookback_days = 7, qc_max_lookback_days = 30, qc_max_query_events_per_topic = 5\<rparr>"



subsection \<open>The whole run\<close>

locale query_platform = brief_platform bk env topic results messages held
  for bk :: "'w brief_backend" and env :: "'w gen_env" and topic results messages held +
  fixes qb :: "'w query_backend"
  assumes find_snapshots: "qb_find_snapshots qb a b w = (x, w') \<Longrightarrow> moves results messages w w' \<and> held w' = held w"
    and find_events: "qb_find_events qb ks a b w = (y, w') \<Longrightarrow> moves results messages w w' \<and> held w' = held w"
begin

lemma quiet_with_health: "quiet m \<Longrightarrow> quiet (with_postgres_health m)"
  unfolding quiet_def with_postgres_health_def by (simp split: prod.split) (metis snd_conv)

lemma quiet_load_snapshots: "quiet (load_trend_snapshots qb a b)"
  unfolding load_trend_snapshots_def
  by (intro quiet_with_health quiet_then [OF quiet_on_world quiet_const]) (rule find_snapshots)

lemma quiet_load_events: "quiet (load_raw_events qb api ks a b)"
  unfolding load_raw_events_def
  by (intro quiet_with_health quiet_then [OF quiet_on_world quiet_const]) (rule find_events)

lemma quiet_assign_events: "quiet (assign_events keys ps tables)"
  by (induction keys ps tables rule: assign_events.induct) (auto intro: quiet_rules)

lemma quiet_resolve: "quiet (resolve_request qb cfg lc api rq)"
proof -
  have "quiet (load_ranked_topics qb lc rq ps)" for ps
    by (auto simp: load_ranked_topics_def intro: quiet_rules quiet_load_snapshots split: sum.split)
  moreover have "quiet (hydrate_topics qb api rq ts ps)" for ts ps
    unfolding hydrate_topics_def Let_def
    by (auto intro!: quiet_rules quiet_load_events quiet_assign_events split: prod.split)
  ultimately have "quiet (resolve_query_mode_request qb cfg lc api rq)"
    unfolding resolve_query_mode_request_def by (auto intro!: quiet_rules)
  then show ?thesis
    by (auto simp: resolve_request_def query_mode_request_resolution_strategies_def intro: quiet_rules)
qed

lemma resolve_request_id:
  "resolve_request qb cfg lc api rq s = (Inr r, s') \<Longrightarrow> rq_request_id r = rq_request_id rq"
  by (auto simp: resolve_request_def query_mode_request_resolution_strategies_def resolve_query_mode_request_def eff_bind_Inr_iff
      eff_ret_def eff_throw_def split: if_splits)

lemma valid_resolve:
  "valid (known w0 h Map.empty {}) (resolve_request qb cfg lc api rq)
     (\<lambda>r s. known w0 h Map.empty {} s \<and> rq_request_id r = rq_request_id rq) (\<lambda>_. known w0 h Map.empty {})"
proof -
  have "known w0 h Map.empty {} s'" if "known w0 h Map.empty {} s" "resolve_request qb cfg lc api rq s = (x, s')" for s x s'
    using quietD [OF quiet_resolve that(2)] known_held [OF that(1)] by (auto intro: known_moves [OF that(1)])
  then show ?thesis by (intro validI) (auto dest: resolve_request_id)
qed

lemma process_ended:
  assumes "process_summary_request (default_services bk topic env) cfg (resolve_request qb qcfg lc api) t rq s = (x, s')"
  shows "ended s (rq_request_id rq) x s'"
  using valid_process [of "bst_world s" "held (bst_world s)" "resolve_request qb qcfg lc api" cfg t rq, OF valid_resolve] assms
    known_init [OF refl refl, of s]
  by (cases x) (auto simp: ended_def dest: validD validE)

end

interpretation memory_query: query_platform memory_backend demo_env topic wd_rows sent wd_held demo_query_backend
  by unfold_locales (auto simp: demo_query_backend_def)

text \<open>
  C1. However the calls of the database, the broker, the budget and the models end, and whatever other workers store
  and publish meanwhile: everything that is published while a request is processed is backed by a stored result, and a
  run that ends without an error has left the request with a stored result that has been published.
\<close>

theorem requests_are_answered:
  assumes "query_platform bk env topic results messages held qb"
    and "process_summary_request (default_services bk topic env) cfg (resolve_request qb qcfg lc api) t rq s = (x, s')"
  shows "others (results (bst_world s), messages (bst_world s)) (results (bst_world s'), messages (bst_world s')) \<and>
    (isl x \<or> (\<exists>v. results (bst_world s') (rq_request_id rq) = Some v \<and> (rq_request_id rq, sd_payload v) \<in> messages (bst_world s')))"
  by (rule brief_platform.ended_answered [OF query_platform.axioms(1) [OF assms(1)] query_platform.process_ended [OF assms]])

text \<open>
  C2. Processing a request keeps the money it has reserved only for a successful result that is stored; in every
  other case the reservation has been given back, unless giving it back has thrown, and then the run throws that error.
\<close>

theorem reservations_are_settled:
  assumes "query_platform bk env topic results messages held qb"
    and "process_summary_request (default_services bk topic env) cfg (resolve_request qb qcfg lc api) t rq s = (x, s')"
  shows "held (bst_world s') = held (bst_world s) \<or>
    (\<exists>d. held (bst_world s') = d # held (bst_world s) \<and>
      ((\<exists>v. results (bst_world s') (rq_request_id rq) = Some v \<and> sd_status v = StatusSuccess) \<or>
       (\<exists>e s1 s2. x = Inl e \<and> sv_rollback (default_services bk topic env) d s1 = (Inl e, s2))))"
  by (rule brief_platform.ended_settled [OF query_platform.axioms(1) [OF assms(1)] query_platform.process_ended [OF assms]])

lemma none_processed:
  "\<exists>s'. process_summary_request (default_services memory_backend ''t'' demo_env) memory_config
      (resolve_request demo_query_backend demo_query_config (\<lambda>_ _. 0) demo_api) 0 none_request memory_state = (Inr (), s')"
proof -
  have "rq_topics none_request \<noteq> []" by (simp add: none_request_def demo_grounding_request_def demo_parsed_def)
  then have "resolve_request demo_query_backend demo_query_config (\<lambda>_ _. 0) demo_api none_request memory_state = (Inr none_request, memory_state)"
    by (simp add: resolve_request_def query_mode_request_resolution_strategies_def is_query_mode_request_def eff_ret_def)
  moreover have "create_brief_orchestration_request none_request = none_request"
    by (simp add: create_brief_orchestration_request_def clone_summary_topic_def clone_summary_evidence_def clone_date_def
        none_request_def demo_grounding_request_def demo_parsed_def)
  ultimately show ?thesis using none_run by (auto simp: process_summary_request_def eff_defs)
qed

theorem requests_are_answered_witness:
  "\<exists>s'. process_summary_request (default_services memory_backend ''t'' demo_env) memory_config
      (resolve_request demo_query_backend demo_query_config (\<lambda>_ _. 0) demo_api) 0 none_request memory_state = (Inr (), s') \<and>
    (\<exists>v. wd_rows (bst_world s') ''r1'' = Some v \<and> (''r1'', sd_payload v) \<in> sent (bst_world s'))"
proof -
  obtain s' where e: "process_summary_request (default_services memory_backend ''t'' demo_env) memory_config
      (resolve_request demo_query_backend demo_query_config (\<lambda>_ _. 0) demo_api) 0 none_request memory_state = (Inr (), s')"
    using none_processed by blast
  from requests_are_answered [OF memory_query.query_platform_axioms e] e show ?thesis by (auto simp: none_fields)
qed

theorem reservations_are_settled_witness:
  "\<exists>s'. process_summary_request (default_services memory_backend ''t'' demo_env) memory_config
      (resolve_request demo_query_backend demo_query_config (\<lambda>_ _. 0) demo_api) 0 none_request memory_state = (Inr (), s') \<and>
    (wd_held (bst_world s') = [] \<or> (\<exists>v. wd_rows (bst_world s') ''r1'' = Some v \<and> sd_status v = StatusSuccess))"
proof -
  obtain s' where e: "process_summary_request (default_services memory_backend ''t'' demo_env) memory_config
      (resolve_request demo_query_backend demo_query_config (\<lambda>_ _. 0) demo_api) 0 none_request memory_state = (Inr (), s')"
    using none_processed by blast
  have "wd_held (bst_world memory_state) = []" by (simp add: memory_state_def memory_world_def)
  with reservations_are_settled [OF memory_query.query_platform_axioms e] e show ?thesis by (auto simp: none_fields)
qed

end
