(* ===== verification/CollectorHealth.thy ===== *)
theory CollectorHealth
  imports TrendsHealth
begin

section \<open>Metrics and health of the collector (apps/collector/src/health.ts)\<close>

text \<open>
  Counters by source, topic and feed, the health of the sources, the status and the text format. The clock,
  \<open>localeCompare\<close>, \<open>Date.parse\<close> and the printing of a number that is no integer are arguments. The HTTP server is
  not modelled.
\<close>

subsection \<open>State\<close>

datatype source_status = SourceHealthy | SourceDegraded | SourceFailed

record source_health =
  sh_status :: source_status
  sh_last_poll_at :: "string option"
  sh_items_fetched :: "nat option"
  sh_error_message :: "string option"

datatype collector_error_type = ParseError | KafkaError | AuthError | RateLimitError | NetworkError

fun collector_error_name :: "collector_error_type \<Rightarrow> string" where
  "collector_error_name ParseError = ''parse_error''"
| "collector_error_name KafkaError = ''kafka_error''"
| "collector_error_name AuthError = ''auth_error''"
| "collector_error_name RateLimitError = ''rate_limit''"
| "collector_error_name NetworkError = ''network_error''"

record rss_feed_error_metric =
  rf_feed :: string
  rf_feed_url :: string
  rf_error_type :: collector_error_type
  rf_count :: nat

record feed_health_entry =
  fh_feed :: string
  fh_feed_url :: string
  fh_last_success_at :: int
  fh_last_item_count :: nat
  fh_consecutive_errors :: nat

record collector_metrics =
  km_events_ingested :: "(string, nat) omap"
  km_events_failed :: "(string, (string, nat) omap) omap"
  km_rss_feed_errors :: "(string, rss_feed_error_metric) omap"
  km_feed_health :: "(string, feed_health_entry) omap"
  km_poll_duration_seconds :: "(string, histogram_state) omap"
  km_poll_items_count :: "(string, histogram_state) omap"
  km_checkpoint_updated :: "(string, nat) omap"
  km_rate_limit_backoff :: "(string, nat) omap"
  km_topics_extracted :: "(string, nat) omap"

definition create_collector_metrics :: collector_metrics where
  "create_collector_metrics =
     \<lparr>km_events_ingested = [], km_events_failed = [], km_rss_feed_errors = [], km_feed_health = [],
      km_poll_duration_seconds = [], km_poll_items_count = [], km_checkpoint_updated = [],
      km_rate_limit_backoff = [], km_topics_extracted = []\<rparr>"

record collector_health =
  kh_start_time :: int
  kh_kafka_healthy :: bool
  kh_checkpoints_healthy :: bool
  kh_allowlist_healthy :: bool
  kh_last_event_at :: "int option"
  kh_source_health :: "(string, source_health) omap"
  kh_metrics :: collector_metrics

definition create_collector_health :: "int \<Rightarrow> collector_health" where
  "create_collector_health now =
     \<lparr>kh_start_time = now, kh_kafka_healthy = False, kh_checkpoints_healthy = False, kh_allowlist_healthy = False,
      kh_last_event_at = None, kh_source_health = [], kh_metrics = create_collector_metrics\<rparr>"

definition k_upd :: "(collector_metrics \<Rightarrow> collector_metrics) \<Rightarrow> collector_health \<Rightarrow> collector_health" where
  "k_upd f ctx = ctx\<lparr>kh_metrics := f (kh_metrics ctx)\<rparr>"

definition get_or_create_histogram :: "(string, histogram_state) omap \<Rightarrow> string \<Rightarrow> rat list \<Rightarrow> histogram_state" where
  "get_or_create_histogram m src bs = (case map_of m src of Some h \<Rightarrow> h | None \<Rightarrow> create_histogram bs)"

definition create_rss_feed_error_key :: "string \<Rightarrow> string \<Rightarrow> collector_error_type \<Rightarrow> string" where
  "create_rss_feed_error_key feed feed_url t = feed @ [CHR 0x00] @ feed_url @ [CHR 0x00] @ collector_error_name t"

subsection \<open>Counting\<close>

definition increment_events_ingested :: "string \<Rightarrow> nat \<Rightarrow> collector_health \<Rightarrow> collector_health" where
  "increment_events_ingested src n = k_upd (\<lambda>m. m\<lparr>km_events_ingested := bump src n (km_events_ingested m)\<rparr>)"

definition increment_events_failed :: "string \<Rightarrow> collector_error_type \<Rightarrow> nat \<Rightarrow> collector_health \<Rightarrow> collector_health" where
  "increment_events_failed src t n = k_upd (\<lambda>m. m\<lparr>km_events_failed :=
     om_set (km_events_failed m) src (bump (collector_error_name t) n (om_get [] (km_events_failed m) src))\<rparr>)"

definition increment_rss_feed_error ::
  "string \<Rightarrow> string \<Rightarrow> collector_error_type \<Rightarrow> nat \<Rightarrow> collector_health \<Rightarrow> collector_health" where
  "increment_rss_feed_error feed feed_url t n = k_upd (\<lambda>m.
     let k = create_rss_feed_error_key feed feed_url t in
     case map_of (km_rss_feed_errors m) k of
       None \<Rightarrow> m\<lparr>km_rss_feed_errors := om_set (km_rss_feed_errors m) k
         \<lparr>rf_feed = feed, rf_feed_url = feed_url, rf_error_type = t, rf_count = n\<rparr>\<rparr>
     | Some e \<Rightarrow> m\<lparr>km_rss_feed_errors := om_set (km_rss_feed_errors m) k (e\<lparr>rf_count := rf_count e + n\<rparr>)\<rparr>)"

definition observe_poll_duration :: "string \<Rightarrow> rat \<Rightarrow> collector_health \<Rightarrow> collector_health" where
  "observe_poll_duration src seconds = k_upd (\<lambda>m. m\<lparr>km_poll_duration_seconds :=
     om_set (km_poll_duration_seconds m) src
       (observe_histogram (get_or_create_histogram (km_poll_duration_seconds m) src duration_buckets_seconds) seconds)\<rparr>)"

definition observe_poll_items_count :: "string \<Rightarrow> nat \<Rightarrow> collector_health \<Rightarrow> collector_health" where
  "observe_poll_items_count src n = k_upd (\<lambda>m. m\<lparr>km_poll_items_count :=
     om_set (km_poll_items_count m) src
       (observe_histogram (get_or_create_histogram (km_poll_items_count m) src count_buckets) (of_nat n))\<rparr>)"

definition increment_checkpoint_updated :: "string \<Rightarrow> nat \<Rightarrow> collector_health \<Rightarrow> collector_health" where
  "increment_checkpoint_updated src n = k_upd (\<lambda>m. m\<lparr>km_checkpoint_updated := bump src n (km_checkpoint_updated m)\<rparr>)"

definition increment_rate_limit_backoff :: "string \<Rightarrow> nat \<Rightarrow> collector_health \<Rightarrow> collector_health" where
  "increment_rate_limit_backoff src n = k_upd (\<lambda>m. m\<lparr>km_rate_limit_backoff := bump src n (km_rate_limit_backoff m)\<rparr>)"

definition feed_health_cardinality_limit :: nat where
  "feed_health_cardinality_limit = 200"

definition record_feed_success :: "int \<Rightarrow> string \<Rightarrow> string \<Rightarrow> nat \<Rightarrow> collector_health \<Rightarrow> collector_health" where
  "record_feed_success now feed feed_url item_count = k_upd (\<lambda>m.
     case map_of (km_feed_health m) feed of
       Some e \<Rightarrow> m\<lparr>km_feed_health := om_set (km_feed_health m) feed
         (e\<lparr>fh_last_success_at := now div 1000, fh_last_item_count := item_count, fh_consecutive_errors := 0\<rparr>)\<rparr>
     | None \<Rightarrow>
         if length (km_feed_health m) < feed_health_cardinality_limit
         then m\<lparr>km_feed_health := om_set (km_feed_health m) feed
           \<lparr>fh_feed = feed, fh_feed_url = feed_url, fh_last_success_at = now div 1000, fh_last_item_count = item_count,
            fh_consecutive_errors = 0\<rparr>\<rparr>
         else m)"

definition record_feed_error :: "string \<Rightarrow> string \<Rightarrow> collector_health \<Rightarrow> collector_health" where
  "record_feed_error feed feed_url = k_upd (\<lambda>m.
     case map_of (km_feed_health m) feed of
       Some e \<Rightarrow> m\<lparr>km_feed_health := om_set (km_feed_health m) feed
         (e\<lparr>fh_consecutive_errors := fh_consecutive_errors e + 1\<rparr>)\<rparr>
     | None \<Rightarrow>
         if length (km_feed_health m) < feed_health_cardinality_limit
         then m\<lparr>km_feed_health := om_set (km_feed_health m) feed
           \<lparr>fh_feed = feed, fh_feed_url = feed_url, fh_last_success_at = 0, fh_last_item_count = 0,
            fh_consecutive_errors = 1\<rparr>\<rparr>
         else m)"

definition topic_label_cardinality_limit :: nat where
  "topic_label_cardinality_limit = 30"

definition other_topic_label :: string where
  "other_topic_label = ''other''"

definition count_topic :: "string \<Rightarrow> nat \<Rightarrow> (string, nat) omap \<Rightarrow> (string, nat) omap" where
  "count_topic topic n m =
     (case map_of m topic of
        Some k \<Rightarrow> om_set m topic (k + n)
      | None \<Rightarrow>
          if length (filter (\<lambda>k. k \<noteq> other_topic_label) (om_keys m)) < topic_label_cardinality_limit
          then om_set m topic n
          else om_set m other_topic_label (om_get 0 m other_topic_label + n))"

definition increment_topics_extracted :: "string \<Rightarrow> nat \<Rightarrow> collector_health \<Rightarrow> collector_health" where
  "increment_topics_extracted topic n = k_upd (\<lambda>m. m\<lparr>km_topics_extracted := count_topic topic n (km_topics_extracted m)\<rparr>)"

subsection \<open>Status\<close>

record collector_health_status =
  khs_status :: status
  khs_kafka_ok :: bool
  khs_checkpoints_ok :: bool
  khs_allowlist_ok :: bool
  khs_uptime_seconds :: int
  khs_last_event_at :: "int option"
  khs_sources :: "(string, source_health) omap"

definition get_collector_health_status :: "int \<Rightarrow> collector_health \<Rightarrow> collector_health_status" where
  "get_collector_health_status now ctx =
     (let st = (if \<not> kh_kafka_healthy ctx \<or> \<not> kh_checkpoints_healthy ctx then Unhealthy
                else if \<not> kh_allowlist_healthy ctx then Degraded
                else if length (filter (\<lambda>h. sh_status h = SourceFailed) (map snd (kh_source_health ctx))) > 0 then Degraded
                else Healthy)
      in \<lparr>khs_status = st, khs_kafka_ok = kh_kafka_healthy ctx, khs_checkpoints_ok = kh_checkpoints_healthy ctx,
          khs_allowlist_ok = kh_allowlist_healthy ctx, khs_uptime_seconds = (now - kh_start_time ctx) div 1000,
          khs_last_event_at = kh_last_event_at ctx, khs_sources = kh_source_health ctx\<rparr>)"

definition collector_is_ready :: "collector_health \<Rightarrow> bool" where
  "collector_is_ready ctx \<longleftrightarrow> kh_kafka_healthy ctx \<and> kh_checkpoints_healthy ctx \<and> kh_allowlist_healthy ctx"

definition to_unix_timestamp_seconds :: "(string \<Rightarrow> int option) \<Rightarrow> string option \<Rightarrow> int" where
  "to_unix_timestamp_seconds date_parse v =
     (case v of
        None \<Rightarrow> 0
      | Some s \<Rightarrow> if length (trim s) = 0 then 0
          else (case date_parse s of None \<Rightarrow> 0 | Some ms \<Rightarrow> ms div 1000))"

subsection \<open>The text format\<close>

definition label :: "string \<Rightarrow> string \<Rightarrow> string" where
  "label name v = name @ ''='' @ [CHR 0x22] @ quote_metric_label_value v @ [CHR 0x22]"

definition metric_line :: "string \<Rightarrow> string list \<Rightarrow> string \<Rightarrow> string" where
  "metric_line name labels v = name @ ''{'' @ join '','' labels @ ''} '' @ v"

definition histogram_lines ::
  "(rat \<Rightarrow> string) \<Rightarrow> string \<Rightarrow> string \<Rightarrow> (string, histogram_state) omap \<Rightarrow> string list" where
  "histogram_lines num_str name help m =
     concat (map (\<lambda>(i, src, h). format_histogram num_str name help h [(''source'', src)] (i = 0))
       (zip [0..<length m] m))"

definition collector_format_metrics ::
  "(rat \<Rightarrow> string) \<Rightarrow> (string \<Rightarrow> string \<Rightarrow> int) \<Rightarrow> (string \<Rightarrow> int option) \<Rightarrow> int \<Rightarrow> collector_health \<Rightarrow> string" where
  "collector_format_metrics num_str locale_compare date_parse now ctx =
     (let m = kh_metrics ctx;
          sources = map (\<lambda>(src, h). (src, h, to_unix_timestamp_seconds date_parse (sh_last_poll_at h)))
            (js_sort (\<lambda>l r. locale_compare (fst l) (fst r)) (kh_source_health ctx));
          feeds = map snd (js_sort (\<lambda>l r. locale_compare (fst l) (fst r)) (km_feed_health m));
          ls = metric_header ''ri_collector_events_ingested_total'' ''Events successfully published to Kafka'' ''counter'' @
               map (\<lambda>(src, n). metric_line ''ri_collector_events_ingested_total'' [label ''source'' src] (nat_str n))
                 (km_events_ingested m) @
               metric_header ''ri_collector_events_failed_total'' ''Events that failed to ingest'' ''counter'' @
               concat (map (\<lambda>(src, es). map (\<lambda>(t, n). metric_line ''ri_collector_events_failed_total''
                 [label ''source'' src, label ''error_type'' t] (nat_str n)) es) (km_events_failed m)) @
               metric_header ''ri_collector_rss_feed_errors_total'' ''RSS feed-level errors'' ''counter'' @
               map (\<lambda>(k, e). metric_line ''ri_collector_rss_feed_errors_total''
                 [label ''source'' ''rss'', label ''feed'' (rf_feed e), label ''feed_url'' (rf_feed_url e),
                  label ''error_type'' (collector_error_name (rf_error_type e))] (nat_str (rf_count e)))
                 (km_rss_feed_errors m) @
               histogram_lines num_str ''ri_collector_poll_duration_seconds'' ''Poll cycle duration in seconds''
                 (km_poll_duration_seconds m) @
               histogram_lines num_str ''ri_collector_poll_items_count'' ''Items returned per poll cycle''
                 (km_poll_items_count m) @
               metric_header ''ri_collector_checkpoint_updated_total'' ''Checkpoint updates'' ''counter'' @
               map (\<lambda>(src, n). metric_line ''ri_collector_checkpoint_updated_total'' [label ''source'' src] (nat_str n))
                 (km_checkpoint_updated m) @
               metric_header ''ri_collector_rate_limit_backoff_total'' ''Times rate limits triggered backoff'' ''counter'' @
               map (\<lambda>(src, n). metric_line ''ri_collector_rate_limit_backoff_total'' [label ''source'' src] (nat_str n))
                 (km_rate_limit_backoff m) @
               metric_header ''ri_collector_topics_extracted_total'' ''Topics extracted by key'' ''counter'' @
               map (\<lambda>(t, n). metric_line ''ri_collector_topics_extracted_total'' [label ''topic'' t] (nat_str n))
                 (km_topics_extracted m) @
               metric_header ''ri_collector_last_success_timestamp'' ''Last successful poll timestamp (Unix seconds)'' ''gauge'' @
               map (\<lambda>(src, h, t). metric_line ''ri_collector_last_success_timestamp'' [label ''source'' src] (int_str t)) sources @
               metric_header ''ri_collector_source_healthy'' ''Source health status (1=healthy, 0=not healthy)'' ''gauge'' @
               map (\<lambda>(src, h, t). metric_line ''ri_collector_source_healthy'' [label ''source'' src]
                 (if sh_status h = SourceHealthy \<and> t > 0 then ''1'' else ''0'')) sources @
               (if length feeds > 0 then
                  metric_header ''ri_collector_feed_last_success_timestamp'' ''Per-feed last successful poll (Unix seconds)'' ''gauge'' @
                  map (\<lambda>e. metric_line ''ri_collector_feed_last_success_timestamp'' [label ''feed'' (fh_feed e)]
                    (int_str (fh_last_success_at e))) feeds @
                  metric_header ''ri_collector_feed_consecutive_errors'' ''Per-feed consecutive error count'' ''gauge'' @
                  map (\<lambda>e. metric_line ''ri_collector_feed_consecutive_errors'' [label ''feed'' (fh_feed e)]
                    (nat_str (fh_consecutive_errors e))) feeds @
                  metric_header ''ri_collector_feed_last_item_count'' ''Items returned on last successful poll'' ''gauge'' @
                  map (\<lambda>e. metric_line ''ri_collector_feed_last_item_count'' [label ''feed'' (fh_feed e)]
                    (nat_str (fh_last_item_count e))) feeds
                else []) @
               metric_header ''ri_collector_up'' ''1 when service dependencies are healthy'' ''gauge'' @
               [''ri_collector_up '' @ (if khs_status (get_collector_health_status now ctx) = Unhealthy then ''0'' else ''1'')]
      in join [CHR 0x0A] ls @ [CHR 0x0A])"

subsection \<open>Labels of topics\<close>

text \<open>
  What the counter of topics holds after a list of topics: the first thirty topics have labels of their own with exact
  counts, and the counts add up to the number of topics.
\<close>

definition topic_labels :: "(string, nat) omap \<Rightarrow> string list" where
  "topic_labels m = filter (\<lambda>k. k \<noteq> other_topic_label) (om_keys m)"

lemma sum_om_set: "om_ok m \<Longrightarrow> sum_list (map snd (om_set m k (om_get 0 m k + n))) = sum_list (map snd m) + (n :: nat)"
proof (induction m)
  case (Cons e m)
  obtain k' v' where e: "e = (k', v')" by fastforce
  show ?case using Cons e by (cases "k' = k") (auto simp: om_get_def)
qed (simp add: om_get_def)

lemma count_topic_eq:
  "count_topic topic n m =
    (let k = (if om_has m topic \<or> length (topic_labels m) < topic_label_cardinality_limit then topic else other_topic_label)
     in om_set m k (om_get 0 m k + n))"
  by (auto simp: count_topic_def topic_labels_def om_get_def Let_def split: option.splits)

lemma topic_labels_om_set:
  "topic_labels (om_set m k v) = (if om_has m k \<or> k = other_topic_label then topic_labels m else topic_labels m @ [k])"
  by (auto simp: topic_labels_def js_map map_of_eq_None_iff)

definition topics_counted :: "string list \<Rightarrow> (string, nat) omap \<Rightarrow> bool" where
  "topics_counted ts m \<longleftrightarrow> om_ok m \<and>
     topic_labels m = take topic_label_cardinality_limit (js_set (filter (\<lambda>t. t \<noteq> other_topic_label) ts)) \<and>
     sum_list (map snd m) = length ts \<and>
     (\<forall>t \<in> set (topic_labels m). map_of m t = Some (count_list ts t))"

lemma js_set_snoc: "js_set (xs @ [x]) = (if x \<in> set xs then js_set xs else js_set xs @ [x])"
proof -
  have "js_set (xs @ [x]) = set_add (js_set xs) x" by (simp add: js_set_def)
  then show ?thesis by (simp add: set_add_def)
qed

lemma topics_counted_step:
  assumes "topics_counted ts m"
  shows "topics_counted (ts @ [t]) (count_topic t 1 m)"
proof -
  let ?k = "if om_has m t \<or> length (topic_labels m) < topic_label_cardinality_limit then t else other_topic_label"
  let ?others = "filter (\<lambda>t. t \<noteq> other_topic_label) ts"
  have ok: "om_ok m" and lab: "topic_labels m = take topic_label_cardinality_limit (js_set ?others)"
    and sum: "sum_list (map snd m) = length ts"
    and cnt: "\<And>x. x \<in> set (topic_labels m) \<Longrightarrow> map_of m x = Some (count_list ts x)"
    using assms by (auto simp: topics_counted_def)
  have eq: "count_topic t 1 m = om_set m ?k (om_get 0 m ?k + 1)" by (simp add: count_topic_eq Let_def)
  have mem: "om_has m x \<longleftrightarrow> x \<in> set (topic_labels m)" if "x \<noteq> other_topic_label" for x
    using that by (auto simp: topic_labels_def map_of_eq_None_iff)
  have full: "topic_labels m = js_set ?others" if "length (topic_labels m) < topic_label_cardinality_limit"
    using that lab by simp
  have lab': "topic_labels (count_topic t 1 m) = take topic_label_cardinality_limit (js_set (filter (\<lambda>t. t \<noteq> other_topic_label) (ts @ [t])))"
  proof (cases "t = other_topic_label \<or> om_has m t \<or> \<not> length (topic_labels m) < topic_label_cardinality_limit")
    case True
    have "take topic_label_cardinality_limit (js_set (?others @ [t])) = take topic_label_cardinality_limit (js_set ?others)"
      if "t \<noteq> other_topic_label"
    proof (cases "length (topic_labels m) < topic_label_cardinality_limit")
      case less: True
      with True that have "t \<in> set (topic_labels m)" using mem by blast
      then show ?thesis using full [OF less] by (simp add: js_set_snoc)
    next
      case False
      then show ?thesis using lab by (auto simp: js_set_snoc)
    qed
    then have "take topic_label_cardinality_limit (js_set (filter (\<lambda>t. t \<noteq> other_topic_label) (ts @ [t]))) = topic_labels m"
      using lab by (cases "t = other_topic_label") simp_all
    moreover have "om_has m ?k \<or> ?k = other_topic_label" using True by auto
    ultimately show ?thesis unfolding eq topic_labels_om_set by simp
  next
    case False
    then have k: "t \<noteq> other_topic_label" "\<not> om_has m t" and less: "length (topic_labels m) < topic_label_cardinality_limit"
      by blast+
    note f = full [OF less]
    have "t \<notin> set ?others" using k mem [of t] f by (metis set_js_set)
    then have "js_set (filter (\<lambda>t. t \<noteq> other_topic_label) (ts @ [t])) = topic_labels m @ [t]"
      using k(1) by (simp add: js_set_snoc f)
    moreover have "?k = t" using less by simp
    ultimately show ?thesis unfolding eq topic_labels_om_set using k less by simp
  qed
  have "map_of (count_topic t 1 m) x = Some (count_list (ts @ [t]) x)" if x: "x \<in> set (topic_labels (count_topic t 1 m))" for x
  proof -
    have ne: "x \<noteq> other_topic_label" using x by (simp add: topic_labels_def)
    show ?thesis
    proof (cases "x \<in> set (topic_labels m)")
      case True
      then have "om_has m x" using mem ne by blast
      then show ?thesis unfolding eq using cnt [OF True] ne by (auto simp: js_map om_get_def)
    next
      case False
      then have k: "x = t" "?k = t" "\<not> om_has m t" "length (topic_labels m) < topic_label_cardinality_limit"
        using x ne mem [OF ne] unfolding eq topic_labels_om_set by (auto split: if_splits)
      then have "t \<notin> set ts" using full False ne by auto
      then have "count_list ts t = 0" by (simp add: count_list_0_iff)
      then show ?thesis unfolding eq using k by (auto simp: js_map om_get_def)
    qed
  qed
  then show ?thesis using lab' ok sum sum_om_set [OF ok, of ?k 1] unfolding topics_counted_def by (simp add: eq [simplified])
qed

lemma topics_counted_length:
  assumes "topics_counted ts m"
  shows "length m \<le> Suc topic_label_cardinality_limit"
proof -
  let ?other = "filter (\<lambda>k. k = other_topic_label) (om_keys m)"
  have "distinct (om_keys m)" and lab: "length (topic_labels m) \<le> topic_label_cardinality_limit"
    using assms by (simp_all add: topics_counted_def)
  then have "length ?other = card (set ?other)" by (metis distinct_card distinct_filter)
  also have "\<dots> \<le> card {other_topic_label}" by (rule card_mono) auto
  finally have "length ?other \<le> 1" by simp
  then show ?thesis
    using lab sum_length_filter_compl [of "\<lambda>k. k = other_topic_label" "om_keys m"] by (simp add: topic_labels_def)
qed

lemma topics_counted_run:
  "topics_counted ts (km_topics_extracted (kh_metrics
     (foldl (\<lambda>c t. increment_topics_extracted t 1 c) (create_collector_health now) ts)))"
proof (induction ts rule: rev_induct)
  case (snoc t ts)
  from topics_counted_step [OF this, of t] show ?case by (simp add: increment_topics_extracted_def k_upd_def)
qed (simp add: topics_counted_def topic_labels_def create_collector_health_def create_collector_metrics_def js_set_def)

text \<open>
  However many topics are counted, the counter has at most thirty labels besides \<open>other\<close>: those of the first thirty
  different topics, each with its exact number, and all counts add up to the number of topics.
\<close>

theorem topic_labels_bounded:
  "let m = km_topics_extracted (kh_metrics (foldl (\<lambda>c t. increment_topics_extracted t 1 c) (create_collector_health now) ts));
       labels = filter (\<lambda>k. k \<noteq> other_topic_label) (om_keys m)
   in distinct (om_keys m) \<and> length m \<le> Suc topic_label_cardinality_limit
    \<and> labels = take topic_label_cardinality_limit (js_set (filter (\<lambda>t. t \<noteq> other_topic_label) ts))
    \<and> list_all (\<lambda>t. map_of m t = Some (count_list ts t)) labels
    \<and> sum_list (map snd m) = length ts"
  using topics_counted_run [of ts now] topics_counted_length [OF topics_counted_run [of ts now]]
  unfolding topics_counted_def topic_labels_def Let_def list_all_iff by (intro conjI) blast+

end
