(* ===== verification/Collected.thy ===== *)
theory Collected
  imports Trends
begin

section \<open>Collected content (apps/collector/src/types.ts, serializer.ts)\<close>

text \<open>
  What an adapter collects is normalised, and turned into the message the other services read. \<open>null\<close> and
  \<open>undefined\<close> are \<open>None\<close>. The source meta data is a JSON object. \<open>JSON.stringify\<close> is a parameter.
\<close>

subsection \<open>The content and its normal form\<close>

record content_author =
  ca_id :: "string option"
  ca_handle :: "string option"
  ca_display_name :: "string option"

datatype js_number = FiniteNumber rat | NotFiniteNumber

record engagement_input =
  ei_score :: "js_number option"
  ei_comments :: "js_number option"
  ei_likes :: "js_number option"
  ei_shares :: "js_number option"

record engagement =
  en_score :: "rat option"
  en_comments :: "rat option"
  en_likes :: "rat option"
  en_shares :: "rat option"

record entities_input =
  xi_cves :: "string option list option"
  xi_ghsas :: "string option list option"

record extracted_input =
  xi_hashtags :: "string option list option"
  xi_urls :: "string option list option"
  xi_entities :: "entities_input option"

record extracted_entities =
  xe_cves :: "string list option"
  xe_ghsas :: "string list option"

record extracted =
  xe_hashtags :: "string list option"
  xe_urls :: "string list option"
  xe_entities :: "extracted_entities option"

record content_input =
  ci_event_id :: string
  ci_source :: source_value
  ci_fetched_at :: string
  ci_published_at :: "string option"
  ci_url :: "string option"
  ci_title :: "string option"
  ci_text :: string
  ci_author :: "content_author option"
  ci_engagement :: "engagement_input option"
  ci_lang :: "string option"
  ci_tags :: "string option list option"
  ci_extracted :: "extracted_input option"
  ci_source_meta :: "json_object option"

record collected_content =
  cc_event_id :: string
  cc_source :: canonical
  cc_fetched_at :: string
  cc_published_at :: "string option"
  cc_url :: "string option"
  cc_title :: "string option"
  cc_text :: string
  cc_author :: "content_author option"
  cc_engagement :: "engagement option"
  cc_lang :: "string option"
  cc_tags :: "string list option"
  cc_extracted :: "extracted option"
  cc_source_meta :: "json_object option"

definition normalize_raw_event_source :: "source_value \<Rightarrow> source_error + canonical" where
  "normalize_raw_event_source src = parse_canonical_source src"

text \<open>\<open>normalizeOptionalString\<close> is that of the event parser.\<close>

fun normalize_strings_loop :: "string option list \<Rightarrow> string list \<Rightarrow> string list \<Rightarrow> string list" where
  "normalize_strings_loop [] seen kept = kept"
| "normalize_strings_loop (v # vs) seen kept =
     (case normalize_optional_string v of
        None \<Rightarrow> normalize_strings_loop vs seen kept
      | Some trimmed \<Rightarrow>
          if trimmed \<in> set seen then normalize_strings_loop vs seen kept
          else normalize_strings_loop vs (set_add seen trimmed) (kept @ [trimmed]))"

definition normalize_string_array :: "string option list option \<Rightarrow> string list option" where
  "normalize_string_array vs =
     (case vs of
        None \<Rightarrow> None
      | Some xs \<Rightarrow>
          if length xs = 0 then None
          else (let kept = normalize_strings_loop xs [] [] in
                if length kept > 0 then Some kept else None))"

definition normalize_author :: "content_author option \<Rightarrow> content_author option" where
  "normalize_author au =
     (case au of
        None \<Rightarrow> None
      | Some a \<Rightarrow>
          (let i = normalize_optional_string (ca_id a);
               h = normalize_optional_string (ca_handle a);
               d = normalize_optional_string (ca_display_name a)
           in if i = None \<and> h = None \<and> d = None then None
              else Some \<lparr>ca_id = i, ca_handle = h, ca_display_name = d\<rparr>))"

definition finite_number :: "js_number option \<Rightarrow> rat option" where
  "finite_number v = (case v of Some (FiniteNumber n) \<Rightarrow> Some n | _ \<Rightarrow> None)"

definition normalize_engagement :: "engagement_input option \<Rightarrow> engagement option" where
  "normalize_engagement en =
     (case en of
        None \<Rightarrow> None
      | Some e \<Rightarrow>
          (let n = \<lparr>en_score = finite_number (ei_score e), en_comments = finite_number (ei_comments e),
                 en_likes = finite_number (ei_likes e), en_shares = finite_number (ei_shares e)\<rparr>
           in if en_score n = None \<and> en_comments n = None \<and> en_likes n = None \<and> en_shares n = None then None
              else Some n))"

definition normalize_extracted_entities :: "entities_input option \<Rightarrow> extracted_entities option" where
  "normalize_extracted_entities es =
     (case es of
        None \<Rightarrow> None
      | Some e \<Rightarrow>
          (let cves = normalize_string_array (xi_cves e); ghsas = normalize_string_array (xi_ghsas e)
           in if cves = None \<and> ghsas = None then None else Some \<lparr>xe_cves = cves, xe_ghsas = ghsas\<rparr>))"

definition normalize_extracted :: "extracted_input option \<Rightarrow> extracted option" where
  "normalize_extracted ex =
     (case ex of
        None \<Rightarrow> None
      | Some e \<Rightarrow>
          (let hashtags = normalize_string_array (xi_hashtags e);
               urls = normalize_string_array (xi_urls e);
               ents = normalize_extracted_entities (xi_entities e)
           in if hashtags = None \<and> urls = None \<and> ents = None then None
              else Some \<lparr>xe_hashtags = hashtags, xe_urls = urls, xe_entities = ents\<rparr>))"

definition create_collected_content :: "content_input \<Rightarrow> source_error + collected_content" where
  "create_collected_content inp =
     ebind (normalize_raw_event_source (ci_source inp)) (\<lambda>src.
     Inr \<lparr>cc_event_id = trim (ci_event_id inp), cc_source = src, cc_fetched_at = trim (ci_fetched_at inp),
       cc_published_at = normalize_optional_string (ci_published_at inp),
       cc_url = normalize_optional_string (ci_url inp),
       cc_title = normalize_optional_string (ci_title inp),
       cc_text = trim (ci_text inp),
       cc_author = normalize_author (ci_author inp),
       cc_engagement = normalize_engagement (ci_engagement inp),
       cc_lang = normalize_optional_string (ci_lang inp),
       cc_tags = normalize_string_array (ci_tags inp),
       cc_extracted = normalize_extracted (ci_extracted inp),
       cc_source_meta = ci_source_meta inp\<rparr>)"

text \<open>A value that is present is passed on as it is.\<close>

definition engagement_again :: "engagement \<Rightarrow> engagement_input" where
  "engagement_again e =
     \<lparr>ei_score = map_option FiniteNumber (en_score e), ei_comments = map_option FiniteNumber (en_comments e),
      ei_likes = map_option FiniteNumber (en_likes e), ei_shares = map_option FiniteNumber (en_shares e)\<rparr>"

definition strings_again :: "string list option \<Rightarrow> string option list option" where
  "strings_again vs = map_option (map Some) vs"

definition entities_again :: "extracted_entities \<Rightarrow> entities_input" where
  "entities_again e = \<lparr>xi_cves = strings_again (xe_cves e), xi_ghsas = strings_again (xe_ghsas e)\<rparr>"

definition extracted_again :: "extracted \<Rightarrow> extracted_input" where
  "extracted_again e =
     \<lparr>xi_hashtags = strings_again (xe_hashtags e), xi_urls = strings_again (xe_urls e),
      xi_entities = map_option entities_again (xe_entities e)\<rparr>"

definition normalize_collected_content :: "collected_content \<Rightarrow> source_error + collected_content" where
  "normalize_collected_content c =
     create_collected_content
       \<lparr>ci_event_id = cc_event_id c, ci_source = source_text (cc_source c), ci_fetched_at = cc_fetched_at c,
        ci_published_at = cc_published_at c, ci_url = cc_url c, ci_title = cc_title c, ci_text = cc_text c,
        ci_author = map_option (\<lambda>a. \<lparr>ca_id = ca_id a, ca_handle = ca_handle a, ca_display_name = ca_display_name a\<rparr>)
          (cc_author c),
        ci_engagement = map_option engagement_again (cc_engagement c), ci_lang = cc_lang c,
        ci_tags = strings_again (cc_tags c), ci_extracted = map_option extracted_again (cc_extracted c),
        ci_source_meta = cc_source_meta c\<rparr>"

definition normalize_collector_ingestion_event :: "collected_content \<Rightarrow> source_error + collected_content" where
  "normalize_collector_ingestion_event = normalize_collected_content"

subsection \<open>Raw events\<close>

record raw_event =
  re_event_id :: string
  re_source :: canonical
  re_fetched_at :: string
  re_published_at :: "string option"
  re_url :: "string option"
  re_title :: "string option"
  re_text :: string
  re_author :: "wire_author option"
  re_engagement :: "engagement option"
  re_lang :: "string option"
  re_tags :: "string list option"
  re_extracted :: "extracted option"
  re_source_meta :: "json_object option"

definition to_raw_event :: "collected_content \<Rightarrow> source_error + raw_event" where
  "to_raw_event content =
     ebind (normalize_collected_content content) (\<lambda>n.
     Inr \<lparr>re_event_id = cc_event_id n, re_source = cc_source n, re_fetched_at = cc_fetched_at n,
       re_published_at = cc_published_at n, re_url = cc_url n, re_title = cc_title n, re_text = cc_text n,
       re_author = map_option (\<lambda>a. \<lparr>wa_id = ca_id a, wa_handle = ca_handle a, wa_display_name = ca_display_name a\<rparr>)
         (cc_author n),
       re_engagement = cc_engagement n, re_lang = cc_lang n, re_tags = cc_tags n,
       re_extracted = cc_extracted n, re_source_meta = cc_source_meta n\<rparr>)"

definition to_collected_content :: "raw_event \<Rightarrow> source_error + collected_content" where
  "to_collected_content e =
     create_collected_content
       \<lparr>ci_event_id = re_event_id e, ci_source = source_text (re_source e), ci_fetched_at = re_fetched_at e,
        ci_published_at = re_published_at e, ci_url = re_url e, ci_title = re_title e, ci_text = re_text e,
        ci_author = map_option (\<lambda>a. \<lparr>ca_id = wa_id a, ca_handle = wa_handle a, ca_display_name = wa_display_name a\<rparr>)
          (re_author e),
        ci_engagement = map_option engagement_again (re_engagement e), ci_lang = re_lang e,
        ci_tags = strings_again (re_tags e), ci_extracted = map_option extracted_again (re_extracted e),
        ci_source_meta = re_source_meta e\<rparr>"

record raw_event_input =
  ri_event_id :: string
  ri_source :: source_value
  ri_fetched_at :: string
  ri_published_at :: "string option"
  ri_url :: "string option"
  ri_title :: "string option"
  ri_text :: string
  ri_author :: "wire_author option"
  ri_engagement :: "engagement_input option"
  ri_lang :: "string option"
  ri_tags :: "string option list option"
  ri_extracted :: "extracted_input option"
  ri_source_meta :: "json_object option"

definition create_raw_event :: "raw_event_input \<Rightarrow> source_error + raw_event" where
  "create_raw_event inp =
     ebind (create_collected_content
       \<lparr>ci_event_id = ri_event_id inp, ci_source = ri_source inp, ci_fetched_at = ri_fetched_at inp,
        ci_published_at = ri_published_at inp, ci_url = ri_url inp, ci_title = ri_title inp, ci_text = ri_text inp,
        ci_author = map_option (\<lambda>a. \<lparr>ca_id = wa_id a, ca_handle = wa_handle a, ca_display_name = wa_display_name a\<rparr>)
          (ri_author inp),
        ci_engagement = ri_engagement inp, ci_lang = ri_lang inp, ci_tags = ri_tags inp,
        ci_extracted = ri_extracted inp, ci_source_meta = ri_source_meta inp\<rparr>) to_raw_event"

record ingestion_record =
  ir_content :: collected_content
  ir_checkpoint_key :: string
  ir_checkpoint_value :: string

definition create_collector_ingestion_record :: "ingestion_record \<Rightarrow> source_error + ingestion_record" where
  "create_collector_ingestion_record inp =
     ebind (normalize_collector_ingestion_event (ir_content inp)) (\<lambda>c.
     Inr \<lparr>ir_content = c, ir_checkpoint_key = ir_checkpoint_key inp, ir_checkpoint_value = ir_checkpoint_value inp\<rparr>)"

definition create_collector_source_record :: "ingestion_record \<Rightarrow> source_error + ingestion_record \<times> raw_event" where
  "create_collector_source_record inp =
     ebind (create_collector_ingestion_record inp) (\<lambda>r.
     ebind (to_raw_event (ir_content r)) (\<lambda>e. Inr (r, e)))"

subsection \<open>Messages\<close>

record dead_letter_event =
  dlq_id :: string
  occurred_at :: string
  dlq_source :: string
  error_code :: string
  error_message :: string
  raw_reference :: string

record collector_heartbeat =
  hb_source :: string
  hb_timestamp :: string
  hb_last_fetch_at :: string
  hb_items_fetched :: nat
  hb_status :: collector_status
  hb_error_message :: "string option"

text \<open>An undefined member is \<open>None\<close>; the wire number of a source is undefined for an inherited member.\<close>

record payload_engagement =
  pe_score :: rat
  pe_comments :: rat
  pe_likes :: rat
  pe_shares :: rat

record publication_payload =
  pp_event_id :: string
  pp_source :: "int option"
  pp_fetched_at :: string
  pp_published_at :: string
  pp_url :: string
  pp_title :: string
  pp_text :: string
  pp_author :: "(string \<times> string \<times> string) option"
  pp_engagement :: "payload_engagement option"
  pp_lang :: string
  pp_tags :: "string list"
  pp_extracted :: "(string list \<times> string list) option"
  pp_source_meta_json :: string

definition source_number :: "canonical \<Rightarrow> int option" where
  "source_number c = (case c of Canonical s \<Rightarrow> map_of source_key_to_enum s | Inherited _ \<Rightarrow> None)"

definition to_collector_publication_payload ::
  "(json \<Rightarrow> string) \<Rightarrow> collected_content \<Rightarrow> source_error + publication_payload" where
  "to_collector_publication_payload stringify content =
     ebind (normalize_collected_content content) (\<lambda>n.
     Inr \<lparr>pp_event_id = cc_event_id n, pp_source = source_number (cc_source n), pp_fetched_at = cc_fetched_at n,
       pp_published_at = default [] (cc_published_at n), pp_url = default [] (cc_url n),
       pp_title = default [] (cc_title n), pp_text = cc_text n,
       pp_author = map_option (\<lambda>a. (default [] (ca_id a), default [] (ca_handle a), default [] (ca_display_name a)))
         (cc_author n),
       pp_engagement = map_option (\<lambda>e. \<lparr>pe_score = default 0 (en_score e), pe_comments = default 0 (en_comments e),
           pe_likes = default 0 (en_likes e), pe_shares = default 0 (en_shares e)\<rparr>) (cc_engagement n),
       pp_lang = default [] (cc_lang n), pp_tags = default [] (cc_tags n),
       pp_extracted = map_option (\<lambda>x. (default [] (xe_hashtags x), default [] (xe_urls x))) (cc_extracted n),
       pp_source_meta_json = (case cc_source_meta n of Some m \<Rightarrow> stringify (JObj m) | None \<Rightarrow> [])\<rparr>)"

text \<open>The payload as a JSON object; members that are undefined are left out.\<close>

definition payload_members :: "publication_payload \<Rightarrow> json_object" where
  "payload_members p =
     [(''event_id'', JStr (pp_event_id p))] @
       (case pp_source p of Some n \<Rightarrow> [(''source'', JNum (of_int n))] | None \<Rightarrow> []) @
       [(''fetched_at'', JStr (pp_fetched_at p)), (''published_at'', JStr (pp_published_at p)),
        (''url'', JStr (pp_url p)), (''title'', JStr (pp_title p)), (''text'', JStr (pp_text p))] @
       (case pp_author p of
          Some (i, h, d) \<Rightarrow> [(''author'', JObj [(''id'', JStr i), (''handle'', JStr h), (''display_name'', JStr d)])]
        | None \<Rightarrow> []) @
       (case pp_engagement p of
          Some e \<Rightarrow> [(''engagement'', JObj [(''score'', JNum (pe_score e)), (''comments'', JNum (pe_comments e)),
            (''likes'', JNum (pe_likes e)), (''shares'', JNum (pe_shares e))])]
        | None \<Rightarrow> []) @
       [(''lang'', JStr (pp_lang p)), (''tags'', JArr (map JStr (pp_tags p)))] @
       (case pp_extracted p of
          Some (hs, us) \<Rightarrow> [(''extracted'', JObj [(''hashtags'', JArr (map JStr hs)), (''urls'', JArr (map JStr us))])]
        | None \<Rightarrow> []) @
       [(''source_meta_json'', JStr (pp_source_meta_json p))]"

definition json_of_payload :: "publication_payload \<Rightarrow> json" where
  "json_of_payload p = JObj (payload_members p)"

definition serialize_collected_content :: "(json \<Rightarrow> string) \<Rightarrow> collected_content \<Rightarrow> source_error + string" where
  "serialize_collected_content stringify content =
     ebind (to_collector_publication_payload stringify content) (\<lambda>p. Inr (stringify (json_of_payload p)))"

definition serialize_raw_event :: "(json \<Rightarrow> string) \<Rightarrow> raw_event \<Rightarrow> source_error + string" where
  "serialize_raw_event stringify e =
     ebind (to_collected_content e) (serialize_collected_content stringify)"

definition serialize_dead_letter_event :: "(json \<Rightarrow> string) \<Rightarrow> dead_letter_event \<Rightarrow> string" where
  "serialize_dead_letter_event stringify e =
     stringify (JObj [(''dlq_id'', JStr (dlq_id e)), (''occurred_at'', JStr (occurred_at e)),
       (''source'', JStr (dlq_source e)), (''error_code'', JStr (error_code e)),
       (''error_message'', JStr (error_message e)), (''raw_reference'', JStr (raw_reference e))])"

fun status_to_proto :: "collector_status \<Rightarrow> int" where
  "status_to_proto CollectorHealthy = 1"
| "status_to_proto CollectorDegraded = 2"
| "status_to_proto CollectorError = 3"

definition heartbeat_json :: "collector_heartbeat \<Rightarrow> source_error + json" where
  "heartbeat_json hb =
     ebind (source_to_proto_enum (hb_source hb)) (\<lambda>n.
     Inr (JObj ((case n of Some i \<Rightarrow> [(''source'', JNum (of_int i))] | None \<Rightarrow> []) @
       [(''timestamp'', JStr (hb_timestamp hb)), (''last_fetch_at'', JStr (hb_last_fetch_at hb)),
        (''items_fetched'', JNum (of_nat (hb_items_fetched hb))),
        (''status'', JNum (of_int (status_to_proto (hb_status hb)))),
        (''error_message'', JStr (default [] (hb_error_message hb)))])))"

definition serialize_heartbeat :: "(json \<Rightarrow> string) \<Rightarrow> collector_heartbeat \<Rightarrow> source_error + string" where
  "serialize_heartbeat stringify hb = map_sum id stringify (heartbeat_json hb)"

definition generate_event_id :: "string \<Rightarrow> string \<Rightarrow> string" where
  "generate_event_id src unique_id = src @ '':'' @ unique_id"

text \<open>\<open>Math.random().toString(36)\<close> is an argument.\<close>

definition generate_dlq_id :: "int \<Rightarrow> string \<Rightarrow> string" where
  "generate_dlq_id now random36 = ''dlq:'' @ int_str now @ '':'' @ take 8 (drop 2 random36)"


subsection \<open>The schema of a raw event (packages/pipeline/src/raw-event.ts)\<close>

definition opt_member :: "(json \<Rightarrow> 'a option) \<Rightarrow> json option \<Rightarrow> 'a option option" where
  "opt_member f v = (case v of None \<Rightarrow> Some None | Some j \<Rightarrow> map_option Some (f j))"

fun as_string :: "json \<Rightarrow> string option" where
  "as_string (JStr s) = Some s"
| "as_string _ = None"

fun as_number :: "json \<Rightarrow> rat option" where
  "as_number (JNum n) = Some n"
| "as_number _ = None"

fun all_strings :: "json list \<Rightarrow> string list option" where
  "all_strings [] = Some []"
| "all_strings (j # js) = Option.bind (as_string j) (\<lambda>s. Option.bind (all_strings js) (\<lambda>ss. Some (s # ss)))"

fun as_string_array :: "json \<Rightarrow> string list option" where
  "as_string_array (JArr js) = all_strings js"
| "as_string_array _ = None"

definition min_1 :: "string option \<Rightarrow> string option" where
  "min_1 s = (case s of Some t \<Rightarrow> if length t \<ge> 1 then Some t else None | None \<Rightarrow> None)"

fun as_source :: "json \<Rightarrow> source_value option" where
  "as_source (JNum n) = (if of_int \<lfloor>n\<rfloor> = n then Some (SourceNumber \<lfloor>n\<rfloor>) else None)"
| "as_source (JStr s) = map_option SourceString (min_1 (Some s))"
| "as_source _ = None"

fun as_author :: "json \<Rightarrow> wire_author option" where
  "as_author (JObj m) =
     Option.bind (opt_member as_string (map_of m ''id'')) (\<lambda>i.
     Option.bind (opt_member as_string (map_of m ''handle'')) (\<lambda>h.
     Option.bind (opt_member as_string (map_of m ''display_name'')) (\<lambda>d.
     Some \<lparr>wa_id = i, wa_handle = h, wa_display_name = d\<rparr>)))"
| "as_author _ = None"

fun as_engagement :: "json \<Rightarrow> wire_engagement option" where
  "as_engagement (JObj m) =
     Option.bind (opt_member as_number (map_of m ''score'')) (\<lambda>s.
     Option.bind (opt_member as_number (map_of m ''comments'')) (\<lambda>c.
     Option.bind (opt_member as_number (map_of m ''likes'')) (\<lambda>l.
     Option.bind (opt_member as_number (map_of m ''shares'')) (\<lambda>h.
     Some \<lparr>we_score = s, we_comments = c, we_likes = l, we_shares = h\<rparr>))))"
| "as_engagement _ = None"

fun as_extracted :: "json \<Rightarrow> (string list option \<times> string list option) option" where
  "as_extracted (JObj m) =
     Option.bind (opt_member as_string_array (map_of m ''hashtags'')) (\<lambda>h.
     Option.bind (opt_member as_string_array (map_of m ''urls'')) (\<lambda>u. Some (h, u)))"
| "as_extracted _ = None"

fun raw_event_wire_schema :: "json \<Rightarrow> raw_event_wire option" where
  "raw_event_wire_schema (JObj m) =
     Option.bind (min_1 (Option.bind (map_of m ''event_id'') as_string)) (\<lambda>i.
     Option.bind (Option.bind (map_of m ''source'') as_source) (\<lambda>src.
     Option.bind (min_1 (Option.bind (map_of m ''fetched_at'') as_string)) (\<lambda>fetched.
     Option.bind (opt_member as_string (map_of m ''published_at'')) (\<lambda>published.
     Option.bind (opt_member as_string (map_of m ''url'')) (\<lambda>u.
     Option.bind (opt_member as_string (map_of m ''title'')) (\<lambda>ti.
     Option.bind (min_1 (Option.bind (map_of m ''text'') as_string)) (\<lambda>te.
     Option.bind (opt_member as_author (map_of m ''author'')) (\<lambda>au.
     Option.bind (opt_member as_engagement (map_of m ''engagement'')) (\<lambda>en.
     Option.bind (opt_member as_string (map_of m ''lang'')) (\<lambda>la.
     Option.bind (opt_member as_string_array (map_of m ''tags'')) (\<lambda>ts.
     Option.bind (opt_member as_extracted (map_of m ''extracted'')) (\<lambda>ex.
     Option.bind (opt_member as_string (map_of m ''source_meta_json'')) (\<lambda>sm.
     Some \<lparr>w_event_id = i, w_source = src, w_fetched_at = fetched, w_published_at = published, w_url = u,
       w_title = ti, w_text = te, w_author = au, w_engagement = en, w_lang = la, w_tags = ts,
       w_hashtags = Option.bind ex fst, w_urls = Option.bind ex snd, w_source_meta_json = sm\<rparr>)))))))))))))"
| "raw_event_wire_schema _ = None"

subsection \<open>Lemmas\<close>

lemma default_simps [simp]: "default d (Some v) = v" "default d None = d"
  by (simp_all add: default_def)

lemma ebind_ret: "ebind (Inr a) k = k a"
  by (simp add: ebind_def)

lemma normalize_optional_string_again [simp]:
  "normalize_optional_string (normalize_optional_string v) = normalize_optional_string v"
  by (auto simp: normalize_optional_string_def Let_def split: option.splits)

lemma normalize_optional_string_kept:
  "normalize_optional_string v = Some s \<Longrightarrow> normalize_optional_string (Some s) = Some s"
  using normalize_optional_string_again [of v] by simp

text \<open>The loop keeps the first occurrence of every trimmed text.\<close>

lemma normalize_strings_loop_eq:
  "normalize_strings_loop vs seen acc =
    acc @ dedup_by id (set seen) (List.map_filter normalize_optional_string vs)"
proof (induction vs seen acc rule: normalize_strings_loop.induct)
  case (2 v vs seen acc)
  show ?case
  proof (cases "normalize_optional_string v")
    case (Some t)
    then show ?thesis using 2 by (auto simp: map_filter_simps set_add_def)
  qed (use 2 in \<open>simp add: map_filter_simps\<close>)
qed (simp add: map_filter_simps)

text \<open>What a normalised list is: not empty, its texts trimmed, not empty and different.\<close>

definition strings_ok :: "string list option \<Rightarrow> bool" where
  "strings_ok vs \<longleftrightarrow> (case vs of None \<Rightarrow> True | Some xs \<Rightarrow>
     xs \<noteq> [] \<and> distinct xs \<and> list_all (\<lambda>s. normalize_optional_string (Some s) = Some s) xs)"

lemma normalize_string_array_ok: "strings_ok (normalize_string_array vs)"
proof (cases vs)
  case (Some xs)
  have "normalize_optional_string (Some s) = Some s" if "s \<in> set (List.map_filter normalize_optional_string xs)" for s
    using that by (auto simp: List.map_filter_def dest: normalize_optional_string_kept)
  then show ?thesis using Some distinct_dedup_by [of id "{}" "List.map_filter normalize_optional_string xs"]
    by (auto simp: strings_ok_def normalize_string_array_def normalize_strings_loop_eq Let_def list_all_iff
        dest: set_dedup_by_subset [THEN subsetD])
qed (simp add: strings_ok_def normalize_string_array_def)

lemma normalize_string_array_again: "strings_ok vs \<Longrightarrow> normalize_string_array (strings_again vs) = vs"
proof (cases vs)
  case (Some xs)
  assume ok: "strings_ok vs"
  have "List.map_filter normalize_optional_string (map Some ys) = ys"
    if "list_all (\<lambda>s. normalize_optional_string (Some s) = Some s) ys" for ys
    using that by (induction ys) (simp_all add: map_filter_simps)
  then show ?thesis using ok Some
    by (simp add: strings_ok_def normalize_string_array_def strings_again_def normalize_strings_loop_eq dedup_by_id Let_def)
qed (simp add: normalize_string_array_def strings_again_def)

lemma normalize_author_again [simp]: "normalize_author (normalize_author a) = normalize_author a"
  by (cases a) (simp_all add: normalize_author_def Let_def)

lemma author_again [simp]:
  "map_option (\<lambda>a. \<lparr>ca_id = ca_id a, ca_handle = ca_handle a, ca_display_name = ca_display_name a\<rparr>) au = au"
  by (cases au) simp_all

lemma finite_number_again [simp]: "finite_number (map_option FiniteNumber v) = v"
  by (cases v) (simp_all add: finite_number_def)

lemma normalize_engagement_again:
  "normalize_engagement (map_option engagement_again (normalize_engagement e)) = normalize_engagement e"
  by (cases e) (simp_all add: normalize_engagement_def engagement_again_def Let_def)

lemmas again = normalize_string_array_again [OF normalize_string_array_ok]

lemma normalize_entities_again:
  "normalize_extracted_entities (map_option entities_again (normalize_extracted_entities e)) = normalize_extracted_entities e"
  by (cases e) (simp_all add: normalize_extracted_entities_def entities_again_def again Let_def)

lemma normalize_extracted_again:
  "normalize_extracted (map_option extracted_again (normalize_extracted e)) = normalize_extracted e"
  by (cases e) (simp_all add: normalize_extracted_def extracted_again_def again normalize_entities_again Let_def)

text \<open>Content with a known source that has been normalised once is in normal form.\<close>

lemma created_content_normal:
  assumes "create_collected_content inp = Inr c" and "cc_source c = Canonical s"
  shows "normalize_collected_content c = Inr c"
  using assms source_text_parsed [of s]
  by (auto simp: normalize_collected_content_def create_collected_content_def normalize_raw_event_source_def
      again normalize_engagement_again normalize_extracted_again ebind_def o_def
      cong: option.map_cong split: sum.splits)


lemma raw_event_normal:
  assumes "normalize_collected_content c = Inr c" and "to_raw_event c = Inr e"
  shows "to_collected_content e = Inr c"
proof -
  have "map_option (\<lambda>a. \<lparr>ca_id = wa_id a, ca_handle = wa_handle a, ca_display_name = wa_display_name a\<rparr>)
      (map_option (\<lambda>a. \<lparr>wa_id = ca_id a, wa_handle = ca_handle a, wa_display_name = ca_display_name a\<rparr>) au) = au"
    for au :: "content_author option"
    by (cases au) simp_all
  with assms show ?thesis
    by (auto simp: to_raw_event_def to_collected_content_def normalize_collected_content_def)
qed

lemma all_strings_JStr [simp]: "all_strings (map JStr ss) = Some ss"
  by (induction ss) simp_all

lemma normalize_optional_string_default:
  "normalize_optional_string v = v \<Longrightarrow> normalize_optional_string (Some (default [] v)) = v"
  by (cases v) (simp_all add: default_def normalize_optional_string_def trim_Nil)

text \<open>What normal content says of its parts.\<close>

lemma normal_parts:
  assumes "normalize_collected_content c = Inr c"
  shows "normalize_optional_string (cc_published_at c) = cc_published_at c"
    "normalize_optional_string (cc_url c) = cc_url c"
    "normalize_optional_string (cc_title c) = cc_title c"
    "normalize_optional_string (cc_lang c) = cc_lang c"
    "normalize_author (cc_author c) = cc_author c"
    "parse_canonical_source (source_text (cc_source c)) = Inr (cc_source c)"
  using assms
  by (cases c; force simp: normalize_collected_content_def create_collected_content_def normalize_raw_event_source_def)+

lemma normal_author:
  assumes "normalize_author au = au"
  shows "normalize_optional_string (Option.bind au ca_id) = Option.bind au ca_id \<and>
    normalize_optional_string (Option.bind au ca_handle) = Option.bind au ca_handle \<and>
    normalize_optional_string (Option.bind au ca_display_name) = Option.bind au ca_display_name"
proof (cases au)
  case (Some a)
  then have "\<lparr>ca_id = normalize_optional_string (ca_id a), ca_handle = normalize_optional_string (ca_handle a),
      ca_display_name = normalize_optional_string (ca_display_name a)\<rparr> = a"
    using assms by (auto simp: normalize_author_def Let_def split: if_splits)
  with Some show ?thesis by (cases a) simp
qed (simp add: normalize_optional_string_def)

lemma source_number_parsed:
  "\<exists>n. map_of source_key_to_enum s = Some n \<and> parse_source_number n = Inr (Canonical s)"
proof -
  have "list_all (\<lambda>s. case map_of source_key_to_enum s of
      Some n \<Rightarrow> parse_source_number n = Inr (Canonical s) | None \<Rightarrow> False) all_sources"
    by code_simp
  then have "case map_of source_key_to_enum s of Some n \<Rightarrow> parse_source_number n = Inr (Canonical s) | None \<Rightarrow> False"
    by (simp add: list_all_iff)
  then show ?thesis by (simp split: option.splits)
qed

lemma payload_lookups:
  "map_of (payload_members p) ''event_id'' = Some (JStr (pp_event_id p))"
  "map_of (payload_members p) ''source'' = map_option (\<lambda>n. JNum (of_int n)) (pp_source p)"
  "map_of (payload_members p) ''fetched_at'' = Some (JStr (pp_fetched_at p))"
  "map_of (payload_members p) ''published_at'' = Some (JStr (pp_published_at p))"
  "map_of (payload_members p) ''url'' = Some (JStr (pp_url p))"
  "map_of (payload_members p) ''title'' = Some (JStr (pp_title p))"
  "map_of (payload_members p) ''text'' = Some (JStr (pp_text p))"
  "map_of (payload_members p) ''author'' = map_option (\<lambda>(i, h, d).
     JObj [(''id'', JStr i), (''handle'', JStr h), (''display_name'', JStr d)]) (pp_author p)"
  "map_of (payload_members p) ''engagement'' = map_option (\<lambda>e.
     JObj [(''score'', JNum (pe_score e)), (''comments'', JNum (pe_comments e)),
       (''likes'', JNum (pe_likes e)), (''shares'', JNum (pe_shares e))]) (pp_engagement p)"
  "map_of (payload_members p) ''lang'' = Some (JStr (pp_lang p))"
  "map_of (payload_members p) ''tags'' = Some (JArr (map JStr (pp_tags p)))"
  "map_of (payload_members p) ''extracted'' = map_option (\<lambda>(hs, us).
     JObj [(''hashtags'', JArr (map JStr hs)), (''urls'', JArr (map JStr us))]) (pp_extracted p)"
  "map_of (payload_members p) ''source_meta_json'' = Some (JStr (pp_source_meta_json p))"
  by (simp_all add: payload_members_def map_add_def split: option.splits)

lemma schema_of_payload:
  assumes "pp_source p = Some n" and "pp_event_id p \<noteq> []" and "pp_fetched_at p \<noteq> []" and "pp_text p \<noteq> []"
  shows "raw_event_wire_schema (json_of_payload p) = Some
    \<lparr>w_event_id = pp_event_id p, w_source = SourceNumber n, w_fetched_at = pp_fetched_at p,
     w_published_at = Some (pp_published_at p), w_url = Some (pp_url p), w_title = Some (pp_title p),
     w_text = pp_text p,
     w_author = map_option (\<lambda>(i, h, d). \<lparr>wa_id = Some i, wa_handle = Some h, wa_display_name = Some d\<rparr>) (pp_author p),
     w_engagement = map_option (\<lambda>e. \<lparr>we_score = Some (pe_score e), we_comments = Some (pe_comments e),
       we_likes = Some (pe_likes e), we_shares = Some (pe_shares e)\<rparr>) (pp_engagement p),
     w_lang = Some (pp_lang p), w_tags = Some (pp_tags p),
     w_hashtags = map_option fst (pp_extracted p), w_urls = map_option snd (pp_extracted p),
     w_source_meta_json = Some (pp_source_meta_json p)\<rparr>"
proof -
  have ne: "Suc 0 \<le> length xs \<longleftrightarrow> xs \<noteq> []" for xs :: string by (cases xs) auto
  show ?thesis using assms
    by (cases "pp_author p"; cases "pp_engagement p"; cases "pp_extracted p")
      (auto simp: json_of_payload_def payload_lookups min_1_def opt_member_def ne split: prod.splits)
qed


subsection \<open>Properties\<close>

text \<open>The parser of an event on the message of a payload.\<close>

lemma deserialized_payload:
  assumes c: "normalize_collected_content c = Inr c" "cc_source c = Canonical s"
    and ne: "cc_event_id c \<noteq> []" "cc_fetched_at c \<noteq> []" "cc_text c \<noteq> []"
    and fetched: "date_value ps (cc_fetched_at c) = Some fetched"
    and published: "case cc_published_at c of None \<Rightarrow> published = None | Some t \<Rightarrow> date_value ps t = published \<and> published \<noteq> None"
    and meta: "\<And>m. cc_source_meta c = Some m \<Longrightarrow> json_meta ps (stringify (JObj m)) = Some (JsonObject m) \<and>
      normalize_optional_string (Some (stringify (JObj m))) = Some (stringify (JObj m))"
    and payload: "to_collector_publication_payload stringify c = Inr p"
  shows "deserialize_raw_event ps (raw_event_wire_schema (json_of_payload p)) = Inr
    \<lparr>event_id = cc_event_id c, event_source = cc_source c, fetched_at = fetched, published_at = published,
     event_url = cc_url c, title = cc_title c, event_text = cc_text c,
     author_id = Option.bind (cc_author c) ca_id, author_handle = Option.bind (cc_author c) ca_handle,
     author_display_name = Option.bind (cc_author c) ca_display_name,
     engagement_score = map_option (\<lambda>e. default 0 (en_score e)) (cc_engagement c),
     engagement_comments = map_option (\<lambda>e. default 0 (en_comments e)) (cc_engagement c),
     engagement_likes = map_option (\<lambda>e. default 0 (en_likes e)) (cc_engagement c),
     engagement_shares = map_option (\<lambda>e. default 0 (en_shares e)) (cc_engagement c),
     lang = cc_lang c, tags = default [] (cc_tags c),
     extracted_hashtags = default [] (Option.bind (cc_extracted c) xe_hashtags),
     extracted_urls = default [] (Option.bind (cc_extracted c) xe_urls),
     source_meta = cc_source_meta c\<rparr>"
proof -
  note parts = normal_parts [OF c(1)]
  obtain n where n: "map_of source_key_to_enum s = Some n" "parse_source_number n = Inr (Canonical s)"
    using source_number_parsed by blast
  have p: "p = the (Some p)" "pp_source p = Some n" "pp_event_id p \<noteq> []" "pp_fetched_at p \<noteq> []" "pp_text p \<noteq> []"
    using payload c ne n by (auto simp: to_collector_publication_payload_def source_number_def)
  have pub: "(if truthy (Some (default [] (cc_published_at c)))
      then map_sum id Some (parse_date ps (default [] (cc_published_at c)) ''published_at'') else Inr None) = Inr published"
    using published parts(1)
    by (auto simp: truthy_def default_def parse_date_def normalize_optional_string_def Let_def split: option.splits if_splits)
  have sm: "parse_source_meta ps (Some (case cc_source_meta c of Some m \<Rightarrow> stringify (JObj m) | None \<Rightarrow> [])) = Inr (cc_source_meta c)"
    using meta by (auto simp: parse_source_meta_def normalize_optional_string_def [of "Some []"] trim_Nil split: option.splits)
  have au: "normalize_optional_string (Option.bind (map_option (\<lambda>(i, h, d). \<lparr>wa_id = Some i, wa_handle = Some h, wa_display_name = Some d\<rparr>)
        (map_option (\<lambda>a. (default [] (ca_id a), default [] (ca_handle a), default [] (ca_display_name a))) (cc_author c))) f)
      = Option.bind (cc_author c) g"
    if "\<And>a. f \<lparr>wa_id = Some (default [] (ca_id a)), wa_handle = Some (default [] (ca_handle a)),
        wa_display_name = Some (default [] (ca_display_name a))\<rparr> = Some (default [] (g a))"
      and "normalize_optional_string (Option.bind (cc_author c) g) = Option.bind (cc_author c) g" for f g
  proof (cases "cc_author c")
    case (Some a)
    with that show ?thesis by (simp add: normalize_optional_string_default)
  qed (simp add: normalize_optional_string_def)
  note aus = normal_author [OF parts(5)]
  have ex: "default [] (map_option fst (map_option (\<lambda>x. (default [] (xe_hashtags x), default [] (xe_urls x))) x)) =
      default [] (Option.bind x xe_hashtags)"
    "default [] (map_option snd (map_option (\<lambda>x. (default [] (xe_hashtags x), default [] (xe_urls x))) x)) =
      default [] (Option.bind x xe_urls)" for x
    by (cases x; simp add: default_def)+
  let ?we = "\<lambda>e. \<lparr>we_score = Some (pe_score e), we_comments = Some (pe_comments e), we_likes = Some (pe_likes e),
      we_shares = Some (pe_shares e)\<rparr>"
  let ?pe = "\<lambda>e. \<lparr>pe_score = default 0 (en_score e), pe_comments = default 0 (en_comments e),
      pe_likes = default 0 (en_likes e), pe_shares = default 0 (en_shares e)\<rparr>"
  have en: "Option.bind (map_option ?we (map_option ?pe x)) we_score = map_option (\<lambda>e. default 0 (en_score e)) x"
    "Option.bind (map_option ?we (map_option ?pe x)) we_comments = map_option (\<lambda>e. default 0 (en_comments e)) x"
    "Option.bind (map_option ?we (map_option ?pe x)) we_likes = map_option (\<lambda>e. default 0 (en_likes e)) x"
    "Option.bind (map_option ?we (map_option ?pe x)) we_shares = map_option (\<lambda>e. default 0 (en_shares e)) x" for x
    by (cases x; simp)+
  have pf: "pp_event_id p = cc_event_id c" "pp_fetched_at p = cc_fetched_at c" "pp_text p = cc_text c"
    "pp_published_at p = default [] (cc_published_at c)" "pp_url p = default [] (cc_url c)"
    "pp_title p = default [] (cc_title c)" "pp_lang p = default [] (cc_lang c)" "pp_tags p = default [] (cc_tags c)"
    "pp_author p = map_option (\<lambda>a. (default [] (ca_id a), default [] (ca_handle a), default [] (ca_display_name a))) (cc_author c)"
    "pp_engagement p = map_option ?pe (cc_engagement c)"
    "pp_extracted p = map_option (\<lambda>x. (default [] (xe_hashtags x), default [] (xe_urls x))) (cc_extracted c)"
    "pp_source_meta_json p = (case cc_source_meta c of Some m \<Rightarrow> stringify (JObj m) | None \<Rightarrow> [])"
    using payload c(1) by (auto simp: to_collector_publication_payload_def)
  show ?thesis
    unfolding schema_of_payload [OF p(2-5)] deserialize_raw_event_def
    using pub by (simp add: c(2) parse_canonical_source_def n ebind_ret parse_date_def [of ps _ "''fetched_at''"] fetched pf
        sm aus au ex en parts normalize_optional_string_default del: option.map_comp split: if_splits)
qed

text \<open>What a collector reports of itself is what the trends service reads.\<close>

lemma heartbeat_is_read:
  assumes "parse_canonical_source (SourceString (hb_source hb)) = Inr (Canonical s)"
    and "date_value ps (hb_timestamp hb) = Some ts" and "date_value ps (hb_last_fetch_at hb) = Some lf"
  shows "\<exists>j. heartbeat_json hb = Inr j \<and> parse_collector_heartbeat_record ps j = Inr
    \<lparr>chs_source = Canonical s, chs_status = hb_status hb, chs_timestamp = ts, chs_last_fetch_at = lf,
     chs_items_fetched = int (hb_items_fetched hb),
     chs_error_message = (case hb_error_message hb of Some m \<Rightarrow> if trim m = [] then None else Some m | None \<Rightarrow> None)\<rparr>"
proof -
  obtain n where n: "map_of source_key_to_enum s = Some n" "parse_source_number n = Inr (Canonical s)"
    using source_number_parsed by blast
  have st: "parse_collector_status (Some (JNum (of_int (status_to_proto st)))) = Inr st" for st
    by (cases st) (simp_all add: parse_collector_status_def parse_collector_status_by_number_def
        collector_status_by_number_def)
  have src: "parse_collector_source (Some (JNum (of_int n))) = Inr (Canonical s)"
    using n(2) by (simp add: parse_collector_source_def parse_canonical_source_def)
  have items: "parse_non_negative_integer (Some (JNum (of_nat k))) 0 = int k" for k
    by (simp add: parse_non_negative_integer_def)
  show ?thesis
    using assms n(1)
    by (auto simp: heartbeat_json_def source_to_proto_enum_def parse_collector_heartbeat_record_def ebind_ret src st items
        parse_iso_date_def trim_Nil split: option.splits)
qed

definition demo_content :: content_input where
  "demo_content =
     \<lparr>ci_event_id = '' hn:1 '', ci_source = SourceString ''hackernews'', ci_fetched_at = ''2026-01-01'',
      ci_published_at = None, ci_url = Some ''  '', ci_title = Some '' A title'', ci_text = ''Text'',
      ci_author = Some \<lparr>ca_id = None, ca_handle = Some ''bob '', ca_display_name = Some '' ''\<rparr>,
      ci_engagement = Some \<lparr>ei_score = Some (FiniteNumber 7), ei_comments = None, ei_likes = Some NotFiniteNumber, ei_shares = None\<rparr>,
      ci_lang = None, ci_tags = Some [Some ''ai'', None, Some '' ai ''], ci_extracted = None, ci_source_meta = Some []\<rparr>"

text \<open>
  C20. Content that has been created with a known source is in normal form: making an event of it and content of that
  event again gives it back. The message that is published for it is read by the other services as an event with the
  same identity, source, times, texts, author, tags and meta data; of the engagement a missing number is read as zero.
\<close>

theorem published_content_is_read:
  assumes c: "create_collected_content inp = Inr c" "cc_source c = Canonical s"
    and ne: "cc_event_id c \<noteq> []" "cc_fetched_at c \<noteq> []" "cc_text c \<noteq> []"
    and fetched: "date_value ps (cc_fetched_at c) = Some fetched"
    and published: "case cc_published_at c of None \<Rightarrow> published = None | Some t \<Rightarrow> date_value ps t = published \<and> published \<noteq> None"
    and meta: "\<And>m. cc_source_meta c = Some m \<Longrightarrow> json_meta ps (stringify (JObj m)) = Some (JsonObject m) \<and>
      normalize_optional_string (Some (stringify (JObj m))) = Some (stringify (JObj m))"
    and payload: "to_collector_publication_payload stringify c = Inr p"
    and parse: "json_parse (stringify (json_of_payload p)) = Some (json_of_payload p)"
  shows "\<exists>e bytes. to_raw_event c = Inr e \<and> to_collected_content e = Inr c \<and> serialize_raw_event stringify e = Inr bytes \<and>
    deserialize_raw_event ps (Option.bind (json_parse bytes) raw_event_wire_schema) = Inr
    \<lparr>event_id = cc_event_id c, event_source = cc_source c, fetched_at = fetched, published_at = published,
     event_url = cc_url c, title = cc_title c, event_text = cc_text c,
     author_id = Option.bind (cc_author c) ca_id, author_handle = Option.bind (cc_author c) ca_handle,
     author_display_name = Option.bind (cc_author c) ca_display_name,
     engagement_score = map_option (\<lambda>e. default 0 (en_score e)) (cc_engagement c),
     engagement_comments = map_option (\<lambda>e. default 0 (en_comments e)) (cc_engagement c),
     engagement_likes = map_option (\<lambda>e. default 0 (en_likes e)) (cc_engagement c),
     engagement_shares = map_option (\<lambda>e. default 0 (en_shares e)) (cc_engagement c),
     lang = cc_lang c, tags = default [] (cc_tags c),
     extracted_hashtags = default [] (Option.bind (cc_extracted c) xe_hashtags),
     extracted_urls = default [] (Option.bind (cc_extracted c) xe_urls),
     source_meta = cc_source_meta c\<rparr>"
proof -
  have n: "normalize_collected_content c = Inr c" by (rule created_content_normal [OF c])
  then obtain e where e: "to_raw_event c = Inr e" by (simp add: to_raw_event_def)
  have rt: "to_collected_content e = Inr c" by (rule raw_event_normal [OF n e])
  have "serialize_raw_event stringify e = Inr (stringify (json_of_payload p))"
    using rt payload by (simp add: serialize_raw_event_def serialize_collected_content_def)
  with e rt show ?thesis
    using deserialized_payload [OF n c(2) ne fetched published meta payload] parse by auto
qed

lemma published_content_is_read_witness:
  "\<exists>c e. create_collected_content demo_content = Inr c \<and> to_raw_event c = Inr e \<and> to_collected_content e = Inr c \<and>
    serialize_raw_event (\<lambda>j. if j = JObj [] then ''{}'' else ''{event}'') e = Inr ''{event}''"
proof -
  let ?str = "\<lambda>j. if j = JObj [] then ''{}'' else ''{event}''"
  let ?ps = "\<lparr>date_value = \<lambda>t. Some 0, json_meta = \<lambda>t. Some (JsonObject [])\<rparr> :: json_object parsers"
  have src: "parse_canonical_source (SourceString ''hackernews'') = Inr (Canonical Hackernews)" by code_simp
  obtain c where c: "create_collected_content demo_content = Inr c" "cc_source c = Canonical Hackernews"
    "cc_event_id c = ''hn:1''" "cc_fetched_at c = ''2026-01-01''" "cc_text c = ''Text''" "cc_published_at c = None"
    "cc_source_meta c = Some []"
    using src by (auto simp: create_collected_content_def demo_content_def normalize_raw_event_source_def
        trim_def trim_start_def trim_end_def is_ws_def normalize_optional_string_def)
  obtain p where p: "to_collector_publication_payload ?str c = Inr p" "json_of_payload p \<noteq> JObj []"
    using created_content_normal [OF c(1,2)]
    by (auto simp: to_collector_publication_payload_def json_of_payload_def payload_members_def)
  have blank: "normalize_optional_string (Some ''{}'') = Some ''{}''" by code_simp
  from published_content_is_read [of demo_content c Hackernews ?ps 0 None ?str p "\<lambda>b. Some (json_of_payload p)"] c p blank
  show ?thesis
    by (auto simp: serialize_raw_event_def serialize_collected_content_def)
qed

end
