(* ===== verification/Checkpoints.thy ===== *)
theory Checkpoints
  imports JsBase
begin

section \<open>The store of checkpoints and seen events (apps/collector/src/checkpoint.ts)\<close>

text \<open>
  Two tables of an SQLite database behind a connection. A row is found by its primary key, so a table is a map;
  \<open>datetime('now')\<close> has a resolution of a second and its texts are ordered as the times are. What a modifier of
  \<open>datetime\<close> such as \<open>-7 days\<close> adds, in seconds, is an argument; with one that SQLite does not know the comparison
  is never true. Opening the file is not modelled.
\<close>

subsection \<open>Operations\<close>

datatype store_error = AlreadyInitialized | NotInitialized

record checkpoint_store =
  st_connected :: bool
  st_checkpoints :: "(string \<times> string, string \<times> int) omap"
  st_seen :: "(string \<times> string, int) omap"

type_synonym 'a store_eff = "(checkpoint_store, store_error, 'a) eff"

definition sqlite_now :: "int \<Rightarrow> int" where
  "sqlite_now now = now div 1000"

definition store_initialize :: "unit store_eff" where
  "store_initialize st = (if st_connected st then (Inl AlreadyInitialized, st) else (Inr (), st\<lparr>st_connected := True\<rparr>))"

definition get_connection :: "unit store_eff" where
  "get_connection st = (if st_connected st then (Inr (), st) else (Inl NotInitialized, st))"

definition get_checkpoint :: "string \<Rightarrow> string \<Rightarrow> string option store_eff" where
  "get_checkpoint src k =
     eff_bind get_connection (\<lambda>_ st. (Inr (map_option fst (map_of (st_checkpoints st) (src, k))), st))"

definition set_checkpoint :: "int \<Rightarrow> string \<Rightarrow> string \<Rightarrow> string \<Rightarrow> unit store_eff" where
  "set_checkpoint now src k v =
     eff_bind get_connection (\<lambda>_. eff_upd (\<lambda>st.
       st\<lparr>st_checkpoints := om_set (st_checkpoints st) (src, k) (v, sqlite_now now)\<rparr>))"

definition has_seen :: "string \<Rightarrow> string \<Rightarrow> bool store_eff" where
  "has_seen src i = eff_bind get_connection (\<lambda>_ st. (Inr (om_has (st_seen st) (src, i)), st))"

text \<open>\<open>INSERT OR IGNORE\<close>: an event that is present keeps its time.\<close>

definition mark_seen :: "int \<Rightarrow> string \<Rightarrow> string \<Rightarrow> unit store_eff" where
  "mark_seen now src i =
     eff_bind get_connection (\<lambda>_. eff_upd (\<lambda>st.
       if om_has (st_seen st) (src, i) then st
       else st\<lparr>st_seen := om_set (st_seen st) (src, i) (sqlite_now now)\<rparr>))"

definition is_older :: "(string \<Rightarrow> int option) \<Rightarrow> int \<Rightarrow> string \<Rightarrow> int \<Rightarrow> bool" where
  "is_older modifier now older_than t =
     (case modifier older_than of None \<Rightarrow> False | Some d \<Rightarrow> t < sqlite_now now + d)"

definition cleanup_seen :: "(string \<Rightarrow> int option) \<Rightarrow> int \<Rightarrow> string \<Rightarrow> nat store_eff" where
  "cleanup_seen modifier now older_than =
     eff_bind get_connection (\<lambda>_ st.
       (Inr (length (filter (\<lambda>e. is_older modifier now older_than (snd e)) (st_seen st))),
        st\<lparr>st_seen := filter (\<lambda>e. \<not> is_older modifier now older_than (snd e)) (st_seen st)\<rparr>))"

definition store_close :: "unit store_eff" where
  "store_close st = (Inr (), st\<lparr>st_connected := False\<rparr>)"

subsection \<open>Lemmas\<close>

definition store_ok :: "checkpoint_store \<Rightarrow> bool" where
  "store_ok st \<longleftrightarrow> om_ok (st_checkpoints st) \<and> om_ok (st_seen st)"

definition seen_at :: "checkpoint_store \<Rightarrow> string \<Rightarrow> string \<Rightarrow> int option" where
  "seen_at st src i = map_of (st_seen st) (src, i)"

definition checkpoint_of :: "checkpoint_store \<Rightarrow> string \<Rightarrow> string \<Rightarrow> string option" where
  "checkpoint_of st src k = map_option fst (map_of (st_checkpoints st) (src, k))"

lemma map_of_filter_value:
  "om_ok m \<Longrightarrow> map_of (filter (\<lambda>e. P (snd e)) m) k = (case map_of m k of Some v \<Rightarrow> if P v then Some v else None | None \<Rightarrow> None)"
proof (induction m)
  case (Cons e m)
  obtain k' v' where e: "e = (k', v')" by fastforce
  have "map_of m k' = None" using Cons.prems e by (simp add: map_of_eq_None_iff)
  then show ?case using Cons e by auto
qed simp

text \<open>The calls of the store, one after the other, with the answers they give.\<close>

datatype store_op =
    Initialize
  | GetCheckpoint string string
  | SetCheckpoint int string string string
  | HasSeen string string
  | MarkSeen int string string
  | CleanupSeen int string
  | Close

datatype store_answer = Done | Failed store_error | Value "string option" | Seen bool | Deleted nat

definition answered :: "('a \<Rightarrow> store_answer) \<Rightarrow> (store_error + 'a) \<times> checkpoint_store \<Rightarrow> store_answer \<times> checkpoint_store" where
  "answered f r = (case fst r of Inl e \<Rightarrow> Failed e | Inr a \<Rightarrow> f a, snd r)"

fun store_call :: "(string \<Rightarrow> int option) \<Rightarrow> store_op \<Rightarrow> checkpoint_store \<Rightarrow> store_answer \<times> checkpoint_store" where
  "store_call modifier Initialize st = answered (\<lambda>_. Done) (store_initialize st)"
| "store_call modifier (GetCheckpoint src k) st = answered Value (get_checkpoint src k st)"
| "store_call modifier (SetCheckpoint now src k v) st = answered (\<lambda>_. Done) (set_checkpoint now src k v st)"
| "store_call modifier (HasSeen src i) st = answered Seen (has_seen src i st)"
| "store_call modifier (MarkSeen now src i) st = answered (\<lambda>_. Done) (mark_seen now src i st)"
| "store_call modifier (CleanupSeen now older) st = answered Deleted (cleanup_seen modifier now older st)"
| "store_call modifier Close st = answered (\<lambda>_. Done) (store_close st)"

primrec store_calls :: "(string \<Rightarrow> int option) \<Rightarrow> store_op list \<Rightarrow> checkpoint_store \<Rightarrow> store_answer list \<times> checkpoint_store" where
  "store_calls modifier [] st = ([], st)"
| "store_calls modifier (c # cs) st =
     (let (a, st') = store_call modifier c st; (as, st'') = store_calls modifier cs st' in (a # as, st''))"

text \<open>The promise of the store: what it knows of the past, as functions, and what every call does to it.\<close>

record past =
  pa_connected :: bool
  pa_checkpoint :: "string \<Rightarrow> string \<Rightarrow> string option"
  pa_seen :: "string \<Rightarrow> string \<Rightarrow> int option"

definition past_of :: "checkpoint_store \<Rightarrow> past" where
  "past_of st = \<lparr>pa_connected = st_connected st, pa_checkpoint = checkpoint_of st, pa_seen = seen_at st\<rparr>"

fun past_call :: "(string \<Rightarrow> int option) \<Rightarrow> store_op \<Rightarrow> past \<Rightarrow> past" where
  "past_call modifier Initialize p = p\<lparr>pa_connected := True\<rparr>"
| "past_call modifier Close p = p\<lparr>pa_connected := False\<rparr>"
| "past_call modifier (SetCheckpoint now src k v) p =
     (if pa_connected p then p\<lparr>pa_checkpoint := (pa_checkpoint p)(src := (pa_checkpoint p src)(k \<mapsto> v))\<rparr> else p)"
| "past_call modifier (MarkSeen now src i) p =
     (if pa_connected p \<and> pa_seen p src i = None
      then p\<lparr>pa_seen := (pa_seen p)(src := (pa_seen p src)(i \<mapsto> now div 1000))\<rparr> else p)"
| "past_call modifier (CleanupSeen now older) p =
     (if pa_connected p then p\<lparr>pa_seen := \<lambda>src i. case pa_seen p src i of
          Some t \<Rightarrow> (case modifier older of Some d \<Rightarrow> if t < now div 1000 + d then None else Some t | None \<Rightarrow> Some t)
        | None \<Rightarrow> None\<rparr> else p)"
| "past_call modifier _ p = p"

fun past_answer :: "store_op \<Rightarrow> past \<Rightarrow> store_answer \<Rightarrow> bool" where
  "past_answer Initialize p a \<longleftrightarrow> a = (if pa_connected p then Failed AlreadyInitialized else Done)"
| "past_answer Close p a \<longleftrightarrow> a = Done"
| "past_answer (GetCheckpoint src k) p a \<longleftrightarrow> a = (if pa_connected p then Value (pa_checkpoint p src k) else Failed NotInitialized)"
| "past_answer (HasSeen src i) p a \<longleftrightarrow> a = (if pa_connected p then Seen (pa_seen p src i \<noteq> None) else Failed NotInitialized)"
| "past_answer (CleanupSeen now older) p a \<longleftrightarrow> (if pa_connected p then (\<exists>n. a = Deleted n) else a = Failed NotInitialized)"
| "past_answer _ p a \<longleftrightarrow> a = (if pa_connected p then Done else Failed NotInitialized)"

lemmas store_defs = store_initialize_def get_connection_def get_checkpoint_def set_checkpoint_def has_seen_def mark_seen_def
  cleanup_seen_def store_close_def answered_def eff_defs

lemma store_call_ok: "store_ok st \<Longrightarrow> store_ok (snd (store_call modifier c st))"
  by (cases c) (auto simp: store_defs store_ok_def distinct_map_filter)

lemma seen_after_cleanup:
  assumes "om_ok m"
  shows "map_of (filter (\<lambda>e. \<not> is_older modifier now older (snd e)) m) k =
    (case map_of m k of Some t \<Rightarrow> (case modifier older of Some d \<Rightarrow> if t < now div 1000 + d then None else Some t | None \<Rightarrow> Some t)
     | None \<Rightarrow> None)"
  unfolding map_of_filter_value [OF assms, of "\<lambda>v. \<not> is_older modifier now older v"]
  by (simp add: is_older_def sqlite_now_def split: option.splits)

lemma store_call_refines:
  assumes "store_ok st"
  shows "past_of (snd (store_call modifier c st)) = past_call modifier c (past_of st) \<and>
    past_answer c (past_of st) (fst (store_call modifier c st))"
proof (cases c)
  case (CleanupSeen now older)
  have "om_ok (st_seen st)" using assms by (simp add: store_ok_def)
  note seen_after_cleanup [OF this]
  then show ?thesis using CleanupSeen
    by (simp add: store_defs past_of_def checkpoint_of_def seen_at_def fun_eq_iff)
qed (auto simp: store_defs past_of_def checkpoint_of_def seen_at_def js_map sqlite_now_def fun_eq_iff)

fun past_answers :: "(string \<Rightarrow> int option) \<Rightarrow> store_op list \<Rightarrow> past \<Rightarrow> store_answer list \<Rightarrow> bool" where
  "past_answers modifier [] p as \<longleftrightarrow> as = []"
| "past_answers modifier (c # cs) p [] \<longleftrightarrow> False"
| "past_answers modifier (c # cs) p (a # as) \<longleftrightarrow> past_answer c p a \<and> past_answers modifier cs (past_call modifier c p) as"

text \<open>
  C19. Whatever calls are made of the store, in whatever order, it answers as its promise says: a checkpoint is the
  last one that was set, an event is seen from the first time it was marked until it is cleaned up, which takes only
  events older than the given age; and no call but \<open>initialize\<close> and \<open>close\<close> has an effect without a connection.
\<close>

theorem store_refines_past:
  assumes "store_ok st"
  shows "past_answers modifier cs (past_of st) (fst (store_calls modifier cs st)) \<and>
    past_of (snd (store_calls modifier cs st)) = fold (past_call modifier) cs (past_of st) \<and>
    store_ok (snd (store_calls modifier cs st))"
  using assms
proof (induction cs arbitrary: st)
  case (Cons c cs)
  from Cons.IH [OF store_call_ok [OF Cons.prems, of modifier c]] store_call_refines [OF Cons.prems, of modifier c]
  show ?case by (auto split: prod.split)
qed simp

lemma store_refines_past_witness:
  "let st = \<lparr>st_connected = False, st_checkpoints = [], st_seen = []\<rparr>;
       cs = [MarkSeen 0 ''rss'' ''a'', Initialize, MarkSeen 5000 ''rss'' ''a'', MarkSeen 9000 ''rss'' ''a'',
             CleanupSeen 12000 ''-7'', HasSeen ''rss'' ''a'', CleanupSeen 13000 ''-7'', HasSeen ''rss'' ''a'']
   in past_answers (\<lambda>_. Some (- 7)) cs (past_of st)
        [Failed NotInitialized, Done, Done, Done, Deleted 0, Seen True, Deleted 1, Seen False]"
proof -
  let ?st = "\<lparr>st_connected = False, st_checkpoints = [], st_seen = []\<rparr>"
  let ?cs = "[MarkSeen 0 ''rss'' ''a'', Initialize, MarkSeen 5000 ''rss'' ''a'', MarkSeen 9000 ''rss'' ''a'',
             CleanupSeen 12000 ''-7'', HasSeen ''rss'' ''a'', CleanupSeen 13000 ''-7'', HasSeen ''rss'' ''a'']"
  have "store_ok ?st" by (simp add: store_ok_def)
  note r = store_refines_past [OF this, of "\<lambda>_. Some (- 7)" ?cs, THEN conjunct1]
  have "fst (store_calls (\<lambda>_. Some (- 7)) ?cs ?st) =
      [Failed NotInitialized, Done, Done, Done, Deleted 0, Seen True, Deleted 1, Seen False]"
    by (simp add: store_defs sqlite_now_def is_older_def Let_def)
  with r show ?thesis by (simp only: Let_def)
qed

end
