(* ===== verification/Ingestion.thy ===== *)
theory Ingestion
  imports Collected CollectorHealth Checkpoints Topics Lifecycle Backoff EffLogic
begin

section \<open>Ingestion of collected content (apps/collector/src: ingestion-pipeline.ts, collector-ingestion.ts, publishing-facade.ts)\<close>

text \<open>
  One collected event is checked against the events seen before, validated, given its topics, published and marked as
  seen; the steps run as a chain (\<^const>\<open>run_async_chain\<close>). The state is that of one adapter's loop: the store, the
  health, the backoff, the variables of a poll and the outside world \<open>'w\<close>. While a call to the outside is awaited
  the other adapters run, so such a call acts on the whole state.
\<close>

subsection \<open>State and environment\<close>

record 'w collector_state =
  cl_store :: checkpoint_store
  cl_health :: collector_health
  cl_backoff :: backoff_manager
  cl_shutdown :: bool
  cl_cleanup_at :: int
  cl_batch_count :: nat
  cl_last_checkpoint :: "(string \<times> string) option"
  cl_world :: 'w

datatype 'x collector_error =
    PipelineEnded
  | NextTwice string
  | InvalidTime int
  | ContentSource source_error
  | TopicsFault js_fault
  | StoreFailed store_error
  | NoStrategyMatched
  | Outside 'x

type_synonym ('w, 'x, 'a) ceff = "('w collector_state, 'x collector_error, 'a) eff"

text \<open>
  \<open>ce_sqlite\<close> is what a statement of the database does before it takes effect: it may throw. An error that is thrown is
  described for the classification of errors by a heap and a value; \<open>ce_error_text\<close> is its text.
\<close>

record ('w, 'x) collector_env =
  ce_send :: "('w collector_state, 'x collector_error, string) send"
  ce_sleep :: "int \<Rightarrow> 'w collector_state \<Rightarrow> 'w collector_state"
  ce_now :: "'w \<Rightarrow> int \<times> 'w"
  ce_random :: "'w \<Rightarrow> rat \<times> 'w"
  ce_random36 :: "'w \<Rightarrow> string \<times> 'w"
  ce_sqlite :: "('w, 'x, unit) eff"
  ce_modifier :: "string \<Rightarrow> int option"
  ce_stringify :: "json \<Rightarrow> string"
  ce_locale_compare :: locale_compare
  ce_error_value :: "'x collector_error \<Rightarrow> err_heap \<times> jval"
  ce_error_text :: "'x collector_error \<Rightarrow> string"

definition c_now :: "('w, 'x) collector_env \<Rightarrow> ('w, 'x, int) ceff" where
  "c_now env s = (case ce_now env (cl_world s) of (t, w) \<Rightarrow> (Inr t, s\<lparr>cl_world := w\<rparr>))"

definition c_random36 :: "('w, 'x) collector_env \<Rightarrow> ('w, 'x, string) ceff" where
  "c_random36 env s = (case ce_random36 env (cl_world s) of (t, w) \<Rightarrow> (Inr t, s\<lparr>cl_world := w\<rparr>))"

definition c_health :: "(collector_health \<Rightarrow> collector_health) \<Rightarrow> ('w, 'x, unit) ceff" where
  "c_health f = eff_upd (\<lambda>s. s\<lparr>cl_health := f (cl_health s)\<rparr>)"

definition c_sqlite :: "('w, 'x) collector_env \<Rightarrow> ('w, 'x, unit) ceff" where
  "c_sqlite env s = (case ce_sqlite env (cl_world s) of (r, w) \<Rightarrow> (map_sum Outside id r, s\<lparr>cl_world := w\<rparr>))"

definition on_store :: "('w, 'x) collector_env \<Rightarrow> 'a store_eff \<Rightarrow> ('w, 'x, 'a) ceff" where
  "on_store env m = eff_bind (c_sqlite env) (\<lambda>_ s.
     case m (cl_store s) of (r, st) \<Rightarrow> (map_sum StoreFailed id r, s\<lparr>cl_store := st\<rparr>))"

subsection \<open>Publishing\<close>

definition raw_events_topic :: string where "raw_events_topic = ''events.raw''"
definition dlq_topic :: string where "dlq_topic = ''events.raw.dlq''"
definition heartbeat_topic :: string where "heartbeat_topic = ''collector.heartbeat''"

definition publish_raw_event :: "('w, 'x) collector_env \<Rightarrow> raw_event \<Rightarrow> ('w, 'x, unit) ceff" where
  "publish_raw_event env =
     (let serialize = (\<lambda>e. map_sum ContentSource id (serialize_raw_event (ce_stringify env) e)) in
      keyed_topic_publish serialize
        \<lparr>po_send = ce_send env, po_topic = raw_events_topic, po_serialize = Some serialize\<rparr> re_event_id)"

definition publish_dead_letter_event :: "('w, 'x) collector_env \<Rightarrow> dead_letter_event \<Rightarrow> ('w, 'x, unit) ceff" where
  "publish_dead_letter_event env =
     (let serialize = (\<lambda>e. Inr (serialize_dead_letter_event (ce_stringify env) e)) in
      keyed_topic_publish serialize \<lparr>po_send = ce_send env, po_topic = dlq_topic, po_serialize = Some serialize\<rparr> dlq_id)"

definition publish_heartbeat :: "('w, 'x) collector_env \<Rightarrow> collector_heartbeat \<Rightarrow> ('w, 'x, unit) ceff" where
  "publish_heartbeat env =
     (let serialize = (\<lambda>h. map_sum ContentSource id (serialize_heartbeat (ce_stringify env) h)) in
      keyed_topic_publish serialize
        \<lparr>po_send = ce_send env, po_topic = heartbeat_topic, po_serialize = Some serialize\<rparr> hb_source)"

definition publish_accepted_event :: "('w, 'x) collector_env \<Rightarrow> collected_content \<Rightarrow> ('w, 'x, unit) ceff" where
  "publish_accepted_event env ev =
     eff_bind (eff_of (map_sum ContentSource id (ebind (normalize_collector_ingestion_event ev) to_raw_event)))
       (publish_raw_event env)"

definition publish_rejected_event :: "('w, 'x) collector_env \<Rightarrow> dead_letter_event \<Rightarrow> ('w, 'x, unit) ceff" where
  "publish_rejected_event env = publish_dead_letter_event env"

definition publish_source_heartbeat :: "('w, 'x) collector_env \<Rightarrow> collector_heartbeat \<Rightarrow> ('w, 'x, unit) ceff" where
  "publish_source_heartbeat env = publish_heartbeat env"

subsection \<open>The steps\<close>

datatype process_result = Ingested "string list" | DuplicateEvent | InvalidEvent string

record adapter_info =
  ai_name :: string
  ai_source :: string

record processing =
  pr_event :: collected_content
  pr_topics :: "string list"

definition merge_tags :: "string list option \<Rightarrow> string list \<Rightarrow> string list" where
  "merge_tags existing extracted =
     dedup_by id {} (filter (\<lambda>t. length t > 0) (map trim (default [] existing @ extracted)))"

definition is_non_blank :: "string \<Rightarrow> bool" where
  "is_non_blank v \<longleftrightarrow> length (trim v) > 0"

definition has_required_fields :: "collected_content \<Rightarrow> bool" where
  "has_required_fields ev \<longleftrightarrow> is_non_blank (cc_event_id ev) \<and> is_non_blank (cc_text ev)"

definition non_blank_text :: "json option \<Rightarrow> string option" where
  "non_blank_text v = (case v of Some (JStr s) \<Rightarrow> if trim s = [] then None else Some s | _ \<Rightarrow> None)"

definition parse_rss_feed_metadata :: "json_object option \<Rightarrow> (string \<times> string) option" where
  "parse_rss_feed_metadata meta =
     (case meta of
        None \<Rightarrow> None
      | Some m \<Rightarrow>
          Option.bind (non_blank_text (map_of m ''feed_name'')) (\<lambda>feed.
          Option.bind (non_blank_text (map_of m ''feed_url'')) (\<lambda>u. Some (feed, u))))"

definition record_parse_error_strategy :: "adapter_info \<Rightarrow> collected_content \<Rightarrow> collector_health \<Rightarrow> collector_health" where
  "record_parse_error_strategy ad ev = increment_events_failed (ai_source ad) ParseError 1"

definition record_rss_feed_error_strategy :: "adapter_info \<Rightarrow> collected_content \<Rightarrow> collector_health \<Rightarrow> collector_health" where
  "record_rss_feed_error_strategy ad ev h =
     (case parse_rss_feed_metadata (cc_source_meta ev) of
        None \<Rightarrow> h
      | Some (feed, u) \<Rightarrow> increment_rss_feed_error feed u ParseError 1 h)"

definition source_validation_failure_strategies ::
  "(string, (adapter_info \<Rightarrow> collected_content \<Rightarrow> collector_health \<Rightarrow> collector_health) list) omap" where
  "source_validation_failure_strategies = [(''rss'', [record_rss_feed_error_strategy])]"

definition handle_validation_failure :: "adapter_info \<Rightarrow> collected_content \<Rightarrow> collector_health \<Rightarrow> collector_health" where
  "handle_validation_failure ad ev h =
     foldl (\<lambda>h strategy. strategy ad ev h) h
       (record_parse_error_strategy # om_get [] source_validation_failure_strategies (ai_source ad))"

text \<open>A step returns a result, or goes on.\<close>

definition step_of :: "('s, 'e, 'r option) eff \<Rightarrow> 's \<Rightarrow> ('s, 'e, 'r) prog" where
  "step_of m s = (case m s of
       (Inl e, s') \<Rightarrow> Ret (Inl e) s'
     | (Inr (Some r), s') \<Rightarrow> Ret (Inr r) s'
     | (Inr None, s') \<Rightarrow> CallNext s' Ret)"

type_synonym ('w, 'x, 'a) peff = "(processing \<times> 'w collector_state, 'x collector_error, 'a) eff"

definition lift_p :: "('w, 'x, 'a) ceff \<Rightarrow> ('w, 'x, 'a) peff" where
  "lift_p m = (\<lambda>(p, s). case m s of (r, s') \<Rightarrow> (r, (p, s')))"

definition get_p :: "('w, 'x, processing) peff" where
  "get_p = (\<lambda>(p, s). (Inr p, (p, s)))"

definition upd_p :: "(processing \<Rightarrow> processing) \<Rightarrow> ('w, 'x, unit) peff" where
  "upd_p f = eff_upd (\<lambda>(p, s). (f p, s))"

definition deduplicate_step :: "('w, 'x) collector_env \<Rightarrow> adapter_info \<Rightarrow> ('w, 'x, process_result option) peff" where
  "deduplicate_step env ad =
     eff_bind get_p (\<lambda>p.
     eff_bind (lift_p (on_store env (has_seen (ai_source ad) (cc_event_id (pr_event p))))) (\<lambda>seen.
     eff_ret (if seen then Some DuplicateEvent else None)))"

definition validation_step :: "('w, 'x) collector_env \<Rightarrow> adapter_info \<Rightarrow> ('w, 'x, process_result option) peff" where
  "validation_step env ad =
     eff_bind get_p (\<lambda>p.
       let ev = pr_event p in
       if has_required_fields ev then eff_ret None
       else
         eff_bind (lift_p (c_now env)) (\<lambda>t1.
         eff_bind (lift_p (c_random36 env)) (\<lambda>rnd.
         eff_bind (lift_p (c_now env)) (\<lambda>t2.
         eff_bind (lift_p (publish_rejected_event env
           \<lparr>dlq_id = generate_dlq_id t1 rnd, occurred_at = to_iso_string t2, dlq_source = ai_name ad,
            error_code = ''VALIDATION_FAILED'', error_message = ''Missing required fields: event_id or text'',
            raw_reference = default (cc_event_id ev) (cc_url ev)\<rparr>)) (\<lambda>_.
         eff_bind (lift_p (c_health (handle_validation_failure ad ev))) (\<lambda>_.
         eff_ret (Some (InvalidEvent ''VALIDATION_FAILED''))))))))"

definition parse_declared_topics :: "json_object option \<Rightarrow> string list" where
  "parse_declared_topics meta =
     (case meta of
        None \<Rightarrow> []
      | Some m \<Rightarrow> (case map_of m ''feed_topics_declared'' of
            Some (JArr js) \<Rightarrow> List.map_filter (\<lambda>j. non_blank_text (Some j)) js
          | _ \<Rightarrow> []))"

definition merge_declared_topics :: "locale_compare \<Rightarrow> string list \<Rightarrow> string list \<Rightarrow> compiled_allowlist \<Rightarrow> string list" where
  "merge_declared_topics lc extracted declared al =
     (if length declared = 0 then extracted
      else
        let allowlist_keys = js_set (map key (topics al));
            existing_keys = js_set extracted;
            valid_declared = filter (\<lambda>t. t \<in> set allowlist_keys \<and> t \<notin> set (muted_topics al) \<and> t \<notin> set existing_keys) declared
        in if length valid_declared = 0 then extracted
           else
             let priority_map = foldl (\<lambda>m t. om_set m (key t) (priority t)) [] (topics al);
                 prio = om_get (default_priority al) priority_map
             in take (max_topics_per_event al)
                  (js_sort (\<lambda>a b. if prio b \<noteq> prio a then prio b - prio a else lc a b) (extracted @ valid_declared)))"

definition topic_extraction_step ::
  "('w, 'x) collector_env \<Rightarrow> compiled_allowlist \<Rightarrow> ('w, 'x, process_result option) peff" where
  "topic_extraction_step env al =
     eff_bind get_p (\<lambda>p.
       let ev = pr_event p in
       eff_bind (eff_of (map_sum TopicsFault id (extract_topics (ce_locale_compare env)
         \<lparr>ev_title = cc_title ev, ev_text = cc_text ev, ev_url = cc_url ev\<rparr> al))) (\<lambda>extracted.
       let ts = merge_declared_topics (ce_locale_compare env) extracted (parse_declared_topics (cc_source_meta ev)) al in
       eff_bind (upd_p (\<lambda>p. p\<lparr>pr_topics := ts, pr_event := ev\<lparr>cc_tags := Some (merge_tags (cc_tags ev) ts)\<rparr>\<rparr>)) (\<lambda>_.
       eff_bind (lift_p (c_health (\<lambda>h. foldl (\<lambda>h t. increment_topics_extracted t 1 h) h ts))) (\<lambda>_.
       eff_ret None))))"

definition publish_step :: "('w, 'x) collector_env \<Rightarrow> adapter_info \<Rightarrow> ('w, 'x, process_result option) peff" where
  "publish_step env ad =
     eff_bind get_p (\<lambda>p.
     eff_bind (lift_p (publish_accepted_event env (pr_event p))) (\<lambda>_.
     eff_bind (lift_p (c_now env)) (\<lambda>t1.
     eff_bind (lift_p (on_store env (mark_seen t1 (ai_source ad) (cc_event_id (pr_event p))))) (\<lambda>_.
     eff_bind (lift_p (c_health (increment_events_ingested (ai_source ad) 1))) (\<lambda>_.
     eff_bind (lift_p (c_now env)) (\<lambda>t2.
     eff_bind (lift_p (c_health (\<lambda>h. h\<lparr>kh_last_event_at := Some t2\<rparr>))) (\<lambda>_.
     eff_ret (Some (Ingested (pr_topics p))))))))))"

definition processing_steps ::
  "('w, 'x) collector_env \<Rightarrow> adapter_info \<Rightarrow> compiled_allowlist \<Rightarrow>
   (processing \<times> 'w collector_state, 'x collector_error, process_result) chain_step list" where
  "processing_steps env ad al =
     [(''deduplicate'', step_of (deduplicate_step env ad)),
      (''validate'', step_of (validation_step env ad)),
      (''extract-topics'', step_of (topic_extraction_step env al)),
      (''publish'', step_of (publish_step env ad))]"

text \<open>\<open>ingest\<close>, and \<open>execute\<close> of the processor.\<close>

definition ingest ::
  "('w, 'x) collector_env \<Rightarrow> adapter_info \<Rightarrow> compiled_allowlist \<Rightarrow> collected_content \<Rightarrow> ('w, 'x, process_result) ceff" where
  "ingest env ad al content =
     eff_bind (eff_of (map_sum ContentSource id (normalize_collector_ingestion_event content))) (\<lambda>ev s.
       case run_async_chain NextTwice (\<lambda>_. eff_throw PipelineEnded) (processing_steps env ad al) 0
           (\<lparr>pr_event = ev, pr_topics = []\<rparr>, s) of
         (r, (p, s')) \<Rightarrow> (r, s'))"

subsection \<open>The chain as one function\<close>

lemma run_async_chain_step:
  "run_async_chain d e ((n, step_of m) # sts) i =
     eff_bind m (\<lambda>r. case r of Some x \<Rightarrow> eff_ret x | None \<Rightarrow> run_async_chain d e sts (i + 1))"
  by (rule ext) (simp add: step_of_def eff_bind_def eff_ret_def split: prod.splits sum.splits option.splits)

definition reject :: "('w, 'x) collector_env \<Rightarrow> adapter_info \<Rightarrow> collected_content \<Rightarrow> ('w, 'x, process_result) ceff" where
  "reject env ad ev =
     eff_bind (c_now env) (\<lambda>t1.
     eff_bind (c_random36 env) (\<lambda>rnd.
     eff_bind (c_now env) (\<lambda>t2.
     eff_bind (publish_rejected_event env
       \<lparr>dlq_id = generate_dlq_id t1 rnd, occurred_at = to_iso_string t2, dlq_source = ai_name ad,
        error_code = ''VALIDATION_FAILED'', error_message = ''Missing required fields: event_id or text'',
        raw_reference = default (cc_event_id ev) (cc_url ev)\<rparr>) (\<lambda>_.
     eff_bind (c_health (handle_validation_failure ad ev)) (\<lambda>_.
     eff_ret (InvalidEvent ''VALIDATION_FAILED''))))))"

definition accept ::
  "('w, 'x) collector_env \<Rightarrow> adapter_info \<Rightarrow> collected_content \<Rightarrow> string list \<Rightarrow> ('w, 'x, process_result) ceff" where
  "accept env ad ev ts =
     eff_bind (publish_accepted_event env (ev\<lparr>cc_tags := Some (merge_tags (cc_tags ev) ts)\<rparr>)) (\<lambda>_.
     eff_bind (c_now env) (\<lambda>t1.
     eff_bind (on_store env (mark_seen t1 (ai_source ad) (cc_event_id ev))) (\<lambda>_.
     eff_bind (c_health (increment_events_ingested (ai_source ad) 1)) (\<lambda>_.
     eff_bind (c_now env) (\<lambda>t2.
     eff_bind (c_health (\<lambda>h. h\<lparr>kh_last_event_at := Some t2\<rparr>)) (\<lambda>_.
     eff_ret (Ingested ts)))))))"

definition topics_of :: "locale_compare \<Rightarrow> compiled_allowlist \<Rightarrow> collected_content \<Rightarrow> js_fault + string list" where
  "topics_of lc al ev =
     map_sum id (\<lambda>extracted. merge_declared_topics lc extracted (parse_declared_topics (cc_source_meta ev)) al)
       (extract_topics lc \<lparr>ev_title = cc_title ev, ev_text = cc_text ev, ev_url = cc_url ev\<rparr> al)"

definition ingest_event ::
  "('w, 'x) collector_env \<Rightarrow> adapter_info \<Rightarrow> compiled_allowlist \<Rightarrow> collected_content \<Rightarrow> ('w, 'x, process_result) ceff" where
  "ingest_event env ad al ev =
     eff_bind (on_store env (has_seen (ai_source ad) (cc_event_id ev))) (\<lambda>seen.
     if seen then eff_ret DuplicateEvent
     else if \<not> has_required_fields ev then reject env ad ev
     else
       eff_bind (eff_of (map_sum TopicsFault id (topics_of (ce_locale_compare env) al ev))) (\<lambda>ts.
       eff_bind (c_health (\<lambda>h. foldl (\<lambda>h t. increment_topics_extracted t 1 h) h ts)) (\<lambda>_.
       accept env ad ev ts)))"

definition without_p :: "('w, 'x, 'a) peff \<Rightarrow> processing \<Rightarrow> ('w, 'x, 'a) ceff" where
  "without_p m p s = (case m (p, s) of (r, (p', s')) \<Rightarrow> (r, s'))"

lemma eff_bind_assoc: "eff_bind (eff_bind m k) h = eff_bind m (\<lambda>a. eff_bind (k a) h)"
  by (rule ext) (simp add: eff_bind_def split: prod.splits sum.splits)

lemma without_p_simps:
  "without_p (eff_bind get_p k) p = without_p (k p) p"
  "without_p (eff_bind (lift_p m) k1) p = eff_bind m (\<lambda>a. without_p (k1 a) p)"
  "without_p (eff_bind (eff_of x) k2) p = eff_bind (eff_of x) (\<lambda>a. without_p (k2 a) p)"
  "without_p (eff_bind (upd_p f) k3) p = without_p (k3 ()) (f p)"
  "without_p (eff_ret a) p = eff_ret a"
  by (rule ext; simp add: without_p_def get_p_def lift_p_def upd_p_def eff_of_def eff_defs split: prod.splits sum.splits)+

lemma ingest_eq:
  "ingest env ad al content =
     eff_bind (eff_of (map_sum ContentSource id (normalize_collector_ingestion_event content))) (ingest_event env ad al)"
proof -
  have topics: "eff_bind (eff_of (map_sum TopicsFault id (topics_of lc al ev))) k =
      eff_bind (eff_of (map_sum TopicsFault id (extract_topics lc \<lparr>ev_title = cc_title ev, ev_text = cc_text ev, ev_url = cc_url ev\<rparr> al)))
        (\<lambda>x. k (merge_declared_topics lc x (parse_declared_topics (cc_source_meta ev)) al))"
    for lc ev and k :: "string list \<Rightarrow> ('w, 'x, process_result) ceff"
    by (rule ext; cases "extract_topics lc \<lparr>ev_title = cc_title ev, ev_text = cc_text ev, ev_url = cc_url ev\<rparr> al")
      (simp_all add: topics_of_def eff_of_def eff_bind_def)
  have steps: "without_p (run_async_chain NextTwice (\<lambda>_. eff_throw PipelineEnded) (processing_steps env ad al) 0)
      \<lparr>pr_event = ev, pr_topics = []\<rparr> = ingest_event env ad al ev" for ev
    unfolding processing_steps_def run_async_chain_step deduplicate_step_def validation_step_def topic_extraction_step_def
      publish_step_def ingest_event_def topics reject_def accept_def
    by (simp add: Let_def eff_bind_assoc without_p_simps if_distrib [of "\<lambda>m. eff_bind m k" for k]
        if_distrib [of "\<lambda>m. without_p m p" for p] if_distrib [of "case_option a b" for a b] cong: if_cong)
  have "(\<lambda>ev s. case run_async_chain NextTwice (\<lambda>_. eff_throw PipelineEnded) (processing_steps env ad al) 0
      (\<lparr>pr_event = ev, pr_topics = []\<rparr>, s) of (r, (p, s')) \<Rightarrow> (r, s')) = ingest_event env ad al"
    unfolding steps [symmetric] by (intro ext) (simp add: without_p_def)
  then show ?thesis by (simp add: ingest_def)
qed

subsection \<open>What an adapter relies on\<close>

text \<open>
  \<open>known\<close> is what has happened outside: Kafka has accepted a message, a site has answered that an item is no story. While
  a call is awaited the others may act: they send more, clean up the table of seen events, and write rows of their own, but
  leave the rows and the variables of this adapter.
\<close>

datatype fact = Sent string string string | NoStory int

definition seen_id :: "string \<Rightarrow> string \<Rightarrow> 'w collector_state \<Rightarrow> bool" where
  "seen_id src i s \<longleftrightarrow> seen_at (cl_store s) src i \<noteq> None"

definition own_kept :: "adapter_info \<Rightarrow> 'w collector_state \<Rightarrow> 'w collector_state \<Rightarrow> bool" where
  "own_kept ad s s' \<longleftrightarrow> (\<forall>k. checkpoint_of (cl_store s') (ai_name ad) k = checkpoint_of (cl_store s) (ai_name ad) k) \<and>
     cl_backoff s' = cl_backoff s \<and> cl_batch_count s' = cl_batch_count s \<and> cl_last_checkpoint s' = cl_last_checkpoint s"

definition others_act :: "adapter_info \<Rightarrow> ('w \<Rightarrow> fact set) \<Rightarrow> 'w collector_state \<Rightarrow> 'w collector_state \<Rightarrow> bool" where
  "others_act ad known s s' \<longleftrightarrow> known (cl_world s) \<subseteq> known (cl_world s') \<and>
     (\<forall>i. seen_id (ai_source ad) i s' \<longrightarrow> seen_id (ai_source ad) i s) \<and> own_kept ad s s'"

text \<open>What the ingestion of an event may do besides: mark events as seen that have been sent.\<close>

definition progress :: "adapter_info \<Rightarrow> ('w \<Rightarrow> fact set) \<Rightarrow> 'w collector_state \<Rightarrow> 'w collector_state \<Rightarrow> bool" where
  "progress ad known s s' \<longleftrightarrow> known (cl_world s) \<subseteq> known (cl_world s') \<and>
     (\<forall>i. seen_id (ai_source ad) i s' \<longrightarrow> seen_id (ai_source ad) i s \<or> (\<exists>v. Sent raw_events_topic i v \<in> known (cl_world s'))) \<and>
     own_kept ad s s'"

lemma own_kept_refl [simp]: "own_kept ad s s"
  by (simp add: own_kept_def)

lemma own_kept_trans: "own_kept ad s s' \<Longrightarrow> own_kept ad s' s'' \<Longrightarrow> own_kept ad s s''"
  by (simp add: own_kept_def)

lemma progress_refl [simp]: "progress ad known s s"
  by (simp add: progress_def)

lemma progress_trans: "progress ad known s s' \<Longrightarrow> progress ad known s' s'' \<Longrightarrow> progress ad known s s''"
  unfolding progress_def by (meson own_kept_trans subset_iff)

lemma others_progress: "others_act ad known s s' \<Longrightarrow> progress ad known s s'"
  by (simp add: others_act_def progress_def)

lemma others_sent: "others_act ad known s s' \<Longrightarrow> x \<in> known (cl_world s) \<Longrightarrow> x \<in> known (cl_world s')"
  by (auto simp: others_act_def)

lemma progress_sent: "progress ad known s s' \<Longrightarrow> x \<in> known (cl_world s) \<Longrightarrow> x \<in> known (cl_world s')"
  by (auto simp: progress_def)

text \<open>Only the world or the health has changed.\<close>

lemma progress_world: "known (cl_world s) \<subseteq> known w \<Longrightarrow> progress ad known s (s\<lparr>cl_world := w\<rparr>)"
  by (simp add: progress_def seen_id_def own_kept_def)

lemma progress_health [simp]: "progress ad known s (s\<lparr>cl_health := h\<rparr>)"
  by (simp add: progress_def seen_id_def own_kept_def)

text \<open>The message an event with its topics is published as.\<close>

definition published_bytes :: "(json \<Rightarrow> string) \<Rightarrow> collected_content \<Rightarrow> string list \<Rightarrow> source_error + string" where
  "published_bytes stringify ev ts =
     ebind (normalize_collector_ingestion_event (ev\<lparr>cc_tags := Some (merge_tags (cc_tags ev) ts)\<rparr>)) (\<lambda>n.
     ebind (to_raw_event n) (serialize_raw_event stringify))"

text \<open>A dead letter that refers to an event, by its URL or else its identity.\<close>

definition dead_letter_for ::
  "('w, 'x) collector_env \<Rightarrow> adapter_info \<Rightarrow> ('w \<Rightarrow> fact set) \<Rightarrow> collected_content \<Rightarrow> 'w collector_state \<Rightarrow> bool" where
  "dead_letter_for env ad known ev s \<longleftrightarrow> (\<exists>d. raw_reference d = default (cc_event_id ev) (cc_url ev) \<and> dlq_source d = ai_name ad \<and>
     Sent dlq_topic (dlq_id d) (serialize_dead_letter_event (ce_stringify env) d) \<in> known (cl_world s))"

text \<open>What has become of an event that has been ingested.\<close>

definition dealt_with ::
  "('w, 'x) collector_env \<Rightarrow> adapter_info \<Rightarrow> ('w \<Rightarrow> fact set) \<Rightarrow> compiled_allowlist \<Rightarrow> collected_content \<Rightarrow> process_result \<Rightarrow> 'w collector_state \<Rightarrow> bool" where
  "dealt_with env ad known al ev res s \<longleftrightarrow> (case res of
       DuplicateEvent \<Rightarrow> seen_id (ai_source ad) (cc_event_id ev) s
     | InvalidEvent _ \<Rightarrow> \<not> has_required_fields ev \<and> dead_letter_for env ad known ev s
     | Ingested ts \<Rightarrow> topics_of (ce_locale_compare env) al ev = Inr ts \<and>
         (\<exists>v. published_bytes (ce_stringify env) ev ts = Inr v \<and> Sent raw_events_topic (cc_event_id ev) v \<in> known (cl_world s)))"

locale collector_outside =
  fixes env :: "('w, 'x) collector_env" and ad :: adapter_info and known :: "'w \<Rightarrow> fact set"
  assumes send: "ce_send env t ms s = (r, s') \<Longrightarrow>
      others_act ad known s s' \<and> (r = Inr () \<longrightarrow> (\<forall>m \<in> set ms. Sent t (fst m) (snd m) \<in> known (cl_world s')))"
    and sleep: "others_act ad known s (ce_sleep env d s)"
    and now: "ce_now env w = (n, w') \<Longrightarrow> known w \<subseteq> known w'"
    and random: "ce_random env w = (q, w') \<Longrightarrow> known w \<subseteq> known w'"
    and random36: "ce_random36 env w = (u, w') \<Longrightarrow> known w \<subseteq> known w'"
    and sqlite: "ce_sqlite env w = (y, w') \<Longrightarrow> known w \<subseteq> known w'"
begin

definition keeps :: "('w, 'x, 'a) ceff \<Rightarrow> bool" where
  "keeps m \<longleftrightarrow> (\<forall>s. progress ad known s (snd (m s)))"

named_theorems keeps_rules \<open>effects that only make progress\<close>

lemma keepsD: "keeps m \<Longrightarrow> m s = (r, s') \<Longrightarrow> progress ad known s s'"
  by (metis keeps_def snd_conv)

lemma keeps_ret [keeps_rules]: "keeps (eff_ret a)"
  and keeps_throw [keeps_rules]: "keeps (eff_throw e)"
  and keeps_of [keeps_rules]: "keeps (eff_of v)"
  and keeps_health [keeps_rules]: "keeps (c_health f)"
  by (simp_all add: keeps_def eff_defs eff_of_def c_health_def)

lemma keeps_bind [keeps_rules]: "keeps m \<Longrightarrow> (\<And>a. keeps (k a)) \<Longrightarrow> keeps (eff_bind m k)"
  unfolding keeps_def eff_bind_def
  by (auto split: prod.split sum.split) (metis progress_trans snd_conv)+

lemma keeps_catch [keeps_rules]: "keeps m \<Longrightarrow> (\<And>e. keeps (h e)) \<Longrightarrow> keeps (eff_catch m h)"
  unfolding keeps_def eff_catch_def
  by (auto split: prod.split sum.split) (metis progress_trans snd_conv)+

lemma keeps_now [keeps_rules]: "keeps (c_now env)"
  unfolding keeps_def c_now_def by (auto simp del: subset_iff intro!: progress_world now split: prod.split)

lemma keeps_random36 [keeps_rules]: "keeps (c_random36 env)"
  unfolding keeps_def c_random36_def by (auto intro!: progress_world random36 split: prod.split)

lemma keeps_sqlite [keeps_rules]: "keeps (c_sqlite env)"
  unfolding keeps_def c_sqlite_def by (auto intro!: progress_world sqlite split: prod.split)

lemma keyed_publish:
  assumes "keyed_topic_publish srl \<lparr>po_send = ce_send env, po_topic = t, po_serialize = Some srl\<rparr> get_key p s = (r, s')"
  shows "others_act ad known s s' \<and> (r = Inr () \<longrightarrow> (\<exists>v. srl p = Inr v \<and> Sent t (get_key p) v \<in> known (cl_world s')))"
  using assms send [of t "[(get_key p, v)]" s r s' for v]
  by (cases "srl p") (auto simp: keyed_topic_publish_def topic_publish_def producer_publish_def eff_throw_def
      others_act_def)

lemma published_raw:
  assumes "publish_raw_event env e s = (r, s')"
  shows "others_act ad known s s' \<and> (r = Inr () \<longrightarrow>
    (\<exists>v. serialize_raw_event (ce_stringify env) e = Inr v \<and> Sent raw_events_topic (re_event_id e) v \<in> known (cl_world s')))"
  using keyed_publish [OF assms [unfolded publish_raw_event_def Let_def]]
  by (cases "serialize_raw_event (ce_stringify env) e") auto

lemma published_rejected:
  assumes "publish_rejected_event env d s = (r, s')"
  shows "others_act ad known s s' \<and>
    (r = Inr () \<longrightarrow> Sent dlq_topic (dlq_id d) (serialize_dead_letter_event (ce_stringify env) d) \<in> known (cl_world s'))"
  using keyed_publish [OF assms [unfolded publish_rejected_event_def publish_dead_letter_event_def Let_def]] by auto

lemma keeps_rejected [keeps_rules]: "keeps (publish_rejected_event env d)"
  unfolding keeps_def by (metis others_progress prod.collapse published_rejected)

lemma published_accepted:
  assumes "publish_accepted_event env ev s = (r, s')"
  shows "progress ad known s s' \<and> (r = Inr () \<longrightarrow>
    (\<exists>n e v. normalize_collector_ingestion_event ev = Inr n \<and> to_raw_event n = Inr e \<and>
       serialize_raw_event (ce_stringify env) e = Inr v \<and> Sent raw_events_topic (re_event_id e) v \<in> known (cl_world s')))"
proof (cases "ebind (normalize_collector_ingestion_event ev) to_raw_event")
  case (Inr e)
  then have "publish_raw_event env e s = (r, s')"
    using assms by (simp add: publish_accepted_event_def eff_of_def eff_bind_def del: ebind_Inr)
  from published_raw [OF this] Inr show ?thesis by (auto dest: others_progress)
qed (use assms in \<open>auto simp: publish_accepted_event_def eff_of_def eff_bind_def\<close>)

lemma keeps_accepted [keeps_rules]: "keeps (publish_accepted_event env ev)"
  unfolding keeps_def by (metis prod.collapse published_accepted)

lemma seen_answer:
  assumes "on_store env (has_seen src i) s = (r, s')"
  shows "progress ad known s s' \<and> (r = Inr b \<longrightarrow> b = seen_id src i s')"
proof -
  obtain y w where w: "ce_sqlite env (cl_world s) = (y, w)" by fastforce
  have "progress ad known s (s\<lparr>cl_world := w\<rparr>)" using sqlite [OF w] by (rule progress_world)
  with assms w show ?thesis
    by (auto simp: on_store_def c_sqlite_def has_seen_def get_connection_def eff_bind_def seen_id_def seen_at_def
        split: sum.splits if_splits)
qed

lemma keeps_has_seen [keeps_rules]: "keeps (on_store env (has_seen src i))"
  unfolding keeps_def by (metis prod.collapse seen_answer)

lemma marked:
  assumes "on_store env (mark_seen t (ai_source ad) i) s = (r, s')" and "Sent raw_events_topic i v \<in> known (cl_world s)"
  shows "progress ad known s s'"
proof -
  obtain y w where w: "ce_sqlite env (cl_world s) = (y, w)" by fastforce
  have "progress ad known s (s\<lparr>cl_world := w\<rparr>)" using sqlite [OF w] by (rule progress_world)
  moreover have "progress ad known (s\<lparr>cl_world := w\<rparr>) s'"
    using assms(1) w sqlite [OF w] assms(2)
    by (auto simp: on_store_def c_sqlite_def mark_seen_def get_connection_def eff_defs progress_def seen_id_def seen_at_def
        own_kept_def checkpoint_of_def js_map split: sum.splits if_splits)
  ultimately show ?thesis by (rule progress_trans)
qed

text \<open>Effects that make progress once an event has been sent.\<close>

definition keeps_when :: "string \<Rightarrow> string \<Rightarrow> ('w, 'x, 'a) ceff \<Rightarrow> bool" where
  "keeps_when i v m \<longleftrightarrow> (\<forall>s. Sent raw_events_topic i v \<in> known (cl_world s) \<longrightarrow> progress ad known s (snd (m s)))"

lemma keeps_when: "keeps m \<Longrightarrow> keeps_when i v m"
  by (simp add: keeps_def keeps_when_def)

lemma keeps_when_marked: "keeps_when i v (on_store env (mark_seen t (ai_source ad) i))"
  unfolding keeps_when_def by (metis marked prod.collapse)

lemma keeps_when_bind: "keeps_when i v m \<Longrightarrow> (\<And>a. keeps_when i v (k a)) \<Longrightarrow> keeps_when i v (eff_bind m k)"
  unfolding keeps_when_def eff_bind_def
  by (auto split: prod.split sum.split) (metis progress_sent progress_trans snd_conv)+

lemma accepted:
  assumes run: "accept env ad ev ts s = (r, s')" and norm: "trim (cc_event_id ev) = cc_event_id ev"
  shows "progress ad known s s' \<and> (\<forall>res. r = Inr res \<longrightarrow> res = Ingested ts \<and>
    (\<exists>v. published_bytes (ce_stringify env) ev ts = Inr v \<and> Sent raw_events_topic (cc_event_id ev) v \<in> known (cl_world s')))"
proof -
  let ?ev = "ev\<lparr>cc_tags := Some (merge_tags (cc_tags ev) ts)\<rparr>"
  define rest where "rest = eff_bind (c_now env) (\<lambda>t1.
     eff_bind (on_store env (mark_seen t1 (ai_source ad) (cc_event_id ev))) (\<lambda>_.
     eff_bind (c_health (increment_events_ingested (ai_source ad) 1)) (\<lambda>_.
     eff_bind (c_now env) (\<lambda>t2.
     eff_bind (c_health (\<lambda>h. h\<lparr>kh_last_event_at := Some t2\<rparr>)) (\<lambda>_.
     eff_ret (Ingested ts) :: ('w, 'x, process_result) ceff)))))"
  have run': "eff_bind (publish_accepted_event env ?ev) (\<lambda>_. rest) s = (r, s')"
    using run by (simp add: accept_def rest_def)
  have rest: "keeps_when (cc_event_id ev) v rest" for v
    unfolding rest_def by (intro keeps_when_bind keeps_when_marked keeps_when keeps_rules)
  have res: "res = Ingested ts" if "rest s1 = (Inr res, s2)" for res s1 s2
    using that by (auto simp: rest_def eff_bind_Inr_iff eff_ret_def)
  show ?thesis
  proof (cases "publish_accepted_event env ?ev s")
    case (Pair p s1)
    note pub = published_accepted [OF Pair]
    show ?thesis
    proof (cases p)
      case (Inl e)
      with run' Pair pub show ?thesis by (auto simp: eff_bind_simps)
    next
      case (Inr u)
      then obtain n e v where n: "normalize_collector_ingestion_event ?ev = Inr n" "to_raw_event n = Inr e"
        "serialize_raw_event (ce_stringify env) e = Inr v" "Sent raw_events_topic (re_event_id e) v \<in> known (cl_world s1)"
        using pub by auto
      have "re_event_id e = cc_event_id ev"
        using n(1,2) norm by (auto simp: normalize_collector_ingestion_event_def normalize_collected_content_def
            create_collected_content_def to_raw_event_def)
      moreover have run1: "rest s1 = (r, s')" using run' Pair Inr by (simp add: eff_bind_simps)
      ultimately have p1: "progress ad known s1 s'" using rest [of v] n(4) by (auto simp: keeps_when_def dest: spec [of _ s1])
      then show ?thesis
        using pub p1 n \<open>re_event_id e = cc_event_id ev\<close> run1 res progress_sent [OF p1]
        by (auto simp: published_bytes_def ebind_ret intro: progress_trans)
    qed
  qed
qed

lemma keeps_reject [keeps_rules]: "keeps (reject env ad ev)"
  unfolding reject_def by (intro keeps_rules)

lemma rejected:
  assumes "reject env ad ev s = (Inr res, s')"
  shows "\<exists>c. res = InvalidEvent c \<and> dead_letter_for env ad known ev s'"
proof -
  obtain d s1 s2 where d: "publish_rejected_event env d s1 = (Inr (), s2)"
    "(c_health (handle_validation_failure ad ev) :: ('w, 'x, unit) ceff) s2 = (Inr (), s')"
    "raw_reference d = default (cc_event_id ev) (cc_url ev)" "dlq_source d = ai_name ad"
    "res = InvalidEvent ''VALIDATION_FAILED''"
    using assms by (auto simp: reject_def eff_bind_Inr_iff eff_ret_def)
  have "progress ad known s2 s'" using keepsD [OF keeps_health d(2)] .
  then show ?thesis using d published_rejected [OF d(1)] unfolding dead_letter_for_def by (auto dest: progress_sent)
qed

lemma ingested_event:
  assumes run: "ingest_event env ad al ev s = (r, s')" and norm: "trim (cc_event_id ev) = cc_event_id ev"
  shows "progress ad known s s' \<and> (\<forall>res. r = Inr res \<longrightarrow> dealt_with env ad known al ev res s')"
proof (cases "on_store env (has_seen (ai_source ad) (cc_event_id ev)) s")
  case (Pair p s1)
  have p1: "progress ad known s s1" using seen_answer [OF Pair] by blast
  show ?thesis
  proof (cases p)
    case (Inl e)
    with run Pair p1 show ?thesis by (auto simp: ingest_event_def eff_bind_simps)
  next
    case (Inr b)
    then have b: "b = seen_id (ai_source ad) (cc_event_id ev) s1" using seen_answer [OF Pair] by blast
    consider (dup) b | (bad) "\<not> b" "\<not> has_required_fields ev" | (good) "\<not> b" "has_required_fields ev" by blast
    then show ?thesis
    proof cases
      case dup
      with run Pair Inr p1 b show ?thesis by (auto simp: ingest_event_def eff_bind_simps eff_ret_def dealt_with_def)
    next
      case bad
      with run Pair Inr have "reject env ad ev s1 = (r, s')" by (simp add: ingest_event_def eff_bind_simps)
      then show ?thesis using bad p1 keepsD [OF keeps_reject] rejected
        by (fastforce simp: dealt_with_def intro: progress_trans)
    next
      case good
      show ?thesis
      proof (cases "topics_of (ce_locale_compare env) al ev")
        case (Inl e)
        with good run Pair Inr p1 show ?thesis by (auto simp: ingest_event_def eff_bind_def eff_of_def)
      next
        case topics: (Inr ts)
        obtain u :: "'x collector_error + unit" and s2 where h: "c_health (\<lambda>h. foldl (\<lambda>h t. increment_topics_extracted t 1 h) h ts) s1 = (u, s2)" "u = Inr ()"
          by (simp add: c_health_def eff_upd_def)
        have p2: "progress ad known s1 s2" using keepsD [OF keeps_health h(1)] .
        have "accept env ad ev ts s2 = (r, s')"
          using good run Pair Inr topics h by (simp add: ingest_event_def eff_bind_def eff_of_def)
        from accepted [OF this norm] p1 p2 topics show ?thesis
          by (auto simp: dealt_with_def intro: progress_trans)
      qed
    qed
  qed
qed

lemma normal_event_id: "normalize_collector_ingestion_event c = Inr ev \<Longrightarrow> trim (cc_event_id ev) = cc_event_id ev"
  by (auto simp: normalize_collector_ingestion_event_def normalize_collected_content_def create_collected_content_def)

lemma ingested:
  assumes "ingest env ad al c s = (r, s')"
  shows "progress ad known s s' \<and>
    (\<forall>res. r = Inr res \<longrightarrow> (\<exists>ev. normalize_collector_ingestion_event c = Inr ev \<and> dealt_with env ad known al ev res s'))"
proof (cases "normalize_collector_ingestion_event c")
  case (Inl e)
  with assms show ?thesis by (auto simp: ingest_eq eff_bind_def eff_of_def)
next
  case (Inr ev)
  then have "ingest_event env ad al ev s = (r, s')" using assms by (simp add: ingest_eq eff_bind_def eff_of_def)
  from ingested_event [OF this normal_event_id [OF Inr]] Inr show ?thesis by blast
qed

lemma keeps_ingest [keeps_rules]: "keeps (ingest env ad al c)"
  unfolding keeps_def by (metis ingested prod.collapse)

end

subsection \<open>A broker and a clock\<close>

text \<open>
  A world is the list of what has happened in it: messages are accepted, nothing is slow and no statement fails.
\<close>

definition demo_send :: "(fact list collector_state, unit collector_error, string) send" where
  "demo_send t ms s = (Inr (), s\<lparr>cl_world := map (\<lambda>m. Sent t (fst m) (snd m)) ms @ cl_world s\<rparr>)"

definition demo_env :: "(fact list, unit) collector_env" where
  "demo_env =
     \<lparr>ce_send = demo_send, ce_sleep = (\<lambda>d s. s), ce_now = (\<lambda>w. (1000, w)), ce_random = (\<lambda>w. (0, w)),
      ce_random36 = (\<lambda>w. (''0.k3j5x9q2'', w)), ce_sqlite = (\<lambda>w. (Inr (), w)), ce_modifier = (\<lambda>_. Some (- 604800)),
      ce_stringify = (\<lambda>_. ''{}''), ce_locale_compare = code_unit_cmp, ce_error_value = (\<lambda>_. ([], JUndef)),
      ce_error_text = (\<lambda>_. ''error'')\<rparr>"

definition demo_state :: "fact list collector_state" where
  "demo_state =
     (let standard = \<lparr>o_base_delay_ms = None, o_max_delay_ms = None, o_jitter_factor = None\<rparr>
      in \<lparr>cl_store = \<lparr>st_connected = True, st_checkpoints = [], st_seen = []\<rparr>, cl_health = create_collector_health 0,
          cl_backoff = new_backoff_manager standard standard, cl_shutdown = False, cl_cleanup_at = 0, cl_batch_count = 0,
          cl_last_checkpoint = None, cl_world = []\<rparr>)"

definition demo_info :: adapter_info where
  "demo_info = \<lparr>ai_name = ''hackernews'', ai_source = ''hackernews''\<rparr>"

definition demo_allowlist :: compiled_allowlist where
  "demo_allowlist = \<lparr>topics = [], max_topics_per_event = 3, default_priority = 1, muted_topics = []\<rparr>"

lemma demo_others: "others_act ad set s (s\<lparr>cl_world := facts @ cl_world s\<rparr>)"
  by (auto simp: others_act_def own_kept_def seen_id_def)

lemma demo_others_refl: "others_act ad set s s"
  by (simp add: others_act_def)

interpretation demo_outside: collector_outside demo_env demo_info set
  by unfold_locales (auto simp: demo_env_def demo_send_def intro: demo_others demo_others_refl)

subsection \<open>Properties\<close>

text \<open>
  C6. An event whose ingestion ends without an error has been dealt with: a duplicate is in the table of seen events; an
  event without an identity or a text is in the dead letter queue; any other has been accepted by Kafka, under its
  identity and with the topics that the allowlist gives it. Whatever the outcome, messages are only added and an event
  is marked as seen only once its message has been accepted.
\<close>

theorem events_are_dealt_with:
  assumes "collector_outside env ad known" and "ingest env ad al c s = (r, s')"
  shows "progress ad known s s' \<and> (\<forall>res. r = Inr res \<longrightarrow>
    (\<exists>ev. normalize_collector_ingestion_event c = Inr ev \<and> dealt_with env ad known al ev res s'))"
  using assms by (rule collector_outside.ingested)

definition demo_blank :: collected_content where
  "demo_blank =
     \<lparr>cc_event_id = ''hn:5'', cc_source = Canonical Hackernews, cc_fetched_at = ''1970-01-01T00:00:01.000Z'',
      cc_published_at = None, cc_url = None, cc_title = Some ''a'', cc_text = '' '', cc_author = None, cc_engagement = None,
      cc_lang = None, cc_tags = None, cc_extracted = None, cc_source_meta = None\<rparr>"

lemma demo_ingest:
  "(case ingest demo_env demo_info demo_allowlist demo_blank demo_state of
      (r, s) \<Rightarrow> (if isl r then None else Some (projr r), cl_world s)) =
   (Some (InvalidEvent ''VALIDATION_FAILED''), [Sent ''events.raw.dlq'' ''dlq:1000:k3j5x9q2'' ''{}''])"
  by code_simp

lemma events_are_dealt_with_witness:
  "\<exists>ev s'. ingest demo_env demo_info demo_allowlist demo_blank demo_state = (Inr (InvalidEvent ''VALIDATION_FAILED''), s') \<and>
     normalize_collector_ingestion_event demo_blank = Inr ev \<and> dead_letter_for demo_env demo_info set ev s' \<and>
     progress demo_info set demo_state s'"
proof -
  obtain r s' where run: "ingest demo_env demo_info demo_allowlist demo_blank demo_state = (r, s')" by fastforce
  then have "r = Inr (InvalidEvent ''VALIDATION_FAILED'')" using demo_ingest by (cases r) auto
  with events_are_dealt_with [OF demo_outside.collector_outside_axioms run] run show ?thesis
    by (auto simp: dealt_with_def)
qed

end
