(* ===== verification/Collector.thy ===== *)
theory Collector
  imports Ingestion
begin

section \<open>The loop of an adapter (apps/collector/src: index.ts, adapter-error-policy.ts)\<close>

text \<open>
  An adapter is polled at an interval: what it yields is ingested, then its checkpoint, its health and a heartbeat are
  written; an error is reported and waited out. An asynchronous iterator is a function of its consumer, which takes a
  record and says whether the loop over the iterator goes on; an error of the consumer ends the iteration and is not
  seen by the iterator.
\<close>

subsection \<open>Errors\<close>

definition map_unknown_error_type :: "err_heap \<Rightarrow> jval \<Rightarrow> collector_error_type" where
  "map_unknown_error_type h e =
     (case get_error_message h e of
        None \<Rightarrow> ParseError
      | Some msg \<Rightarrow>
          if str_includes msg ''kafka'' then KafkaError
          else if str_includes msg ''auth'' \<or> str_includes msg ''unauthorized'' \<or>
            str_includes msg ''forbidden'' then AuthError
          else ParseError)"

definition c_wait :: "('w, 'x) collector_env \<Rightarrow> (rat \<Rightarrow> backoff_manager \<Rightarrow> int \<times> backoff_manager) \<Rightarrow> ('w, 'x, unit) ceff" where
  "c_wait env wait s =
     (case ce_random env (cl_world s) of (q, w) \<Rightarrow>
       (let (delay, _) = wait q (cl_backoff s);
            s' = ce_sleep env delay (s\<lparr>cl_world := w\<rparr>)
        in (Inr (), s'\<lparr>cl_backoff := snd (wait q (cl_backoff s'))\<rparr>)))"

record ('w, 'x) error_strategy =
  es_name :: string
  es_matches :: "err_heap \<Rightarrow> jval \<Rightarrow> bool"
  es_handle :: "string \<Rightarrow> 'x collector_error \<Rightarrow> ('w, 'x, unit) ceff"

definition default_error_handling_strategies :: "('w, 'x) collector_env \<Rightarrow> ('w, 'x) error_strategy list" where
  "default_error_handling_strategies env =
     [\<lparr>es_name = ''rate-limit'', es_matches = is_rate_limit_error,
       es_handle = (\<lambda>src e.
         eff_bind (c_health (increment_events_failed src RateLimitError 1)) (\<lambda>_.
         eff_bind (c_health (increment_rate_limit_backoff src 1)) (\<lambda>_. c_wait env wait_rate_limit)))\<rparr>,
      \<lparr>es_name = ''transient'', es_matches = is_transient_error,
       es_handle = (\<lambda>src e.
         eff_bind (c_health (increment_events_failed src NetworkError 1)) (\<lambda>_. c_wait env wait_transient))\<rparr>,
      \<lparr>es_name = ''fallback'', es_matches = (\<lambda>h e. True),
       es_handle = (\<lambda>src e.
         eff_bind (c_health (increment_events_failed src (case_prod map_unknown_error_type (ce_error_value env e)) 1)) (\<lambda>_.
         c_wait env wait_transient))\<rparr>]"

fun handle_adapter_error ::
  "('w, 'x) collector_env \<Rightarrow> ('w, 'x) error_strategy list \<Rightarrow> string \<Rightarrow> 'x collector_error \<Rightarrow> ('w, 'x, unit) ceff" where
  "handle_adapter_error env [] src e = eff_throw NoStrategyMatched"
| "handle_adapter_error env (st # sts) src e =
     (if case_prod (es_matches st) (ce_error_value env e) then es_handle st src e
      else handle_adapter_error env sts src e)"

subsection \<open>A poll\<close>

record ('w, 'x) adapter =
  ad_info :: adapter_info
  ad_poll_interval_ms :: int
  ad_fetch :: "(ingestion_record \<Rightarrow> ('w, 'x, bool) ceff) \<Rightarrow> ('w, 'x, unit) ceff"

definition shutdown_sleep_chunk_ms :: int where
  "shutdown_sleep_chunk_ms = 1000"

function sleep_until_next_poll :: "('w, 'x) collector_env \<Rightarrow> int \<Rightarrow> 'w collector_state \<Rightarrow> 'w collector_state" where
  "sleep_until_next_poll env remaining_ms s =
     (if remaining_ms > 0 \<and> \<not> cl_shutdown s then
        let wait_ms = min remaining_ms shutdown_sleep_chunk_ms
        in sleep_until_next_poll env (remaining_ms - wait_ms) (ce_sleep env wait_ms s)
      else s)"
  by pat_completeness auto
termination
  by (relation "measure (\<lambda>(env, remaining_ms, s). nat remaining_ms)") (auto simp: shutdown_sleep_chunk_ms_def)

declare sleep_until_next_poll.simps [simp del]

text \<open>The body of the loop over the records.\<close>

definition consume ::
  "('w, 'x) collector_env \<Rightarrow> adapter_info \<Rightarrow> compiled_allowlist \<Rightarrow> ingestion_record \<Rightarrow> ('w, 'x, bool) ceff" where
  "consume env ad al rec s =
     (if cl_shutdown s then (Inr False, s)
      else
        eff_bind (eff_upd (\<lambda>s. s\<lparr>cl_last_checkpoint := Some (ir_checkpoint_key rec, ir_checkpoint_value rec)\<rparr>)) (\<lambda>_.
        eff_bind (ingest env ad al (ir_content rec)) (\<lambda>res.
        eff_bind (case res of Ingested _ \<Rightarrow> eff_upd (\<lambda>s. s\<lparr>cl_batch_count := cl_batch_count s + 1\<rparr>) | _ \<Rightarrow> eff_ret ()) (\<lambda>_.
        eff_ret True))) s)"

definition c_get :: "('w collector_state \<Rightarrow> 'a) \<Rightarrow> ('w, 'x, 'a) ceff" where
  "c_get f s = (Inr (f s), s)"

definition set_source_health :: "string \<Rightarrow> source_health \<Rightarrow> collector_health \<Rightarrow> collector_health" where
  "set_source_health name h ctx = ctx\<lparr>kh_source_health := om_set (kh_source_health ctx) name h\<rparr>"

text \<open>The checkpoint of the last record, when there is one with a key and a value that are not empty.\<close>

definition save_checkpoint :: "('w, 'x) collector_env \<Rightarrow> adapter_info \<Rightarrow> ('w, 'x, unit) ceff" where
  "save_checkpoint env ad =
     eff_bind (c_get cl_last_checkpoint) (\<lambda>last.
     case last of
       None \<Rightarrow> eff_ret ()
     | Some (k, v) \<Rightarrow>
         if k \<noteq> [] \<and> v \<noteq> [] then
           eff_bind (c_now env) (\<lambda>t.
           eff_bind (on_store env (set_checkpoint t (ai_name ad) k v)) (\<lambda>_.
           c_health (increment_checkpoint_updated (ai_source ad) 1)))
         else eff_ret ())"

definition cleanup_when_due :: "('w, 'x) collector_env \<Rightarrow> ('w, 'x, unit) ceff" where
  "cleanup_when_due env =
     eff_bind (c_now env) (\<lambda>now.
     eff_bind (c_get cl_cleanup_at) (\<lambda>last.
     if now - last > 60 * 60 * 1000 then
       eff_bind (c_now env) (\<lambda>t.
       eff_bind (on_store env (cleanup_seen (ce_modifier env) t ''-7 days'')) (\<lambda>_.
       eff_upd (\<lambda>s. s\<lparr>cl_cleanup_at := now\<rparr>)))
     else eff_ret ()))"

definition report_healthy :: "('w, 'x) collector_env \<Rightarrow> adapter_info \<Rightarrow> int \<Rightarrow> ('w, 'x, unit) ceff" where
  "report_healthy env ad poll_start =
     eff_bind (c_get cl_batch_count) (\<lambda>n.
     eff_bind (c_now env) (\<lambda>t1.
     eff_bind (c_health (set_source_health (ai_name ad)
       \<lparr>sh_status = SourceHealthy, sh_last_poll_at = Some (to_iso_string t1), sh_items_fetched = Some n, sh_error_message = None\<rparr>)) (\<lambda>_.
     eff_bind (c_now env) (\<lambda>t2.
     eff_bind (c_health (observe_poll_duration (ai_source ad) (of_int (t2 - poll_start) / 1000))) (\<lambda>_.
     c_health (observe_poll_items_count (ai_source ad) n))))))"

definition send_healthy_heartbeat :: "('w, 'x) collector_env \<Rightarrow> adapter_info \<Rightarrow> ('w, 'x, unit) ceff" where
  "send_healthy_heartbeat env ad =
     eff_bind (c_get cl_batch_count) (\<lambda>n.
     eff_bind (c_now env) (\<lambda>t1.
     eff_bind (c_now env) (\<lambda>t2.
     publish_source_heartbeat env
       \<lparr>hb_source = ai_source ad, hb_timestamp = to_iso_string t1, hb_last_fetch_at = to_iso_string t2,
        hb_items_fetched = n, hb_status = CollectorHealthy, hb_error_message = None\<rparr>)))"

text \<open>The two parts of the body of the loop; the result says whether the loop goes on.\<close>

definition poll_once :: "('w, 'x) collector_env \<Rightarrow> ('w, 'x) adapter \<Rightarrow> compiled_allowlist \<Rightarrow> int \<Rightarrow> ('w, 'x, bool) ceff" where
  "poll_once env a al poll_start =
     (let ad = ad_info a in
      eff_bind (eff_upd (\<lambda>s. s\<lparr>cl_batch_count := 0, cl_last_checkpoint := None\<rparr>)) (\<lambda>_.
      eff_bind (ad_fetch a (consume env ad al)) (\<lambda>_.
      eff_bind (save_checkpoint env ad) (\<lambda>_.
      eff_bind (report_healthy env ad poll_start) (\<lambda>_.
      eff_bind (cleanup_when_due env) (\<lambda>_.
      eff_bind (send_healthy_heartbeat env ad) (\<lambda>_.
      eff_bind (eff_upd (\<lambda>s. s\<lparr>cl_backoff := backoff_reset (cl_backoff s)\<rparr>)) (\<lambda>_.
      eff_bind (c_get cl_shutdown) (\<lambda>stop.
      if stop then eff_ret False
      else eff_bind (eff_upd (sleep_until_next_poll env (ad_poll_interval_ms a))) (\<lambda>_. eff_ret True))))))))))"

definition poll_failed :: "('w, 'x) collector_env \<Rightarrow> ('w, 'x) adapter \<Rightarrow> 'x collector_error \<Rightarrow> ('w, 'x, bool) ceff" where
  "poll_failed env a e =
     (let ad = ad_info a; text = ce_error_text env e in
      eff_bind (c_get (\<lambda>s. Option.bind (map_of (kh_source_health (cl_health s)) (ai_name ad)) sh_last_poll_at)) (\<lambda>last.
      eff_bind (c_health (set_source_health (ai_name ad)
        \<lparr>sh_status = SourceFailed, sh_last_poll_at = last, sh_items_fetched = Some 0, sh_error_message = Some text\<rparr>)) (\<lambda>_.
      eff_bind (c_now env) (\<lambda>t1.
      eff_bind (case last of Some l \<Rightarrow> eff_ret l | None \<Rightarrow> eff_bind (c_now env) (\<lambda>t2. eff_ret (to_iso_string t2))) (\<lambda>last_fetch.
      eff_bind (eff_catch (publish_source_heartbeat env
        \<lparr>hb_source = ai_source ad, hb_timestamp = to_iso_string t1, hb_last_fetch_at = last_fetch,
         hb_items_fetched = 0, hb_status = CollectorError, hb_error_message = Some text\<rparr>) (\<lambda>_. eff_ret ())) (\<lambda>_.
      eff_bind (c_get cl_shutdown) (\<lambda>stop.
      if stop then eff_ret False
      else eff_bind (handle_adapter_error env (default_error_handling_strategies env) (ai_source ad) e) (\<lambda>_. eff_ret True))))))))"

definition poll_cycle :: "('w, 'x) collector_env \<Rightarrow> ('w, 'x) adapter \<Rightarrow> compiled_allowlist \<Rightarrow> ('w, 'x, bool) ceff" where
  "poll_cycle env a al =
     eff_bind (c_now env) (\<lambda>poll_start. eff_catch (poll_once env a al poll_start) (poll_failed env a))"

text \<open>\<open>runAdapter\<close> with at most the given number of turns; \<open>None\<close> when it has not ended by then.\<close>

fun run_adapter ::
  "nat \<Rightarrow> ('w, 'x) collector_env \<Rightarrow> ('w, 'x) adapter \<Rightarrow> compiled_allowlist \<Rightarrow> 'w collector_state \<Rightarrow>
   (('x collector_error + unit) option) \<times> 'w collector_state" where
  "run_adapter 0 env a al s = (if cl_shutdown s then (Some (Inr ()), s) else (None, s))"
| "run_adapter (Suc n) env a al s =
     (if cl_shutdown s then (Some (Inr ()), s)
      else case poll_cycle env a al s of
          (Inl e, s') \<Rightarrow> (Some (Inl e), s')
        | (Inr True, s') \<Rightarrow> run_adapter n env a al s'
        | (Inr False, s') \<Rightarrow> (Some (Inr ()), s'))"

subsection \<open>The wait between two polls\<close>

fun sleeps :: "('w, 'x) collector_env \<Rightarrow> int list \<Rightarrow> 'w collector_state \<Rightarrow> 'w collector_state" where
  "sleeps env [] s = s"
| "sleeps env (d # ds) s = sleeps env ds (ce_sleep env d s)"

lemma sleep_slices:
  "\<exists>ds. sleep_until_next_poll env r s = sleeps env ds s \<and> list_all (\<lambda>d. 0 < d \<and> d \<le> 1000) ds \<and>
     sum_list ds \<le> max 0 r \<and> (cl_shutdown (sleep_until_next_poll env r s) \<or> sum_list ds = max 0 r)"
proof (induction env r s rule: sleep_until_next_poll.induct)
  case (1 env r s)
  show ?case
  proof (cases "r > 0 \<and> \<not> cl_shutdown s")
    case True
    let ?d = "min r shutdown_sleep_chunk_ms"
    have eq: "sleep_until_next_poll env r s = sleep_until_next_poll env (r - ?d) (ce_sleep env ?d s)"
      using True by (subst sleep_until_next_poll.simps) (simp add: Let_def)
    from "1.IH" [OF True refl] obtain ds where ds: "sleep_until_next_poll env (r - ?d) (ce_sleep env ?d s) = sleeps env ds (ce_sleep env ?d s)"
      "list_all (\<lambda>d. 0 < d \<and> d \<le> 1000) ds" "sum_list ds \<le> max 0 (r - ?d)"
      "cl_shutdown (sleep_until_next_poll env (r - ?d) (ce_sleep env ?d s)) \<or> sum_list ds = max 0 (r - ?d)" by blast
    show ?thesis using True ds unfolding eq
      by (intro exI [of _ "?d # ds"]) (auto simp: shutdown_sleep_chunk_ms_def)
  next
    case False
    then have "sleep_until_next_poll env r s = s" by (subst sleep_until_next_poll.simps) auto
    with False show ?thesis by (intro exI [of _ "[]"]) auto
  qed
qed

subsection \<open>The loop\<close>

text \<open>What any number of polls may do: events are marked as seen only after they have been sent.\<close>

definition advance :: "adapter_info \<Rightarrow> ('w \<Rightarrow> fact set) \<Rightarrow> 'w collector_state \<Rightarrow> 'w collector_state \<Rightarrow> bool" where
  "advance ad known s s' \<longleftrightarrow> known (cl_world s) \<subseteq> known (cl_world s') \<and>
     (\<forall>i. seen_id (ai_source ad) i s' \<longrightarrow> seen_id (ai_source ad) i s \<or> (\<exists>v. Sent raw_events_topic i v \<in> known (cl_world s')))"

lemma advance_refl [simp]: "advance ad known s s"
  by (simp add: advance_def)

lemma advance_trans: "advance ad known s s' \<Longrightarrow> advance ad known s' s'' \<Longrightarrow> advance ad known s s''"
  unfolding advance_def by (meson subset_iff)

lemma progress_advance: "progress ad known s s' \<Longrightarrow> advance ad known s s'"
  by (simp add: progress_def advance_def)

lemma others_advance: "others_act ad known s s' \<Longrightarrow> advance ad known s s'"
  by (simp add: others_act_def advance_def)

text \<open>The variables of the loop and the health do not matter.\<close>

lemma advance_own:
  "known (cl_world s) \<subseteq> known (cl_world s') \<Longrightarrow> (\<And>i. seen_id (ai_source ad) i s' \<Longrightarrow> seen_id (ai_source ad) i s) \<Longrightarrow> advance ad known s s'"
  by (auto simp: advance_def)

text \<open>
  An adapter acts through its consumer and through calls that let the others act: every relation these steps stay in,
  a run of its iterator stays in.
\<close>

locale collector_adapter = collector_outside env "ad_info a" known
  for env :: "('w, 'x) collector_env" and a :: "('w, 'x) adapter" and known :: "'w \<Rightarrow> fact set" +
  assumes fetch: "(\<And>s s'. others_act (ad_info a) known s s' \<Longrightarrow> R s s') \<Longrightarrow> (\<And>s. R s s) \<Longrightarrow>
      (\<And>s s' s''. R s s' \<Longrightarrow> R s' s'' \<Longrightarrow> R s s'') \<Longrightarrow> (\<And>r s. R s (snd (emit r s))) \<Longrightarrow> R s (snd (ad_fetch a emit s))"
begin

definition advances :: "('w, 'x, 'a) ceff \<Rightarrow> bool" where
  "advances m \<longleftrightarrow> (\<forall>s. advance (ad_info a) known s (snd (m s)))"

named_theorems advance_rules \<open>effects of the loop\<close>

lemma advances_keeps: "keeps m \<Longrightarrow> advances m"
  by (simp add: keeps_def advances_def progress_advance)

lemmas advances_basic [advance_rules] = advances_keeps [OF keeps_ret] advances_keeps [OF keeps_throw]
  advances_keeps [OF keeps_health] advances_keeps [OF keeps_now] advances_keeps [OF keeps_ingest]

lemma advances_bind [advance_rules]: "advances m \<Longrightarrow> (\<And>x. advances (k x)) \<Longrightarrow> advances (eff_bind m k)"
  unfolding advances_def eff_bind_def
  by (auto split: prod.split sum.split) (metis advance_trans snd_conv)+

lemma advances_catch [advance_rules]: "advances m \<Longrightarrow> (\<And>e. advances (h e)) \<Longrightarrow> advances (eff_catch m h)"
  unfolding advances_def eff_catch_def
  by (auto split: prod.split sum.split) (metis advance_trans snd_conv)+

lemma advances_upd: "(\<And>s. cl_world (f s) = cl_world s \<and> cl_store (f s) = cl_store s) \<Longrightarrow> advances (eff_upd f)"
  unfolding advances_def eff_upd_def by (auto intro!: advance_own simp: seen_id_def)

lemma advances_get [advance_rules]: "advances (c_get f)"
  by (simp add: advances_def c_get_def)

lemma advances_store:
  assumes "\<And>st r st'. m st = (r, st') \<Longrightarrow> \<forall>i. seen_at st' (ai_source (ad_info a)) i \<noteq> None \<longrightarrow> seen_at st (ai_source (ad_info a)) i \<noteq> None"
  shows "advances (on_store env m)"
proof -
  have "advance (ad_info a) known s (s\<lparr>cl_store := snd (m (cl_store s))\<rparr>)" for s
    using assms [of "cl_store s" "fst (m (cl_store s))" "snd (m (cl_store s))"]
    by (intro advance_own) (auto simp: seen_id_def)
  then show ?thesis unfolding on_store_def
    by (intro advances_bind advances_keeps [OF keeps_sqlite]) (simp add: advances_def split_beta)
qed

lemma advances_checkpoint [advance_rules]: "advances (on_store env (set_checkpoint t n k v))"
  by (rule advances_store) (auto simp: set_checkpoint_def get_connection_def eff_defs seen_at_def split: if_splits)

lemma advances_cleanup [advance_rules]: "advances (on_store env (cleanup_seen f t o'))"
proof (rule advances_store)
  fix st r st' assume "cleanup_seen f t o' st = (r, st')"
  then have "set (st_seen st') \<subseteq> set (st_seen st)"
    by (auto simp: cleanup_seen_def get_connection_def eff_defs split: if_splits)
  then show "\<forall>i. seen_at st' (ai_source (ad_info a)) i \<noteq> None \<longrightarrow> seen_at st (ai_source (ad_info a)) i \<noteq> None"
    by (auto simp: seen_at_def weak_map_of_SomeI dest!: map_of_SomeD)
qed

lemma advances_heartbeat [advance_rules]: "advances (publish_source_heartbeat env h)"
proof -
  have "advance (ad_info a) known s (snd (publish_source_heartbeat env h s))" for s
    using keyed_publish [of _ heartbeat_topic hb_source h s]
    unfolding publish_source_heartbeat_def publish_heartbeat_def Let_def
    by (metis others_advance prod.collapse)
  then show ?thesis by (simp add: advances_def)
qed

lemma advances_wait [advance_rules]: "advances (c_wait env f)"
proof -
  have "advance (ad_info a) known s (snd (c_wait env f s))" for s
  proof -
    obtain q w where q: "ce_random env (cl_world s) = (q, w)" by fastforce
    let ?s1 = "s\<lparr>cl_world := w\<rparr>" and ?d = "fst (f q (cl_backoff s))"
    have "advance (ad_info a) known s ?s1" using random [OF q] by (intro advance_own) (auto simp: seen_id_def)
    moreover have "advance (ad_info a) known ?s1 (ce_sleep env ?d ?s1)" using sleep by (rule others_advance)
    moreover have "advance (ad_info a) known (ce_sleep env ?d ?s1) ((ce_sleep env ?d ?s1)\<lparr>cl_backoff := b\<rparr>)" for b
      by (intro advance_own) (auto simp: seen_id_def)
    ultimately show ?thesis
      by (auto simp: c_wait_def q Let_def split: prod.split intro: advance_trans)
  qed
  then show ?thesis by (simp add: advances_def)
qed

lemma advances_sleep [advance_rules]: "advances (eff_upd (sleep_until_next_poll env r))"
proof -
  have "advance (ad_info a) known s (sleeps env ds s)" for ds s
    by (induction ds arbitrary: s) (auto intro: advance_trans [OF others_advance [OF sleep]])
  then show ?thesis using sleep_slices [of env r] unfolding advances_def eff_upd_def
    by (metis snd_conv)
qed

lemma advances_consume [advance_rules]: "advances (consume env (ad_info a) al r)"
proof -
  have "advances (eff_bind (eff_upd (\<lambda>s. s\<lparr>cl_last_checkpoint := Some (ir_checkpoint_key r, ir_checkpoint_value r)\<rparr>)) (\<lambda>_.
      eff_bind (ingest env (ad_info a) al (ir_content r)) (\<lambda>res.
      eff_bind (case res of Ingested _ \<Rightarrow> eff_upd (\<lambda>s. s\<lparr>cl_batch_count := cl_batch_count s + 1\<rparr>) | _ \<Rightarrow> eff_ret ()) (\<lambda>_.
      eff_ret True))))"
    by (intro advance_rules advances_upd) (auto split: process_result.split intro!: advance_rules advances_upd)
  then show ?thesis by (simp add: advances_def consume_def)
qed

lemma advances_fetch [advance_rules]: "advances (ad_fetch a (consume env (ad_info a) al))"
  using fetch [of "advance (ad_info a) known" "consume env (ad_info a) al"] advances_consume [of al]
  by (auto simp: advances_def intro: others_advance advance_trans)

lemma advances_poll_once [advance_rules]: "advances (poll_once env a al t)"
  unfolding poll_once_def Let_def save_checkpoint_def report_healthy_def cleanup_when_due_def send_healthy_heartbeat_def
  by (intro advance_rules advances_upd) (auto split: option.split intro!: advance_rules advances_upd)

lemma advances_error [advance_rules]: "advances (handle_adapter_error env (default_error_handling_strategies env) src e)"
  by (simp add: default_error_handling_strategies_def) (auto intro!: advance_rules)

lemma advances_poll_failed [advance_rules]: "advances (poll_failed env a e)"
  unfolding poll_failed_def Let_def
  by (intro advance_rules) (auto split: option.split intro!: advance_rules)

lemma advances_poll_cycle: "advances (poll_cycle env a al)"
  unfolding poll_cycle_def by (intro advance_rules)

lemma run_advances: "run_adapter n env a al s = (r, s') \<Longrightarrow> advance (ad_info a) known s s'"
proof (induction n arbitrary: s)
  case (Suc n)
  show ?case
  proof (cases "cl_shutdown s")
    case False
    obtain x s1 where x: "poll_cycle env a al s = (x, s1)" by fastforce
    have "advance (ad_info a) known s s1" using advances_poll_cycle [of al] x unfolding advances_def by (metis snd_conv)
    then show ?thesis using Suc x False
      by (auto split: sum.splits bool.splits intro: advance_trans)
  qed (use Suc in auto)
qed (auto split: if_splits)

end

end
