(* ===== verification/HackerNews.thy ===== *)
theory HackerNews
  imports Collector
begin

section \<open>The Hacker News adapter (apps/collector/src/adapters: hackernews.ts, text-enrichment-strategy.ts)\<close>

text \<open>
  A poll lists the stories of a mode, chooses some of them with the help of the checkpoint, and fetches them one by one.
  Parameters: the JSON that the site answers with, and the fetcher of articles. An item may be \<open>null\<close>, and its
  optional members may be missing.
\<close>

subsection \<open>Article text\<close>

record article_content =
  ac_success :: bool
  ac_text :: string

datatype ('w, 'x) text_enrichment =
    NoopEnrichment
  | ArticleFetchEnrichment "string \<Rightarrow> ('w, 'x, article_content option) ceff"

definition create_text_enrichment_strategy ::
  "bool \<Rightarrow> (string \<Rightarrow> ('w, 'x, article_content option) ceff) \<Rightarrow> ('w, 'x) text_enrichment" where
  "create_text_enrichment_strategy enabled fetcher = (if \<not> enabled then NoopEnrichment else ArticleFetchEnrichment fetcher)"

fun enrich :: "('w, 'x) text_enrichment \<Rightarrow> string \<Rightarrow> string option \<Rightarrow> nat \<Rightarrow> ('w, 'x, string) ceff" where
  "enrich NoopEnrichment txt u min_length = eff_ret txt"
| "enrich (ArticleFetchEnrichment fetcher) txt u min_length =
     (if \<not> truthy u \<or> length txt \<ge> min_length then eff_ret txt
      else eff_bind (fetcher (the u)) (\<lambda>article.
        case article of
          Some ac \<Rightarrow> if ac_success ac then eff_ret (ac_text ac) else eff_ret txt
        | None \<Rightarrow> eff_ret txt))"

subsection \<open>The site\<close>

datatype hn_mode = TopMode | NewMode | BestMode

fun mode_name :: "hn_mode \<Rightarrow> string" where
  "mode_name TopMode = ''top''"
| "mode_name NewMode = ''new''"
| "mode_name BestMode = ''best''"

definition parse_hn_mode :: "string \<Rightarrow> hn_mode" where
  "parse_hn_mode v = (if v = ''top'' then TopMode else if v = ''new'' then NewMode else if v = ''best'' then BestMode else TopMode)"

record hn_item =
  hi_id :: "int option"
  hi_type :: string
  hi_by :: "string option"
  hi_time :: "int option"
  hi_title :: "string option"
  hi_text :: "string option"
  hi_url :: "string option"
  hi_score :: "rat option"
  hi_descendants :: "rat option"

record ('w, 'x) hn_site =
  hs_fetch_ids :: "string \<Rightarrow> ('w, 'x, int list) ceff"
  hs_fetch_item :: "string \<Rightarrow> ('w, 'x, hn_item option) ceff"

definition hn_api_base :: string where
  "hn_api_base = ''https://hacker-news.firebaseio.com/v0''"

definition fetch_story_ids :: "('w, 'x) hn_site \<Rightarrow> hn_mode \<Rightarrow> ('w, 'x, int list) ceff" where
  "fetch_story_ids site mode = hs_fetch_ids site (hn_api_base @ ''/'' @ mode_name mode @ ''stories.json'')"

definition fetch_item :: "('w, 'x) hn_site \<Rightarrow> int \<Rightarrow> ('w, 'x, hn_item option) ceff" where
  "fetch_item site story_id = hs_fetch_item site (hn_api_base @ ''/item/'' @ int_str story_id @ ''.json'')"

definition checkpoint_key_of :: "hn_mode \<Rightarrow> string" where
  "checkpoint_key_of mode = ''last_max_id_'' @ mode_name mode"

definition parse_checkpoint_value :: "string option \<Rightarrow> int" where
  "parse_checkpoint_value v =
     (if \<not> truthy v then 0
      else case parse_int10 (the v) of None \<Rightarrow> 0 | Some n \<Rightarrow> if n < 0 then 0 else n)"

definition to_event_id :: "int \<Rightarrow> string" where
  "to_event_id story_id = ''hn:'' @ int_str story_id"

subsection \<open>Modes of polling\<close>

record checkpoint_progress =
  cp_cursor :: int
  cp_blocked :: bool

definition select_story_ids_for_new_mode :: "nat \<Rightarrow> int \<Rightarrow> int list \<Rightarrow> int list" where
  "select_story_ids_for_new_mode max_items last_max_id ids =
     take max_items (js_sort (\<lambda>a b. a - b) (filter (\<lambda>i. i > last_max_id) (js_set ids)))"

fun filter_unseen :: "(int \<Rightarrow> ('w, 'x, bool) ceff) \<Rightarrow> int \<Rightarrow> int list \<Rightarrow> ('w, 'x, int list) ceff" where
  "filter_unseen has_seen_story last_max_id [] = eff_ret []"
| "filter_unseen has_seen_story last_max_id (i # is) =
     eff_bind (if i > last_max_id then eff_ret True else eff_bind (has_seen_story i) (\<lambda>b. eff_ret (\<not> b))) (\<lambda>wanted.
     eff_bind (filter_unseen has_seen_story last_max_id is) (\<lambda>rest.
     eff_ret (if wanted then i # rest else rest)))"

definition hn_ranked_scan_multiplier :: nat where
  "hn_ranked_scan_multiplier = 4"

definition select_story_ids_for_ranked_mode ::
  "(int \<Rightarrow> ('w, 'x, bool) ceff) \<Rightarrow> nat \<Rightarrow> int \<Rightarrow> int list \<Rightarrow> ('w, 'x, int list) ceff" where
  "select_story_ids_for_ranked_mode has_seen_story max_items last_max_id ids =
     eff_bind (filter_unseen has_seen_story last_max_id (take (max_items * hn_ranked_scan_multiplier) (js_set ids))) (\<lambda>xs.
     eff_ret (take max_items xs))"

record ('w, 'x) poll_mode_behavior =
  pm_select :: "(int \<Rightarrow> ('w, 'x, bool) ceff) \<Rightarrow> nat \<Rightarrow> int \<Rightarrow> int list \<Rightarrow> ('w, 'x, int list) ceff"
  pm_processed :: "checkpoint_progress \<Rightarrow> int \<Rightarrow> checkpoint_progress"
  pm_failed :: "checkpoint_progress \<Rightarrow> checkpoint_progress"

definition create_checkpoint_state :: "int \<Rightarrow> checkpoint_progress" where
  "create_checkpoint_state last_max_id = \<lparr>cp_cursor = last_max_id, cp_blocked = False\<rparr>"

definition new_mode_behavior :: "('w, 'x) poll_mode_behavior" where
  "new_mode_behavior =
     \<lparr>pm_select = (\<lambda>_ n low ids. eff_ret (select_story_ids_for_new_mode n low ids)),
      pm_processed = (\<lambda>st i. if \<not> cp_blocked st then st\<lparr>cp_cursor := i\<rparr> else st),
      pm_failed = (\<lambda>st. st\<lparr>cp_blocked := True\<rparr>)\<rparr>"

definition ranked_mode_behavior :: "('w, 'x) poll_mode_behavior" where
  "ranked_mode_behavior =
     \<lparr>pm_select = select_story_ids_for_ranked_mode,
      pm_processed = (\<lambda>st i. st\<lparr>cp_cursor := max (cp_cursor st) i\<rparr>),
      pm_failed = (\<lambda>st. st)\<rparr>"

fun poll_mode_behaviors :: "hn_mode \<Rightarrow> ('w, 'x) poll_mode_behavior" where
  "poll_mode_behaviors TopMode = ranked_mode_behavior"
| "poll_mode_behaviors NewMode = new_mode_behavior"
| "poll_mode_behaviors BestMode = ranked_mode_behavior"

subsection \<open>Stories\<close>

definition min_hn_text_length :: nat where "min_hn_text_length = 1"
definition hn_request_delay_ms :: int where "hn_request_delay_ms = 100"

definition hackernews_info :: adapter_info where
  "hackernews_info = \<lparr>ai_name = ''hackernews'', ai_source = ''hackernews''\<rparr>"

text \<open>\<open>toISOString\<close> throws on a time outside the range of dates; a time of zero is falsy.\<close>

definition published_time :: "int option \<Rightarrow> ('w, 'x, string option) ceff" where
  "published_time t =
     (case t of
        None \<Rightarrow> eff_ret None
      | Some n \<Rightarrow> if n = 0 then eff_ret None
          else if \<bar>n * 1000\<bar> > 8640000000000000 then eff_throw (InvalidTime n)
          else eff_ret (Some (to_iso_string (n * 1000))))"

definition extracted_of :: "string \<Rightarrow> extracted_input" where
  "extracted_of combined =
     (let ents = extract_entities combined in
      \<lparr>xi_hashtags = Some (map Some (extract_hashtags combined)), xi_urls = Some (map Some (extract_urls combined)),
       xi_entities = (if length (cves ents) > 0 \<or> length (ghsas ents) > 0
         then Some \<lparr>xi_cves = Some (map Some (cves ents)), xi_ghsas = Some (map Some (ghsas ents))\<rparr> else None)\<rparr>)"

definition item_content_input :: "hn_mode \<Rightarrow> hn_item \<Rightarrow> int \<Rightarrow> string \<Rightarrow> int \<Rightarrow> string option \<Rightarrow> content_input" where
  "item_content_input mode it story_id body t published =
     (let ti = default [] (hi_title it); combined = ti @ '' '' @ body in
      \<lparr>ci_event_id = ''hn:'' @ int_str story_id, ci_source = SourceString ''hackernews'', ci_fetched_at = to_iso_string t,
       ci_published_at = published,
       ci_url = Some (default (''https://news.ycombinator.com/item?id='' @ int_str story_id) (hi_url it)),
       ci_title = Some ti, ci_text = body,
       ci_author = (if truthy (hi_by it) then Some \<lparr>ca_id = None, ca_handle = hi_by it, ca_display_name = hi_by it\<rparr> else None),
       ci_engagement = Some \<lparr>ei_score = Some (FiniteNumber (default 0 (hi_score it))),
         ei_comments = Some (FiniteNumber (default 0 (hi_descendants it))), ei_likes = None, ei_shares = None\<rparr>,
       ci_lang = None, ci_tags = None, ci_extracted = Some (extracted_of combined),
       ci_source_meta = Some [(''hn_id'', JNum (of_int story_id)), (''hn_type'', JStr (hi_type it)),
         (''mode'', JStr (mode_name mode))]\<rparr>)"

definition item_to_collected_content ::
  "('w, 'x) collector_env \<Rightarrow> ('w, 'x) text_enrichment \<Rightarrow> hn_mode \<Rightarrow> hn_item \<Rightarrow> ('w, 'x, collected_content option) ceff" where
  "item_to_collected_content env te mode it =
     (if hi_id it = None \<or> hi_id it = Some 0 then eff_ret None
      else
        eff_bind (enrich te (default [] (hi_text it)) (hi_url it) min_hn_text_length) (\<lambda>fetched.
        let body = (if fetched = [] \<and> truthy (hi_url it) then the (hi_url it) else fetched) in
        eff_bind (c_now env) (\<lambda>t.
        eff_bind (published_time (hi_time it)) (\<lambda>published.
        eff_bind (eff_of (map_sum ContentSource id (create_collected_content
          (item_content_input mode it (the (hi_id it)) body t published)))) (\<lambda>c.
        eff_ret (Some c))))))"

text \<open>What the body of the loop does with a story before it yields: go on at once, go on after a delay, or yield.\<close>

datatype story_step = NextStory | NextAfterDelay | YieldRecord ingestion_record

definition process_story ::
  "('w, 'x) collector_env \<Rightarrow> ('w, 'x) hn_site \<Rightarrow> ('w, 'x) text_enrichment \<Rightarrow> hn_mode \<Rightarrow> checkpoint_progress \<Rightarrow> int \<Rightarrow>
   ('w, 'x, checkpoint_progress \<times> story_step) ceff" where
  "process_story env site te mode st story_id =
     (let pm = (poll_mode_behaviors mode :: ('w, 'x) poll_mode_behavior) in
      eff_catch
        (eff_bind (fetch_item site story_id) (\<lambda>item.
         case item of
           None \<Rightarrow> eff_ret (pm_processed pm st story_id, NextStory)
         | Some it \<Rightarrow>
             if hi_type it \<noteq> ''story'' then eff_ret (pm_processed pm st story_id, NextStory)
             else
               eff_bind (item_to_collected_content env te mode it) (\<lambda>content.
               let st' = pm_processed pm st story_id in
               case content of
                 None \<Rightarrow> eff_ret (st', NextAfterDelay)
               | Some c \<Rightarrow>
                   (case create_collector_source_record \<lparr>ir_content = c, ir_checkpoint_key = checkpoint_key_of mode,
                        ir_checkpoint_value = int_str (cp_cursor st')\<rparr> of
                      Inl e \<Rightarrow> eff_ret (pm_failed pm st', NextAfterDelay)
                    | Inr (r, _) \<Rightarrow> eff_ret (st', YieldRecord r)))))
        (\<lambda>e. eff_ret (pm_failed pm st, NextAfterDelay)))"

fun fetch_stories ::
  "('w, 'x) collector_env \<Rightarrow> ('w, 'x) hn_site \<Rightarrow> ('w, 'x) text_enrichment \<Rightarrow> hn_mode \<Rightarrow>
   (ingestion_record \<Rightarrow> ('w, 'x, bool) ceff) \<Rightarrow> checkpoint_progress \<Rightarrow> int list \<Rightarrow> ('w, 'x, unit) ceff" where
  "fetch_stories env site te mode emit st [] = eff_ret ()"
| "fetch_stories env site te mode emit st (i # is) =
     eff_bind (process_story env site te mode st i) (\<lambda>(st', step).
     let delayed = eff_bind (eff_upd (ce_sleep env hn_request_delay_ms)) (\<lambda>_. fetch_stories env site te mode emit st' is) in
     case step of
       NextStory \<Rightarrow> fetch_stories env site te mode emit st' is
     | NextAfterDelay \<Rightarrow> delayed
     | YieldRecord r \<Rightarrow> eff_bind (emit r) (\<lambda>go_on. if go_on then delayed else eff_ret ()))"

definition hackernews_fetch ::
  "('w, 'x) collector_env \<Rightarrow> ('w, 'x) hn_site \<Rightarrow> ('w, 'x) text_enrichment \<Rightarrow> hn_mode \<Rightarrow> nat \<Rightarrow>
   (ingestion_record \<Rightarrow> ('w, 'x, bool) ceff) \<Rightarrow> ('w, 'x, unit) ceff" where
  "hackernews_fetch env site te mode max_items emit =
     eff_bind (on_store env (get_checkpoint (ai_name hackernews_info) (checkpoint_key_of mode))) (\<lambda>v.
     let last_max_id = parse_checkpoint_value v in
     eff_bind (fetch_story_ids site mode) (\<lambda>ids.
     eff_bind (pm_select (poll_mode_behaviors mode)
       (\<lambda>i. on_store env (has_seen (ai_source hackernews_info) (to_event_id i))) max_items last_max_id ids) (\<lambda>candidates.
     if length candidates = 0 then eff_ret ()
     else fetch_stories env site te mode emit (create_checkpoint_state last_max_id) candidates)))"

definition create_hackernews_adapter ::
  "('w, 'x) collector_env \<Rightarrow> ('w, 'x) hn_site \<Rightarrow> ('w, 'x) text_enrichment \<Rightarrow> string \<Rightarrow> int \<Rightarrow> nat \<Rightarrow> ('w, 'x) adapter" where
  "create_hackernews_adapter env site te mode poll_interval_ms max_items =
     \<lparr>ad_info = hackernews_info, ad_poll_interval_ms = poll_interval_ms,
      ad_fetch = hackernews_fetch env site te (parse_hn_mode mode) max_items\<rparr>"

subsection \<open>What the adapter relies on\<close>

lemma trim_no_ws: "list_all (\<lambda>c. \<not> is_ws c) s \<Longrightarrow> trim s = s"
proof -
  have "dropWhile is_ws t = t" if "list_all (\<lambda>c. \<not> is_ws c) t" for t using that by (cases t) auto
  then show "list_all (\<lambda>c. \<not> is_ws c) s \<Longrightarrow> trim s = s"
    by (simp add: trim_def trim_start_def trim_end_def list_all_rev)
qed

lemma trim_event_id: "trim (to_event_id i) = to_event_id i"
proof -
  have "list_all (\<lambda>c. \<not> is_ws c) (nat_str n)" for n
    using nat_str_digits [of n] by (auto simp: list_all_iff is_digit_def is_ws_def)
  then show ?thesis by (intro trim_no_ws) (auto simp: to_event_id_def int_str_def is_ws_def)
qed

lemma parse_checkpoint_int: "0 \<le> c \<Longrightarrow> parse_checkpoint_value (Some (int_str c)) = c"
proof -
  have "int_str c \<noteq> []" using parse_int10_int_str [of c] by (auto simp: parse_int10_def trim_start_def)
  then show "0 \<le> c \<Longrightarrow> parse_checkpoint_value (Some (int_str c)) = c"
    by (simp add: parse_checkpoint_value_def truthy_def parse_int10_int_str)
qed

lemma parse_checkpoint_nonneg: "0 \<le> parse_checkpoint_value v"
  by (auto simp: parse_checkpoint_value_def split: option.split)

text \<open>Effects that stay in a relation.\<close>

definition stays :: "('s \<Rightarrow> 's \<Rightarrow> bool) \<Rightarrow> ('s, 'e, 'a) eff \<Rightarrow> bool" where
  "stays R m \<longleftrightarrow> (\<forall>s. R s (snd (m s)))"

lemma staysD: "stays R m \<Longrightarrow> m s = (r, s') \<Longrightarrow> R s s'"
  by (metis snd_conv stays_def)

lemma stays_bind:
  "(\<And>s s' s''. R s s' \<Longrightarrow> R s' s'' \<Longrightarrow> R s s'') \<Longrightarrow> stays R m \<Longrightarrow> (\<And>x. stays R (k x)) \<Longrightarrow> stays R (eff_bind m k)"
  unfolding stays_def eff_bind_def
  by (auto split: prod.split sum.split) (metis snd_conv)+

lemma stays_catch:
  "(\<And>s s' s''. R s s' \<Longrightarrow> R s' s'' \<Longrightarrow> R s s'') \<Longrightarrow> stays R m \<Longrightarrow> (\<And>e. stays R (h e)) \<Longrightarrow> stays R (eff_catch m h)"
  unfolding stays_def eff_catch_def
  by (auto split: prod.split sum.split) (metis snd_conv)+

text \<open>An answer with a story; its identity is the one that was asked for.\<close>

definition is_story :: "hn_item option \<Rightarrow> bool" where
  "is_story it \<longleftrightarrow> (case it of
       None \<Rightarrow> False
     | Some x \<Rightarrow> hi_type x = ''story'' \<and> hi_id x \<noteq> None \<and> hi_id x \<noteq> Some 0)"

locale hackernews_platform = collector_outside env hackernews_info known
  for env :: "('w, 'x) collector_env" and known :: "'w \<Rightarrow> fact set" +
  fixes site :: "('w, 'x) hn_site" and te :: "('w, 'x) text_enrichment"
  assumes ids: "fetch_story_ids site mode s = (r1, s') \<Longrightarrow> others_act hackernews_info known s s'"
    and item: "fetch_item site i s = (r2, s') \<Longrightarrow> others_act hackernews_info known s s' \<and>
      (\<forall>it. r2 = Inr it \<longrightarrow> (if is_story it then hi_id (the it) = Some i else NoStory i \<in> known (cl_world s')))"
    and article: "enrich te txt u n s = (r3, s') \<Longrightarrow> others_act hackernews_info known s s'"
begin

lemma stays_outside:
  assumes R: "\<And>s s'. others_act hackernews_info known s s' \<Longrightarrow> R s s'" and refl: "\<And>s. R s s"
    and trans: "\<And>s s' s''. R s s' \<Longrightarrow> R s' s'' \<Longrightarrow> R s s''"
  shows "stays R (eff_ret x)" "stays R (eff_throw e)" "stays R (eff_of y)" "stays R (c_now env)"
    "stays R (on_store env (get_checkpoint src k))" "stays R (on_store env (has_seen src i'))"
    "stays R (fetch_story_ids site mode)" "stays R (fetch_item site i)" "stays R (enrich te txt u n)"
    "stays R (eff_upd (ce_sleep env d))" "stays R (published_time t)"
proof -
  have world: "others_act hackernews_info known s (s\<lparr>cl_world := w\<rparr>)" if "known (cl_world s) \<subseteq> known w" for s w
    using that by (simp add: others_act_def own_kept_def seen_id_def)
  have sq: "stays R (c_sqlite env)"
    using sqlite world R by (auto simp: stays_def c_sqlite_def split: prod.split)
  show "stays R (eff_ret x)" "stays R (eff_throw e)" "stays R (eff_of y)"
    using refl by (simp_all add: stays_def eff_defs eff_of_def)
  show "stays R (published_time t)"
    using refl by (auto simp: stays_def published_time_def eff_defs split: option.split)
  show "stays R (c_now env)" using now world R by (auto simp: stays_def c_now_def split: prod.split)
  show "stays R (on_store env (get_checkpoint src k))" "stays R (on_store env (has_seen src i'))"
    unfolding on_store_def using refl
    by (intro stays_bind [OF trans sq]; auto simp: stays_def get_checkpoint_def has_seen_def get_connection_def eff_bind_def)+
  show "stays R (fetch_story_ids site mode)" "stays R (fetch_item site i)" "stays R (enrich te txt u n)"
    unfolding stays_def using R ids item article by (metis prod.collapse)+
  show "stays R (eff_upd (ce_sleep env d))" using R sleep by (simp add: stays_def eff_upd_def)
qed

lemma stays_fetch:
  assumes R: "\<And>s s'. others_act hackernews_info known s s' \<Longrightarrow> R s s'" and refl: "\<And>s. R s s"
    and trans: "\<And>s s' s''. R s s' \<Longrightarrow> R s' s'' \<Longrightarrow> R s s''" and emit: "\<And>r. stays R (emit r)"
  shows "stays R (hackernews_fetch env site te mode n emit)"
proof -
  note o = stays_outside [OF R refl trans] and b = stays_bind [of R, OF trans] and c = stays_catch [of R, OF trans]
  have content: "stays R (item_to_collected_content env te mode it)" for it
    unfolding item_to_collected_content_def Let_def by (auto intro!: o b)
  have process: "stays R (process_story env site te mode st i)" for st i
    unfolding process_story_def Let_def
    by (intro c b o content) (auto split: option.split sum.split prod.split intro!: o b content)
  have loop: "stays R (fetch_stories env site te mode emit st is)" for st "is"
  proof (induction "is" arbitrary: st)
    case (Cons i "is")
    show ?case unfolding fetch_stories.simps Let_def
      by (intro b process) (auto split: prod.split story_step.split intro!: o b emit Cons.IH)
  qed (simp add: o)
  have unseen: "stays R (filter_unseen (\<lambda>i. on_store env (has_seen src (to_event_id i))) l xs)" for src l xs
    by (induction xs) (auto intro!: o b)
  have select: "stays R (pm_select (poll_mode_behaviors mode) (\<lambda>i. on_store env (has_seen src (to_event_id i))) n l xs)" for src l xs
    by (cases mode) (auto simp: ranked_mode_behavior_def new_mode_behavior_def select_story_ids_for_ranked_mode_def
        intro!: o b unseen)
  show ?thesis unfolding hackernews_fetch_def Let_def by (intro b o) (auto intro!: o b select loop)
qed

end

sublocale hackernews_platform \<subseteq> polled: collector_adapter env "create_hackernews_adapter env site te m p n" known for m p n
proof
  fix R :: "'w collector_state \<Rightarrow> 'w collector_state \<Rightarrow> bool" and emit :: "ingestion_record \<Rightarrow> ('w, 'x, bool) ceff" and s
  assume "\<And>s s'. others_act (ad_info (create_hackernews_adapter env site te m p n)) known s s' \<Longrightarrow> R s s'" "\<And>s. R s s"
    "\<And>s s' s''. R s s' \<Longrightarrow> R s' s'' \<Longrightarrow> R s s''" "\<And>r s. R s (snd (emit r s))"
  then show "R s (snd (ad_fetch (create_hackernews_adapter env site te m p n) emit s))"
    using stays_fetch [of R emit "parse_hn_mode m" n] by (simp add: create_hackernews_adapter_def stays_def)
qed (use send sleep now random random36 sqlite in \<open>simp_all add: create_hackernews_adapter_def\<close>)

subsection \<open>The cursor of the newest stories\<close>

text \<open>A story the collector need not look at again: it is none, or has been published, or refused with a dead letter.\<close>

definition story_done :: "('w, 'x) collector_env \<Rightarrow> ('w \<Rightarrow> fact set) \<Rightarrow> int \<Rightarrow> 'w collector_state \<Rightarrow> bool" where
  "story_done env known i s \<longleftrightarrow> NoStory i \<in> known (cl_world s) \<or> (\<exists>v. Sent raw_events_topic (to_event_id i) v \<in> known (cl_world s)) \<or>
     (\<exists>ev. cc_event_id ev = to_event_id i \<and> dead_letter_for env hackernews_info known ev s)"

lemma story_done_mono: "story_done env known i s \<Longrightarrow> known (cl_world s) \<subseteq> known (cl_world s') \<Longrightarrow> story_done env known i s'"
  unfolding story_done_def dead_letter_for_def by blast

definition seen_are_sent :: "('w \<Rightarrow> fact set) \<Rightarrow> 'w collector_state \<Rightarrow> bool" where
  "seen_are_sent known s \<longleftrightarrow>
     (\<forall>i. seen_id (ai_source hackernews_info) i s \<longrightarrow> (\<exists>v. Sent raw_events_topic i v \<in> known (cl_world s)))"

lemma seen_are_sent_advance: "seen_are_sent known s \<Longrightarrow> advance hackernews_info known s s' \<Longrightarrow> seen_are_sent known s'"
  unfolding seen_are_sent_def advance_def by blast

lemma create_record_of_created:
  assumes "create_collected_content inp = Inr c" and "ci_source inp = SourceString ''hackernews''"
  shows "create_collector_source_record \<lparr>ir_content = c, ir_checkpoint_key = k, ir_checkpoint_value = v\<rparr> =
    Inr (\<lparr>ir_content = c, ir_checkpoint_key = k, ir_checkpoint_value = v\<rparr>, projr (to_raw_event c))"
proof -
  have src: "parse_canonical_source (SourceString ''hackernews'') = Inr (Canonical Hackernews)" by code_simp
  then have "cc_source c = Canonical Hackernews"
    using assms by (auto simp: create_collected_content_def normalize_raw_event_source_def)
  then have n: "normalize_collected_content c = Inr c" using assms(1) by (rule created_content_normal [rotated])
  then show ?thesis
    by (simp add: create_collector_source_record_def create_collector_ingestion_record_def ebind_ret
        normalize_collector_ingestion_event_def to_raw_event_def)
qed

lemma content_of_item:
  fixes env :: "('w, 'x) collector_env"
  assumes "item_to_collected_content env te mode it s = (Inr (Some c), s')"
  shows "\<exists>i inp. hi_id it = Some i \<and> i \<noteq> 0 \<and> create_collected_content inp = Inr c \<and>
    ci_source inp = SourceString ''hackernews'' \<and> cc_event_id c = to_event_id i"
proof -
  have i: "hi_id it \<noteq> None" "hi_id it \<noteq> Some 0"
    using assms by (auto simp: item_to_collected_content_def eff_ret_def split: if_splits)
  then obtain x where x: "hi_id it = Some x" "x \<noteq> 0" by auto
  from assms i obtain body t published s1 where inp:
    "(eff_of (map_sum ContentSource id (create_collected_content (item_content_input mode it x body t published))) ::
      ('w, 'x, collected_content) ceff) s1 = (Inr c, s')"
    using x by (auto simp: item_to_collected_content_def Let_def eff_bind_Inr_iff eff_ret_def)
  let ?inp = "item_content_input mode it x body t published"
  have c: "create_collected_content ?inp = Inr c"
    using inp by (cases "create_collected_content ?inp") (auto simp: eff_of_def)
  moreover have f: "ci_source ?inp = SourceString ''hackernews''" "ci_event_id ?inp = to_event_id x"
    by (simp_all add: item_content_input_def to_event_id_def Let_def)
  moreover have "cc_event_id c = to_event_id x"
    using c f(2) trim_event_id [of x] by (auto simp: create_collected_content_def)
  ultimately show ?thesis using x by blast
qed

lemma no_content_of_item:
  "item_to_collected_content env te mode it s = (Inr None, s') \<Longrightarrow> hi_id it = None \<or> hi_id it = Some 0"
  by (auto simp: item_to_collected_content_def Let_def eff_bind_Inr_iff eff_ret_def split: if_splits)

text \<open>The identities of the stories to come are ascending, and all that are not chosen are larger.\<close>

lemma sorted_ids:
  "sorted_wrt (<) (js_sort (\<lambda>a b. a - b) (filter (\<lambda>i. i > (low :: int)) (js_set ids)))"
proof -
  let ?xs = "filter (\<lambda>i. i > low) (js_set ids)"
  have "comparator (\<lambda>a b. a - b :: int)" by unfold_locales auto
  from comparator.sorted_js_sort [OF this, of ?xs]
  have "sorted (js_sort (\<lambda>a b. a - b) ?xs)" by (simp add: sorted_wrt_iff_nth_less)
  moreover have "distinct (js_sort (\<lambda>a b. a - b) ?xs)" by (simp add: distinct_js_sort)
  ultimately show ?thesis by (simp add: strict_sorted_iff)
qed

text \<open>All stories up to a cursor are done.\<close>

definition cursor_ok :: "('w, 'x) collector_env \<Rightarrow> ('w \<Rightarrow> fact set) \<Rightarrow> int list \<Rightarrow> int \<Rightarrow> int \<Rightarrow> 'w collector_state \<Rightarrow> bool" where
  "cursor_ok env known xs low c s \<longleftrightarrow> low \<le> c \<and> (\<forall>x \<in> set xs. x \<le> c \<longrightarrow> story_done env known x s)"

definition last_ok :: "('w, 'x) collector_env \<Rightarrow> ('w \<Rightarrow> fact set) \<Rightarrow> int list \<Rightarrow> int \<Rightarrow> 'w collector_state \<Rightarrow> bool" where
  "last_ok env known xs low s \<longleftrightarrow> (case cl_last_checkpoint s of
       None \<Rightarrow> True
     | Some (k, v) \<Rightarrow> k = checkpoint_key_of NewMode \<and> (\<exists>c. v = int_str c \<and> cursor_ok env known xs low c s))"

definition progress_ok ::
  "('w, 'x) collector_env \<Rightarrow> ('w \<Rightarrow> fact set) \<Rightarrow> int list \<Rightarrow> int \<Rightarrow> int list \<Rightarrow> int list \<Rightarrow> checkpoint_progress \<Rightarrow> 'w collector_state \<Rightarrow> bool"
where
  "progress_ok env known xs low pre is st s \<longleftrightarrow> cursor_ok env known xs low (cp_cursor st) s \<and>
     (\<forall>x \<in> set is. cp_cursor st < x) \<and> (\<not> cp_blocked st \<longrightarrow> (\<forall>x \<in> set pre. story_done env known x s)) \<and> seen_are_sent known s"

lemma cursor_ok_mono: "cursor_ok env known xs low c s \<Longrightarrow> known (cl_world s) \<subseteq> known (cl_world s') \<Longrightarrow> cursor_ok env known xs low c s'"
  unfolding cursor_ok_def using story_done_mono by blast

lemma last_ok_mono:
  "last_ok env known xs low s \<Longrightarrow> known (cl_world s) \<subseteq> known (cl_world s') \<Longrightarrow>
   cl_last_checkpoint s' = cl_last_checkpoint s \<Longrightarrow> last_ok env known xs low s'"
  using cursor_ok_mono by (force simp: last_ok_def split: option.splits)

lemma progress_ok_mono:
  "progress_ok env known xs low pre is st s \<Longrightarrow> advance hackernews_info known s s' \<Longrightarrow> progress_ok env known xs low pre is st s'"
  unfolding progress_ok_def
  by (meson advance_def cursor_ok_mono seen_are_sent_advance story_done_mono)

lemma progress_ok_failed:
  "progress_ok env known xs low pre (i # is) st s \<Longrightarrow>
   progress_ok env known xs low (pre @ [i]) is (pm_failed new_mode_behavior st) s"
  by (simp add: progress_ok_def new_mode_behavior_def)

lemma progress_ok_processed:
  assumes "progress_ok env known xs low pre (i # is) st s" and "story_done env known i s"
    and xs: "xs = pre @ (i # is) @ post" "sorted_wrt (<) xs"
  shows "progress_ok env known xs low (pre @ [i]) is (pm_processed new_mode_behavior st i) s"
proof (cases "cp_blocked st")
  case False
  have after: "\<forall>x \<in> set is. i < x" "\<forall>x \<in> set post. i < x" using xs by (auto simp: sorted_wrt_append)
  have "low \<le> i" using assms(1) by (auto simp: progress_ok_def cursor_ok_def)
  then show ?thesis using assms(1,2) False after unfolding xs(1)
    by (fastforce simp: progress_ok_def cursor_ok_def new_mode_behavior_def)
qed (use assms(1) in \<open>auto simp: progress_ok_def new_mode_behavior_def\<close>)

lemma dealt_with_story:
  assumes "dealt_with env hackernews_info known al ev res s" and "cc_event_id ev = to_event_id i" and "seen_are_sent known s"
  shows "story_done env known i s"
  using assms by (cases res) (auto simp: dealt_with_def story_done_def seen_are_sent_def)

context hackernews_platform
begin

lemmas outside_keeps = stays_outside [of "progress hackernews_info known", OF others_progress progress_refl progress_trans]
  and keeps_seq = stays_bind [of "progress hackernews_info known", OF progress_trans]

lemma content_keeps: "stays (progress hackernews_info known) (item_to_collected_content env te mode it)"
  unfolding item_to_collected_content_def Let_def by (auto intro!: outside_keeps keeps_seq)

lemma process_keeps: "progress hackernews_info known s (snd (process_story env site te mode st i s))"
proof -
  let ?R = "progress hackernews_info known"
  note o = outside_keeps and b = keeps_seq and content = content_keeps and c = stays_catch [of ?R, OF progress_trans]
  have "stays ?R (process_story env site te mode st i)"
    unfolding process_story_def Let_def
    by (intro c b o content) (auto split: option.split sum.split prod.split intro!: o b content)
  then show ?thesis by (simp add: stays_def)
qed

text \<open>The three ways the body of the loop can go in the mode of new stories.\<close>

lemma process_new:
  assumes "process_story env site te NewMode st i s = (r, s')"
  shows "\<exists>st' step. r = Inr (st', step) \<and>
    (st' = pm_failed (new_mode_behavior :: ('w, 'x) poll_mode_behavior) st \<and> step = NextAfterDelay \<or>
     st' = pm_processed (new_mode_behavior :: ('w, 'x) poll_mode_behavior) st i \<and>
       (step \<in> {NextStory, NextAfterDelay} \<and> NoStory i \<in> known (cl_world s') \<or>
        (\<exists>rec. step = YieldRecord rec \<and> cc_event_id (ir_content rec) = to_event_id i \<and>
           normalize_collector_ingestion_event (ir_content rec) = Inr (ir_content rec) \<and>
           ir_checkpoint_key rec = checkpoint_key_of NewMode \<and> ir_checkpoint_value rec = int_str (cp_cursor st'))))"
proof -
  let ?pm = "new_mode_behavior :: ('w, 'x) poll_mode_behavior"
  let ?made = "\<lambda>c. \<lparr>ir_content = c, ir_checkpoint_key = checkpoint_key_of NewMode,
      ir_checkpoint_value = int_str (cp_cursor (pm_processed ?pm st i))\<rparr>"
  define after where "after = (\<lambda>content.
      case content of
        None \<Rightarrow> eff_ret (pm_processed ?pm st i, NextAfterDelay) :: ('w, 'x, checkpoint_progress \<times> story_step) ceff
      | Some c \<Rightarrow> (case create_collector_source_record (?made c) of
            Inl e \<Rightarrow> eff_ret (pm_failed ?pm (pm_processed ?pm st i), NextAfterDelay)
          | Inr (r, _) \<Rightarrow> eff_ret (pm_processed ?pm st i, YieldRecord r)))"
  define body where "body = (\<lambda>item.
      case item of
        None \<Rightarrow> eff_ret (pm_processed ?pm st i, NextStory)
      | Some it \<Rightarrow> if hi_type it \<noteq> ''story'' then eff_ret (pm_processed ?pm st i, NextStory)
          else eff_bind (item_to_collected_content env te NewMode it) after)"
  have run: "eff_catch (eff_bind (fetch_item site i) body) (\<lambda>e. eff_ret (pm_failed ?pm st, NextAfterDelay)) s = (r, s')"
    using assms unfolding process_story_def body_def after_def Let_def poll_mode_behaviors.simps .
  show ?thesis
  proof (cases "eff_bind (fetch_item site i) body s")
    case (Pair x s1)
    show ?thesis
    proof (cases x)
      case (Inl e)
      with run Pair show ?thesis by (auto simp: eff_catch_simps eff_ret_def)
    next
      case (Inr y)
      then have r: "r = Inr y" "s1 = s'" using run Pair by (auto simp: eff_catch_simps)
      from Pair Inr obtain it s2 where it: "fetch_item site i s = (Inr it, s2)" "body it s2 = (Inr y, s')"
        unfolding r by (auto simp: eff_bind_Inr_iff)
      have law: "if is_story it then hi_id (the it) = Some i else NoStory i \<in> known (cl_world s2)"
        using item [OF it(1)] by blast
      show ?thesis
      proof (cases "it = None \<or> hi_type (the it) \<noteq> ''story''")
        case True
        then have "\<not> is_story it" by (auto simp: is_story_def split: option.splits)
        with True law it(2) r show ?thesis by (auto simp: body_def eff_ret_def split: option.splits)
      next
        case False
        then obtain z where z: "it = Some z" "hi_type z = ''story''" by auto
        with it(2) obtain content s3 where c: "item_to_collected_content env te NewMode z s2 = (Inr content, s3)"
          "after content s3 = (Inr y, s')"
          by (auto simp: body_def eff_bind_Inr_iff)
        show ?thesis
        proof (cases content)
          case None
          have "\<not> is_story it" using no_content_of_item [OF c(1) [unfolded None]] z by (auto simp: is_story_def)
          then have "NoStory i \<in> known (cl_world s2)" using law by simp
          moreover have "s3 = s'" "y = (pm_processed ?pm st i, NextAfterDelay)" using c(2) None by (auto simp: after_def eff_ret_def)
          moreover have "progress hackernews_info known s2 s3" using content_keeps [of NewMode z] c(1) by (metis snd_conv stays_def)
          ultimately show ?thesis using r by (auto dest: progress_sent)
        next
          case (Some d)
          from content_of_item [OF c(1) [unfolded Some]] obtain j inp where j: "hi_id z = Some j" "j \<noteq> 0"
            "create_collected_content inp = Inr d" "ci_source inp = SourceString ''hackernews''" "cc_event_id d = to_event_id j"
            by blast
          have "is_story it" using z j by (simp add: is_story_def)
          then have "j = i" using law z j by simp
          note rec = create_record_of_created [OF j(3,4), of "checkpoint_key_of NewMode" "int_str (cp_cursor (pm_processed ?pm st i))"]
          have norm: "normalize_collector_ingestion_event d = Inr d"
            using rec by (auto simp: create_collector_source_record_def create_collector_ingestion_record_def)
          from c(2) Some rec have "y = (pm_processed ?pm st i, YieldRecord (?made d))"
            by (auto simp: after_def eff_ret_def)
          with r norm j \<open>j = i\<close> show ?thesis by auto
        qed
      qed
    qed
  qed
qed

text \<open>The body of the loop over the records, for a record of a story.\<close>

lemma consumed:
  assumes run: "consume env hackernews_info al rec s = (Inr b, s')"
    and norm: "normalize_collector_ingestion_event (ir_content rec) = Inr (ir_content rec)"
    and i: "cc_event_id (ir_content rec) = to_event_id i" and sent: "seen_are_sent known s"
  shows "advance hackernews_info known s s' \<and> (if b then story_done env known i s' \<and>
      cl_last_checkpoint s' = Some (ir_checkpoint_key rec, ir_checkpoint_value rec) else s' = s)"
proof (cases "cl_shutdown s")
  case False
  let ?s1 = "s\<lparr>cl_last_checkpoint := Some (ir_checkpoint_key rec, ir_checkpoint_value rec)\<rparr>"
  obtain x s2 where x: "ingest env hackernews_info al (ir_content rec) ?s1 = (x, s2)" by fastforce
  with run False obtain res where "x = Inr res"
    by (cases x) (auto simp: consume_def eff_bind_def eff_upd_def)
  with x have res1: "ingest env hackernews_info al (ir_content rec) ?s1 = (Inr res, s2)" by simp
  have "b \<and> s' = (case res of Ingested _ \<Rightarrow> s2\<lparr>cl_batch_count := cl_batch_count s2 + 1\<rparr> | _ \<Rightarrow> s2)"
    using run False res1 by (cases res) (simp_all add: consume_def eff_bind_def eff_upd_def eff_ret_def)
  with res1 have res: "ingest env hackernews_info al (ir_content rec) ?s1 = (Inr res, s2)" "b"
    "s' = (case res of Ingested _ \<Rightarrow> s2\<lparr>cl_batch_count := cl_batch_count s2 + 1\<rparr> | _ \<Rightarrow> s2)" by simp_all
  have p: "progress hackernews_info known ?s1 s2" "dealt_with env hackernews_info known al (ir_content rec) res s2"
    using ingested [OF res(1)] norm by auto
  have adv: "advance hackernews_info known s s2"
    using p(1) by (auto simp: progress_def advance_def seen_id_def)
  have s': "cl_world s' = cl_world s2" "cl_store s' = cl_store s2" "cl_last_checkpoint s' = cl_last_checkpoint s2"
    unfolding res(3) by (cases res; simp)+
  have "story_done env known i s2" by (rule dealt_with_story [OF p(2) i seen_are_sent_advance [OF sent adv]])
  moreover have "cl_last_checkpoint s2 = cl_last_checkpoint ?s1" using p(1) by (simp add: progress_def own_kept_def)
  ultimately show ?thesis
    using res(2) s' adv story_done_mono [of env known i s2 s'] by (auto simp: advance_def seen_id_def)
qed (use run in \<open>simp add: consume_def\<close>)

lemma stories_new:
  assumes "xs = pre @ is @ post" and "sorted_wrt (<) xs" and "progress_ok env known xs low pre is st s"
    and "last_ok env known xs low s"
    and "fetch_stories env site te NewMode (consume env hackernews_info al) st is s = (Inr u, s')"
  shows "last_ok env known xs low s' \<and> seen_are_sent known s'"
  using assms
proof (induction "is" arbitrary: pre st s)
  case Nil
  then show ?case by (simp add: eff_ret_def progress_ok_def)
next
  case (Cons i "is")
  obtain r s1 where run: "process_story env site te NewMode st i s = (r, s1)" by fastforce
  from process_new [OF run] obtain st' step where r: "r = Inr (st', step)"
    and cases: "st' = pm_failed (new_mode_behavior :: ('w, 'x) poll_mode_behavior) st \<and> step = NextAfterDelay \<or>
     st' = pm_processed (new_mode_behavior :: ('w, 'x) poll_mode_behavior) st i \<and>
       (step \<in> {NextStory, NextAfterDelay} \<and> NoStory i \<in> known (cl_world s1) \<or>
        (\<exists>rec. step = YieldRecord rec \<and> cc_event_id (ir_content rec) = to_event_id i \<and>
           normalize_collector_ingestion_event (ir_content rec) = Inr (ir_content rec) \<and>
           ir_checkpoint_key rec = checkpoint_key_of NewMode \<and> ir_checkpoint_value rec = int_str (cp_cursor st')))"
    by blast
  have p1: "progress hackernews_info known s s1" using process_keeps [of s NewMode st i] run by simp
  note a1 = progress_advance [OF p1]
  have ok1: "progress_ok env known xs low pre (i # is) st s1" using progress_ok_mono [OF Cons.prems(3) a1] .
  have last1: "last_ok env known xs low s1"
    using last_ok_mono [OF Cons.prems(4)] p1 by (simp add: progress_def own_kept_def)
  let ?go = "fetch_stories env site te NewMode (consume env hackernews_info al) st' is"
  let ?delayed = "eff_bind (eff_upd (ce_sleep env hn_request_delay_ms)) (\<lambda>_. ?go)"
  have xs': "xs = (pre @ [i]) @ is @ post" using Cons.prems(1) by simp
  note IH = Cons.IH [OF xs' Cons.prems(2)]
  have rest: "(case step of NextStory \<Rightarrow> ?go | NextAfterDelay \<Rightarrow> ?delayed
      | YieldRecord r \<Rightarrow> eff_bind (consume env hackernews_info al r) (\<lambda>go_on. if go_on then ?delayed else eff_ret ())) s1 = (Inr u, s')"
    using Cons.prems(5) run r by (simp add: eff_bind_simps Let_def)
  have delayed: "last_ok env known xs low s' \<and> seen_are_sent known s'"
    if "?delayed s2 = (Inr u, s')" "progress_ok env known xs low (pre @ [i]) is st' s2" "last_ok env known xs low s2" for s2
  proof -
    have p: "progress hackernews_info known s2 (ce_sleep env hn_request_delay_ms s2)" using sleep by (rule others_progress)
    have "?go (ce_sleep env hn_request_delay_ms s2) = (Inr u, s')" using that(1) by (simp add: eff_bind_def eff_upd_def)
    from IH [OF progress_ok_mono [OF that(2) progress_advance [OF p]] _ this] show ?thesis
      using last_ok_mono [OF that(3)] p by (simp add: progress_def own_kept_def)
  qed
  from cases show ?case
  proof (elim disjE conjE exE)
    assume st': "st' = pm_failed (new_mode_behavior :: ('w, 'x) poll_mode_behavior) st" and step: "step = NextAfterDelay"
    from delayed [of s1] rest step progress_ok_failed [OF ok1] last1 st' show ?thesis
      by (simp add: new_mode_behavior_def)
  next
    assume st': "st' = pm_processed (new_mode_behavior :: ('w, 'x) poll_mode_behavior) st i"
      and step: "step \<in> {NextStory, NextAfterDelay}" and no: "NoStory i \<in> known (cl_world s1)"
    have "story_done env known i s1" using no by (simp add: story_done_def)
    from progress_ok_processed [OF ok1 this Cons.prems(1,2)]
    have ok: "progress_ok env known xs low (pre @ [i]) is st' s1" by (simp add: st' new_mode_behavior_def)
    show ?thesis using step rest delayed [OF _ ok last1] IH [OF ok last1] by auto
  next
    fix rec
    assume st': "st' = pm_processed (new_mode_behavior :: ('w, 'x) poll_mode_behavior) st i" and step: "step = YieldRecord rec"
      and rec: "cc_event_id (ir_content rec) = to_event_id i"
        "normalize_collector_ingestion_event (ir_content rec) = Inr (ir_content rec)"
        "ir_checkpoint_key rec = checkpoint_key_of NewMode" "ir_checkpoint_value rec = int_str (cp_cursor st')"
    from rest step obtain b s2 where c: "consume env hackernews_info al rec s1 = (Inr b, s2)"
      "(if b then ?delayed else eff_ret ()) s2 = (Inr u, s')" by (auto simp: eff_bind_Inr_iff)
    have "seen_are_sent known s1" using ok1 by (simp add: progress_ok_def)
    note done' = consumed [OF c(1) rec(2,1) this]
    show ?thesis
    proof (cases b)
      case True
      then have d: "advance hackernews_info known s1 s2" "story_done env known i s2"
        "cl_last_checkpoint s2 = Some (ir_checkpoint_key rec, ir_checkpoint_value rec)" using done' by simp_all
      from progress_ok_processed [OF progress_ok_mono [OF ok1 d(1)] d(2) Cons.prems(1,2)]
      have ok: "progress_ok env known xs low (pre @ [i]) is st' s2" by (simp add: st' new_mode_behavior_def)
      then have "last_ok env known xs low s2" using d(3) rec(3,4) by (auto simp: last_ok_def progress_ok_def)
      from delayed [OF _ ok this] c(2) True show ?thesis by simp
    next
      case False
      with done' c(2) last1 ok1 show ?thesis by (simp add: eff_ret_def progress_ok_def)
    qed
  qed
qed

text \<open>The steps after the iteration leave the checkpoints, but for the one that is written.\<close>

definition kept :: "'w collector_state \<Rightarrow> 'w collector_state \<Rightarrow> bool" where
  "kept s s' \<longleftrightarrow> known (cl_world s) \<subseteq> known (cl_world s') \<and>
     (\<forall>k. checkpoint_of (cl_store s') ''hackernews'' k = checkpoint_of (cl_store s) ''hackernews'' k)"

lemma kept_others: "others_act hackernews_info known s s' \<Longrightarrow> kept s s'"
  by (simp add: others_act_def own_kept_def kept_def hackernews_info_def)

lemma kept_progress: "progress hackernews_info known s s' \<Longrightarrow> kept s s'"
  by (simp add: progress_def own_kept_def kept_def hackernews_info_def)

lemma kept_refl: "kept s s"
  by (simp add: kept_def)

lemma kept_trans: "kept s s' \<Longrightarrow> kept s' s'' \<Longrightarrow> kept s s''"
  by (auto simp: kept_def)

lemmas kept_outside = stays_outside [of kept, OF kept_others kept_refl kept_trans]
  and kept_seq = stays_bind [of kept, OF kept_trans]

lemma kept_local: "(\<And>s. cl_world (f s) = cl_world s \<and> cl_store (f s) = cl_store s) \<Longrightarrow> stays kept (eff_upd f)"
  by (simp add: stays_def eff_upd_def kept_def)

lemma kept_health: "stays kept (c_health f)"
  unfolding c_health_def by (rule kept_local) simp

lemma kept_get: "stays kept (c_get f)"
  by (simp add: stays_def c_get_def kept_refl)

lemma kept_heartbeat: "stays kept (publish_source_heartbeat env h)"
  using keyed_publish [of _ heartbeat_topic hb_source h] kept_others
  unfolding stays_def publish_source_heartbeat_def publish_heartbeat_def Let_def
  by (metis prod.collapse)

lemma kept_wait: "stays kept (eff_upd (sleep_until_next_poll env r))"
proof -
  have "kept s (sleeps env ds s)" for ds s
    by (induction ds arbitrary: s) (auto intro: kept_refl kept_trans [OF kept_others [OF sleep]])
  then show ?thesis using sleep_slices [of env r] unfolding stays_def eff_upd_def
    by (metis snd_conv)
qed

lemma kept_sqlite: "stays kept (c_sqlite env)"
  using sqlite by (auto simp: stays_def c_sqlite_def kept_def split: prod.split)

lemma kept_cleanup: "stays kept (on_store env (cleanup_seen f t older))"
  unfolding on_store_def
  by (intro kept_seq kept_sqlite)
    (auto simp: stays_def kept_def cleanup_seen_def get_connection_def eff_bind_def checkpoint_of_def split: prod.splits)

lemma kept_consume: "stays kept (consume env hackernews_info al rec)"
proof -
  have "stays kept (ingest env hackernews_info al c)" for c
    unfolding stays_def using ingested kept_progress by (metis prod.collapse)
  then have "stays kept (eff_bind (eff_upd (\<lambda>s. s\<lparr>cl_last_checkpoint := Some (ir_checkpoint_key rec, ir_checkpoint_value rec)\<rparr>)) (\<lambda>_.
      eff_bind (ingest env hackernews_info al (ir_content rec)) (\<lambda>res.
      eff_bind (case res of Ingested _ \<Rightarrow> eff_upd (\<lambda>s. s\<lparr>cl_batch_count := cl_batch_count s + 1\<rparr>) | _ \<Rightarrow> eff_ret ()) (\<lambda>_.
      eff_ret True))))"
    by (intro kept_seq kept_local) (auto intro!: kept_seq kept_local kept_outside split: process_result.split)
  then show ?thesis by (simp add: stays_def consume_def kept_refl)
qed

lemmas kept_iteration = stays_fetch [of kept, OF kept_others kept_refl kept_trans kept_consume]

lemma kept_after: "stays kept (eff_bind (report_healthy env hackernews_info t) (\<lambda>_.
      eff_bind (cleanup_when_due env) (\<lambda>_.
      eff_bind (send_healthy_heartbeat env hackernews_info) (\<lambda>_.
      eff_bind (eff_upd (\<lambda>s. s\<lparr>cl_backoff := backoff_reset (cl_backoff s)\<rparr>)) (\<lambda>_.
      eff_bind (c_get cl_shutdown) (\<lambda>stop.
      if stop then eff_ret False else eff_bind (eff_upd (sleep_until_next_poll env r)) (\<lambda>_. eff_ret True)))))))"
  unfolding report_healthy_def cleanup_when_due_def send_healthy_heartbeat_def
  by (intro kept_seq) (auto intro!: kept_seq kept_outside kept_local kept_health kept_get kept_cleanup kept_heartbeat kept_wait)

lemma get_bind: "eff_bind (c_get f) k s0 = k (f s0) s0"
  by (simp add: eff_bind_def c_get_def)

lemma upd_bind: "eff_bind (eff_upd f) k s0 = k () (f s0)"
  by (simp add: eff_bind_def eff_upd_def)

lemma checkpoint_saved:
  assumes "save_checkpoint env hackernews_info s = (Inr u, s')"
  shows "known (cl_world s) \<subseteq> known (cl_world s') \<and> checkpoint_of (cl_store s') ''hackernews'' k =
    (case cl_last_checkpoint s of
       None \<Rightarrow> checkpoint_of (cl_store s) ''hackernews'' k
     | Some (k', v) \<Rightarrow> if k' = k \<and> k' \<noteq> [] \<and> v \<noteq> [] then Some v else checkpoint_of (cl_store s) ''hackernews'' k)"
proof (cases "cl_last_checkpoint s")
  case None
  with assms show ?thesis by (simp add: save_checkpoint_def c_get_def eff_bind_def eff_ret_def)
next
  case (Some kv)
  then obtain k' v where kv: "cl_last_checkpoint s = Some (k', v)" by (cases kv) auto
  show ?thesis
  proof (cases "k' \<noteq> [] \<and> v \<noteq> []")
    case True
    have run: "eff_bind (c_now env) (\<lambda>t. eff_bind (on_store env (set_checkpoint t ''hackernews'' k' v)) (\<lambda>_.
        c_health (increment_checkpoint_updated ''hackernews'' 1))) s = (Inr u, s')"
      using assms kv True by (simp add: save_checkpoint_def get_bind hackernews_info_def)
    from eff_bind_Inr_iff [THEN iffD1, OF run] obtain t s1 where t1: "(c_now env :: ('w, 'x, int) ceff) s = (Inr t, s1)"
      "eff_bind (on_store env (set_checkpoint t ''hackernews'' k' v)) (\<lambda>_.
        c_health (increment_checkpoint_updated ''hackernews'' 1)) s1 = (Inr u, s')" by blast
    from eff_bind_Inr_iff [THEN iffD1, OF t1(2)] obtain y s2
      where t2: "on_store env (set_checkpoint t ''hackernews'' k' v) s1 = (Inr y, s2)"
        "(c_health (increment_checkpoint_updated ''hackernews'' 1) :: ('w, 'x, unit) ceff) s2 = (Inr u, s')" by blast
    note t = t1(1) t2
    have k1: "kept s s1" by (rule staysD [OF kept_outside(4) t(1)])
    obtain z w where w: "ce_sqlite env (cl_world s1) = (z, w)" by fastforce
    have "known (cl_world s1) \<subseteq> known w" using sqlite [OF w] .
    with t(2) w have k2: "known (cl_world s1) \<subseteq> known (cl_world s2)"
      "checkpoint_of (cl_store s2) ''hackernews'' k = (if k' = k then Some v else checkpoint_of (cl_store s1) ''hackernews'' k)"
      by (auto simp: on_store_def c_sqlite_def set_checkpoint_def get_connection_def eff_defs checkpoint_of_def js_map
          split: sum.splits if_splits)
    have k3: "kept s2 s'" by (rule staysD [OF kept_health t(3)])
    from k1 k2 k3 True show ?thesis unfolding kv by (auto simp: kept_def)
  next
    case False
    with assms kv show ?thesis by (auto simp: save_checkpoint_def c_get_def eff_bind_def eff_ret_def)
  qed
qed

lemma checkpoint_read:
  assumes "on_store env (get_checkpoint ''hackernews'' k) s = (Inr v, s')"
  shows "v = checkpoint_of (cl_store s') ''hackernews'' k \<and> kept s s' \<and> cl_last_checkpoint s' = cl_last_checkpoint s \<and>
    (\<forall>i. seen_id ''hackernews'' i s' \<longrightarrow> seen_id ''hackernews'' i s)"
proof -
  obtain z w where w: "ce_sqlite env (cl_world s) = (z, w)" by fastforce
  from assms w sqlite [OF w] show ?thesis
    by (auto simp: on_store_def c_sqlite_def get_checkpoint_def get_connection_def eff_bind_def kept_def checkpoint_of_def
        seen_id_def split: sum.splits if_splits)
qed

lemma iteration_new:
  assumes get: "on_store env (get_checkpoint ''hackernews'' (checkpoint_key_of NewMode)) s = (Inr v, s1)"
    and list: "fetch_story_ids site NewMode s1 = (Inr ids, s2)"
    and run: "hackernews_fetch env site te NewMode n (consume env hackernews_info al) s = (Inr u, s')"
    and sent: "seen_are_sent known s" and none: "cl_last_checkpoint s = None"
  shows "last_ok env known (filter (\<lambda>i. i > parse_checkpoint_value v) ids) (parse_checkpoint_value v) s'"
proof -
  let ?low = "parse_checkpoint_value v"
  let ?xs = "js_sort (\<lambda>a b. a - b) (filter (\<lambda>i. i > ?low) (js_set ids))"
  let ?fetched = "filter (\<lambda>i. i > ?low) ids"
  have same: "set ?xs = set ?fetched" by auto
  have ok: "last_ok env known ?xs ?low x = last_ok env known ?fetched ?low x" for x
    by (simp only: last_ok_def cursor_ok_def same)
  note read = checkpoint_read [OF get]
  have "seen_are_sent known s1" using sent read by (force simp: seen_are_sent_def hackernews_info_def kept_def)
  moreover have p2: "progress hackernews_info known s1 s2" using ids [OF list] by (rule others_progress)
  ultimately have sent2: "seen_are_sent known s2" using seen_are_sent_advance progress_advance by blast
  have none2: "cl_last_checkpoint s2 = None" using none read p2 by (simp add: progress_def own_kept_def)
  then have last2: "last_ok env known ?xs ?low s2" by (simp add: last_ok_def)
  have eq: "hackernews_fetch env site te NewMode n emit s = (if take n ?xs = [] then eff_ret ()
      else fetch_stories env site te NewMode emit (create_checkpoint_state ?low) (take n ?xs)) s2"
    for emit :: "ingestion_record \<Rightarrow> ('w, 'x, bool) ceff"
    using get list
    by (simp add: hackernews_fetch_def hackernews_info_def Let_def new_mode_behavior_def
        select_story_ids_for_new_mode_def eff_bind_def eff_ret_def del: take_eq_Nil)
  note run2 = run [unfolded eq]
  show ?thesis
  proof (cases "take n ?xs = []")
    case True
    with run2 last2 show ?thesis by (simp add: eff_ret_def ok)
  next
    case False
    have "progress_ok env known ?xs ?low [] (take n ?xs) (create_checkpoint_state ?low) s2"
      using sent2 by (auto simp: progress_ok_def cursor_ok_def create_checkpoint_state_def dest: in_set_takeD)
    from stories_new [OF _ sorted_ids this last2, of "drop n ?xs"] run2 False show ?thesis by (simp add: ok)
  qed
qed

lemma poll_new:
  assumes get: "on_store env (get_checkpoint ''hackernews'' (checkpoint_key_of NewMode))
      (s\<lparr>cl_batch_count := 0, cl_last_checkpoint := None\<rparr>) = (Inr v, s1)"
    and list: "fetch_story_ids site NewMode s1 = (Inr ids, s2)"
    and poll: "poll_once env (create_hackernews_adapter env site te ''new'' p n) al t s = (Inr b, s')"
    and sent: "seen_are_sent known s"
  defines "c \<equiv> parse_checkpoint_value (checkpoint_of (cl_store s') ''hackernews'' (checkpoint_key_of NewMode))"
  shows "cursor_ok env known (filter (\<lambda>i. i > parse_checkpoint_value v) ids) (parse_checkpoint_value v) c s'"
proof -
  let ?s0 = "s\<lparr>cl_batch_count := 0, cl_last_checkpoint := None\<rparr>" and ?k = "checkpoint_key_of NewMode"
    and ?low = "parse_checkpoint_value v"
  let ?xs = "filter (\<lambda>i. i > ?low) ids"
  obtain s3 s4 u y where fetched: "hackernews_fetch env site te NewMode n (consume env hackernews_info al) ?s0 = (Inr u, s3)"
    and saved: "save_checkpoint env hackernews_info s3 = (Inr y, s4)"
    and after: "kept s4 s'"
  proof -
    have mode: "parse_hn_mode ''new'' = NewMode" by (simp add: parse_hn_mode_def)
    define rest where "rest = (eff_bind (report_healthy env hackernews_info t) (\<lambda>_.
      eff_bind (cleanup_when_due env) (\<lambda>_.
      eff_bind (send_healthy_heartbeat env hackernews_info) (\<lambda>_.
      eff_bind (eff_upd (\<lambda>s. s\<lparr>cl_backoff := backoff_reset (cl_backoff s)\<rparr>)) (\<lambda>_.
      eff_bind (c_get cl_shutdown) (\<lambda>stop.
      if stop then eff_ret False else eff_bind (eff_upd (sleep_until_next_poll env p)) (\<lambda>_. eff_ret True))))))
      :: ('w, 'x, bool) ceff)"
    have "eff_bind (hackernews_fetch env site te NewMode n (consume env hackernews_info al)) (\<lambda>_.
      eff_bind (save_checkpoint env hackernews_info) (\<lambda>_. rest)) ?s0 = (Inr b, s')"
      using poll unfolding poll_once_def Let_def create_hackernews_adapter_def upd_bind adapter.simps mode rest_def .
    from eff_bind_Inr_iff [THEN iffD1, OF this] obtain u s3
      where f: "hackernews_fetch env site te NewMode n (consume env hackernews_info al) ?s0 = (Inr u, s3)"
        "eff_bind (save_checkpoint env hackernews_info) (\<lambda>_. rest) s3 = (Inr b, s')" by blast
    from eff_bind_Inr_iff [THEN iffD1, OF f(2)] obtain y s4
      where a: "save_checkpoint env hackernews_info s3 = (Inr y, s4)" "rest s4 = (Inr b, s')" by blast
    have "stays kept rest" unfolding rest_def by (rule kept_after [of t p])
    from staysD [OF this a(2)] have "kept s4 s'" .
    with f(1) a(1) show thesis by (rule that)
  qed
  have s0: "seen_are_sent known ?s0" "cl_last_checkpoint ?s0 = None" using sent by (simp_all add: seen_are_sent_def seen_id_def)
  have last3: "last_ok env known ?xs ?low s3" by (rule iteration_new [OF get list fetched s0])
  have "kept ?s0 s3" by (rule staysD [OF kept_iteration fetched])
  moreover have "v = checkpoint_of (cl_store ?s0) ''hackernews'' ?k" using checkpoint_read [OF get] by (simp add: kept_def)
  ultimately have v: "checkpoint_of (cl_store s3) ''hackernews'' ?k = v" by (simp add: kept_def)
  note save = checkpoint_saved [OF saved, of ?k]
  have grow: "known (cl_world s3) \<subseteq> known (cl_world s')" using save after by (auto simp: kept_def)
  have c: "c = parse_checkpoint_value (checkpoint_of (cl_store s4) ''hackernews'' ?k)" using after by (simp add: c_def kept_def)
  show ?thesis
  proof (cases "cl_last_checkpoint s3")
    case None
    with save v c have "c = ?low" by simp
    then show ?thesis by (auto simp: cursor_ok_def)
  next
    case (Some kv)
    with last3 obtain d where d: "kv = (?k, int_str d)" "cursor_ok env known ?xs ?low d s3" by (cases kv) (auto simp: last_ok_def)
    have "0 \<le> d" using d(2) parse_checkpoint_nonneg [of v] by (simp add: cursor_ok_def)
    note p = parse_checkpoint_int [OF this]
    have "int_str d \<noteq> []" using parse_int10_int_str [of d] by (auto simp: parse_int10_def trim_start_def)
    moreover have "?k \<noteq> []" by (simp add: checkpoint_key_of_def)
    ultimately have "c = d" using save Some d(1) c p by simp
    then show ?thesis using cursor_ok_mono [OF d(2) grow] by simp
  qed
qed

end

subsection \<open>A site with two identities\<close>

text \<open>The first is a story, the second is deleted; there is nothing else.\<close>

definition demo_story :: hn_item where
  "demo_story =
     \<lparr>hi_id = Some 5, hi_type = ''story'', hi_by = None, hi_time = None, hi_title = Some ''a'', hi_text = Some ''b'',
      hi_url = None, hi_score = None, hi_descendants = None\<rparr>"

definition demo_site :: "(fact list, unit) hn_site" where
  "demo_site =
     \<lparr>hs_fetch_ids = (\<lambda>u s. (Inr [7, 5], s)),
      hs_fetch_item = (\<lambda>u s.
        if u = ''https://hacker-news.firebaseio.com/v0/item/5.json'' then (Inr (Some demo_story), s)
        else if u = ''https://hacker-news.firebaseio.com/v0/item/7.json'' then (Inr None, s\<lparr>cl_world := [NoStory 7] @ cl_world s\<rparr>)
        else (Inl (Outside ()), s))\<rparr>"

definition demo_adapter :: "(fact list, unit) adapter" where
  "demo_adapter = create_hackernews_adapter demo_env demo_site NoopEnrichment ''new'' 0 10"

lemma demo_item_url:
  "hn_api_base @ ''/item/'' @ int_str i @ ''.json'' = hn_api_base @ ''/item/'' @ int_str j @ ''.json'' \<longleftrightarrow> i = j"
  by (metis append_same_eq option.inject parse_int10_int_str same_append_eq)

lemma demo_fetch:
  "fetch_item demo_site i s =
     (if i = 5 then (Inr (Some demo_story), s)
      else if i = 7 then (Inr None, s\<lparr>cl_world := [NoStory 7] @ cl_world s\<rparr>) else (Inl (Outside ()), s))"
proof -
  have five: "''https://hacker-news.firebaseio.com/v0/item/5.json'' = hn_api_base @ ''/item/'' @ int_str 5 @ ''.json''"
    and seven: "''https://hacker-news.firebaseio.com/v0/item/7.json'' = hn_api_base @ ''/item/'' @ int_str 7 @ ''.json''"
    by code_simp+
  show ?thesis
    unfolding fetch_item_def demo_site_def five seven by (simp only: hn_site.simps demo_item_url)
qed

interpretation demo_hackernews: hackernews_platform demo_env set demo_site NoopEnrichment
  by unfold_locales
    (auto simp: demo_env_def demo_send_def fetch_story_ids_def demo_site_def eff_ret_def demo_fetch [unfolded demo_site_def]
      is_story_def demo_story_def simp del: append.simps split: if_splits intro: demo_others demo_others_refl)

interpretation demo_loop: collector_adapter demo_env demo_adapter set
  unfolding demo_adapter_def by (rule demo_hackernews.polled.collector_adapter_axioms)

subsection \<open>Properties\<close>

text \<open>
  C8. Whatever the number of polls of an adapter, the errors they meet and what the other adapters do meanwhile: an event
  that has become marked as seen has been accepted by Kafka, and no message is lost from what Kafka has accepted.
\<close>

theorem only_published_events_are_seen:
  assumes "collector_adapter env a known" and "run_adapter n env a al s = (r, s')"
  shows "known (cl_world s) \<subseteq> known (cl_world s') \<and>
    (\<forall>i. seen_id (ai_source (ad_info a)) i s' \<longrightarrow> seen_id (ai_source (ad_info a)) i s \<or>
       (\<exists>v. Sent raw_events_topic i v \<in> known (cl_world s')))"
  using collector_adapter.run_advances [OF assms] by (simp add: advance_def)

lemma demo_poll:
  "(let (r, s) = poll_once demo_env demo_adapter demo_allowlist 1000 demo_state
    in (isl r, projr r, cl_shutdown s, cl_world s, checkpoint_of (cl_store s) ''hackernews'' ''last_max_id_new'',
      st_seen (cl_store s))) =
   (False, True, False,
    [Sent ''collector.heartbeat'' ''hackernews'' ''{}'', NoStory 7, Sent ''events.raw'' ''hn:5'' ''{}''],
    Some ''5'', [((''hackernews'', ''hn:5''), 1)])"
  by code_simp

lemma demo_polled:
  "\<exists>s. poll_once demo_env demo_adapter demo_allowlist 1000 demo_state = (Inr True, s) \<and> \<not> cl_shutdown s \<and>
     checkpoint_of (cl_store s) ''hackernews'' (checkpoint_key_of NewMode) = Some ''5'' \<and> seen_id ''hackernews'' ''hn:5'' s"
proof -
  obtain r s where "poll_once demo_env demo_adapter demo_allowlist 1000 demo_state = (r, s)" by fastforce
  with demo_poll show ?thesis
    by (cases r) (auto simp: seen_id_def seen_at_def checkpoint_key_of_def)
qed

lemma only_published_events_are_seen_witness:
  "\<exists>s v. run_adapter 1 demo_env demo_adapter demo_allowlist demo_state = (None, s) \<and>
     seen_id ''hackernews'' ''hn:5'' s \<and> Sent raw_events_topic ''hn:5'' v \<in> set (cl_world s)"
proof -
  obtain s where s: "poll_once demo_env demo_adapter demo_allowlist 1000 demo_state = (Inr True, s)" "\<not> cl_shutdown s"
    "seen_id ''hackernews'' ''hn:5'' s" using demo_polled by blast
  have "(c_now demo_env :: (fact list, unit, int) ceff) demo_state = (Inr 1000, demo_state)"
    by (simp add: c_now_def demo_env_def)
  then have "poll_cycle demo_env demo_adapter demo_allowlist demo_state = (Inr True, s)"
    using s(1) by (simp add: poll_cycle_def eff_bind_def eff_catch_def)
  then have run: "run_adapter 1 demo_env demo_adapter demo_allowlist demo_state = (None, s)"
    using s(2) by (simp add: demo_state_def Let_def)
  have info: "ai_source (ad_info demo_adapter) = ''hackernews''"
    by (simp add: demo_adapter_def create_hackernews_adapter_def hackernews_info_def)
  have "\<not> seen_id ''hackernews'' ''hn:5'' demo_state" by (simp add: demo_state_def seen_id_def seen_at_def Let_def)
  with only_published_events_are_seen [OF demo_loop.collector_adapter_axioms run] s(3) info run show ?thesis by auto
qed



end
