(* ===== verification/Spec2Isabelle.thy ===== *)
theory Spec2Isabelle
  imports Topics Budget Persister Backoff Selection TrendSnapshot QueryMode CollectorHealth HackerNews
begin

text \<open>
  The services of this repository watch news sources. A collector publishes raw events to Kafka
  (\<open>apps/collector\<close>); the persister (\<open>apps/persister\<close>) stores them in Postgres and marks them in Redis; the trends
  service (\<open>apps/trends\<close>) counts topics per time window in Redis and publishes snapshots; the brief service
  (\<open>apps/brief\<close>) answers requests for a written brief, with a language model or without, within a daily budget.
  They share the packages \<open>shared\<close>, \<open>topics\<close> and \<open>pipeline\<close>.

  The language. Theory JsBase holds strings, sets and maps in the order of insertion, JSON values, fallible results
  (a sum with the error on the left) and effects: a function that may throw and changes a state is a function from
  the state to an outcome and a state. JsRegex is a backtracking matcher of regular expressions, proved to agree with
  a relational semantics; JsSort is the stable sort with a comparison function (locale \<open>comparator\<close>, interpreted on
  every order the code sorts by); JsDate is the calendar. EffLogic is a Hoare logic for effects that may throw.
  Numbers of JavaScript that the code does not round are exact integers or rationals.

  Shared packages.
  Topics: \<open>packages/topics/src/topic-extraction.ts\<close>, \<open>apps/trends/src/allowlist.ts\<close> (matchers, relevance rules and
  \<open>extractTopics\<close>; the result does not depend on the order of the topics, and is ranked and bounded).
  Events: \<open>packages/pipeline/src/source.ts\<close>, \<open>raw-event.ts\<close> (sources and the parser of a message).
  Hydration: \<open>hydration/raw-event-enrichment.ts\<close> (what happens to an event before it is stored or counted; the normal
  form of a URL). Transport: \<open>transport/index.ts\<close>, \<open>topic-router.ts\<close> (batches of messages; what is acknowledged has
  been handled). The locale \<open>kafka_payload\<close> there states what is documented of the batches of the Kafka client, and gives
  \<open>batch_consumer\<close> for the object the code makes of one (a \<open>sublocale\<close>); \<open>message_handler\<close> is what a strategy owes.
  Handoff: \<open>briefing-handoff.ts\<close> (what becomes of the evidence that is handed to a brief, and when a request is refused).
  Health, Breaker, Backoff, Lifecycle, UrlSafety: the files of \<open>packages/shared/src/runtime\<close> (histograms and metrics, the
  circuit breaker as a refinement of a machine with three phases, delays and classification of errors, chains of steps
  and start-up with rollback, URLs that may be fetched).

  The collector. Collected: \<open>types.ts\<close>, \<open>serializer.ts\<close> and the schema of \<open>packages/pipeline/src/raw-event.ts\<close> (content in
  normal form, and what the other services read of the message that is published for it). CollectorHealth: \<open>health.ts\<close>.
  Checkpoints: \<open>checkpoint.ts\<close>, two tables with the operations on them, a refinement of functions. Ingestion:
  \<open>ingestion-pipeline.ts\<close>, \<open>collector-ingestion.ts\<close>, \<open>publishing-facade.ts\<close>, the chain of steps an event goes through.
  Collector: \<open>index.ts\<close>, \<open>adapter-error-policy.ts\<close>, the loop of an adapter; the number of its turns is an argument.
  HackerNews: \<open>adapters/hackernews.ts\<close>, \<open>text-enrichment-strategy.ts\<close>. The adapters run concurrently: while a call is awaited
  the others may do what the relation \<open>others_act\<close> allows. The locale \<open>collector_outside\<close> (Ingestion) states what is relied on of
  Kafka, the clock and the database; \<open>collector_adapter\<close> (Collector) adds what the loop relies on of an adapter, and
  \<open>hackernews_platform\<close> (HackerNews) what that adapter relies on of the site, from which \<open>collector_adapter\<close> follows
  for it (a \<open>sublocale\<close>); all are interpreted on a broker and a site in memory. The theorems: an event that was ingested is a
  duplicate, a dead letter or accepted by Kafka; only accepted events become marked as seen, over any number of polls and
  errors; the cursor of the newest stories passes none that has not been dealt with.

  The persister. Persister: \<open>process.ts\<close>, \<open>persist.ts\<close>, \<open>redis.ts\<close>, \<open>deserialize.ts\<close>, \<open>utils.ts\<close>. Its state is the
  breaker, the health and a log of the calls to the outside, which answers each as any function of the log. What a run
  may call is tracked by \<open>makes\<close> and \<open>ensures\<close>; the theorems say that only stored messages are acknowledged, and what
  a batch does while the circuit is open.

  The trends service. TrendWindows: \<open>redis.ts\<close> with its Lua script over the commands of Redis (locale \<open>window_redis\<close>),
  \<open>event-preparation.ts\<close>, \<open>deserialize.ts\<close>. TrendsHealth, ConsumerLag, Trends: \<open>health.ts\<close>, the lag, \<open>process.ts\<close> and
  the heartbeats of the collectors. TrendSnapshot: \<open>snapshot.ts\<close> and the loop in \<open>index.ts\<close>, of which a turn is one step,
  so two turns never overlap. The locale \<open>trends_client\<close> (Trends) gives \<open>message_handler\<close> for the two strategies of the
  service, \<open>snapshot_redis\<close> and \<open>snapshot_services\<close> (TrendSnapshot) state what a snapshot relies on. The theorems: a batch
  acknowledges what its strategy has handled, an event counts once, a new one by its weight, a snapshot that is published
  and stored has the best topics, the latest heartbeat of a collector is kept.

  The brief service. BriefRequest: \<open>deserialize.ts\<close>, \<open>types.ts\<close>. TopicGlob, Selection: \<open>topic-glob.ts\<close>,
  \<open>query-mode-selection.ts\<close>. EvidenceScoring: \<open>evidence-scoring.ts\<close>, \<open>internal-highlight-strategy.ts\<close>. Grounding:
  \<open>grounding-facade.ts\<close>, \<open>grounding-enforcement.ts\<close>. BriefHealth: \<open>health.ts\<close>. Generation: \<open>llm/generation-facade.ts\<close>,
  \<open>result-payload-adapter.ts\<close>. Budget: \<open>budget-ledger.ts\<close>, \<open>budget-mirror.ts\<close>, whose operations are programs over their
  calls of Postgres and Redis, with a sequential run and an interleaved one; the columns of its table round to four
  decimals (\<open>dec4\<close>). Orchestrator: \<open>brief-orchestrator.ts\<close>,
  \<open>failure-handling.ts\<close>, \<open>result-store-facade.ts\<close>, \<open>publishing-facade.ts\<close>, \<open>postgres-health-proxy.ts\<close>, \<open>process.ts\<close>.
  QueryMode: \<open>query-mode-request-facade.ts\<close>.

  The interfaces of the brief service are locales that build on each other: \<open>result_services\<close> (Orchestrator) states
  what the orchestrator relies on of the store, the publisher and the budget, and its triples follow from that;
  \<open>brief_platform\<close> (Platform) states what Prisma, Kafka and the budget governor promise, and provides
  \<open>result_services\<close> for the services the code builds (a \<open>sublocale\<close>); \<open>query_platform\<close> (QueryMode) adds the queries of
  query mode. Both are interpreted on a platform in memory that runs the budget of Budget. The three theorems at the end
  of QueryMode are about the composition of all parts: a request that is processed has been answered, its reservation
  is settled or given back, and a request without topics is resolved into one whose topics have evidence.

  Bounds. Recursion is structural or has a measure. The loops that wait (the persister while a circuit is open, the
  classification of errors with cyclic causes, the removal of suffixes) are functions with a termination proof;
  there is no fuel, except for the number of polls of a waiting loop and of turns of the
  loop of an adapter, which are arguments that the theorems quantify.

  Parameters. Prisma and SQL, Redis, Kafka, \<open>fetch\<close>, the language models, the URL and JSON parsers, schemas, \<open>Date\<close>,
  random numbers and \<open>localeCompare\<close> are arguments; what is relied on of them is a hypothesis or a law of a locale.

  Not modelled. The collector's adapters of feeds and of Lobsters and its fetcher of articles, whose work is the parsing of XML
  and HTML from the network, and its filters of titles; the operator commands of \<open>packages/ops-cli\<close> (arguments, SQL and
  console output); \<open>packages/db\<close>, which calls the generated client; the child process of \<open>llm/codex-cli.ts\<close>;
  configuration, the wiring of the services, HTTP servers, process signals and logging.
\<close>

end
